(* ===== verification/FfnPrelude.thy ===== *)
theory FfnPrelude
  imports Main "HOL-Library.AList"
begin

text \<open>
  The shared vocabulary of the development: Python exceptions as values, stateful
  Python code as functions from a state to a result and the state left behind (an
  exception does not undo the writes made before it), a weakest-precondition calculus
  for such code, and the dictionary operations.  A dictionary whose order the code can
  observe is an association list: \<open>AList.update\<close> keeps the position of an existing key
  and appends a new one, as Python's insertion-ordered \<open>dict\<close> does.
\<close>

named_theorems wp_simps \<open>evaluation rules of the weakest precondition\<close>
named_theorems runs \<open>what a returning run consists of\<close>
named_theorems pres_intros \<open>introduction rules for preserved state predicates\<close>

section \<open>Exceptions\<close>

text \<open>
  The exception classes the modelled code raises or distinguishes.  \<open>OSError\<close> and
  \<open>SubprocessError\<close> stand for themselves and their subclasses, except \<open>TimeoutError\<close>, which is an
  \<open>OSError\<close> of its own; \<open>OtherError\<close> for any further subclass of \<open>Exception\<close> a callee may raise
  (an \<open>sqlite3.Error\<close>); \<open>Interrupt\<close> is a \<open>BaseException\<close> that is not an \<open>Exception\<close>
  (\<open>KeyboardInterrupt\<close>, \<open>SystemExit\<close>), which \<open>except Exception\<close> does not catch.
\<close>

datatype exn =
    ValueError string
  | RuntimeError string
  | KeyError string
  | TypeError string
  | TimeoutError string
  | OSError string
  | SubprocessError string
  | OtherError string
  | Interrupt string

fun is_exception :: "exn \<Rightarrow> bool" where
  "is_exception (Interrupt _) = False"
| "is_exception _ = True"

fun exn_text :: "exn \<Rightarrow> string" where
  "exn_text (ValueError m) = m"
| "exn_text (RuntimeError m) = m"
| "exn_text (KeyError m) = [CHR 0x27] @ m @ [CHR 0x27]"
| "exn_text (TypeError m) = m"
| "exn_text (TimeoutError m) = m"
| "exn_text (OSError m) = m"
| "exn_text (SubprocessError m) = m"
| "exn_text (OtherError m) = m"
| "exn_text (Interrupt m) = m"

text \<open>What \<open>except OSError\<close> catches.\<close>

fun is_os_error :: "exn \<Rightarrow> bool" where
  "is_os_error (OSError _) = True"
| "is_os_error (TimeoutError _) = True"
| "is_os_error _ = False"

section \<open>Stateful code that may raise\<close>

type_synonym ('s, 'a) py = "'s \<Rightarrow> (exn + 'a) \<times> 's"

definition ret :: "'a \<Rightarrow> ('s, 'a) py" where
  "ret x = (\<lambda>s. (Inr x, s))"

definition raise :: "exn \<Rightarrow> ('s, 'a) py" where
  "raise e = (\<lambda>s. (Inl e, s))"

definition bnd :: "('s, 'a) py \<Rightarrow> ('a \<Rightarrow> ('s, 'b) py) \<Rightarrow> ('s, 'b) py" where
  "bnd m f = (\<lambda>s. case m s of (Inl e, s') \<Rightarrow> (Inl e, s') | (Inr x, s') \<Rightarrow> f x s')"

definition thn :: "('s, 'a) py \<Rightarrow> ('s, 'b) py \<Rightarrow> ('s, 'b) py" where
  "thn m k = bnd m (\<lambda>_. k)"

definition gets :: "('s \<Rightarrow> 'a) \<Rightarrow> ('s, 'a) py" where
  "gets f = (\<lambda>s. (Inr (f s), s))"

definition upd :: "('s \<Rightarrow> 's) \<Rightarrow> ('s, unit) py" where
  "upd f = (\<lambda>s. (Inr (), f s))"

text \<open>A pure result, raised or returned; a check that raises when it fails.\<close>

definition lift_res :: "exn + 'a \<Rightarrow> ('s, 'a) py" where
  "lift_res r = (\<lambda>s. (r, s))"

definition ensure :: "bool \<Rightarrow> exn \<Rightarrow> ('s, unit) py" where
  "ensure b e = (\<lambda>s. (if b then Inr () else Inl e, s))"

definition whn :: "bool \<Rightarrow> ('s, unit) py \<Rightarrow> ('s, unit) py" where
  "whn b m = (if b then m else ret ())"

text \<open>\<open>except BaseException\<close> and \<open>except Exception\<close>.\<close>

definition catch_all :: "('s, 'a) py \<Rightarrow> (exn \<Rightarrow> ('s, 'a) py) \<Rightarrow> ('s, 'a) py" where
  "catch_all m h = (\<lambda>s. case m s of (Inl e, s') \<Rightarrow> h e s' | (Inr x, s') \<Rightarrow> (Inr x, s'))"

definition catch_exn :: "('s, 'a) py \<Rightarrow> (exn \<Rightarrow> ('s, 'a) py) \<Rightarrow> ('s, 'a) py" where
  "catch_exn m h = (\<lambda>s. case m s of
      (Inl e, s') \<Rightarrow> if is_exception e then h e s' else (Inl e, s')
    | (Inr x, s') \<Rightarrow> (Inr x, s'))"

text \<open>A \<open>for\<close> loop over a list fixed on entry, and a list comprehension.\<close>

primrec for_each :: "'a list \<Rightarrow> ('a \<Rightarrow> ('s, unit) py) \<Rightarrow> ('s, unit) py" where
  "for_each [] f = ret ()"
| "for_each (x # xs) f = thn (f x) (for_each xs f)"

primrec collect :: "'a list \<Rightarrow> ('a \<Rightarrow> ('s, 'b) py) \<Rightarrow> ('s, 'b list) py" where
  "collect [] f = ret []"
| "collect (x # xs) f = bnd (f x) (\<lambda>y. bnd (collect xs f) (\<lambda>ys. ret (y # ys)))"

text \<open>The same sequencing for code that has no state.\<close>

definition rbnd :: "exn + 'a \<Rightarrow> ('a \<Rightarrow> exn + 'b) \<Rightarrow> exn + 'b" where
  "rbnd r f = (case r of Inl e \<Rightarrow> Inl e | Inr x \<Rightarrow> f x)"

definition rthn :: "exn + 'a \<Rightarrow> exn + 'b \<Rightarrow> exn + 'b" where
  "rthn r k = rbnd r (\<lambda>_. k)"

definition rcheck :: "bool \<Rightarrow> exn \<Rightarrow> exn + unit" where
  "rcheck b e = (if b then Inr () else Inl e)"

primrec rcollect :: "'a list \<Rightarrow> ('a \<Rightarrow> exn + 'b) \<Rightarrow> exn + 'b list" where
  "rcollect [] f = Inr []"
| "rcollect (x # xs) f = rbnd (f x) (\<lambda>y. rbnd (rcollect xs f) (\<lambda>ys. Inr (y # ys)))"

primrec rfor :: "'a list \<Rightarrow> ('a \<Rightarrow> exn + unit) \<Rightarrow> exn + unit" where
  "rfor [] f = Inr ()"
| "rfor (x # xs) f = rthn (f x) (rfor xs f)"

lemma rbnd_simps [simp]:
  "rbnd (Inl e) f = Inl e"
  "rbnd (Inr x) f = f x"
  by (simp_all add: rbnd_def)

lemma rbnd_Inr_iff: "rbnd r f = Inr y \<longleftrightarrow> (\<exists>x. r = Inr x \<and> f x = Inr y)"
  by (cases r) auto

lemma rthn_Inr_iff: "rthn r k = Inr y \<longleftrightarrow> (\<exists>x. r = Inr x) \<and> k = Inr y"
  by (cases r) (auto simp: rthn_def)

lemma rthn_simps [simp]:
  "rthn (Inl e) k = Inl e"
  "rthn (Inr x) k = k"
  by (simp_all add: rthn_def)

lemma rcheck_Inr_iff: "rcheck b e = Inr u \<longleftrightarrow> b"
  by (simp add: rcheck_def)

lemma rcheck_simps [simp]:
  "rcheck True e = Inr ()"
  "rcheck False e = Inl e"
  by (simp_all add: rcheck_def)

lemmas res_iffs = rbnd_Inr_iff rthn_Inr_iff rcheck_Inr_iff

lemma rfor_Inr_iff: "rfor xs f = Inr u \<longleftrightarrow> (\<forall>x \<in> set xs. f x = Inr ())"
  by (induction xs) (auto simp: res_iffs)

lemma rcollect_Inr_iff:
  "rcollect xs f = Inr ys \<longleftrightarrow> list_all2 (\<lambda>x y. f x = Inr y) xs ys"
  by (induction xs arbitrary: ys) (auto simp: res_iffs list_all2_Cons1)

text \<open>Code of one object run on the part of the state that object owns.\<close>

definition zoom :: "('s \<Rightarrow> 't) \<Rightarrow> ('t \<Rightarrow> 's \<Rightarrow> 's) \<Rightarrow> ('t, 'a) py \<Rightarrow> ('s, 'a) py" where
  "zoom get put m = (\<lambda>s. case m (get s) of (r, t) \<Rightarrow> (r, put t s))"

section \<open>Weakest preconditions\<close>

text \<open>
  \<open>wp m Q E s\<close>: run from \<open>s\<close>, the code either returns a value and state satisfying
  \<open>Q\<close>, or raises leaving a state satisfying \<open>E\<close>.
\<close>

definition wp :: "('s, 'a) py \<Rightarrow> ('a \<Rightarrow> 's \<Rightarrow> bool) \<Rightarrow> (exn \<Rightarrow> 's \<Rightarrow> bool) \<Rightarrow> 's \<Rightarrow> bool" where
  "wp m Q E s = (case m s of (Inl e, s') \<Rightarrow> E e s' | (Inr x, s') \<Rightarrow> Q x s')"

lemma wp_ret [wp_simps]: "wp (ret x) Q E s = Q x s"
  by (simp add: wp_def ret_def)

lemma wp_raise [wp_simps]: "wp (raise e) Q E s = E e s"
  by (simp add: wp_def raise_def)

lemma wp_bnd [wp_simps]: "wp (bnd m f) Q E s = wp m (\<lambda>x. wp (f x) Q E) E s"
  by (auto simp: wp_def bnd_def split: prod.splits sum.splits)

lemma wp_thn [wp_simps]: "wp (thn m k) Q E s = wp m (\<lambda>_. wp k Q E) E s"
  by (simp add: thn_def wp_bnd)

lemma wp_gets [wp_simps]: "wp (gets f) Q E s = Q (f s) s"
  by (simp add: wp_def gets_def)

lemma wp_upd [wp_simps]: "wp (upd f) Q E s = Q () (f s)"
  by (simp add: wp_def upd_def)

lemma wp_lift_res [wp_simps]:
  "wp (lift_res r) Q E s = (case r of Inl e \<Rightarrow> E e s | Inr x \<Rightarrow> Q x s)"
  by (simp add: wp_def lift_res_def split: sum.splits)

lemma wp_ensure [wp_simps]: "wp (ensure b e) Q E s = (if b then Q () s else E e s)"
  by (simp add: wp_def ensure_def)

lemma wp_whn [wp_simps]: "wp (whn b m) Q E s = (if b then wp m Q E s else Q () s)"
  by (simp add: whn_def wp_ret)

lemma wp_if [wp_simps]:
  "wp (if b then m else k) Q E s = (if b then wp m Q E s else wp k Q E s)"
  by simp

lemma wp_catch_all [wp_simps]:
  "wp (catch_all m h) Q E s = wp m Q (\<lambda>e. wp (h e) Q E) s"
  by (auto simp: wp_def catch_all_def split: prod.splits sum.splits)

lemma wp_catch_exn [wp_simps]:
  "wp (catch_exn m h) Q E s =
   wp m Q (\<lambda>e s'. if is_exception e then wp (h e) Q E s' else E e s') s"
  by (auto simp: wp_def catch_exn_def split: prod.splits sum.splits)

lemma wp_for_each_Nil [wp_simps]: "wp (for_each [] f) Q E s = Q () s"
  by (simp add: wp_ret)

lemma wp_for_each_Cons [wp_simps]:
  "wp (for_each (x # xs) f) Q E s = wp (f x) (\<lambda>_. wp (for_each xs f) Q E) E s"
  by (simp add: wp_thn)

lemma wp_zoom [wp_simps]:
  "wp (zoom get put m) Q E s = wp m (\<lambda>x t. Q x (put t s)) (\<lambda>e t. E e (put t s)) (get s)"
  by (auto simp: wp_def zoom_def split: prod.splits sum.splits)

lemma wp_option [wp_simps]:
  "wp (case x of None \<Rightarrow> m | Some y \<Rightarrow> k y) Q E s =
   (case x of None \<Rightarrow> wp m Q E s | Some y \<Rightarrow> wp (k y) Q E s)"
  by (simp split: option.split)

lemma wp_prod [wp_simps]:
  "wp (case p of (a, b) \<Rightarrow> m a b) Q E s = (case p of (a, b) \<Rightarrow> wp (m a b) Q E s)"
  by (simp split: prod.split)

lemma wp_mono:
  assumes "wp m Q E s"
    and "\<And>x s'. Q x s' \<Longrightarrow> Q' x s'"
    and "\<And>e s'. E e s' \<Longrightarrow> E' e s'"
  shows "wp m Q' E' s"
  using assms by (auto simp: wp_def split: prod.splits sum.splits)

lemma wp_bndI:
  assumes "wp m P E' s" and "\<And>x s'. P x s' \<Longrightarrow> wp (f x) Q E s'" and "\<And>e s'. E' e s' \<Longrightarrow> E e s'"
  shows "wp (bnd m f) Q E s"
  unfolding wp_bnd by (rule wp_mono [OF assms(1)]) (use assms(2,3) in auto)

lemma wp_thnI:
  assumes "wp m P E' s" and "\<And>x s'. P x s' \<Longrightarrow> wp k Q E s'" and "\<And>e s'. E' e s' \<Longrightarrow> E e s'"
  shows "wp (thn m k) Q E s"
  unfolding wp_thn by (rule wp_mono [OF assms(1)]) (use assms(2,3) in auto)

lemma wp_catch_allI:
  assumes "wp m Q' E' s" and "\<And>x s'. Q' x s' \<Longrightarrow> Q x s'" and "\<And>e s'. E' e s' \<Longrightarrow> wp (h e) Q E s'"
  shows "wp (catch_all m h) Q E s"
  unfolding wp_catch_all by (rule wp_mono [OF assms(1)]) (use assms(2,3) in auto)

text \<open>One step at a time, as introduction rules.\<close>

lemma wp_ensureI: "(b \<Longrightarrow> wp k Q E s) \<Longrightarrow> (\<not> b \<Longrightarrow> E e s) \<Longrightarrow> wp (thn (ensure b e) k) Q E s"
  by (simp add: wp_simps)

lemma wp_getsI: "wp (f (g s)) Q E s \<Longrightarrow> wp (bnd (gets g) f) Q E s"
  by (simp add: wp_simps)

lemma wp_liftI: "(\<And>x. r = Inr x \<Longrightarrow> wp (f x) Q E s) \<Longrightarrow> (\<And>e. r = Inl e \<Longrightarrow> E e s) \<Longrightarrow> wp (bnd (lift_res r) f) Q E s"
  by (auto simp: wp_simps split: sum.split)

lemma wp_lift_thnI: "(\<And>x. r = Inr x \<Longrightarrow> wp k Q E s) \<Longrightarrow> (\<And>e. r = Inl e \<Longrightarrow> E e s) \<Longrightarrow> wp (thn (lift_res r) k) Q E s"
  by (simp add: thn_def wp_liftI)

lemmas wp_steps = wp_ensureI wp_getsI wp_liftI wp_lift_thnI

lemma wp_conj:
  "wp m (\<lambda>x s. Q x s \<and> Q' x s) (\<lambda>e s. E e s \<and> E' e s) s \<longleftrightarrow> wp m Q E s \<and> wp m Q' E' s"
  by (auto simp: wp_def split: prod.splits sum.splits)

lemma wp_True [simp]: "wp m (\<lambda>_ _. True) (\<lambda>_ _. True) s"
  by (simp add: wp_def split: prod.splits sum.splits)

lemma wp_returns: "wp m Q E s \<Longrightarrow> m s = (Inr x, s') \<Longrightarrow> Q x s'"
  by (simp add: wp_def)

lemma wp_raises: "wp m Q E s \<Longrightarrow> m s = (Inl e, s') \<Longrightarrow> E e s'"
  by (simp add: wp_def)

lemma wp_iff:
  "wp m Q E s \<longleftrightarrow> (\<forall>x s'. m s = (Inr x, s') \<longrightarrow> Q x s') \<and> (\<forall>e s'. m s = (Inl e, s') \<longrightarrow> E e s')"
  by (auto simp: wp_def split: prod.splits sum.splits)

lemma wp_effect: "(\<And>x e'. c e = (Inr x, e') \<Longrightarrow> Q x e') \<Longrightarrow> (\<And>x e'. c e = (Inl x, e') \<Longrightarrow> E x e') \<Longrightarrow> wp c Q E e"
  by (simp add: wp_iff)

lemma bnd_lift_res [simp]:
  "bnd (lift_res (Inr x)) f = f x" "bnd (lift_res (Inl e)) f = raise e"
  by (simp_all add: bnd_def lift_res_def raise_def fun_eq_iff)

lemma bnd_ret [simp]: "bnd (ret x) f = f x"
  by (simp add: bnd_def ret_def)

text \<open>The steps of a run that returns.\<close>

lemma runs_basic [runs]:
  "ret x s = (Inr y, s') \<longleftrightarrow> y = x \<and> s' = s"
  "raise e s = (Inr y, s') \<longleftrightarrow> False"
  "gets f s = (Inr y, s') \<longleftrightarrow> y = f s \<and> s' = s"
  "upd g s = (Inr u, s') \<longleftrightarrow> s' = g s"
  "lift_res r s = (Inr y, s') \<longleftrightarrow> r = Inr y \<and> s' = s"
  "ensure b e s = (Inr u, s') \<longleftrightarrow> b \<and> s' = s"
  "whn b m s = (Inr u, s') \<longleftrightarrow> (if b then m s = (Inr u, s') else s' = s)"
  by (auto simp: ret_def raise_def gets_def upd_def lift_res_def ensure_def whn_def)

lemma runs_bnd [runs]:
  "bnd m f s = (Inr y, s') \<longleftrightarrow> (\<exists>x s1. m s = (Inr x, s1) \<and> f x s1 = (Inr y, s'))"
  by (auto simp: bnd_def split: prod.splits sum.splits)

lemma runs_thn [runs]:
  "thn m k s = (Inr y, s') \<longleftrightarrow> (\<exists>x s1. m s = (Inr x, s1) \<and> k s1 = (Inr y, s'))"
  by (simp add: thn_def runs_bnd)

text \<open>The loop rule: an invariant over the elements still to come.\<close>

lemma wp_for_each:
  assumes "I xs s"
    and step: "\<And>y ys s'. I (y # ys) s' \<Longrightarrow> wp (f y) (\<lambda>_. I ys) E s'"
  shows "wp (for_each xs f) (\<lambda>_. I []) E s"
  using assms(1)
proof (induction xs arbitrary: s)
  case Nil
  then show ?case by (simp add: wp_simps)
next
  case (Cons y ys)
  from step [OF Cons.prems] show ?case
    unfolding wp_for_each_Cons by (rule wp_mono) (use Cons.IH in auto)
qed

lemma wp_for_each_const:
  assumes "I s"
    and "\<And>y s'. y \<in> set xs \<Longrightarrow> I s' \<Longrightarrow> wp (f y) (\<lambda>_. I) E s'"
  shows "wp (for_each xs f) (\<lambda>_. I) E s"
  using wp_for_each [of "\<lambda>ys s'. set ys \<subseteq> set xs \<and> I s'" xs s f E] assms
  by (auto intro: wp_mono elim!: wp_mono)

section \<open>Preserved predicates\<close>

definition pres :: "('s \<Rightarrow> bool) \<Rightarrow> ('s, 'a) py \<Rightarrow> bool" where
  "pres I m \<longleftrightarrow> (\<forall>s. I s \<longrightarrow> I (snd (m s)))"

lemma presI: "(\<And>s. I s \<Longrightarrow> I (snd (m s))) \<Longrightarrow> pres I m"
  by (simp add: pres_def)

lemma pres_snd: "pres I m \<Longrightarrow> I s \<Longrightarrow> I (snd (m s))"
  by (simp add: pres_def)

lemma presD: "pres I m \<Longrightarrow> I s \<Longrightarrow> m s = (r, s') \<Longrightarrow> I s'"
  by (metis pres_def snd_conv)

lemma pres_wp: "pres I m \<longleftrightarrow> (\<forall>s. I s \<longrightarrow> wp m (\<lambda>_. I) (\<lambda>_. I) s)"
proof -
  have "I (snd (m s)) \<longleftrightarrow> wp m (\<lambda>_. I) (\<lambda>_. I) s" for s
    by (simp add: wp_def split: prod.split sum.split)
  then show ?thesis by (simp add: pres_def)
qed

lemma wp_pres: "pres I m \<Longrightarrow> I s \<Longrightarrow> wp m (\<lambda>_. I) (\<lambda>_. I) s"
  by (simp add: pres_wp)

lemma pres_ret [pres_intros]: "pres I (ret x)"
  by (simp add: pres_wp wp_simps)

lemma pres_raise [pres_intros]: "pres I (raise e)"
  by (simp add: pres_wp wp_simps)

lemma pres_bnd [pres_intros]: "pres I m \<Longrightarrow> (\<And>x. pres I (f x)) \<Longrightarrow> pres I (bnd m f)"
  by (auto simp: pres_wp wp_simps elim!: wp_mono)

lemma pres_thn [pres_intros]: "pres I m \<Longrightarrow> pres I k \<Longrightarrow> pres I (thn m k)"
  by (auto simp: pres_wp wp_simps elim!: wp_mono)

lemma pres_gets [pres_intros]: "pres I (gets f)"
  by (simp add: pres_wp wp_simps)

lemma pres_lift_res [pres_intros]: "pres I (lift_res r)"
  by (simp add: pres_wp wp_simps split: sum.split)

lemma pres_ensure [pres_intros]: "pres I (ensure b e)"
  by (simp add: pres_wp wp_simps)

lemma pres_whn [pres_intros]: "(b \<Longrightarrow> pres I m) \<Longrightarrow> pres I (whn b m)"
  by (simp add: pres_wp wp_simps)

lemma pres_if [pres_intros]:
  "(b \<Longrightarrow> pres I m) \<Longrightarrow> (\<not> b \<Longrightarrow> pres I k) \<Longrightarrow> pres I (if b then m else k)"
  by simp

lemma pres_option [pres_intros]:
  "pres I m \<Longrightarrow> (\<And>y. x = Some y \<Longrightarrow> pres I (k y)) \<Longrightarrow> pres I (case x of None \<Rightarrow> m | Some y \<Rightarrow> k y)"
  by (simp split: option.split)

lemma pres_prod [pres_intros]:
  "(\<And>a b. pres I (m a b)) \<Longrightarrow> pres I (case p of (a, b) \<Rightarrow> m a b)"
  by (simp split: prod.split)

lemma pres_catch_all [pres_intros]:
  "pres I m \<Longrightarrow> (\<And>e. pres I (h e)) \<Longrightarrow> pres I (catch_all m h)"
  by (auto simp: pres_wp wp_simps elim!: wp_mono)

lemma pres_catch_exn [pres_intros]:
  "pres I m \<Longrightarrow> (\<And>e. pres I (h e)) \<Longrightarrow> pres I (catch_exn m h)"
  by (auto simp: pres_wp wp_simps elim!: wp_mono)

lemma pres_for_each [pres_intros]:
  "(\<And>x. x \<in> set xs \<Longrightarrow> pres I (f x)) \<Longrightarrow> pres I (for_each xs f)"
  by (induction xs) (auto intro: pres_intros)

lemma pres_collect [pres_intros]:
  "(\<And>x. x \<in> set xs \<Longrightarrow> pres I (f x)) \<Longrightarrow> pres I (collect xs f)"
  by (induction xs) (auto intro!: pres_intros)

lemma pres_gets_bnd: "(\<And>s. I s \<Longrightarrow> pres I (k (f s))) \<Longrightarrow> pres I (bnd (gets f) k)"
  by (auto simp: pres_wp wp_simps)

text \<open>A value read first, used in the rest of the same run.\<close>

lemma pres_gets_wp: "(\<And>s. I s \<Longrightarrow> wp (k (f s)) (\<lambda>_. I) (\<lambda>_. I) s) \<Longrightarrow> pres I (bnd (gets f) k)"
  by (simp add: pres_wp wp_simps)

lemma pres_zoom: "(\<And>s t. I s \<Longrightarrow> I (put t s)) \<Longrightarrow> pres I (zoom get put m)"
  by (auto simp: pres_def zoom_def split: prod.split)

lemma pres_upd: "(\<And>s. I s \<Longrightarrow> I (f s)) \<Longrightarrow> pres I (upd f)"
  by (simp add: pres_wp wp_simps)

section \<open>Dictionaries as association lists\<close>

abbreviation dict_get :: "('k \<times> 'v) list \<Rightarrow> 'k \<Rightarrow> 'v option" where
  "dict_get d k \<equiv> map_of d k"

abbreviation dict_keys :: "('k \<times> 'v) list \<Rightarrow> 'k list" where
  "dict_keys d \<equiv> map fst d"

abbreviation dict_set :: "'k \<Rightarrow> 'v \<Rightarrow> ('k \<times> 'v) list \<Rightarrow> ('k \<times> 'v) list" where
  "dict_set \<equiv> AList.update"

abbreviation dict_del :: "'k \<Rightarrow> ('k \<times> 'v) list \<Rightarrow> ('k \<times> 'v) list" where
  "dict_del \<equiv> AList.delete"

text \<open>A key is present once at most; every dictionary operation keeps it so.\<close>

definition dict_ok :: "('k \<times> 'v) list \<Rightarrow> bool" where
  "dict_ok d \<longleftrightarrow> distinct (map fst d)"

lemma dict_ok_Nil [simp]: "dict_ok []"
  by (simp add: dict_ok_def)

lemma dict_ok_set [simp]: "dict_ok d \<Longrightarrow> dict_ok (dict_set k v d)"
  by (simp add: dict_ok_def distinct_update)

lemma dict_ok_del [simp]: "dict_ok d \<Longrightarrow> dict_ok (dict_del k d)"
  by (simp add: dict_ok_def distinct_delete)

lemma dict_get_set [simp]:
  "dict_get (dict_set k v d) k' = (if k' = k then Some v else dict_get d k')"
  by (simp add: update_conv')

lemma dict_get_del [simp]:
  "dict_get (dict_del k d) k' = (if k' = k then None else dict_get d k')"
  by (simp add: delete_conv')

lemma dict_items_get: "dict_ok d \<Longrightarrow> (k, v) \<in> set d \<longleftrightarrow> dict_get d k = Some v"
  unfolding dict_ok_def by (metis map_of_SomeD map_of_is_SomeI)

lemma dict_get_None: "dict_get d k = None \<longleftrightarrow> k \<notin> set (dict_keys d)"
  by (simp add: map_of_eq_None_iff)

lemma dict_keys_get: "k \<in> set (dict_keys d) \<longleftrightarrow> (\<exists>v. dict_get d k = Some v)"
  using dict_get_None [of d k] by auto

lemma dict_empty_iff: "d = [] \<longleftrightarrow> (\<forall>k. dict_get d k = None)"
proof (cases d)
  case (Cons x xs)
  then have "dict_get d (fst x) = Some (snd x)" by (cases x) simp
  with Cons show ?thesis by (metis list.distinct(1) option.distinct(1))
qed simp

text \<open>Some entry of a dictionary satisfies \<open>P\<close>.\<close>

definition dict_any :: "('k \<Rightarrow> 'v \<Rightarrow> bool) \<Rightarrow> ('k \<times> 'v) list \<Rightarrow> bool" where
  "dict_any P d = list_ex (\<lambda>k. case dict_get d k of None \<Rightarrow> False | Some v \<Rightarrow> P k v) (dict_keys d)"

lemma dict_any_iff: "dict_any P d \<longleftrightarrow> (\<exists>k v. dict_get d k = Some v \<and> P k v)"
proof -
  have "k \<in> set (dict_keys d)" if "dict_get d k = Some v" for k v
    using that dict_keys_get [of k d] by blast
  then show ?thesis
    unfolding dict_any_def list_ex_iff by (fastforce split: option.splits)
qed

text \<open>
  A table with an integer primary key, kept in key order as SQLite stores and scans it:
  \<open>INSERT OR REPLACE\<close>; \<open>DELETE ... WHERE id = k\<close> is \<open>dict_del\<close>.
\<close>

fun row_put :: "int \<Rightarrow> 'v \<Rightarrow> (int \<times> 'v) list \<Rightarrow> (int \<times> 'v) list" where
  "row_put k v [] = [(k, v)]"
| "row_put k v ((j, w) # t) =
     (if k < j then (k, v) # (j, w) # t
      else if k = j then (k, v) # t
      else (j, w) # row_put k v t)"

lemma row_get_put [simp]:
  "dict_get (row_put k v t) k' = (if k' = k then Some v else dict_get t k')"
  by (induction k v t rule: row_put.induct) auto

lemma row_put_keys: "set (dict_keys (row_put k v t)) = insert k (set (dict_keys t))"
  by (induction k v t rule: row_put.induct) auto

lemma row_put_sorted:
  "sorted (dict_keys t) \<and> dict_ok t \<Longrightarrow> sorted (dict_keys (row_put k v t)) \<and> dict_ok (row_put k v t)"
proof (induction k v t rule: row_put.induct)
  case (2 k v j w t)
  then show ?case
    by (auto simp: dict_ok_def row_put_keys simp flip: set_map)
qed (simp_all add: dict_ok_def)

lemma row_del_sorted:
  "sorted (dict_keys t) \<and> dict_ok t \<Longrightarrow> sorted (dict_keys (dict_del k t)) \<and> dict_ok (dict_del k t)"
  using dict_ok_del [of t k] by (simp add: AList.delete_eq sorted_filter)

end
