(* ===== verification/PyVal.thy ===== *)
theory PyVal
  imports Complex_Main FfnPrelude "HOL-Library.Code_Target_Nat"
begin

text \<open>
  The dynamic values the code receives from JSON (requests, plans, stream frames) and
  tests with \<open>isinstance\<close>, \<open>type(v) is int\<close>, \<open>set(v) == {...}\<close> before it trusts them.
  A dictionary has string keys.  A float is a rational, an infinity or not-a-number;
  float rounding is not modelled.  A string is a list of characters with codes below 256.
\<close>

datatype pyfloat = Finite rat | Infinite bool | NaN

datatype pyval =
    PNone
  | PBool bool
  | PInt int
  | PFloat pyfloat
  | PStr string
  | PList "pyval list"
  | PDict "(string \<times> pyval) list"

section \<open>Type tests and truth\<close>

fun is_int :: "pyval \<Rightarrow> bool" where
  "is_int (PInt _) = True"
| "is_int _ = False"

fun is_bool :: "pyval \<Rightarrow> bool" where
  "is_bool (PBool _) = True"
| "is_bool _ = False"

fun is_str :: "pyval \<Rightarrow> bool" where
  "is_str (PStr _) = True"
| "is_str _ = False"

fun is_list :: "pyval \<Rightarrow> bool" where
  "is_list (PList _) = True"
| "is_list _ = False"

fun is_dict :: "pyval \<Rightarrow> bool" where
  "is_dict (PDict _) = True"
| "is_dict _ = False"

fun truthy :: "pyval \<Rightarrow> bool" where
  "truthy PNone = False"
| "truthy (PBool b) = b"
| "truthy (PInt i) = (i \<noteq> 0)"
| "truthy (PFloat f) = (f \<noteq> Finite 0)"
| "truthy (PStr s) = (s \<noteq> [])"
| "truthy (PList xs) = (xs \<noteq> [])"
| "truthy (PDict d) = (d \<noteq> [])"

text \<open>\<open>v or w\<close>.\<close>

definition py_or :: "pyval \<Rightarrow> pyval \<Rightarrow> pyval" where
  "py_or v w = (if truthy v then v else w)"

fun the_int :: "pyval \<Rightarrow> int" where
  "the_int (PInt i) = i"
| "the_int (PBool b) = (if b then 1 else 0)"
| "the_int _ = 0"

fun the_str :: "pyval \<Rightarrow> string" where
  "the_str (PStr s) = s"
| "the_str _ = []"

fun the_list :: "pyval \<Rightarrow> pyval list" where
  "the_list (PList xs) = xs"
| "the_list _ = []"

fun the_dict :: "pyval \<Rightarrow> (string \<times> pyval) list" where
  "the_dict (PDict d) = d"
| "the_dict _ = []"

section \<open>Equality\<close>

text \<open>
  Python's \<open>==\<close>: numbers and booleans compare by value across their types, dictionaries
  without regard to order.
\<close>

fun num_of :: "pyval \<Rightarrow> pyfloat option" where
  "num_of (PBool b) = Some (Finite (if b then 1 else 0))"
| "num_of (PInt i) = Some (Finite (of_int i))"
| "num_of (PFloat f) = Some f"
| "num_of _ = None"

definition num_eq :: "pyval \<Rightarrow> pyval \<Rightarrow> bool" where
  "num_eq v w = (case (num_of v, num_of w) of
      (Some a, Some b) \<Rightarrow> a \<noteq> NaN \<and> a = b
    | _ \<Rightarrow> False)"

fun py_eq :: "pyval \<Rightarrow> pyval \<Rightarrow> bool"
  and py_eq_list :: "pyval list \<Rightarrow> pyval list \<Rightarrow> bool"
  and py_eq_items :: "(string \<times> pyval) list \<Rightarrow> (string \<times> pyval) list \<Rightarrow> bool" where
  "py_eq PNone w = (w = PNone)"
| "py_eq (PStr a) w = (w = PStr a)"
| "py_eq (PList xs) w = (case w of PList ys \<Rightarrow> py_eq_list xs ys | _ \<Rightarrow> False)"
| "py_eq (PDict xs) w =
     (case w of PDict ys \<Rightarrow> length xs = length ys \<and> py_eq_items xs ys | _ \<Rightarrow> False)"
| "py_eq (PBool b) w = num_eq (PBool b) w"
| "py_eq (PInt i) w = num_eq (PInt i) w"
| "py_eq (PFloat f) w = num_eq (PFloat f) w"
| "py_eq_list [] ys = (ys = [])"
| "py_eq_list (x # xs) ys = (case ys of [] \<Rightarrow> False | y # ys' \<Rightarrow> py_eq x y \<and> py_eq_list xs ys')"
| "py_eq_items [] ys = True"
| "py_eq_items ((k, v) # xs) ys =
     (case map_of ys k of None \<Rightarrow> False | Some w \<Rightarrow> py_eq v w \<and> py_eq_items xs ys)"

lemma num_eq_simps [simp]:
  "num_eq (PInt a) (PInt b) \<longleftrightarrow> a = b"
  "num_eq (PInt a) (PFloat (Finite q)) \<longleftrightarrow> q = of_int a"
  "num_eq (PBool c) (PBool d) \<longleftrightarrow> c = d"
  "num_eq (PInt a) (PBool c) \<longleftrightarrow> a = (if c then 1 else 0)"
  "num_eq (PBool c) (PInt a) \<longleftrightarrow> a = (if c then 1 else 0)"
  "\<not> num_eq v PNone" "\<not> num_eq v (PStr s)" "\<not> num_eq v (PList xs)" "\<not> num_eq v (PDict kvs)"
  by (auto simp: num_eq_def split: option.splits)

lemma py_eq_str_right [simp]: "py_eq v (PStr s) \<longleftrightarrow> v = PStr s"
  by (cases v) (auto split: option.splits)

lemma py_eq_none_right [simp]: "py_eq v PNone \<longleftrightarrow> v = PNone"
  by (cases v) (auto split: option.splits)

section \<open>Dictionary access\<close>

text \<open>\<open>d[k]\<close>, \<open>d.get(k)\<close>, and the test that the keys are exactly the given ones.\<close>

definition py_item :: "pyval \<Rightarrow> string \<Rightarrow> exn + pyval" where
  "py_item d k = (case d of
      PDict kvs \<Rightarrow> (case map_of kvs k of None \<Rightarrow> Inl (KeyError k) | Some v \<Rightarrow> Inr v)
    | _ \<Rightarrow> Inl (TypeError ''not subscriptable by a string''))"

definition py_get :: "pyval \<Rightarrow> string \<Rightarrow> pyval" where
  "py_get d k = (case map_of (the_dict d) k of None \<Rightarrow> PNone | Some v \<Rightarrow> v)"

definition has_key :: "pyval \<Rightarrow> string \<Rightarrow> bool" where
  "has_key d k \<longleftrightarrow> k \<in> set (map fst (the_dict d))"

definition keys_are :: "pyval \<Rightarrow> string list \<Rightarrow> bool" where
  "keys_are d ks \<longleftrightarrow> is_dict d \<and> set (map fst (the_dict d)) = set ks"

text \<open>\<open>set(v) == ks\<close> for a value of any type.\<close>

definition set_is :: "pyval \<Rightarrow> string list \<Rightarrow> exn + bool" where
  "set_is v ks = (case v of
      PDict d \<Rightarrow> Inr (set (dict_keys d) = set ks)
    | PStr s \<Rightarrow> Inr (set (map (\<lambda>c. [c]) s) = set ks)
    | PList xs \<Rightarrow> if list_ex (\<lambda>x. is_list x \<or> is_dict x) xs then Inl (TypeError ''unhashable type'')
                   else Inr (set xs = set (map PStr ks))
    | _ \<Rightarrow> Inl (TypeError ''object is not iterable''))"

text \<open>The values a \<open>for\<close> loop takes from \<open>v\<close>.\<close>

definition py_iter :: "pyval \<Rightarrow> exn + pyval list" where
  "py_iter v = (case v of
      PList xs \<Rightarrow> Inr xs
    | PStr s \<Rightarrow> Inr (map (\<lambda>c. PStr [c]) s)
    | PDict d \<Rightarrow> Inr (map (\<lambda>(k, _). PStr k) d)
    | _ \<Rightarrow> Inl (TypeError ''object is not iterable''))"

lemma py_item_get: "is_dict d \<Longrightarrow> has_key d k \<Longrightarrow> py_item d k = Inr (py_get d k)"
proof (cases d)
  case (PDict kvs)
  assume "has_key d k"
  then have "k \<in> set (dict_keys kvs)"
    using PDict by (simp add: has_key_def)
  then obtain v where "map_of kvs k = Some v"
    using dict_keys_get [of k kvs] by blast
  then show ?thesis
    using PDict by (simp add: py_item_def py_get_def)
qed auto

lemma keys_are_item: "keys_are d ks \<Longrightarrow> k \<in> set ks \<Longrightarrow> py_item d k = Inr (py_get d k)"
  by (simp add: keys_are_def has_key_def py_item_get)

section \<open>Number and string formats\<close>

text \<open>\<open>uint(value, bits, name)\<close> of \<open>ffn_fe100_sessions.py\<close>.\<close>

definition uint_arg :: "pyval \<Rightarrow> nat \<Rightarrow> string \<Rightarrow> exn + int" where
  "uint_arg v bits name =
     (if is_int v \<and> 0 \<le> the_int v \<and> the_int v < 2 ^ bits
      then Inr (the_int v) else Inl (ValueError (''invalid '' @ name)))"

lemma uint_arg_Inr_iff:
  "uint_arg v bits name = Inr i \<longleftrightarrow> v = PInt i \<and> 0 \<le> i \<and> i < 2 ^ bits"
  by (cases v) (auto simp: uint_arg_def)

definition int_in :: "pyval \<Rightarrow> int \<Rightarrow> int \<Rightarrow> bool" where
  "int_in v low high \<longleftrightarrow> is_int v \<and> low \<le> the_int v \<and> the_int v \<le> high"

definition hexdigits :: string where
  "hexdigits = ''0123456789abcdef''"

text \<open>A SHA-256 digest in lower-case hexadecimal.\<close>

definition sha_text :: "string \<Rightarrow> bool" where
  "sha_text s \<longleftrightarrow> length s = 64 \<and> list_all (\<lambda>c. c \<in> set hexdigits) s"

definition is_sha :: "pyval \<Rightarrow> bool" where
  "is_sha v \<longleftrightarrow> is_str v \<and> sha_text (the_str v)"

text \<open>
  \<open>str(uuid.UUID(v)) == v\<close> holds exactly for the 36-character canonical form; any other
  string either makes \<open>uuid.UUID\<close> raise or differs from its canonical form.
\<close>

definition uuid_text :: "string \<Rightarrow> bool" where
  "uuid_text s \<longleftrightarrow> length s = 36 \<and>
     list_all (\<lambda>(i, c). if i \<in> {8, 13, 18, 23} then c = CHR ''-'' else c \<in> set hexdigits)
       (zip [0..<36] s)"

definition is_uuid :: "pyval \<Rightarrow> bool" where
  "is_uuid v \<longleftrightarrow> is_str v \<and> uuid_text (the_str v)"

definition digits :: string where
  "digits = ''0123456789''"

definition digit_val :: "char \<Rightarrow> nat" where
  "digit_val c = of_char c - 48"

definition dec_val :: "string \<Rightarrow> nat" where
  "dec_val s = foldl (\<lambda>a c. 10 * a + digit_val c) 0 s"

text \<open>
  \<open>s.isascii() and s.isdigit() and int(s) > 0\<close>; \<open>int\<close> refuses more than 4300 digits.
\<close>

definition positive_decimal :: "pyval \<Rightarrow> bool" where
  "positive_decimal v \<longleftrightarrow> is_str v \<and> the_str v \<noteq> [] \<and> length (the_str v) \<le> 4300 \<and>
     list_all (\<lambda>c. c \<in> set digits) (the_str v) \<and> 0 < dec_val (the_str v)"

text \<open>A number the code accepts as a time: an int or a finite float.\<close>

definition finite_num :: "pyval \<Rightarrow> rat option" where
  "finite_num v = (case v of
      PInt i \<Rightarrow> Some (of_int i)
    | PFloat (Finite q) \<Rightarrow> Some q
    | _ \<Rightarrow> None)"

end
