(* ===== verification/Octets.thy ===== *)
theory Octets
  imports PyVal "HOL-Library.Word"
begin

unbundle bit_operations_syntax

text \<open>
  Byte strings and the textual forms the code converts them to and from: big-endian
  integers (\<open>int.from_bytes(b, 'big')\<close>, \<open>struct.pack('!...')\<close>), hexadecimal
  (\<open>bytes.hex\<close>, \<open>bytes.fromhex\<close>), dotted IPv4 addresses (\<open>ipaddress.IPv4Address\<close>)
  and Ethernet addresses.
\<close>

type_synonym byte = "8 word"
type_synonym bytes = "byte list"

section \<open>Big-endian integers\<close>

primrec to_be :: "nat \<Rightarrow> nat \<Rightarrow> bytes" where
  "to_be 0 v = []"
| "to_be (Suc n) v = to_be n (v div 256) @ [of_nat (v mod 256)]"

definition from_be :: "bytes \<Rightarrow> nat" where
  "from_be bs = foldl (\<lambda>a b. 256 * a + unat b) 0 bs"

lemma length_to_be [simp]: "length (to_be n v) = n"
  by (induction n arbitrary: v) auto

lemma to_be_numeral:
  "to_be (numeral k) v = to_be (pred_numeral k) (v div 256) @ [of_nat (v mod 256)]"
  by (subst numeral_eq_Suc) (rule to_be.simps(2))

lemma from_be_Nil [simp]: "from_be [] = 0"
  by (simp add: from_be_def)

lemma from_be_snoc [simp]: "from_be (bs @ [b]) = 256 * from_be bs + unat b"
  by (simp add: from_be_def)

lemma unat_byte_less: "unat (b :: byte) < 256"
proof -
  have "unat b < 2 ^ LENGTH(8)" by (rule unsigned_less)
  then show ?thesis by simp
qed

lemma unat_of_nat_byte: "v < 256 \<Longrightarrow> unat (of_nat v :: byte) = v"
  by (simp add: unsigned_of_nat take_bit_nat_eq_self)

lemma from_be_to_be: "v < 256 ^ n \<Longrightarrow> from_be (to_be n v) = v"
proof (induction n arbitrary: v)
  case 0
  then show ?case by simp
next
  case (Suc n)
  then have "v div 256 < 256 ^ n"
    by (simp add: less_mult_imp_div_less mult.commute)
  with Suc.IH show ?case by (simp add: unat_of_nat_byte)
qed

lemma from_be_less: "from_be bs < 256 ^ length bs"
proof (induction bs rule: rev_induct)
  case Nil
  then show ?case by simp
next
  case (snoc b bs)
  have "unat b < 256" by (rule unat_byte_less)
  with snoc show ?case by simp
qed

lemma to_be_from_be: "length bs = n \<Longrightarrow> to_be n (from_be bs) = bs"
proof (induction bs arbitrary: n rule: rev_induct)
  case Nil
  then show ?case by simp
next
  case (snoc b bs)
  then obtain m where n: "n = Suc m" "length bs = m" by auto
  have "(256 * from_be bs + unat b) div 256 = from_be bs"
    and "(256 * from_be bs + unat b) mod 256 = unat b"
    using unat_byte_less [of b] by simp_all
  with snoc.IH [OF n(2)] show ?case by (simp add: n(1))
qed

lemma to_be_inject: "a < 256 ^ n \<Longrightarrow> b < 256 ^ n \<Longrightarrow> to_be n a = to_be n b \<longleftrightarrow> a = b"
  by (metis from_be_to_be)

text \<open>\<open>bs[i:j]\<close>.\<close>

definition slice :: "nat \<Rightarrow> nat \<Rightarrow> 'a list \<Rightarrow> 'a list" where
  "slice i j bs = take (j - i) (drop i bs)"

lemma length_slice: "j \<le> length bs \<Longrightarrow> length (slice i j bs) = j - i"
  by (simp add: slice_def)

lemma take_slice: "i \<le> j \<Longrightarrow> take i bs @ slice i j bs = take j bs"
  by (simp add: slice_def flip: take_add)

section \<open>Hexadecimal\<close>

definition hex_char :: "nat \<Rightarrow> char" where
  "hex_char n = hexdigits ! n"

definition hex_val :: "char \<Rightarrow> nat option" where
  "hex_val c = (let n = of_char c :: nat in
     if 48 \<le> n \<and> n \<le> 57 then Some (n - 48)
     else if 97 \<le> n \<and> n \<le> 102 then Some (n - 87)
     else if 65 \<le> n \<and> n \<le> 70 then Some (n - 55)
     else None)"

definition byte_hex :: "byte \<Rightarrow> string" where
  "byte_hex b = [hex_char (unat b div 16), hex_char (unat b mod 16)]"

definition to_hex :: "bytes \<Rightarrow> string" where
  "to_hex bs = concat (map byte_hex bs)"

text \<open>\<open>bytes.fromhex\<close>: pairs of hexadecimal digits, white space allowed between pairs.\<close>

definition hex_space :: "char \<Rightarrow> bool" where
  "hex_space c \<longleftrightarrow> (of_char c :: nat) \<in> {9, 10, 11, 12, 13, 32}"

fun from_hex :: "string \<Rightarrow> bytes option" where
  "from_hex [] = Some []"
| "from_hex [c] = (if hex_space c then Some [] else None)"
| "from_hex (c # d # cs) =
     (if hex_space c then from_hex (d # cs)
      else case (hex_val c, hex_val d) of
        (Some a, Some b) \<Rightarrow> map_option ((#) (of_nat (16 * a + b))) (from_hex cs)
      | _ \<Rightarrow> None)"

lemma hex_char_val: "n < 16 \<Longrightarrow> hex_val (hex_char n) = Some n \<and> \<not> hex_space (hex_char n)"
proof -
  assume "n < 16"
  then have "n \<in> set [0..<16]" by simp
  moreover have "list_all (\<lambda>n. hex_val (hex_char n) = Some n \<and> \<not> hex_space (hex_char n)) [0..<16]"
    by code_simp
  ultimately show ?thesis by (simp only: list_all_iff) blast
qed

lemma from_hex_byte: "from_hex (byte_hex b @ cs) = map_option ((#) b) (from_hex cs)"
proof -
  have "unat b div 16 < 16" "unat b mod 16 < 16"
    using unat_byte_less [of b] by auto
  moreover have "16 * (unat b div 16) + unat b mod 16 = unat b" by simp
  ultimately show ?thesis
    by (simp add: byte_hex_def hex_char_val del: of_nat_add of_nat_mult)
qed

lemma from_hex_to_hex [simp]: "from_hex (to_hex bs) = Some bs"
  by (induction bs) (simp_all add: to_hex_def from_hex_byte)

lemma length_to_hex [simp]: "length (to_hex bs) = 2 * length bs"
  by (induction bs) (simp_all add: to_hex_def byte_hex_def)

lemma hex_char_digit: "n < 16 \<Longrightarrow> hex_char n \<in> set hexdigits"
  by (simp add: hex_char_def hexdigits_def nth_mem [of n hexdigits, unfolded hexdigits_def, simplified]
      del: nth_Cons_numeral)

lemma sha_text_to_hex: "length bs = 32 \<Longrightarrow> sha_text (to_hex bs)"
proof -
  assume "length bs = 32"
  moreover have "list_all (\<lambda>c. c \<in> set hexdigits) (to_hex bs)"
  proof (induction bs)
    case Nil
    then show ?case by (simp add: to_hex_def)
  next
    case (Cons b bs)
    have "unat b div 16 < 16" "unat b mod 16 < 16"
      using unat_byte_less [of b] by auto
    with Cons show ?case by (simp add: to_hex_def byte_hex_def hex_char_digit)
  qed
  ultimately show ?thesis by (simp add: sha_text_def)
qed

section \<open>Decimal numbers\<close>

definition dec_char :: "nat \<Rightarrow> char" where
  "dec_char n = digits ! n"

fun dec_nat :: "nat \<Rightarrow> string" where
  "dec_nat n = (if n < 10 then [dec_char n] else dec_nat (n div 10) @ [dec_char (n mod 10)])"

declare dec_nat.simps [simp del]

definition dec_int :: "int \<Rightarrow> string" where
  "dec_int i = (if i < 0 then CHR ''-'' # dec_nat (nat (- i)) else dec_nat (nat i))"

section \<open>IPv4 addresses\<close>

text \<open>\<open>str.split('.')\<close>.\<close>

fun split_on :: "char \<Rightarrow> string \<Rightarrow> string list" where
  "split_on c [] = [[]]"
| "split_on c (x # xs) =
     (if x = c then [] # split_on c xs
      else case split_on c xs of [] \<Rightarrow> [[x]] | y # ys \<Rightarrow> (x # y) # ys)"

text \<open>
  An octet of \<open>ipaddress\<close>: one to three ASCII digits, no leading zero, at most 255.
\<close>

definition parse_octet :: "string \<Rightarrow> nat option" where
  "parse_octet s =
     (if s = [] \<or> length s > 3 \<or> \<not> list_all (\<lambda>c. c \<in> set digits) s \<or>
         (s \<noteq> ''0'' \<and> hd s = CHR ''0'') \<or> dec_val s > 255
      then None else Some (dec_val s))"

definition ipv4_parse :: "string \<Rightarrow> bytes option" where
  "ipv4_parse s = (case map parse_octet (split_on (CHR ''.'') s) of
      [Some a, Some b, Some c, Some d] \<Rightarrow> Some (map of_nat [a, b, c, d])
    | _ \<Rightarrow> None)"

fun join :: "string \<Rightarrow> string list \<Rightarrow> string" where
  "join sep [] = []"
| "join sep [x] = x"
| "join sep (x # y # ys) = x @ sep @ join sep (y # ys)"

text \<open>\<open>str(ipaddress.IPv4Address(packed))\<close>.\<close>

definition ipv4_str :: "bytes \<Rightarrow> string" where
  "ipv4_str bs = join ''.'' (map (\<lambda>b. dec_nat (unat b)) bs)"

text \<open>
  \<open>ipaddress.IPv4Address(v).packed\<close>: a string is parsed, an int (a bool is one) is the
  address itself; the text of any other value is no dotted quad, so a \<open>ValueError\<close>.
\<close>

definition ipv4_of :: "pyval \<Rightarrow> exn + bytes" where
  "ipv4_of v = (case v of
      PStr s \<Rightarrow> (case ipv4_parse s of
          Some bs \<Rightarrow> Inr bs | None \<Rightarrow> Inl (ValueError ''invalid IPv4 address''))
    | PInt i \<Rightarrow> if 0 \<le> i \<and> i < 2 ^ 32 then Inr (to_be 4 (nat i))
        else Inl (ValueError ''invalid IPv4 address'')
    | PBool b \<Rightarrow> Inr (to_be 4 (if b then 1 else 0))
    | _ \<Rightarrow> Inl (ValueError ''invalid IPv4 address''))"

definition is_multicast :: "bytes \<Rightarrow> bool" where
  "is_multicast a \<longleftrightarrow> 224 \<le> unat (hd a) \<and> unat (hd a) \<le> 239"

definition is_unspecified :: "bytes \<Rightarrow> bool" where
  "is_unspecified a \<longleftrightarrow> a = [0, 0, 0, 0]"

lemma split_on_nonempty: "split_on c s \<noteq> []"
  by (induction s) (auto split: list.split)

lemma split_on_append:
  "c \<notin> set xs \<Longrightarrow> split_on c (xs @ c # ys) = xs # split_on c ys"
  by (induction xs) (auto split: list.split)

lemma split_on_single: "c \<notin> set xs \<Longrightarrow> split_on c xs = [xs]"
  by (induction xs) auto

lemma dec_char_digit:
  "d < 10 \<Longrightarrow> digit_val (dec_char d) = d \<and> dec_char d \<in> set digits \<and> (dec_char d = CHR ''0'' \<longleftrightarrow> d = 0)"
proof -
  assume "d < 10"
  then have "d \<in> set [0..<10]" by simp
  moreover have "list_all (\<lambda>d. digit_val (dec_char d) = d \<and> dec_char d \<in> set digits \<and>
      (dec_char d = CHR ''0'' \<longleftrightarrow> d = 0)) [0..<10]"
    by code_simp
  ultimately show ?thesis by (simp only: list_all_iff)
qed

lemma dec_val_snoc: "dec_val (s @ [c]) = 10 * dec_val s + digit_val c"
  by (simp add: dec_val_def)

lemma dec_nat_small: "n < 10 \<Longrightarrow> dec_nat n = [dec_char n]"
  by (subst dec_nat.simps) simp

lemma dec_nat_big: "10 \<le> n \<Longrightarrow> dec_nat n = dec_nat (n div 10) @ [dec_char (n mod 10)]"
  by (subst dec_nat.simps) simp

lemma dec_nat_cases:
  assumes "\<And>n. n < 10 \<Longrightarrow> P n" and "\<And>n. 10 \<le> n \<Longrightarrow> P (n div 10) \<Longrightarrow> P n"
  shows "P (n :: nat)"
proof (induction n rule: less_induct)
  case (less n)
  show ?case
  proof (cases "n < 10")
    case True
    then show ?thesis by (rule assms(1))
  next
    case False
    then have "n div 10 < n" by simp
    then have "P (n div 10)" by (rule less)
    with False show ?thesis by (simp add: assms(2))
  qed
qed

lemma dec_val_dec_nat [simp]: "dec_val (dec_nat n) = n"
proof (induction n rule: dec_nat_cases)
  case (1 n)
  then show ?case by (simp add: dec_nat_small dec_val_def dec_char_digit)
next
  case (2 n)
  then show ?case by (simp add: dec_nat_big dec_val_snoc dec_char_digit)
qed

lemma dec_nat_digits: "list_all (\<lambda>c. c \<in> set digits) (dec_nat n)"
  by (induction n rule: dec_nat_cases) (simp_all add: dec_nat_small dec_nat_big dec_char_digit)

lemma dec_nat_nonempty [simp]: "dec_nat n \<noteq> []"
  by (induction n rule: dec_nat_cases) (simp_all add: dec_nat_small dec_nat_big)

lemma dec_nat_hd: "hd (dec_nat n) = CHR ''0'' \<Longrightarrow> n = 0"
proof (induction n rule: dec_nat_cases)
  case (1 n)
  then show ?case by (simp add: dec_nat_small dec_char_digit)
next
  case (2 n)
  have "hd (dec_nat (n div 10)) = CHR ''0''"
    using 2 by (simp add: dec_nat_big [of n])
  then have "n div 10 = 0" by (rule 2)
  with 2 show ?case by simp
qed

lemma length_dec_nat: "n < 1000 \<Longrightarrow> length (dec_nat n) \<le> 3"
  by (cases "n < 10"; cases "n < 100") (simp_all add: dec_nat_small dec_nat_big)

lemma octet_text: "n < 256 \<Longrightarrow> parse_octet (dec_nat n) = Some n \<and> CHR ''.'' \<notin> set (dec_nat n)"
proof -
  assume n: "n < 256"
  have "CHR ''.'' \<notin> set digits" by (simp add: digits_def)
  then have "CHR ''.'' \<notin> set (dec_nat n)"
    using dec_nat_digits [of n] by (auto simp: list_all_iff)
  moreover have "hd (dec_nat n) = CHR ''0'' \<Longrightarrow> dec_nat n = ''0''"
    using dec_nat_hd [of n] by (simp add: dec_nat_small dec_char_def digits_def)
  moreover have "length (dec_nat n) \<le> 3" using n by (simp add: length_dec_nat)
  ultimately show ?thesis
    unfolding parse_octet_def using n dec_nat_digits [of n] by (subst if_not_P) auto
qed

lemma ipv4_parse_str: "length bs = 4 \<Longrightarrow> ipv4_parse (ipv4_str bs) = Some bs"
proof -
  assume "length bs = 4"
  then obtain a b c d where bs: "bs = [a, b, c, d]"
    by (auto simp: numeral_eq_Suc length_Suc_conv)
  have o: "parse_octet (dec_nat (unat x)) = Some (unat x)" "CHR ''.'' \<notin> set (dec_nat (unat x))"
    for x :: byte using octet_text [OF unat_byte_less [of x]] by auto
  have "split_on (CHR ''.'') (ipv4_str bs) = map (\<lambda>x. dec_nat (unat x)) bs"
    by (simp add: ipv4_str_def bs split_on_append split_on_single o)
  then show ?thesis by (simp add: ipv4_parse_def bs o)
qed

lemma length_ipv4_parse: "ipv4_parse s = Some bs \<Longrightarrow> length bs = 4"
  by (auto simp: ipv4_parse_def split: list.splits option.splits)

lemma length_ipv4_of: "ipv4_of v = Inr bs \<Longrightarrow> length bs = 4"
  by (auto simp: ipv4_of_def length_ipv4_parse split: pyval.splits option.splits if_splits)

section \<open>Ethernet addresses\<close>

text \<open>\<open>bytes.fromhex(mac.replace(':', ''))\<close>; a value that is not a string has no \<open>replace\<close>.\<close>

definition mac_raw :: "pyval \<Rightarrow> exn + bytes" where
  "mac_raw v = (case v of
      PStr s \<Rightarrow> (case from_hex (filter (\<lambda>c. c \<noteq> CHR '':'') s) of
          Some bs \<Rightarrow> Inr bs | None \<Rightarrow> Inl (ValueError ''non-hexadecimal number found''))
    | _ \<Rightarrow> Inl (OtherError ''AttributeError''))"

definition unicast_mac :: "bytes \<Rightarrow> bool" where
  "unicast_mac raw \<longleftrightarrow> raw \<noteq> [] \<and> list_ex (\<lambda>b. b \<noteq> 0) raw \<and> even (unat (hd raw))"

end
