(* ===== verification/Digest.thy ===== *)
theory Digest
  imports Octets "HOL-Library.Char_ord" "HOL-Library.List_Lexorder"
begin

unbundle bit_operations_syntax

text \<open>
  \<open>digest\<close> of \<open>ffn_fe100_policy.py\<close>: SHA-256 of the canonical JSON text of a value, in
  hexadecimal.  Floats have no modelled text: the digested values are built from
  integers, strings, booleans, lists and dictionaries.
\<close>

section \<open>Canonical JSON\<close>

text \<open>\<open>json.dumps(s)\<close> with \<open>ensure_ascii\<close>.\<close>

definition hex4 :: "nat \<Rightarrow> string" where
  "hex4 n = [hex_char (n div 4096 mod 16), hex_char (n div 256 mod 16), hex_char (n div 16 mod 16), hex_char (n mod 16)]"

definition json_char :: "char \<Rightarrow> string" where
  "json_char c = (let n = of_char c :: nat in
     if n = 34 then [CHR 0x5C, CHR 0x22] else if n = 92 then [CHR 0x5C, CHR 0x5C]
     else if n = 10 then [CHR 0x5C, CHR 0x6E] else if n = 13 then [CHR 0x5C, CHR 0x72]
     else if n = 9 then [CHR 0x5C, CHR 0x74] else if n = 12 then [CHR 0x5C, CHR 0x66]
     else if n = 8 then [CHR 0x5C, CHR 0x62]
     else if n < 32 \<or> 126 < n then [CHR 0x5C, CHR 0x75] @ hex4 n else [c])"

definition json_string :: "string \<Rightarrow> string" where
  "json_string s = [CHR 0x22] @ concat (map json_char s) @ [CHR 0x22]"

fun json_text :: "pyval \<Rightarrow> exn + string"
  and json_texts :: "pyval list \<Rightarrow> exn + string list"
  and json_items :: "(string \<times> pyval) list \<Rightarrow> exn + (string \<times> string) list" where
  "json_text PNone = Inr ''null''"
| "json_text (PBool b) = Inr (if b then ''true'' else ''false'')"
| "json_text (PInt i) = Inr (dec_int i)"
| "json_text (PFloat f) = Inl (ValueError ''float'')"
| "json_text (PStr s) = Inr (json_string s)"
| "json_text (PList xs) = rbnd (json_texts xs) (\<lambda>ts. Inr (''['' @ join '','' ts @ '']''))"
| "json_text (PDict d) = rbnd (json_items d) (\<lambda>ts.
     Inr (''{'' @ join '','' (map (\<lambda>(k, t). json_string k @ '':'' @ t) (sort_key fst ts)) @ ''}''))"
| "json_texts [] = Inr []"
| "json_texts (x # xs) = rbnd (json_text x) (\<lambda>t. rbnd (json_texts xs) (\<lambda>ts. Inr (t # ts)))"
| "json_items [] = Inr []"
| "json_items ((k, v) # xs) = rbnd (json_text v) (\<lambda>t. rbnd (json_items xs) (\<lambda>ts. Inr ((k, t) # ts)))"

section \<open>SHA-256\<close>

type_synonym word32 = "32 word"

text \<open>
  The round constants and the initial state are the first 32 bits of the fractional parts of the
  cube roots of the first 64 primes and of the square roots of the first 8.
\<close>

definition integer_root :: "nat \<Rightarrow> nat \<Rightarrow> nat" where
  "integer_root k n = foldl (\<lambda>r b. if (r + 2 ^ b) ^ k \<le> n then r + 2 ^ b else r) 0 (rev [0..<40])"

definition small_primes :: "nat list" where
  "small_primes = [2, 3, 5, 7, 11, 13, 17, 19, 23, 29, 31, 37, 41, 43, 47, 53, 59, 61, 67, 71, 73, 79,
     83, 89, 97, 101, 103, 107, 109, 113, 127, 131, 137, 139, 149, 151, 157, 163, 167, 173, 179, 181, 191, 193,
     197, 199, 211, 223, 227, 229, 233, 239, 241, 251, 257, 263, 269, 271, 277, 281, 283, 293, 307, 311]"

definition sha_constants :: "word32 list" where
  "sha_constants = map (\<lambda>p. of_nat (integer_root 3 (p * 2 ^ 96))) small_primes"

definition sha_start :: "word32 list" where
  "sha_start = map (\<lambda>p. of_nat (integer_root 2 (p * 2 ^ 64))) (take 8 small_primes)"

definition rotr :: "nat \<Rightarrow> word32 \<Rightarrow> word32" where
  "rotr n w = drop_bit n w OR push_bit (32 - n) w"

fun chunks :: "nat \<Rightarrow> 'a list \<Rightarrow> 'a list list" where
  "chunks n [] = []"
| "chunks n (x # xs) = (if n = 0 then [] else take n (x # xs) # chunks n (drop n (x # xs)))"

definition sha_pad :: "bytes \<Rightarrow> bytes" where
  "sha_pad m = m @ [0x80] @ replicate ((119 - length m mod 64) mod 64) 0 @ to_be 8 (8 * length m)"

definition be_word :: "bytes \<Rightarrow> word32" where
  "be_word bs = of_nat (from_be bs)"

text \<open>The message schedule, built with the newest word first.\<close>

primrec sha_schedule :: "nat \<Rightarrow> word32 list \<Rightarrow> word32 list" where
  "sha_schedule 0 w = w"
| "sha_schedule (Suc k) w =
     (let a = w ! 14; b = w ! 1;
          s0 = rotr 7 a XOR rotr 18 a XOR drop_bit 3 a;
          s1 = rotr 17 b XOR rotr 19 b XOR drop_bit 10 b
      in sha_schedule k ((w ! 15 + s0 + w ! 6 + s1) # w))"

fun sha_round :: "word32 list \<Rightarrow> word32 \<times> word32 \<Rightarrow> word32 list" where
  "sha_round [a, b, c, d, e, f, g, h] (k, w) =
     (let s1 = rotr 6 e XOR rotr 11 e XOR rotr 25 e;
          ch = (e AND f) XOR (NOT e AND g);
          t1 = h + s1 + ch + k + w;
          s0 = rotr 2 a XOR rotr 13 a XOR rotr 22 a;
          maj = (a AND b) XOR (a AND c) XOR (b AND c)
      in [t1 + (s0 + maj), a, b, c, d + t1, e, f, g])"
| "sha_round v _ = v"

definition sha_block :: "word32 list \<Rightarrow> bytes \<Rightarrow> word32 list" where
  "sha_block h block =
     (let w = rev (sha_schedule 48 (rev (map be_word (chunks 4 block))))
      in map2 (+) h (foldl sha_round h (zip sha_constants w)))"

definition sha256 :: "bytes \<Rightarrow> bytes" where
  "sha256 m = concat (map (\<lambda>w. to_be 4 (unat w)) (foldl sha_block sha_start (chunks 64 (sha_pad m))))"

definition text_bytes :: "string \<Rightarrow> bytes" where
  "text_bytes s = map of_char s"

definition digest :: "pyval \<Rightarrow> exn + string" where
  "digest v = rbnd (json_text v) (\<lambda>t. Inr (to_hex (sha256 (text_bytes t))))"

section \<open>Digests are 64 hexadecimal digits\<close>

lemma length_sha_round: "length v = 8 \<Longrightarrow> length (sha_round v kw) = 8"
  by (cases "(v, kw)" rule: sha_round.cases) (auto simp: Let_def)

lemma length_rounds: "length v = 8 \<Longrightarrow> length (foldl sha_round v kws) = 8"
  by (induction kws arbitrary: v) (auto simp: length_sha_round)

lemma length_blocks: "length h = 8 \<Longrightarrow> length (foldl sha_block h bs) = 8"
  by (induction bs arbitrary: h) (auto simp: sha_block_def Let_def length_rounds)

lemma length_concat_be: "length (concat (map (\<lambda>w. to_be n (f w)) ws)) = n * length ws"
  by (induction ws) auto

lemma length_sha_start: "length sha_start = 8"
  by (simp add: sha_start_def small_primes_def)

lemma length_sha256: "length (sha256 m) = 32"
  unfolding sha256_def length_concat_be
  using length_blocks [OF length_sha_start, of "chunks 64 (sha_pad m)"] by simp

lemma digest_sha: "digest v = Inr d \<Longrightarrow> sha_text d"
  by (auto simp: digest_def res_iffs intro: sha_text_to_hex length_sha256)

lemma digest_is_sha: "digest v = Inr d \<Longrightarrow> is_sha (PStr d)"
  by (simp add: is_sha_def digest_sha)

end
