(* ===== verification/PyText.thy ===== *)
theory PyText
  imports Octets
begin

text \<open>
  Python string operations on characters with codes below 256: \<open>strip\<close>, \<open>lower\<close>, \<open>startswith\<close>,
  \<open>endswith\<close>, \<open>in\<close>, \<open>isdigit\<close>, \<open>repr\<close> and UTF-8 encoding.
\<close>

definition py_space :: "char \<Rightarrow> bool" where
  "py_space c \<longleftrightarrow> (let n = of_char c :: nat in 9 \<le> n \<and> n \<le> 13 \<or> 28 \<le> n \<and> n \<le> 32 \<or> n = 133 \<or> n = 160)"

definition strip :: "string \<Rightarrow> string" where
  "strip s = rev (dropWhile py_space (rev (dropWhile py_space s)))"

definition lower_char :: "char \<Rightarrow> char" where
  "lower_char c = (let n = of_char c :: nat in
     if 65 \<le> n \<and> n \<le> 90 \<or> 192 \<le> n \<and> n \<le> 222 \<and> n \<noteq> 215 then char_of (n + 32) else c)"

definition lower :: "string \<Rightarrow> string" where
  "lower s = map lower_char s"

definition starts_with :: "string \<Rightarrow> string \<Rightarrow> bool" where
  "starts_with p s \<longleftrightarrow> take (length p) s = p"

definition ends_with :: "string \<Rightarrow> string \<Rightarrow> bool" where
  "ends_with p s \<longleftrightarrow> starts_with (rev p) (rev s)"

fun contains :: "string \<Rightarrow> string \<Rightarrow> bool" where
  "contains p [] = (p = [])"
| "contains p (c # s) = (starts_with p (c # s) \<or> contains p s)"

text \<open>The superscript digits two, three and one satisfy \<open>isdigit\<close> too.\<close>

definition all_digits :: "string \<Rightarrow> bool" where
  "all_digits s \<longleftrightarrow> s \<noteq> [] \<and> list_all (\<lambda>c. let n = of_char c :: nat in 48 \<le> n \<and> n \<le> 57 \<or> n \<in> {178, 179, 185}) s"

definition repr_char :: "nat \<Rightarrow> char \<Rightarrow> string" where
  "repr_char quote c = (let n = of_char c :: nat in
     if n = quote \<or> n = 92 then [CHR 0x5C, c]
     else if n = 9 then [CHR 0x5C, CHR ''t''] else if n = 10 then [CHR 0x5C, CHR ''n''] else if n = 13 then [CHR 0x5C, CHR ''r'']
     else if n < 32 \<or> 127 \<le> n \<and> n \<le> 160 \<or> n = 173 then [CHR 0x5C, CHR ''x'', hex_char (n div 16), hex_char (n mod 16)]
     else [c])"

definition repr :: "string \<Rightarrow> string" where
  "repr s = (let quote = (if CHR 0x27 \<in> set s \<and> CHR 0x22 \<notin> set s then 34 else 39) :: nat in
     [char_of quote] @ concat (map (repr_char quote) s) @ [char_of quote])"

definition utf8_char :: "char \<Rightarrow> bytes" where
  "utf8_char c = (let n = of_char c :: nat in if n < 128 then [of_nat n] else [of_nat (192 + n div 64), of_nat (128 + n mod 64)])"

definition utf8 :: "string \<Rightarrow> bytes" where
  "utf8 s = concat (map utf8_char s)"

text \<open>\<open>s.split(c, 1)\<close> when \<open>c\<close> occurs in \<open>s\<close>.\<close>

definition split_first :: "char \<Rightarrow> string \<Rightarrow> string \<times> string" where
  "split_first c s = (takeWhile (\<lambda>d. d \<noteq> c) s, drop 1 (dropWhile (\<lambda>d. d \<noteq> c) s))"

section \<open>Stripped text\<close>

lemma set_strip: "set (strip s) \<subseteq> set s"
proof
  fix x assume "x \<in> set (strip s)"
  then have "x \<in> set (dropWhile py_space (rev (dropWhile py_space s)))" by (simp add: strip_def)
  from set_dropWhileD [OF this] have "x \<in> set (dropWhile py_space s)" by simp
  then show "x \<in> set s" using set_dropWhileD by metis
qed

lemma strip_ends: "strip s \<noteq> [] \<Longrightarrow> \<not> py_space (hd (strip s)) \<and> \<not> py_space (last (strip s))"
proof -
  let ?d = "dropWhile py_space s"
  assume ne: "strip s \<noteq> []"
  then have r: "dropWhile py_space (rev ?d) \<noteq> []" by (simp add: strip_def)
  from hd_dropWhile [OF r] have "\<not> py_space (last (strip s))" by (simp add: strip_def last_rev)
  moreover obtain ws where ws: "rev ?d = ws @ dropWhile py_space (rev ?d)"
    by (metis takeWhile_dropWhile_id)
  then have "?d = strip s @ rev ws" unfolding strip_def by (metis rev_append rev_rev_ident)
  moreover have d: "?d \<noteq> []" using r by fastforce
  moreover have "\<not> py_space (hd ?d)" using hd_dropWhile [OF d] .
  ultimately show ?thesis using ne by (metis hd_append2)
qed

lemma dropWhile_keep: "s = [] \<or> \<not> P (hd s) \<Longrightarrow> dropWhile P s = s"
  by (cases s) auto

lemma strip_id: "s \<noteq> [] \<Longrightarrow> \<not> py_space (hd s) \<Longrightarrow> \<not> py_space (last s) \<Longrightarrow> strip s = s"
  by (simp add: strip_def dropWhile_keep hd_rev)

lemma strip_Nil [simp]: "strip [] = []"
  by (simp add: strip_def)

lemma strip_strip [simp]: "strip (strip s) = strip s"
  using strip_id [of "strip s"] strip_ends [of s] by (cases "strip s = []") simp_all

end
