(* ===== verification/Attachments.thy ===== *)
theory Attachments
  imports Digest PyText
begin

text \<open>
  Durable ownership of ingress selectors (a port and a VLAN) and of the logical-interface table
  slots behind them, \<open>AttachmentOwner\<close> of \<open>ffn_fe100_attachments.py\<close>.  The tables, the native
  encoder, the commissioner's resolver, the withdrawal and drain callbacks and the journal's
  commits are parameters; the rows of the journal are the values \<open>json.dumps\<close> is given, so a
  restart loads what earlier operations stored.
\<close>

record native =
  nv_lif :: bytes
  nv_lef :: bytes

record attach_res =
  ar_kind :: string
  ar_index :: int
  ar_port :: pyval
  ar_data :: bytes

record attachment =
  at_boot :: string
  at_state :: string
  at_plan :: pyval
  at_resources :: "attach_res list"

record attach_pools =
  ap_lif :: "int list"
  ap_lef :: "int list"

record 'e attach_state =
  at_env :: 'e
  at_journal :: "(string \<times> pyval) list"
  at_rows :: "(string \<times> attachment) list"
  at_recovery :: bool

record 'e attach_owner =
  aw_fetch :: "string \<Rightarrow> int \<Rightarrow> ('e, bytes option) py"
  aw_insert :: "string \<Rightarrow> int \<Rightarrow> bytes \<Rightarrow> ('e, unit) py"
  aw_delete :: "string \<Rightarrow> int \<Rightarrow> ('e, unit) py"
  aw_commit :: "('e, unit) py"
  aw_open :: "'e \<Rightarrow> bool"
  aw_current :: "string \<Rightarrow> ('e, pyval) py"
  aw_withdraw :: "string \<Rightarrow> ('e, pyval) py"
  aw_drain :: "string \<Rightarrow> ('e, pyval) py"
  aw_encode :: "pyval \<Rightarrow> int \<Rightarrow> exn + native"
  aw_pools :: attach_pools
  aw_boot :: string

definition at_io :: "('e, 'a) py \<Rightarrow> ('e attach_state, 'a) py" where
  "at_io m = zoom at_env (\<lambda>e s. s\<lparr>at_env := e\<rparr>) m"

definition native_of :: "string \<Rightarrow> native \<Rightarrow> bytes" where
  "native_of kind n = (if kind = ''lif'' then nv_lif n else nv_lef n)"

definition attach_pool :: "attach_pools \<Rightarrow> string \<Rightarrow> int list" where
  "attach_pool p kind = (if kind = ''lif'' then ap_lif p else ap_lef p)"

section \<open>Names and plans\<close>

definition alnum_char :: "char \<Rightarrow> bool" where
  "alnum_char c \<longleftrightarrow> (let n = of_char c :: nat in 48 \<le> n \<and> n \<le> 57 \<or> 65 \<le> n \<and> n \<le> 90 \<or> 97 \<le> n \<and> n \<le> 122)"

text \<open>\<open>re.fullmatch('[a-zA-Z0-9][a-zA-Z0-9_.:/-]{0,127}', s)\<close>.\<close>

definition name_text :: "string \<Rightarrow> bool" where
  "name_text s \<longleftrightarrow> s \<noteq> [] \<and> length s \<le> 128 \<and> alnum_char (hd s) \<and>
     list_all (\<lambda>c. alnum_char c \<or> c \<in> set ''_.:/-'') (tl s)"

definition attach_name :: "pyval \<Rightarrow> exn + string" where
  "attach_name v = (rthn (rcheck (is_str v \<and> name_text (the_str v)) (ValueError ''Invalid attachment name''))
    (Inr (the_str v)))"

definition attach_fields :: "string list" where
  "attach_fields = [''interface'', ''binding_revision'', ''zone'', ''vlan'', ''ports'', ''miss_next_hop'']"

definition plan_ports :: "pyval \<Rightarrow> int list" where
  "plan_ports plan = map the_int (the_list (py_get plan ''ports''))"

definition check_attach_plan :: "pyval \<Rightarrow> exn + unit" where
  "check_attach_plan p = (rthn (rcheck (keys_are p attach_fields) (ValueError ''Complete commissioned attachment plan required''))
    (rthn (attach_name (py_get p ''interface''))
    (rthn (rcheck (is_sha (py_get p ''binding_revision'')) (ValueError ''Verified attachment generation required''))
    (rthn (rfor [(''zone'', 65536), (''vlan'', 4095), (''miss_next_hop'', 65536)]
       (\<lambda>(field, limit). rcheck (int_in (py_get p field) 0 (limit - 1)) (ValueError (''Invalid '' @ field))))
    (let ports = the_list (py_get p ''ports'') in
    rcheck (is_list (py_get p ''ports'') \<and> 1 \<le> length ports \<and> length ports \<le> 8 \<and>
         list_all (\<lambda>v. int_in v 1 63) ports \<and> map the_int ports = sort (remdups (map the_int ports)))
       (ValueError ''Sorted unique commissioned logical ports required''))))))"

text \<open>\<open>NativeEncoder\<close>: the two functions of the native library answer \<open>None\<close> for a nonzero result.\<close>

definition native_encode ::
  "(int \<Rightarrow> int \<Rightarrow> int \<Rightarrow> int \<Rightarrow> bytes option) \<Rightarrow> (int \<Rightarrow> bytes option) \<Rightarrow> pyval \<Rightarrow> int \<Rightarrow> exn + native" where
  "native_encode lif_encode lef_encode plan port = (rthn (check_attach_plan plan)
    (rthn (rcheck (port \<in> set (plan_ports plan)) (ValueError ''Port outside attachment''))
    ((case lif_encode port (the_int (py_get plan ''vlan'')) (the_int (py_get plan ''zone'')) (the_int (py_get plan ''miss_next_hop'')) of
        None \<Rightarrow> Inl (RuntimeError ''Native attachment encoding failed'')
      | Some lif \<Rightarrow> (case lef_encode port of
          None \<Rightarrow> Inl (RuntimeError ''Native attachment encoding failed'')
        | Some lef \<Rightarrow> Inr \<lparr>nv_lif = lif, nv_lef = lef\<rparr>)))))"

section \<open>The journal\<close>

definition scope_fault :: exn where
  "scope_fault = ValueError ''Attachment journal outside commissioned scope''"

definition load_item :: "(pyval \<Rightarrow> int \<Rightarrow> exn + native) \<Rightarrow> attach_pools \<Rightarrow> pyval \<Rightarrow> pyval \<times> string \<times> int \<Rightarrow> exn + attach_res" where
  "load_item encode pools plan = (\<lambda>(item, kind, port). (rbnd (set_is item [''kind'', ''index'', ''port'', ''data'']) (\<lambda>same.
    rthn (rcheck same scope_fault)
    (rbnd (py_item item ''kind'') (\<lambda>k.
    rthn (rcheck (k = PStr kind) scope_fault)
    (rbnd (py_item item ''port'') (\<lambda>p.
    rthn (rcheck (py_eq p (PInt port)) scope_fault)
    (rbnd (py_item item ''index'') (\<lambda>i.
    rthn (rcheck (is_int i \<and> the_int i \<in> set (attach_pool pools kind)) scope_fault)
    (rbnd (py_item item ''data'') (\<lambda>d.
    rbnd (encode plan port) (\<lambda>n.
    rthn (rcheck (d = PStr (to_hex (native_of kind n))) scope_fault)
    (Inr \<lparr>ar_kind = kind, ar_index = the_int i, ar_port = p, ar_data = native_of kind n\<rparr>)))))))))))))"

definition kinds_of :: "pyval \<Rightarrow> (string \<times> int) list" where
  "kinds_of plan = map (Pair ''lef'') (plan_ports plan) @ map (Pair ''lif'') (plan_ports plan)"

definition attach_states :: "string list" where
  "attach_states = [''installing'', ''ready'', ''removing'']"

definition validate_attachment :: "(pyval \<Rightarrow> int \<Rightarrow> exn + native) \<Rightarrow> attach_pools \<Rightarrow> string \<Rightarrow> pyval \<Rightarrow> exn + attachment" where
  "validate_attachment encode pools name r = (rthn (attach_name (PStr name))
    (rthn (rcheck (keys_are r [''boot'', ''state'', ''plan'', ''resources''] \<and> is_str (py_get r ''state'') \<and>
         the_str (py_get r ''state'') \<in> set attach_states \<and> is_str (py_get r ''boot'')) (ValueError ''Invalid attachment journal''))
    (let plan = py_get r ''plan'' in
    rthn (check_attach_plan plan)
    (rthn (rcheck (PStr name = py_get plan ''interface'') (ValueError ''Attachment journal identity mismatch''))
    (let items = the_list (py_get r ''resources'') in
    rthn (rcheck (is_list (py_get r ''resources'') \<and> length items = length (kinds_of plan)) (ValueError ''Incomplete attachment resources''))
    (rbnd (rcollect (zip items (kinds_of plan)) (load_item encode pools plan)) (\<lambda>rs.
    Inr \<lparr>at_boot = the_str (py_get r ''boot''), at_state = the_str (py_get r ''state''), at_plan = plan, at_resources = rs\<rparr>)))))))"

text \<open>The dictionary of a record, the argument of \<open>json.dumps\<close> and of \<open>digest\<close>.\<close>

definition resource_value :: "attach_res \<Rightarrow> pyval" where
  "resource_value i = PDict [(''kind'', PStr (ar_kind i)), (''index'', PInt (ar_index i)), (''port'', ar_port i),
     (''data'', PStr (to_hex (ar_data i)))]"

definition record_value :: "attachment \<Rightarrow> pyval" where
  "record_value r = PDict [(''boot'', PStr (at_boot r)), (''state'', PStr (at_state r)), (''plan'', at_plan r),
     (''resources'', PList (map resource_value (at_resources r)))]"

definition attach_slots :: "attachment \<Rightarrow> (string \<times> int) list" where
  "attach_slots r = map (\<lambda>i. (ar_kind i, ar_index i)) (at_resources r)"

primrec load_rows :: "(pyval \<Rightarrow> int \<Rightarrow> exn + native) \<Rightarrow> attach_pools \<Rightarrow> (string \<times> int) list \<Rightarrow> (string \<times> pyval) list \<Rightarrow> exn + (string \<times> attachment) list" where
  "load_rows encode pools used [] = Inr []"
| "load_rows encode pools used (row # rows) = (rbnd (validate_attachment encode pools (fst row) (snd row)) (\<lambda>r.
  rthn (rcheck (distinct (attach_slots r) \<and> list_all (\<lambda>x. x \<notin> set used) (attach_slots r))
       (ValueError ''Duplicate resource in attachment journal''))
  (rbnd (load_rows encode pools (used @ attach_slots r) rows) (\<lambda>rs.
  Inr ((fst row, r) # rs)))))"

definition check_attach_pool :: "pyval \<Rightarrow> exn + int list" where
  "check_attach_pool values = (let xs = the_list values in (rthn (rcheck (is_list values \<and> 1 \<le> length xs \<and> length xs \<le> 32 \<and> list_all (\<lambda>i. int_in i 0 31) xs \<and> distinct (map the_int xs))
       (ValueError ''Invalid commissioned attachment pool''))
    (Inr (map the_int xs))))"

text \<open>\<open>AttachmentOwner.__init__\<close>; the level of \<open>PRAGMA synchronous\<close> and an open transaction are arguments.\<close>

definition attach_init ::
  "(pyval \<Rightarrow> int \<Rightarrow> exn + native) \<Rightarrow> pyval \<Rightarrow> pyval \<Rightarrow> bool \<Rightarrow> int \<Rightarrow> (string \<times> pyval) list \<Rightarrow> 'e
    \<Rightarrow> exn + attach_pools \<times> string \<times> 'e attach_state" where
  "attach_init encode pools boot in_transaction synchronous rows env = (rthn (rcheck (keys_are pools [''lif'', ''lef'']) (ValueError ''Explicit LIF/LEF pools required''))
    (rbnd (check_attach_pool (py_get pools ''lif'')) (\<lambda>lif.
    rbnd (check_attach_pool (py_get pools ''lef'')) (\<lambda>lef.
    let p = \<lparr>ap_lif = lif, ap_lef = lef\<rparr> in
    rthn (rcheck (is_str boot \<and> the_str boot \<noteq> []) (ValueError ''Hardware boot identity required''))
    (rthn (rcheck (\<not> in_transaction \<and> 2 \<le> synchronous) (ValueError ''Independent FULL synchronous journal required''))
    (rbnd (load_rows encode p [] rows) (\<lambda>records.
    Inr (p, the_str boot, \<lparr>at_env = env, at_journal = rows, at_rows = records, at_recovery = (rows \<noteq> [])\<rparr>))))))))"

text \<open>
  \<open>INSERT OR REPLACE\<close> into a table with a text key: the row of an existing key is deleted and the new
  one is stored last, where the scan at the next start finds it.
\<close>

definition text_row_put :: "string \<Rightarrow> 'v \<Rightarrow> (string \<times> 'v) list \<Rightarrow> (string \<times> 'v) list" where
  "text_row_put k v t = dict_del k t @ [(k, v)]"

definition attach_fencing :: "('e attach_state, 'a) py \<Rightarrow> ('e attach_state, 'a) py" where
  "attach_fencing m = catch_all m (\<lambda>e. (thn (upd (\<lambda>s. s\<lparr>at_recovery := True\<rparr>))
    (raise e)))"

definition no_open_transaction :: "'e attach_owner \<Rightarrow> string \<Rightarrow> ('e attach_state, unit) py" where
  "no_open_transaction W text = (bnd (gets (\<lambda>s. aw_open W (at_env s))) (\<lambda>opened.
    ensure (\<not> opened) (RuntimeError text)))"

definition attach_save :: "'e attach_owner \<Rightarrow> string \<Rightarrow> attachment \<Rightarrow> ('e attach_state, unit) py" where
  "attach_save W name r = (thn (attach_fencing ((thn (no_open_transaction W ''Attachment journal requires its own durable transaction'')
       (thn (at_io (aw_commit W))
       (upd (\<lambda>s. s\<lparr>at_journal := text_row_put name (record_value r) (at_journal s)\<rparr>))))))
    (upd (\<lambda>s. s\<lparr>at_rows := dict_set name r (at_rows s)\<rparr>)))"

section \<open>Acquiring\<close>

definition attach_used :: "string \<Rightarrow> (string \<times> attachment) list \<Rightarrow> int list" where
  "attach_used kind rows = map ar_index (filter (\<lambda>i. ar_kind i = kind) (concat (map (\<lambda>(_, a). at_resources a) rows)))"

primrec attach_alloc ::
  "'e attach_owner \<Rightarrow> string \<Rightarrow> nat \<Rightarrow> int list \<Rightarrow> int list \<Rightarrow> int list \<Rightarrow> ('e attach_state, int list) py" where
  "attach_alloc W kind count used found [] = raise (RuntimeError (''No empty commissioned '' @ kind @ '' slots''))"
| "attach_alloc W kind count used found (index # rest) =
     (if index \<in> set used then attach_alloc W kind count used found rest
      else (bnd (at_io (aw_fetch W kind index)) (\<lambda>actual.
        if actual \<noteq> None then attach_alloc W kind count used found rest
        else if length found + 1 = count then ret (found @ [index])
        else attach_alloc W kind count used (found @ [index]) rest)))"

definition attach_allocate :: "'e attach_owner \<Rightarrow> string \<Rightarrow> nat \<Rightarrow> ('e attach_state, int list) py" where
  "attach_allocate W kind count = (bnd (gets (\<lambda>s. attach_used kind (at_rows s))) (\<lambda>used.
    attach_alloc W kind count used [] (attach_pool (aw_pools W) kind)))"

definition new_resources :: "(pyval \<Rightarrow> int \<Rightarrow> exn + native) \<Rightarrow> pyval \<Rightarrow> int list \<Rightarrow> int list \<Rightarrow> exn + attach_res list" where
  "new_resources encode plan lefs lifs =
     rcollect (zip (lefs @ lifs) (kinds_of plan)) (\<lambda>(i, kind, p). (rbnd (encode plan p) (\<lambda>n.
       Inr \<lparr>ar_kind = kind, ar_index = i, ar_port = PInt p, ar_data = native_of kind n\<rparr>)))"

definition attach_current :: "'e attach_owner \<Rightarrow> string \<Rightarrow> pyval \<Rightarrow> string \<Rightarrow> ('e attach_state, unit) py" where
  "attach_current W name plan text = (bnd (at_io (aw_current W name)) (\<lambda>now.
    ensure (py_eq now plan) (RuntimeError text)))"

definition install_item :: "'e attach_owner \<Rightarrow> string \<Rightarrow> pyval \<Rightarrow> attach_res \<Rightarrow> ('e attach_state, unit) py" where
  "install_item W name plan item = (thn (attach_current W name plan ''Attachment changed during installation'')
    (bnd (at_io (aw_fetch W (ar_kind item) (ar_index item))) (\<lambda>prior.
    thn (ensure (prior = None) (RuntimeError ''Attachment resource occupied''))
    (thn (at_io (aw_insert W (ar_kind item) (ar_index item) (ar_data item)))
    (bnd (at_io (aw_fetch W (ar_kind item) (ar_index item))) (\<lambda>after.
    ensure (after = Some (ar_data item)) (RuntimeError ''Attachment readback mismatch'')))))))"

definition port_text :: "pyval \<Rightarrow> string" where
  "port_text v = (case v of PBool b \<Rightarrow> (if b then ''True'' else ''False'') | _ \<Rightarrow> dec_int (the_int v))"

definition lifs_of :: "string \<Rightarrow> attachment \<Rightarrow> pyval" where
  "lifs_of kind r = PDict (map (\<lambda>i. (port_text (ar_port i), PInt (ar_index i))) (filter (\<lambda>i. ar_kind i = kind) (at_resources r)))"

definition check_item :: "'e attach_owner \<Rightarrow> attach_res \<Rightarrow> ('e attach_state, unit) py" where
  "check_item W item = (bnd (at_io (aw_fetch W (ar_kind item) (ar_index item))) (\<lambda>actual.
    ensure (actual = Some (ar_data item)) (RuntimeError ''Attachment readback changed'')))"

definition attach_snapshot :: "'e attach_owner \<Rightarrow> string \<Rightarrow> ('e attach_state, pyval) py" where
  "attach_snapshot W name = (bnd (gets at_recovery) (\<lambda>fenced.
    thn (ensure (\<not> fenced) (RuntimeError ''Attachment recovery required''))
    (bnd (gets (\<lambda>s. dict_get (at_rows s) name)) (\<lambda>found.
    case found of None \<Rightarrow> raise (KeyError name)
     | Some r \<Rightarrow> (thn (ensure (at_state r = ''ready'' \<and> at_boot r = aw_boot W) (RuntimeError ''Attachment generation changed''))
       (thn (attach_current W name (at_plan r) ''Attachment generation changed'')
       (thn (for_each (at_resources r) (check_item W))
       (thn (attach_current W name (at_plan r) ''Attachment changed during readback'')
       (bnd (lift_res (digest (record_value r))) (\<lambda>revision.
       ret (PDict [(''plan'', at_plan r), (''revision'', PStr revision), (''ingress_lifs'', lifs_of ''lif'' r),
           (''egress_lifs'', lifs_of ''lef'' r), (''hardware_admission'', PBool False)])))))))))))"

definition wire_conflict :: "pyval \<Rightarrow> attachment \<Rightarrow> bool" where
  "wire_conflict plan r \<longleftrightarrow> py_get (at_plan r) ''vlan'' = py_get plan ''vlan'' \<and>
     set (plan_ports (at_plan r)) \<inter> set (plan_ports plan) \<noteq> {}"

definition install_all :: "'e attach_owner \<Rightarrow> string \<Rightarrow> attachment \<Rightarrow> ('e attach_state, pyval) py" where
  "install_all W name r = attach_fencing ((thn (for_each (at_resources r) (install_item W name (at_plan r)))
    (thn (attach_current W name (at_plan r) ''Attachment changed during installation'')
    (thn (attach_save W name (r\<lparr>at_state := ''ready''\<rparr>))
    (attach_snapshot W name)))))"

definition attach_acquire :: "'e attach_owner \<Rightarrow> pyval \<Rightarrow> pyval \<Rightarrow> ('e attach_state, pyval) py" where
  "attach_acquire W who plan = (bnd (lift_res (attach_name who)) (\<lambda>name.
    thn (lift_res (check_attach_plan plan))
    (thn (ensure (who = py_get plan ''interface'') (ValueError ''Attachment identity mismatch''))
    (bnd (gets at_recovery) (\<lambda>fenced.
    thn (ensure (\<not> fenced) (RuntimeError ''Attachment recovery required''))
    (bnd (gets at_rows) (\<lambda>rows.
    thn (ensure (name \<notin> set (dict_keys rows)) (ValueError ''Attachment already owned''))
    (thn (attach_current W name plan ''Attachment generation changed'')
    (thn (ensure (\<not> list_ex (wire_conflict plan) (map snd rows)) (ValueError ''Ingress port/VLAN already owned''))
    (bnd (attach_allocate W ''lef'' (length (plan_ports plan))) (\<lambda>lefs.
    bnd (attach_allocate W ''lif'' (length (plan_ports plan))) (\<lambda>lifs.
    bnd (lift_res (new_resources (aw_encode W) plan lefs lifs)) (\<lambda>rs.
    let r = \<lparr>at_boot = aw_boot W, at_state = ''installing'', at_plan = plan, at_resources = rs\<rparr> in
    thn (lift_res (validate_attachment (aw_encode W) (aw_pools W) name (record_value r)))
    (thn (attach_save W name r)
    (install_all W name r)))))))))))))))"

section \<open>Releasing and recovery\<close>

definition remove_item :: "'e attach_owner \<Rightarrow> attachment \<Rightarrow> attach_res \<Rightarrow> ('e attach_state, unit) py" where
  "remove_item W r item = (bnd (at_io (aw_fetch W (ar_kind item) (ar_index item))) (\<lambda>actual.
    thn (whn (actual \<noteq> None) ((thn (ensure (at_boot r = aw_boot W \<and> actual = Some (ar_data item)) (RuntimeError ''Attachment ownership conflict; recovery required''))
       (at_io (aw_delete W (ar_kind item) (ar_index item))))))
    (bnd (at_io (aw_fetch W (ar_kind item) (ar_index item))) (\<lambda>again.
    ensure (again = None) (RuntimeError ''Attachment removal not acknowledged'')))))"

definition release_row :: "'e attach_owner \<Rightarrow> string \<Rightarrow> attachment \<Rightarrow> ('e attach_state, unit) py" where
  "release_row W name r = (bnd (at_io (aw_withdraw W name)) (\<lambda>withdrawn.
    thn (ensure (withdrawn = PBool True) (RuntimeError ''Ingress withdrawal not acknowledged''))
    (bnd (at_io (aw_drain W name)) (\<lambda>drained.
    thn (ensure (drained = PBool True) (RuntimeError ''Dependent flow/path drain not acknowledged''))
    (thn (attach_save W name (r\<lparr>at_state := ''removing''\<rparr>))
    (thn (for_each (rev (at_resources r)) (remove_item W r))
    (thn (no_open_transaction W ''Attachment removal requires durable transaction'')
    (thn (at_io (aw_commit W))
    (thn (upd (\<lambda>s. s\<lparr>at_journal := dict_del name (at_journal s)\<rparr>))
    (upd (\<lambda>s. s\<lparr>at_rows := dict_del name (at_rows s)\<rparr>)))))))))))"

definition attach_release :: "'e attach_owner \<Rightarrow> pyval \<Rightarrow> ('e attach_state, unit) py" where
  "attach_release W who = (bnd (lift_res (attach_name who)) (\<lambda>name.
    bnd (gets (\<lambda>s. dict_get (at_rows s) name)) (\<lambda>found.
    case found of None \<Rightarrow> ret () | Some r \<Rightarrow> attach_fencing (release_row W name r))))"

definition attach_recover :: "'e attach_owner \<Rightarrow> ('e attach_state, unit) py" where
  "attach_recover W = (thn (upd (\<lambda>s. s\<lparr>at_recovery := True\<rparr>))
    (bnd (gets at_rows) (\<lambda>rows.
    thn (for_each (dict_keys rows) (\<lambda>name. attach_release W (PStr name)))
    (upd (\<lambda>s. s\<lparr>at_recovery := False\<rparr>)))))"

definition attach_reconcile :: "'e attach_owner \<Rightarrow> ('e attach_state, unit) py" where
  "attach_reconcile W = (bnd (gets at_recovery) (\<lambda>fenced.
    if fenced then attach_recover W
     else (bnd (gets at_rows) (\<lambda>rows.
       for_each (dict_keys rows) (\<lambda>name.
         catch_exn ((thn (attach_snapshot W name)
           (ret ()))) (\<lambda>_. attach_release W (PStr name)))))))"

section \<open>What the journal loads\<close>

lemma to_hex_inject [simp]: "to_hex a = to_hex b \<longleftrightarrow> a = b"
  by (metis from_hex_to_hex option.inject)

lemma load_item_value:
  "load_item enc p plan (resource_value i, kind, port) = Inr j \<longleftrightarrow>
     j = i \<and> ar_kind i = kind \<and> py_eq (ar_port i) (PInt port) \<and> ar_index i \<in> set (attach_pool p kind) \<and>
     (\<exists>n. enc plan port = Inr n \<and> ar_data i = native_of kind n)"
  by (auto simp: load_item_def resource_value_def set_is_def py_item_def res_iffs insert_commute)

lemma load_items_value:
  "rcollect (zip (map resource_value is) ks) (load_item enc p plan) = Inr js \<Longrightarrow> length is = length ks \<Longrightarrow> js = is"
proof (induction "is" ks arbitrary: js rule: list_induct2')
  case (4 i "is" k ks)
  obtain kind port where "k = (kind, port)" by (cases k)
  with 4 show ?case by (auto simp: res_iffs load_item_value)
qed auto

lemma validate_value:
  "validate_attachment enc p k (record_value r) = Inr r' \<longleftrightarrow>
     name_text k \<and> at_state r \<in> set attach_states \<and> check_attach_plan (at_plan r) = Inr () \<and>
     PStr k = py_get (at_plan r) ''interface'' \<and> length (at_resources r) = length (kinds_of (at_plan r)) \<and>
     rcollect (zip (map resource_value (at_resources r)) (kinds_of (at_plan r))) (load_item enc p (at_plan r)) = Inr (at_resources r) \<and>
     r' = r"
proof -
  have "validate_attachment enc p k (record_value r) = Inr r' \<longleftrightarrow>
     name_text k \<and> at_state r \<in> set attach_states \<and> check_attach_plan (at_plan r) = Inr () \<and>
     PStr k = py_get (at_plan r) ''interface'' \<and> length (at_resources r) = length (kinds_of (at_plan r)) \<and>
     (\<exists>rs. rcollect (zip (map resource_value (at_resources r)) (kinds_of (at_plan r))) (load_item enc p (at_plan r)) = Inr rs \<and>
       r' = \<lparr>at_boot = at_boot r, at_state = at_state r, at_plan = at_plan r, at_resources = rs\<rparr>)"
    by (auto simp: validate_attachment_def record_value_def Let_def res_iffs keys_are_def py_get_def attach_name_def insert_commute)
  also have "\<dots> \<longleftrightarrow> name_text k \<and> at_state r \<in> set attach_states \<and> check_attach_plan (at_plan r) = Inr () \<and>
     PStr k = py_get (at_plan r) ''interface'' \<and> length (at_resources r) = length (kinds_of (at_plan r)) \<and>
     rcollect (zip (map resource_value (at_resources r)) (kinds_of (at_plan r))) (load_item enc p (at_plan r)) = Inr (at_resources r) \<and>
     r' = r"
    using load_items_value by (cases r; cases r') fastforce
  finally show ?thesis .
qed

text \<open>A record that loads as itself.\<close>

definition loads :: "(pyval \<Rightarrow> int \<Rightarrow> exn + native) \<Rightarrow> attach_pools \<Rightarrow> string \<Rightarrow> attachment \<Rightarrow> bool" where
  "loads enc p k r \<longleftrightarrow> validate_attachment enc p k (record_value r) = Inr r"

lemma loads_state: "loads enc p k r \<Longrightarrow> st \<in> set attach_states \<Longrightarrow> loads enc p k (r\<lparr>at_state := st\<rparr>)"
  by (simp add: loads_def validate_value)

lemma validate_loads: "validate_attachment enc p k (record_value r) = Inr r' \<Longrightarrow> loads enc p k r"
  by (simp add: loads_def validate_value)

lemma loads_plan: "loads enc p k r \<Longrightarrow> check_attach_plan (at_plan r) = Inr () \<and> name_text k"
  by (simp add: loads_def validate_value)

lemma loads_slots:
  assumes "loads enc p k r" "(kind, i) \<in> set (attach_slots r)"
  shows "i \<in> set (attach_pool p kind)"
proof -
  let ?z = "zip (map resource_value (at_resources r)) (kinds_of (at_plan r))"
  from assms(1) have len: "length (at_resources r) = length (kinds_of (at_plan r))"
    and all: "list_all2 (\<lambda>x y. load_item enc p (at_plan r) x = Inr y) ?z (at_resources r)"
    by (simp_all add: loads_def validate_value rcollect_Inr_iff)
  from assms(2) obtain n where n: "n < length (at_resources r)" "(kind, i) = (ar_kind (at_resources r ! n), ar_index (at_resources r ! n))"
    by (auto simp: attach_slots_def in_set_conv_nth)
  obtain k' q where "kinds_of (at_plan r) ! n = (k', q)" by (cases "kinds_of (at_plan r) ! n")
  with list_all2_nthD2 [OF all n(1)] n len show ?thesis by (auto simp: load_item_value)
qed

lemma loads_kinds:
  assumes "loads enc p k r"
  shows "map ar_kind (at_resources r) = map fst (kinds_of (at_plan r))"
proof -
  have "map ar_kind js = map fst ks" if "rcollect (zip (map resource_value is) ks) (load_item enc p plan) = Inr js" "length is = length ks"
    for js "is" ks plan
    using that
  proof (induction "is" ks arbitrary: js rule: list_induct2')
    case (4 i "is" k ks)
    then show ?case by (cases k) (auto simp: res_iffs load_item_value)
  qed auto
  then show ?thesis using assms by (auto simp: loads_def validate_value)
qed

section \<open>A wire selector and a slot belong to one attachment\<close>

definition attach_wires :: "attachment \<Rightarrow> (int \<times> int) list" where
  "attach_wires r = map (Pair (the_int (py_get (at_plan r) ''vlan''))) (plan_ports (at_plan r))"

definition apart :: "attachment \<Rightarrow> attachment \<Rightarrow> bool" where
  "apart a b \<longleftrightarrow> set (attach_slots a) \<inter> set (attach_slots b) = {} \<and> set (attach_wires a) \<inter> set (attach_wires b) = {}"

definition rows_ok :: "(pyval \<Rightarrow> int \<Rightarrow> exn + native) \<Rightarrow> attach_pools \<Rightarrow> (string \<times> attachment) list \<Rightarrow> bool" where
  "rows_ok enc p rows \<longleftrightarrow> dict_ok rows \<and>
     (\<forall>k r. dict_get rows k = Some r \<longrightarrow> loads enc p k r \<and> distinct (attach_slots r)) \<and>
     (\<forall>j k a b. j \<noteq> k \<longrightarrow> dict_get rows j = Some a \<longrightarrow> dict_get rows k = Some b \<longrightarrow> apart a b)"

definition journalled :: "(string \<times> attachment) list \<Rightarrow> (string \<times> pyval) list \<Rightarrow> bool" where
  "journalled rows j \<longleftrightarrow> dict_ok j \<and> (\<forall>k. dict_get j k = map_option record_value (dict_get rows k))"

definition attach_sane :: "'e attach_owner \<Rightarrow> 'e attach_state \<Rightarrow> bool" where
  "attach_sane W s \<longleftrightarrow> rows_ok (aw_encode W) (aw_pools W) (at_rows s) \<and> journalled (at_rows s) (at_journal s)"

lemma apart_sym: "apart a b \<longleftrightarrow> apart b a"
  by (auto simp: apart_def)

lemma rows_new:
  assumes "rows_ok enc p rows" "k \<notin> set (dict_keys rows)" "loads enc p k r" "distinct (attach_slots r)"
    "\<And>j a. dict_get rows j = Some a \<Longrightarrow> apart a r"
  shows "rows_ok enc p (dict_set k r rows)"
  using assms apart_sym unfolding rows_ok_def by (auto split: if_splits)

lemma rows_same:
  assumes "rows_ok enc p rows" "dict_get rows k = Some r0" "loads enc p k r"
    "at_resources r = at_resources r0" "at_plan r = at_plan r0"
  shows "rows_ok enc p (dict_set k r rows)"
proof -
  have "apart a r = apart a r0" "apart r a = apart r0 a" "attach_slots r = attach_slots r0" for a
    using assms(4,5) by (simp_all add: apart_def attach_slots_def attach_wires_def)
  with assms(1-3) show ?thesis unfolding rows_ok_def by (auto split: if_splits)
qed

lemma rows_del: "rows_ok enc p rows \<Longrightarrow> rows_ok enc p (dict_del k rows)"
  unfolding rows_ok_def by (auto split: if_splits)

lemma text_row_get [simp]: "dict_get (text_row_put k v t) j = (if j = k then Some v else dict_get t j)"
  by (auto simp: text_row_put_def map_add_def split: option.split)

lemma text_row_ok [simp]: "dict_ok t \<Longrightarrow> dict_ok (text_row_put k v t)"
  by (simp add: text_row_put_def dict_ok_def delete_keys distinct_removeAll)

lemma journalled_put: "journalled rows j \<Longrightarrow> journalled (dict_set k r rows) (text_row_put k (record_value r) j)"
  by (simp add: journalled_def)

lemma journalled_del: "journalled rows j \<Longrightarrow> journalled (dict_del k rows) (dict_del k j)"
  by (simp add: journalled_def)

lemma distinct_parts:
  assumes "dict_ok d" "\<And>k r. dict_get d k = Some r \<Longrightarrow> distinct (f r)"
    "\<And>j k a b. j \<noteq> k \<Longrightarrow> dict_get d j = Some a \<Longrightarrow> dict_get d k = Some b \<Longrightarrow> set (f a) \<inter> set (f b) = {}"
  shows "distinct (concat (map (\<lambda>(_, r). f r) d))"
  using assms
proof (induction d)
  case (Cons x d)
  obtain k r where x: "x = (k, r)" by (cases x)
  from Cons.prems(1) have d: "dict_ok d" "dict_get d k = None"
    by (auto simp: x dict_ok_def dict_get_None)
  then have get: "dict_get (x # d) j = Some a" if "dict_get d j = Some a" for j a
    using that by (auto simp: x)
  have "distinct (concat (map (\<lambda>(_, r). f r) d))"
    using Cons.prems(2,3) by (intro Cons.IH d(1)) (blast intro: get)+
  moreover have "set (f r) \<inter> set (f b) = {}" if "(j, b) \<in> set d" for j b
  proof -
    from that d have "dict_get d j = Some b" "j \<noteq> k" by (auto simp: dict_items_get)
    with Cons.prems(3) [of k j r b] get show ?thesis by (simp add: x)
  qed
  ultimately show ?case using Cons.prems(2) [of k r] by (auto simp: x)
qed simp

section \<open>Every operation keeps the books\<close>

abbreviation book_is :: "(string \<times> pyval) list \<times> (string \<times> attachment) list \<times> bool \<Rightarrow> 'e attach_state \<Rightarrow> bool" where
  "book_is B s \<equiv> (at_journal s, at_rows s, at_recovery s) = B"

lemma book_io: "pres (book_is B) (at_io m)"
  unfolding at_io_def by (rule pres_zoom) simp

lemma book_tables:
  "pres (book_is B) (attach_current W name plan msg)" "pres (book_is B) (install_item W name plan item)"
  "pres (book_is B) (check_item W item)" "pres (book_is B) (remove_item W r item)"
  "pres (book_is B) (no_open_transaction W text)" "pres (book_is B) (attach_snapshot W name)"
  "pres (book_is B) (attach_alloc W kind n used found pool)"
proof -
  show now: "pres (book_is B) (attach_current W name plan msg)" for name plan msg
    unfolding attach_current_def by (intro pres_intros book_io)
  show "pres (book_is B) (install_item W name plan item)"
    unfolding install_item_def by (intro pres_intros book_io now)
  show check: "pres (book_is B) (check_item W item)" for item
    unfolding check_item_def by (intro pres_intros book_io)
  show "pres (book_is B) (remove_item W r item)"
    unfolding remove_item_def by (intro pres_intros book_io)
  show "pres (book_is B) (no_open_transaction W text)"
    unfolding no_open_transaction_def by (intro pres_intros)
  show "pres (book_is B) (attach_snapshot W name)"
    unfolding attach_snapshot_def by (intro pres_intros now check)
  show "pres (book_is B) (attach_alloc W kind n used found pool)"
    by (induction pool arbitrary: found) (auto intro!: pres_intros book_io)
qed

lemma sane_flag [simp]:
  "attach_sane W (s\<lparr>at_recovery := b\<rparr>) = attach_sane W s" "attach_sane W (s\<lparr>at_env := e\<rparr>) = attach_sane W s"
  by (simp_all add: attach_sane_def)

lemma book_pres:
  assumes "\<And>B. pres (book_is B) c"
    and "\<And>s s'. at_journal s' = at_journal s \<Longrightarrow> at_rows s' = at_rows s \<Longrightarrow> at_recovery s' = at_recovery s \<Longrightarrow> I s \<Longrightarrow> I s'"
  shows "pres I c"
  by (rule presI) (use pres_snd [OF assms(1) refl] assms(2) in force)

lemma sane_book: "(\<And>B. pres (book_is B) c) \<Longrightarrow> pres (attach_sane W) c"
  by (rule book_pres) (simp_all add: attach_sane_def)

lemma attach_save_wp:
  "wp (attach_save W k r)
     (\<lambda>_ s'. at_journal s' = text_row_put k (record_value r) (at_journal s) \<and> at_rows s' = dict_set k r (at_rows s) \<and>
        at_recovery s' = at_recovery s)
     (\<lambda>_ s'. at_journal s' = at_journal s \<and> at_rows s' = at_rows s) s"
proof -
  have io: "wp (at_io m) (\<lambda>_ s'. \<exists>e. s' = s1\<lparr>at_env := e\<rparr>) (\<lambda>_ s'. \<exists>e. s' = s1\<lparr>at_env := e\<rparr>) s1" for m :: "('a, 'c) py" and s1
    by (auto simp: at_io_def wp_def zoom_def split: prod.split sum.split)
  show ?thesis
    unfolding attach_save_def attach_fencing_def no_open_transaction_def wp_thn wp_catch_all wp_bnd wp_gets wp_ensure wp_upd wp_raise
    by (auto intro!: wp_mono [OF io])
qed

lemma sane_save:
  assumes "rows_ok (aw_encode W) (aw_pools W) (dict_set k r (at_rows s))" "attach_sane W s"
  shows "wp (attach_save W k r) (\<lambda>_ s'. attach_sane W s' \<and> dict_get (at_rows s') k = Some r \<and> at_recovery s' = at_recovery s)
     (\<lambda>_. attach_sane W) s"
  by (rule wp_mono [OF attach_save_wp]) (use assms in \<open>auto simp: attach_sane_def journalled_put\<close>)

lemma sane_fencing:
  assumes "wp c Q (\<lambda>_. attach_sane W) s"
  shows "wp (attach_fencing c) Q (\<lambda>_. attach_sane W) s"
  unfolding attach_fencing_def by (rule wp_catch_allI [OF assms]) (simp_all add: wp_simps)

lemma sane_release: "pres (attach_sane W) (attach_release W who)"
proof -
  have body: "wp (release_row W k r) (\<lambda>_. attach_sane W) (\<lambda>_. attach_sane W) s"
    if s: "attach_sane W s" "dict_get (at_rows s) k = Some r" for s k r
  proof -
    let ?I = "\<lambda>s'. attach_sane W s' \<and> dict_get (at_rows s') k = Some r"
    have keep: "pres ?I c" if "\<And>B. pres (book_is B) c" for c :: "('a attach_state, 'c) py"
      by (rule book_pres [OF that]) (simp_all add: attach_sane_def)
    have del: "pres (attach_sane W) (thn (upd (\<lambda>s. s\<lparr>at_journal := dict_del k (at_journal s)\<rparr>))
        (upd (\<lambda>s. s\<lparr>at_rows := dict_del k (at_rows s)\<rparr>)))"
      by (auto simp: pres_wp wp_simps attach_sane_def rows_del journalled_del)
    have rest: "pres (attach_sane W) (thn (for_each (rev (at_resources r)) (remove_item W r))
        (thn (no_open_transaction W ''Attachment removal requires durable transaction'') (thn (at_io (aw_commit W))
          (thn (upd (\<lambda>s. s\<lparr>at_journal := dict_del k (at_journal s)\<rparr>)) (upd (\<lambda>s. s\<lparr>at_rows := dict_del k (at_rows s)\<rparr>))))))"
      by (intro pres_thn [OF _ pres_thn [OF _ pres_thn [OF _ del]]] pres_for_each sane_book book_io book_tables)
    have removing: "rows_ok (aw_encode W) (aw_pools W) (dict_set k (r\<lparr>at_state := ''removing''\<rparr>) (at_rows s'))" if "?I s'" for s'
      using that by (intro rows_same) (auto simp: attach_sane_def rows_ok_def attach_states_def intro: loads_state)
    have tail: "wp (thn (attach_save W k (r\<lparr>at_state := ''removing''\<rparr>)) (thn (for_each (rev (at_resources r)) (remove_item W r))
        (thn (no_open_transaction W ''Attachment removal requires durable transaction'') (thn (at_io (aw_commit W))
          (thn (upd (\<lambda>s. s\<lparr>at_journal := dict_del k (at_journal s)\<rparr>)) (upd (\<lambda>s. s\<lparr>at_rows := dict_del k (at_rows s)\<rparr>)))))))
        (\<lambda>_. attach_sane W) (\<lambda>_. attach_sane W) s'" if "?I s'" for s'
      by (rule wp_thnI [OF sane_save [OF removing [OF that]]]) (use that in \<open>auto intro: wp_pres [OF rest]\<close>)
    have drain: "wp (bnd (at_io (aw_drain W k)) f) (\<lambda>_. attach_sane W) (\<lambda>_. attach_sane W) s'"
      if "?I s'" "\<And>x s'. ?I s' \<Longrightarrow> wp (f x) (\<lambda>_. attach_sane W) (\<lambda>_. attach_sane W) s'" for s' f
      by (rule wp_bndI [OF wp_pres [OF keep [OF book_io] that(1)]]) (use that(2) in auto)
    have withdraw: "wp (bnd (at_io (aw_withdraw W k)) f) (\<lambda>_. attach_sane W) (\<lambda>_. attach_sane W) s"
      if "\<And>x s'. ?I s' \<Longrightarrow> wp (f x) (\<lambda>_. attach_sane W) (\<lambda>_. attach_sane W) s'" for f
      by (rule wp_bndI [OF wp_pres [OF keep [OF book_io]]]) (use that s in auto)
    show ?thesis
      unfolding release_row_def by (intro withdraw drain wp_ensureI tail) auto
  qed
  have "wp (attach_release W who) (\<lambda>_. attach_sane W) (\<lambda>_. attach_sane W) s" if "attach_sane W s" for s
    using that unfolding attach_release_def wp_bnd wp_lift_res wp_gets wp_option wp_ret
    by (auto split: sum.split option.split intro!: sane_fencing body)
  then show ?thesis by (simp add: pres_wp)
qed

lemma sane_recover: "pres (attach_sane W) (attach_recover W)"
  unfolding attach_recover_def by (intro pres_intros pres_upd sane_release) simp_all

lemma sane_reconcile: "pres (attach_sane W) (attach_reconcile W)"
  unfolding attach_reconcile_def by (intro pres_intros sane_recover sane_release sane_book book_tables)

text \<open>Allocation and the resources of a new attachment.\<close>

lemma attach_alloc_wp:
  assumes "distinct (found @ pool)" "length found < n" "set found \<inter> set used = {}"
  shows "wp (attach_alloc W kind n used found pool)
     (\<lambda>xs s'. length xs = n \<and> distinct xs \<and> set xs \<inter> set used = {}) (\<lambda>_ _. True) s"
  using assms
proof (induction pool arbitrary: found s)
  case (Cons i pool)
  have ih: "wp (attach_alloc W kind n used found pool)
     (\<lambda>xs s'. length xs = n \<and> distinct xs \<and> set xs \<inter> set used = {}) (\<lambda>_ _. True) s1" for s1
    by (rule Cons.IH) (use Cons.prems in auto)
  have onward: "wp (attach_alloc W kind n used (found @ [i]) pool)
     (\<lambda>xs s'. length xs = n \<and> distinct xs \<and> set xs \<inter> set used = {}) (\<lambda>_ _. True) s1"
    if "i \<notin> set used" "length found + 1 \<noteq> n" for s1
    by (rule Cons.IH) (use Cons.prems that in auto)
  show ?case
    using ih onward Cons.prems
    by (auto simp: wp_bnd wp_if wp_ret intro!: wp_bndI [where P = "\<lambda>_ _. True" and E' = "\<lambda>_ _. True", unfolded wp_bnd])
qed (simp add: wp_simps)

lemma attach_used_slots: "i \<in> set (attach_used kind rows) \<longleftrightarrow> (\<exists>(k, r) \<in> set rows. (kind, i) \<in> set (attach_slots r))"
  by (force simp: attach_used_def attach_slots_def)

definition attach_pools_ok :: "attach_pools \<Rightarrow> bool" where
  "attach_pools_ok p \<longleftrightarrow> distinct (ap_lif p) \<and> distinct (ap_lef p)"

lemma attach_allocate_wp:
  assumes "attach_pools_ok (aw_pools W)" "0 < n"
  shows "wp (attach_allocate W kind n)
     (\<lambda>xs s'. book_is (at_journal s, at_rows s, at_recovery s) s' \<and> length xs = n \<and> distinct xs \<and>
        (\<forall>k r i. dict_get (at_rows s) k = Some r \<longrightarrow> i \<in> set xs \<longrightarrow> (kind, i) \<notin> set (attach_slots r)))
     (\<lambda>_ s'. book_is (at_journal s, at_rows s, at_recovery s) s') s"
proof -
  let ?B = "(at_journal s, at_rows s, at_recovery s)" and ?u = "attach_used kind (at_rows s)"
  have pool: "distinct ([] @ attach_pool (aw_pools W) kind)"
    using assms(1) by (simp add: attach_pools_ok_def attach_pool_def)
  have "wp (attach_alloc W kind n ?u [] (attach_pool (aw_pools W) kind))
      (\<lambda>xs s'. (length xs = n \<and> distinct xs \<and> set xs \<inter> set ?u = {}) \<and> book_is ?B s') (\<lambda>_ s'. True \<and> book_is ?B s') s"
    unfolding wp_conj by (intro conjI attach_alloc_wp wp_pres [OF book_tables(7)]) (use pool assms(2) in auto)
  then show ?thesis
    unfolding attach_allocate_def wp_bnd wp_gets
    by (rule wp_mono) (auto simp: attach_used_slots disjoint_iff dest!: map_of_SomeD)
qed

lemma new_resources_slots:
  assumes "new_resources enc plan lefs lifs = Inr rs" "length lefs = length (plan_ports plan)" "length lifs = length (plan_ports plan)"
  shows "map (\<lambda>i. (ar_kind i, ar_index i)) rs = map (Pair ''lef'') lefs @ map (Pair ''lif'') lifs"
proof -
  have gen: "map (\<lambda>i. (ar_kind i, ar_index i)) rs = map2 (\<lambda>i (k, p). (k, i)) xs ks"
    if "rcollect (zip xs ks) (\<lambda>(i, kind, p). rbnd (enc plan p) (\<lambda>n.
        Inr \<lparr>ar_kind = kind, ar_index = i, ar_port = PInt p, ar_data = native_of kind n\<rparr>)) = Inr rs" for xs ks
    using that by (induction xs ks arbitrary: rs rule: list_induct2') (auto simp: res_iffs split: prod.splits)
  have kinds: "map2 (\<lambda>i (k, p). (k, i)) xs (map (Pair kind) ps) = map (Pair kind) xs" if "length xs = length ps"
    for xs :: "int list" and kind :: string and ps :: "int list"
    using that by (induction xs ps rule: list_induct2) auto
  show ?thesis
    using gen [OF assms(1) [unfolded new_resources_def]] assms(2,3) by (simp add: kinds_of_def kinds)
qed

lemma no_conflict_apart:
  assumes "\<not> wire_conflict plan a" "loads enc p k a" "check_attach_plan plan = Inr ()"
    "set (attach_slots a) \<inter> set (attach_slots r) = {}" "at_plan r = plan"
  shows "apart a r"
proof -
  have "is_int (py_get q ''vlan'')" if "check_attach_plan q = Inr ()" for q
    using that by (simp add: check_attach_plan_def res_iffs int_in_def)
  from this [OF assms(3)] this [of "at_plan a"] loads_plan [OF assms(2)] assms(1,4,5) show ?thesis
    by (cases "py_get plan ''vlan''"; cases "py_get (at_plan a) ''vlan''") (auto simp: apart_def attach_wires_def wire_conflict_def)
qed

lemma sane_acquire:
  assumes "attach_pools_ok (aw_pools W)"
  shows "pres (attach_sane W) (attach_acquire W who plan)"
proof -
  let ?p = "aw_pools W" and ?e = "aw_encode W"
  have finish: "wp (thn (attach_save W k r) (install_all W k r)) (\<lambda>_. attach_sane W) (\<lambda>_. attach_sane W) s"
    if "attach_sane W s" "rows_ok ?e ?p (dict_set k r (at_rows s))" for s k r
  proof (rule wp_thnI [OF sane_save [OF that(2,1)]])
    let ?I = "\<lambda>s'. attach_sane W s' \<and> dict_get (at_rows s') k = Some r"
    fix x s1 assume "attach_sane W s1 \<and> dict_get (at_rows s1) k = Some r \<and> at_recovery s1 = at_recovery s"
    then have s1: "?I s1" by simp
    have keep: "pres ?I c" if "\<And>B. pres (book_is B) c" for c :: "('a attach_state, 'c) py"
      by (rule book_pres [OF that]) (simp_all add: attach_sane_def)
    have ready: "rows_ok ?e ?p (dict_set k (r\<lparr>at_state := ''ready''\<rparr>) (at_rows s'))" if "?I s'" for s'
      using that by (intro rows_same) (auto simp: attach_sane_def rows_ok_def attach_states_def intro: loads_state)
    have fin: "wp (thn (attach_save W k (r\<lparr>at_state := ''ready''\<rparr>)) (attach_snapshot W k))
        (\<lambda>_. attach_sane W) (\<lambda>_. attach_sane W) s'" if "?I s'" for s'
      by (rule wp_thnI [OF sane_save [OF ready [OF that]]]) (use that in \<open>auto intro: wp_pres [OF sane_book [OF book_tables(6)]]\<close>)
    show "wp (install_all W k r) (\<lambda>_. attach_sane W) (\<lambda>_. attach_sane W) s1"
      unfolding install_all_def
      by (intro sane_fencing wp_thnI [OF wp_pres [OF keep [OF pres_for_each]] wp_thnI [OF wp_pres [OF keep] fin]] book_tables s1) auto
  qed simp
  have alloc: "wp (bnd (attach_allocate W ''lef'' n) (\<lambda>lefs. bnd (attach_allocate W ''lif'' n) (\<lambda>lifs.
      bnd (lift_res (new_resources ?e plan lefs lifs)) (\<lambda>rs. let r = \<lparr>at_boot = aw_boot W, at_state = ''installing'', at_plan = plan, at_resources = rs\<rparr> in
      thn (lift_res (validate_attachment ?e ?p name (record_value r))) (thn (attach_save W name r) (install_all W name r))))))
      (\<lambda>_. attach_sane W) (\<lambda>_. attach_sane W) s"
    if s: "attach_sane W s" "name \<notin> set (dict_keys (at_rows s))" "\<not> list_ex (wire_conflict plan) (map snd (at_rows s))"
      "check_attach_plan plan = Inr ()" "n = length (plan_ports plan)" for s n name
  proof (rule wp_bndI [OF attach_allocate_wp [OF assms]], goal_cases)
    case 1
    from s(4,5) show ?case by (auto simp: check_attach_plan_def res_iffs plan_ports_def Let_def)
  next
    case (2 lefs s1)
    note left = this
    show ?case
    proof (rule wp_bndI [OF attach_allocate_wp [OF assms]], goal_cases)
      case 1
      from s(4,5) show ?case by (auto simp: check_attach_plan_def res_iffs plan_ports_def Let_def)
    next
      case (2 lifs s2)
      have s2: "attach_sane W s2" "at_rows s2 = at_rows s" "at_rows s1 = at_rows s"
        using left 2 s(1) by (auto simp: attach_sane_def)
      have "rows_ok ?e ?p (dict_set name r (at_rows s2))"
        if r: "new_resources ?e plan lefs lifs = Inr rs" "validate_attachment ?e ?p name (record_value r) = Inr r'"
          "r = \<lparr>at_boot = aw_boot W, at_state = ''installing'', at_plan = plan, at_resources = rs\<rparr>" for rs r r'
      proof (rule rows_new)
        have slots: "attach_slots r = map (Pair ''lef'') lefs @ map (Pair ''lif'') lifs"
          using new_resources_slots [OF r(1)] left 2 s(5) by (simp add: attach_slots_def r(3))
        then show "distinct (attach_slots r)" using left 2 by (auto simp: distinct_map inj_on_def)
        show "apart a r" if "dict_get (at_rows s2) j = Some a" for j a
        proof (rule no_conflict_apart [OF _ _ s(4)])
          have a: "dict_get (at_rows s) j = Some a" using that s2 by simp
          then show "\<not> wire_conflict plan a" using s(3) by (force simp: list_ex_iff dest: map_of_SomeD)
          show "loads ?e ?p j a" using a s(1) by (auto simp: attach_sane_def rows_ok_def)
          show "set (attach_slots a) \<inter> set (attach_slots r) = {}" using left 2 a s2(3) unfolding slots by auto
        qed (simp add: r(3))
      qed (use s2 s(2) validate_loads [OF r(2)] in \<open>auto simp: attach_sane_def\<close>)
      then show ?case
        unfolding Let_def by (intro wp_steps finish) (use s2(1) in auto)
    qed (use left s(1) in \<open>auto simp: attach_sane_def\<close>)
  qed (use s(1) in \<open>auto simp: attach_sane_def\<close>)
  have "wp (attach_acquire W who plan) (\<lambda>_. attach_sane W) (\<lambda>_. attach_sane W) s" if s: "attach_sane W s" for s
  proof -
    let ?B = "(at_journal s, at_rows s, at_recovery s)"
    have now: "wp (thn (attach_current W name plan msg) c) (\<lambda>_. attach_sane W) (\<lambda>_. attach_sane W) s"
      if "\<And>s'. at_journal s' = at_journal s \<Longrightarrow> at_rows s' = at_rows s \<Longrightarrow> wp c (\<lambda>_. attach_sane W) (\<lambda>_. attach_sane W) s'"
      for c :: "('a attach_state, pyval) py" and name msg
      by (rule wp_thnI [OF wp_pres [OF book_tables(1) [of ?B]]]) (use that s in \<open>auto simp: attach_sane_def\<close>)
    show ?thesis
      unfolding attach_acquire_def
      by (intro wp_steps now alloc) (use s in \<open>auto simp: attach_sane_def\<close>)
  qed
  then show ?thesis by (simp add: pres_wp)
qed

section \<open>Restarts\<close>

lemma load_rows_all:
  "load_rows enc p used j = Inr rs \<Longrightarrow> list_all2 (\<lambda>(k, b) (k', r). k' = k \<and> validate_attachment enc p k b = Inr r) j rs"
  by (induction j arbitrary: used rs) (auto simp: res_iffs)

lemma load_rows_get:
  assumes "load_rows enc p used j = Inr rs"
  shows "dict_keys rs = dict_keys j \<and>
    (\<forall>k b. dict_get j k = Some b \<longrightarrow> (\<exists>r. dict_get rs k = Some r \<and> validate_attachment enc p k b = Inr r))"
  using load_rows_all [OF assms]
  by (induction j rs rule: list_all2_induct) (auto split: prod.splits)

lemma load_rows_same:
  assumes "journalled rows j" "load_rows enc p used j = Inr rs"
  shows "dict_ok rs \<and> (\<forall>k. dict_get rs k = dict_get rows k) \<and> (\<forall>k r. dict_get rs k = Some r \<longrightarrow> loads enc p k r)"
proof (intro conjI allI impI)
  note get = load_rows_get [OF assms(2)]
  show "dict_ok rs" using get assms(1) by (simp add: journalled_def dict_ok_def)
  fix k
  have j: "dict_get j k = map_option record_value (dict_get rows k)" using assms(1) by (simp add: journalled_def)
  have None_iff: "dict_get rs k = None \<longleftrightarrow> dict_get j k = None"
    using get unfolding dict_get_None by simp
  show same: "dict_get rs k = dict_get rows k"
  proof (cases "dict_get rows k")
    case None
    then show ?thesis using j None_iff by simp
  next
    case (Some r)
    with j get obtain r' where "dict_get rs k = Some r'" "validate_attachment enc p k (record_value r) = Inr r'" by auto
    with Some show ?thesis by (simp add: validate_value)
  qed
  show "loads enc p k r" if "dict_get rs k = Some r" for r
  proof -
    have "dict_get j k = Some (record_value r)" using that same j by simp
    with get that show ?thesis unfolding loads_def by (metis option.inject)
  qed
qed

lemma restart_rows:
  assumes "rows_ok enc p0 rows" "journalled rows j" "load_rows enc p used j = Inr rs"
  shows "rows_ok enc p rs \<and> journalled rs j"
  using load_rows_same [OF assms(2,3)] assms(1,2) by (auto simp: rows_ok_def journalled_def)

lemma load_rows_back:
  assumes "list_all (\<lambda>(k, r). loads enc p k r) rs" "distinct (concat (map (\<lambda>(_, r). attach_slots r) rs))"
    "set (concat (map (\<lambda>(_, r). attach_slots r) rs)) \<inter> set used = {}"
  shows "load_rows enc p used (map (\<lambda>(k, r). (k, record_value r)) rs) = Inr rs"
  using assms
proof (induction rs arbitrary: used)
  case (Cons x rs)
  obtain k r where x: "x = (k, r)" by (cases x)
  let ?C = "concat (map (\<lambda>(_, r). attach_slots r) rs)"
  have "set (attach_slots r @ ?C) \<inter> set used = {}" "distinct ?C" "set (attach_slots r) \<inter> set ?C = {}"
    using Cons.prems(2,3) by (simp_all add: x del: set_concat)
  then have "load_rows enc p (used @ attach_slots r) (map (\<lambda>(k, r). (k, record_value r)) rs) = Inr rs"
    using Cons.prems(1) by (intro Cons.IH) (simp_all add: x del: set_concat, blast)
  moreover have "distinct (attach_slots r)" "list_all (\<lambda>y. y \<notin> set used) (attach_slots r)"
    using Cons.prems(2,3) by (auto simp: x list_all_iff)
  ultimately show ?case using Cons.prems(1) by (simp add: x loads_def)
qed simp

lemma restart_loads:
  assumes "rows_ok enc p rows" "journalled rows j"
  shows "\<exists>rs. load_rows enc p [] j = Inr rs \<and> (\<forall>k. dict_get rs k = dict_get rows k)"
proof -
  let ?rs = "map (\<lambda>(k, b). (k, the (dict_get rows k))) j"
  have get: "dict_get rows k \<noteq> None \<and> b = record_value (the (dict_get rows k))" if "(k, b) \<in> set j" for k b
    using that assms(2) by (auto simp: journalled_def dict_items_get)
  have j: "map (\<lambda>(k, r). (k, record_value r)) ?rs = j"
    using get by (auto simp: comp_def intro!: map_idI)
  have ok: "dict_ok ?rs"
    using assms(2) by (simp add: journalled_def dict_ok_def split_def comp_def)
  have rs: "dict_get ?rs k = dict_get rows k" for k
  proof -
    have "dict_get ?rs k = (if k \<in> set (dict_keys j) then Some (the (dict_get rows k)) else None)"
      by (induction j) auto
    also have "\<dots> = dict_get rows k"
    proof (cases "dict_get rows k")
      case None
      then have "dict_get j k = None" using assms(2) by (simp add: journalled_def)
      then have "k \<notin> set (dict_keys j)" unfolding dict_get_None .
      with None show ?thesis by simp
    next
      case (Some r)
      then have "dict_get j k = Some (record_value r)" using assms(2) by (simp add: journalled_def)
      then have "k \<in> set (dict_keys j)" using dict_keys_get [of k j] by blast
      with Some show ?thesis by simp
    qed
    finally show ?thesis .
  qed
  have "load_rows enc p [] (map (\<lambda>(k, r). (k, record_value r)) ?rs) = Inr ?rs"
  proof (rule load_rows_back)
    show "list_all (\<lambda>(k, r). loads enc p k r) ?rs"
    proof (unfold list_all_iff, clarify)
      fix k r assume "(k, r) \<in> set ?rs"
      then have "dict_get rows k = Some r" using ok rs dict_items_get [of ?rs k r] by metis
      then show "loads enc p k r" using assms(1) by (simp add: rows_ok_def)
    qed
    show "distinct (concat (map (\<lambda>(_, r). attach_slots r) ?rs))"
      by (rule distinct_parts [OF ok]) (use assms(1) in \<open>auto simp: rs rows_ok_def apart_def\<close>)
  qed simp
  then have "load_rows enc p [] j = Inr ?rs" unfolding j .
  with rs show ?thesis by blast
qed

text \<open>
  The life of an attachment owner: a first start on an empty journal, operations in any order,
  each ending anywhere, steps of the rest of the system, and restarts that load the journal,
  after another boot or with other commissioned pools.
\<close>

inductive attach_run :: "'e attach_owner \<Rightarrow> 'e attach_state \<Rightarrow> bool" where
  attach_start: "attach_init (aw_encode W) pools boot open_txn sync [] env = Inr (aw_pools W, aw_boot W, s) \<Longrightarrow> attach_run W s"
| attach_acquires: "attach_run W s \<Longrightarrow> attach_run W (snd (attach_acquire W who plan s))"
| attach_releases: "attach_run W s \<Longrightarrow> attach_run W (snd (attach_release W who s))"
| attach_recovers: "attach_run W s \<Longrightarrow> attach_run W (snd (attach_recover W s))"
| attach_reconciles: "attach_run W s \<Longrightarrow> attach_run W (snd (attach_reconcile W s))"
| attach_other: "attach_run W s \<Longrightarrow> attach_run W (s\<lparr>at_env := e\<rparr>)"
| attach_restart: "attach_run W s \<Longrightarrow> attach_init (aw_encode W) pools boot open_txn sync (at_journal s) env = Inr (p, b, s') \<Longrightarrow>
    attach_run (W\<lparr>aw_pools := p, aw_boot := b\<rparr>) s'"

lemma attach_init_pools:
  "attach_init enc pools boot t sync j env = Inr (p, b, s) \<Longrightarrow>
   attach_pools_ok p \<and> at_journal s = j \<and> load_rows enc p [] j = Inr (at_rows s) \<and> at_recovery s = (j \<noteq> [])"
  by (auto simp: attach_init_def check_attach_pool_def Let_def res_iffs attach_pools_ok_def)

lemma attach_run_sane: "attach_run W s \<Longrightarrow> attach_pools_ok (aw_pools W) \<and> attach_sane W s"
proof (induction rule: attach_run.induct)
  case (attach_start W pools boot t sync env s)
  from attach_init_pools [OF this] show ?case
    by (auto simp: attach_sane_def rows_ok_def journalled_def)
next
  case (attach_restart W s pools boot t sync env p b s')
  then show ?case
    using attach_init_pools [OF attach_restart.hyps(2)] restart_rows [of "aw_encode W" "aw_pools W" "at_rows s" "at_journal s" p "[]" "at_rows s'"]
    by (simp add: attach_sane_def)
qed (auto intro: pres_snd [OF sane_acquire] pres_snd [OF sane_release] pres_snd [OF sane_recover] pres_snd [OF sane_reconcile])

text \<open>
  C16.  Over any life of the attachment owner (acquisitions, releases, recoveries and
  reconciliations, each failing anywhere, and restarts that load the journal), no ingress port and
  VLAN belongs to two attachments, no table slot is held twice, and a restart on the journal loads
  exactly the attachments held.
\<close>

theorem attachments_exclusive:
  assumes "attach_run W s"
  shows "distinct (concat (map (\<lambda>(_, r). attach_wires r) (at_rows s))) \<and>
    distinct (concat (map (\<lambda>(_, r). attach_slots r) (at_rows s))) \<and>
    (\<exists>rows. load_rows (aw_encode W) (aw_pools W) [] (at_journal s) = Inr rows \<and> (\<forall>k. dict_get rows k = dict_get (at_rows s) k))"
proof -
  have ok: "rows_ok (aw_encode W) (aw_pools W) (at_rows s)" "journalled (at_rows s) (at_journal s)"
    using attach_run_sane [OF assms] by (simp_all add: attach_sane_def)
  then have get: "dict_ok (at_rows s)" "\<And>k r. dict_get (at_rows s) k = Some r \<Longrightarrow> loads (aw_encode W) (aw_pools W) k r \<and> distinct (attach_slots r)"
    "\<And>j k a b. j \<noteq> k \<Longrightarrow> dict_get (at_rows s) j = Some a \<Longrightarrow> dict_get (at_rows s) k = Some b \<Longrightarrow> apart a b"
    by (auto simp: rows_ok_def)
  have wires: "distinct (attach_wires r)" if "check_attach_plan (at_plan r) = Inr ()" for r
  proof -
    have "map the_int (the_list (py_get (at_plan r) ''ports'')) = sort (remdups (map the_int (the_list (py_get (at_plan r) ''ports''))))"
      using that by (simp add: check_attach_plan_def Let_def res_iffs)
    then have "distinct (plan_ports (at_plan r))"
      unfolding plan_ports_def by (metis distinct_remdups distinct_sort)
    then show ?thesis by (simp add: attach_wires_def distinct_map inj_on_def)
  qed
  show ?thesis
  proof (intro conjI)
    show "distinct (concat (map (\<lambda>(_, r). attach_wires r) (at_rows s)))"
      by (rule distinct_parts [OF get(1)]) (use get(2,3) in \<open>auto simp: apart_def intro: wires conjunct1 [OF loads_plan]\<close>)
    show "distinct (concat (map (\<lambda>(_, r). attach_slots r) (at_rows s)))"
      by (rule distinct_parts [OF get(1)]) (use get(2,3) in \<open>auto simp: apart_def\<close>)
    show "\<exists>rows. load_rows (aw_encode W) (aw_pools W) [] (at_journal s) = Inr rows \<and> (\<forall>k. dict_get rows k = dict_get (at_rows s) k)"
      by (rule restart_loads [OF ok])
  qed
qed

text \<open>
  C18.  Every attachment held at any time is well formed: a valid name and state, a plan that passes
  the plan check for that very interface, and one egress and one ingress slot per port, each in
  its commissioned pool.
\<close>

theorem attachments_well_formed:
  assumes "attach_run W s"
  shows "list_all (\<lambda>(name, r). name_text name \<and> at_state r \<in> set attach_states \<and> check_attach_plan (at_plan r) = Inr () \<and>
     py_get (at_plan r) ''interface'' = PStr name \<and> map ar_kind (at_resources r) = map fst (kinds_of (at_plan r)) \<and>
     list_all (\<lambda>(kind, i). i \<in> set (attach_pool (aw_pools W) kind)) (attach_slots r)) (at_rows s)"
proof (unfold list_all_iff, clarify)
  fix name r assume "(name, r) \<in> set (at_rows s)"
  then have r: "loads (aw_encode W) (aw_pools W) name r"
    using attach_run_sane [OF assms] by (auto simp: attach_sane_def rows_ok_def dict_items_get)
  then show "name_text name \<and> at_state r \<in> set attach_states \<and> check_attach_plan (at_plan r) = Inr () \<and>
     py_get (at_plan r) ''interface'' = PStr name \<and> map ar_kind (at_resources r) = map fst (kinds_of (at_plan r)) \<and>
     (\<forall>(kind, i) \<in> set (attach_slots r). i \<in> set (attach_pool (aw_pools W) kind))"
    using loads_slots [OF r] loads_kinds [OF r] by (auto simp: loads_def validate_value)
qed

section \<open>What a release deletes\<close>

text \<open>
  The tables behind the owner: a read returns the entry of its slot and changes nothing, a delete
  touches its own slot only, and the callbacks and commits leave the tables alone.
\<close>

definition tables_behave :: "'e attach_owner \<Rightarrow> ('e \<Rightarrow> string \<times> int \<Rightarrow> bytes option) \<Rightarrow> bool" where
  "tables_behave W tab \<longleftrightarrow>
     (\<forall>kind i e. aw_fetch W kind i e = (Inr (tab e (kind, i)), e)) \<and>
     (\<forall>kind i e x. x \<noteq> (kind, i) \<longrightarrow> tab (snd (aw_delete W kind i e)) x = tab e x) \<and>
     (\<forall>e. tab (snd (aw_commit W e)) = tab e) \<and>
     (\<forall>name e. tab (snd (aw_withdraw W name e)) = tab e \<and> tab (snd (aw_drain W name e)) = tab e)"

definition acknowledged :: "'e attach_owner \<Rightarrow> string \<Rightarrow> 'e \<Rightarrow> bool" where
  "acknowledged W name e \<longleftrightarrow> fst (aw_withdraw W name e) = Inr (PBool True) \<and>
     fst (aw_drain W name (snd (aw_withdraw W name e))) = Inr (PBool True)"

definition own_entry :: "'e attach_owner \<Rightarrow> attachment \<Rightarrow> (string \<times> int \<Rightarrow> bytes option) \<Rightarrow> string \<times> int \<Rightarrow> bool" where
  "own_entry W r t x \<longleftrightarrow> at_boot r = aw_boot W \<and> (\<exists>i \<in> set (at_resources r). x = (ar_kind i, ar_index i) \<and> t x = Some (ar_data i))"

lemma wp_at_io: "wp (at_io m) Q E s = wp m (\<lambda>x e. Q x (s\<lparr>at_env := e\<rparr>)) (\<lambda>x e. E x (s\<lparr>at_env := e\<rparr>)) (at_env s)"
  by (simp add: at_io_def wp_zoom)

lemma wp_fetch:
  "tables_behave W tab \<Longrightarrow> wp (at_io (aw_fetch W kind i)) Q E s = Q (tab (at_env s) (kind, i)) s"
  unfolding wp_at_io by (simp add: wp_def [of "aw_fetch W kind i"] tables_behave_def)

text \<open>The removal loop: every slot is as it was or was an entry of the attachment and is empty now.\<close>

definition left_alone :: "'e attach_owner \<Rightarrow> attachment \<Rightarrow> (string \<times> int \<Rightarrow> bytes option) \<Rightarrow> (string \<times> int \<Rightarrow> bytes option) \<Rightarrow> bool" where
  "left_alone W r t t' \<longleftrightarrow> (\<forall>x. t' x = t x \<or> t' x = None \<and> own_entry W r t x)"

lemma remove_item_steps:
  assumes "tables_behave W tab"
  shows "wp (remove_item W r i) Q E s \<longleftrightarrow>
    (case tab (at_env s) (ar_kind i, ar_index i) of None \<Rightarrow> Q () s
     | Some raw \<Rightarrow> if at_boot r = aw_boot W \<and> raw = ar_data i
         then wp (at_io (aw_delete W (ar_kind i) (ar_index i)))
           (\<lambda>_ s'. if tab (at_env s') (ar_kind i, ar_index i) = None then Q () s'
              else E (RuntimeError ''Attachment removal not acknowledged'') s') E s
         else E (RuntimeError ''Attachment ownership conflict; recovery required'') s)"
proof -
  have inner: "wp (bnd (at_io (aw_fetch W (ar_kind i) (ar_index i))) (\<lambda>again. ensure (again = None) e)) Q E =
      (\<lambda>s'. if tab (at_env s') (ar_kind i, ar_index i) = None then Q () s' else E e s')" for e
    by (rule ext) (simp only: wp_bnd wp_fetch [OF assms] wp_ensure)
  show ?thesis
    unfolding remove_item_def wp_bnd [where f = "\<lambda>actual. thn (m actual) k" for m k] wp_fetch [OF assms] wp_thn inner
    by (auto simp: wp_simps split: option.split)
qed

lemma remove_item_wp:
  fixes s :: "'e attach_state"
  assumes "tables_behave W tab" "i \<in> set (at_resources r)" "left_alone W r t (tab (at_env s))"
  shows "wp (remove_item W r i)
     (\<lambda>_ s'. left_alone W r t (tab (at_env s')) \<and> tab (at_env s') (ar_kind i, ar_index i) = None \<and>
        (\<forall>x. tab (at_env s) x = None \<longrightarrow> tab (at_env s') x = None))
     (\<lambda>_ s'. \<forall>x. tab (at_env s') x = t x \<or> own_entry W r t x) s"
proof -
  let ?x = "(ar_kind i, ar_index i)"
  have before: "tab (at_env s) x = t x \<or> own_entry W r t x" for x
    using assms(3) unfolding left_alone_def by blast
  have own: "own_entry W r t ?x" if "at_boot r = aw_boot W" "tab (at_env s) ?x = Some (ar_data i)"
  proof -
    have "t ?x = Some (ar_data i)" using that(2) assms(3) unfolding left_alone_def by (metis option.distinct(1))
    with that assms(2) show ?thesis unfolding own_entry_def by blast
  qed
  have apart: "tab (snd (aw_delete W (ar_kind i) (ar_index i) (at_env s))) x = tab (at_env s) x" if "x \<noteq> ?x" for x
    using that assms(1) unfolding tables_behave_def by blast
  have del: "wp (at_io (aw_delete W (ar_kind i) (ar_index i)))
      (\<lambda>_ s'. \<forall>x. x \<noteq> ?x \<longrightarrow> tab (at_env s') x = tab (at_env s) x) (\<lambda>_ s'. \<forall>x. x \<noteq> ?x \<longrightarrow> tab (at_env s') x = tab (at_env s) x) s"
    unfolding wp_at_io by (rule wp_effect) (use apart in force)+
  show ?thesis
    unfolding remove_item_steps [OF assms(1)]
  proof (cases "tab (at_env s) ?x", goal_cases)
    case 1
    with assms(3) show ?case by simp
  next
    case (2 raw)
    show ?case
    proof (cases "at_boot r = aw_boot W \<and> raw = ar_data i")
      case True
      have same: "tab (at_env s') x = tab (at_env s) x \<or> own_entry W r t ?x \<and> x = ?x"
        if "\<forall>x. x \<noteq> ?x \<longrightarrow> tab (at_env s') x = tab (at_env s) x" for s' x
        using that own True 2 by (cases "x = ?x") blast+
      have a: "left_alone W r t (tab (at_env s')) \<and> (\<forall>x. tab (at_env s) x = None \<longrightarrow> tab (at_env s') x = None)"
        if "\<forall>x. x \<noteq> ?x \<longrightarrow> tab (at_env s') x = tab (at_env s) x" "tab (at_env s') ?x = None" for s'
        using same [OF that(1)] that(2) assms(3) unfolding left_alone_def by metis
      have b: "tab (at_env s') x = t x \<or> own_entry W r t x"
        if "\<forall>x. x \<noteq> ?x \<longrightarrow> tab (at_env s') x = tab (at_env s) x" for s' x
        using same [OF that, of x] before [of x] by auto
      show ?thesis
        unfolding 2 option.case if_P [OF True]
      proof (rule wp_mono [OF del], goal_cases)
        case (1 u s')
        show ?case
        proof (cases "tab (at_env s') ?x = None")
          case True
          show ?thesis unfolding if_P [OF True] using a [OF 1 True] True by blast
        next
          case False
          show ?thesis unfolding if_not_P [OF False] using b [OF 1] by blast
        qed
      next
        case (2 e s')
        show ?case using b [OF 2] by blast
      qed
    next
      case False
      show ?thesis unfolding 2 option.case if_not_P [OF False] using before by blast
    qed
  qed
qed

lemma remove_items_wp:
  fixes s :: "'e attach_state"
  assumes "tables_behave W tab" "left_alone W r t (tab (at_env s))" "set items = set (at_resources r)"
  shows "wp (for_each items (remove_item W r))
     (\<lambda>_ s'. left_alone W r t (tab (at_env s')) \<and> (\<forall>x \<in> set (attach_slots r). tab (at_env s') x = None))
     (\<lambda>_ s'. \<forall>x. tab (at_env s') x = t x \<or> own_entry W r t x) s"
proof -
  let ?I = "\<lambda>ys (s' :: 'e attach_state). set ys \<subseteq> set (at_resources r) \<and> left_alone W r t (tab (at_env s')) \<and>
    (\<forall>i \<in> set (at_resources r). i \<notin> set ys \<longrightarrow> tab (at_env s') (ar_kind i, ar_index i) = None)"
  have "wp (for_each items (remove_item W r)) (\<lambda>_. ?I []) (\<lambda>_ s'. \<forall>x. tab (at_env s') x = t x \<or> own_entry W r t x) s"
  proof (rule wp_for_each [where I = ?I])
    fix y ys and s' :: "'e attach_state" assume I: "?I (y # ys) s'"
    then show "wp (remove_item W r y) (\<lambda>_. ?I ys) (\<lambda>_ s'. \<forall>x. tab (at_env s') x = t x \<or> own_entry W r t x) s'"
      by (intro wp_mono [OF remove_item_wp [OF assms(1), of y r t s']]) auto
  qed (use assms in auto)
  then show ?thesis
    by (rule wp_mono) (auto simp: attach_slots_def)
qed

lemma io_exact:
  "wp (at_io m) (\<lambda>x s'. fst (m (at_env s)) = Inr x \<and> s' = s\<lparr>at_env := snd (m (at_env s))\<rparr>)
     (\<lambda>_ s'. s' = s\<lparr>at_env := snd (m (at_env s))\<rparr>) s"
  unfolding wp_at_io by (rule wp_effect) auto

abbreviation tab_is :: "('e \<Rightarrow> string \<times> int \<Rightarrow> bytes option) \<Rightarrow> (string \<times> int \<Rightarrow> bytes option) \<Rightarrow> 'e attach_state \<Rightarrow> bool" where
  "tab_is tab t s \<equiv> tab (at_env s) = t"

lemma tab_saves:
  assumes "tables_behave W tab"
  shows "pres (tab_is tab t) (at_io (aw_commit W))" "pres (tab_is tab t) (attach_save W k r)"
    "pres (tab_is tab t) (no_open_transaction W msg)"
proof -
  show commit: "pres (tab_is tab t) (at_io (aw_commit W))"
    unfolding pres_wp using assms by (auto intro!: wp_mono [OF io_exact] simp: tables_behave_def)
  show opened: "pres (tab_is tab t) (no_open_transaction W msg)" for msg
    unfolding no_open_transaction_def by (intro pres_intros)
  show "pres (tab_is tab t) (attach_save W k r)"
    unfolding attach_save_def attach_fencing_def by (intro pres_intros pres_upd commit opened) simp_all
qed

lemma release_row_tables:
  fixes s :: "'e attach_state"
  assumes "tables_behave W tab"
  shows "wp (release_row W name r)
     (\<lambda>_ s'. acknowledged W name (at_env s) \<and> left_alone W r (tab (at_env s)) (tab (at_env s')) \<and>
        (\<forall>x \<in> set (attach_slots r). tab (at_env s') x = None))
     (\<lambda>_ s'. \<forall>x. tab (at_env s') x = tab (at_env s) x \<or> acknowledged W name (at_env s) \<and> own_entry W r (tab (at_env s)) x) s"
    (is "wp _ (\<lambda>_ s'. _ \<and> ?Q s') ?E s")
proof -
  let ?t = "tab (at_env s)"
  have ack: "tab (snd (aw_withdraw W name e)) = tab e" "tab (snd (aw_drain W name e)) = tab e" for e
    using assms by (simp_all add: tables_behave_def)
  have finish: "wp (thn (no_open_transaction W msg) (thn (at_io (aw_commit W))
      (thn (upd (\<lambda>s. s\<lparr>at_journal := dict_del name (at_journal s)\<rparr>)) (upd (\<lambda>s. s\<lparr>at_rows := dict_del name (at_rows s)\<rparr>)))))
      (\<lambda>_. tab_is tab t) (\<lambda>_. tab_is tab t) s'" if "tab_is tab t s'" for s' t msg
    by (rule wp_pres [where I = "tab_is tab t", OF _ that]) (intro pres_thn tab_saves [OF assms] pres_upd, simp_all)
  have loop: "wp (thn (for_each (rev (at_resources r)) (remove_item W r)) (thn (no_open_transaction W msg) (thn (at_io (aw_commit W))
      (thn (upd (\<lambda>s. s\<lparr>at_journal := dict_del name (at_journal s)\<rparr>)) (upd (\<lambda>s. s\<lparr>at_rows := dict_del name (at_rows s)\<rparr>))))))
      (\<lambda>_. ?Q) (\<lambda>_ s'. \<forall>x. tab (at_env s') x = ?t x \<or> own_entry W r ?t x) s'" if "tab_is tab ?t s'" for s' msg
  proof (rule wp_thnI [OF remove_items_wp [OF assms]])
    show "left_alone W r ?t (tab (at_env s'))" using that by (simp add: left_alone_def)
    fix s1 :: "'e attach_state" assume left: "left_alone W r ?t (tab (at_env s1)) \<and> (\<forall>x \<in> set (attach_slots r). tab (at_env s1) x = None)"
    show "wp (thn (no_open_transaction W msg) (thn (at_io (aw_commit W))
      (thn (upd (\<lambda>s. s\<lparr>at_journal := dict_del name (at_journal s)\<rparr>)) (upd (\<lambda>s. s\<lparr>at_rows := dict_del name (at_rows s)\<rparr>)))))
      (\<lambda>_. ?Q) (\<lambda>_ s'. \<forall>x. tab (at_env s') x = ?t x \<or> own_entry W r ?t x) s1"
      by (rule wp_mono [OF finish [OF refl]]) (use left in \<open>auto simp: left_alone_def\<close>)
  qed auto
  have rest: "wp (thn (attach_save W name (r\<lparr>at_state := ''removing''\<rparr>)) (thn (for_each (rev (at_resources r)) (remove_item W r))
      (thn (no_open_transaction W msg) (thn (at_io (aw_commit W))
      (thn (upd (\<lambda>s. s\<lparr>at_journal := dict_del name (at_journal s)\<rparr>)) (upd (\<lambda>s. s\<lparr>at_rows := dict_del name (at_rows s)\<rparr>)))))))
      (\<lambda>_ s'. acknowledged W name (at_env s) \<and> ?Q s') ?E s'" if "tab_is tab ?t s'" "acknowledged W name (at_env s)" for s' msg
    by (rule wp_thnI [OF wp_pres [OF tab_saves(2) [OF assms] that(1)]])
      (use that(2) in \<open>auto intro!: wp_mono [OF loop]\<close>)
  show ?thesis
    unfolding release_row_def
  proof (rule wp_bndI [OF io_exact], goal_cases)
    case (1 x s1)
    show ?case
    proof (rule wp_ensureI, rule wp_bndI [OF io_exact], goal_cases)
      case (1 y s2)
      with \<open>_ \<and> s1 = _\<close> show ?case by (intro wp_ensureI rest) (auto simp: ack acknowledged_def)
    qed (use 1 in \<open>auto simp: ack\<close>)
  qed (auto simp: ack)
qed

lemma release_row_books:
  "wp (release_row W name r)
     (\<lambda>_ s'. (\<forall>k. dict_get (at_rows s') k = (if k = name then None else dict_get (at_rows s) k)) \<and>
        (\<forall>k. dict_get (at_journal s') k = (if k = name then None else dict_get (at_journal s) k)))
     (\<lambda>_ _. True) s"
proof -
  let ?I = "\<lambda>s' :: 'a attach_state. \<forall>k. k \<noteq> name \<longrightarrow> dict_get (at_rows s') k = dict_get (at_rows s) k \<and> dict_get (at_journal s') k = dict_get (at_journal s) k"
  have keep: "pres ?I c" if "\<And>B. pres (book_is B) c" for c :: "('a attach_state, 'c) py"
    by (rule book_pres [OF that]) simp_all
  have save: "pres ?I (attach_save W name r')" for r'
    unfolding pres_wp by (intro allI impI wp_mono [OF attach_save_wp]) auto
  have dels: "wp (thn (upd (\<lambda>s. s\<lparr>at_journal := dict_del name (at_journal s)\<rparr>)) (upd (\<lambda>s. s\<lparr>at_rows := dict_del name (at_rows s)\<rparr>)))
     (\<lambda>_ s'. (\<forall>k. dict_get (at_rows s') k = (if k = name then None else dict_get (at_rows s) k)) \<and>
        (\<forall>k. dict_get (at_journal s') k = (if k = name then None else dict_get (at_journal s) k))) (\<lambda>_ _. True) s'" if "?I s'" for s'
    using that by (simp add: wp_simps)
  have on: "wp (bnd m f) Q (\<lambda>_ _. True) s'" if "pres ?I m" "?I s'" "\<And>x s'. ?I s' \<Longrightarrow> wp (f x) Q (\<lambda>_ _. True) s'"
    for m :: "('a attach_state, 'c) py" and f :: "'c \<Rightarrow> ('a attach_state, unit) py" and Q s'
    by (rule wp_bndI [OF wp_pres [OF that(1,2)]]) (use that(3) in auto)
  have loop: "pres ?I (for_each (rev (at_resources r)) (remove_item W r))"
    by (intro pres_for_each keep book_tables)
  have opened: "pres ?I (no_open_transaction W msg)" for msg by (intro keep book_tables)
  show ?thesis
    unfolding release_row_def thn_def
    by (intro on [OF keep [OF book_io]] on [OF pres_ensure] on [OF save] on [OF loop] on [OF opened] dels [unfolded thn_def]) simp
qed

text \<open>
  C17.  Whatever a release of an attachment does, the only table entries it changes are entries the
  attachment itself wrote in this boot, and only after both the ingress withdrawal and the drain of
  dependents were acknowledged; when it returns, all its slots are empty and both the owner and
  the journal have forgotten exactly this attachment; when it fails, the owner is fenced.
\<close>

theorem attachment_release_exact:
  assumes "tables_behave W tab" and "dict_get (at_rows s) name = Some r" and "name_text name"
    and "attach_release W (PStr name) s = (res, s')"
  shows "(\<forall>x. tab (at_env s') x = tab (at_env s) x \<or> acknowledged W name (at_env s) \<and> own_entry W r (tab (at_env s)) x) \<and>
    (if res = Inr () then acknowledged W name (at_env s) \<and> (\<forall>x \<in> set (attach_slots r). tab (at_env s') x = None) \<and>
       (\<forall>k. dict_get (at_rows s') k = (if k = name then None else dict_get (at_rows s) k)) \<and>
       (\<forall>k. dict_get (at_journal s') k = (if k = name then None else dict_get (at_journal s) k))
     else at_recovery s')"
proof -
  have run: "attach_release W (PStr name) s = attach_fencing (release_row W name r) s"
    using assms(2,3) by (simp add: attach_release_def attach_name_def bnd_def gets_def lift_res_def)
  show ?thesis
  proof (cases "release_row W name r s")
    case (Pair res1 s1)
    show ?thesis
    proof (cases res1)
      case (Inr u)
      with Pair run assms(4) have "res = Inr ()" "s' = s1" by (simp_all add: attach_fencing_def catch_all_def)
      with wp_returns [OF release_row_tables [OF assms(1)] Pair [unfolded Inr]] wp_returns [OF release_row_books Pair [unfolded Inr]]
      show ?thesis unfolding left_alone_def by (simp only: if_True) metis
    next
      case (Inl e)
      with Pair run assms(4) have "res = Inl e" "s' = s1\<lparr>at_recovery := True\<rparr>"
        by (simp_all add: attach_fencing_def catch_all_def thn_def bnd_def upd_def raise_def)
      with wp_raises [OF release_row_tables [OF assms(1)] Pair [unfolded Inl]] show ?thesis by simp
    qed
  qed
qed

section \<open>A concrete owner\<close>

type_synonym lif_table = "((string \<times> int) \<times> bytes) list"

definition sample_attach_plan :: "string \<Rightarrow> int list \<Rightarrow> pyval" where
  "sample_attach_plan name ports = PDict [(''interface'', PStr name), (''binding_revision'', PStr (replicate 64 CHR ''0'')),
     (''zone'', PInt 7), (''vlan'', PInt 10), (''ports'', PList (map PInt ports)), (''miss_next_hop'', PInt 3)]"

definition sample_attachments :: "lif_table attach_owner" where
  "sample_attachments = \<lparr>aw_fetch = (\<lambda>k i. gets (\<lambda>t. map_of t (k, i))), aw_insert = (\<lambda>k i b. upd (dict_set (k, i) b)),
     aw_delete = (\<lambda>k i. upd (dict_del (k, i))), aw_commit = ret (), aw_open = (\<lambda>_. False),
     aw_current = (\<lambda>name. ret (sample_attach_plan name [1, 2])), aw_withdraw = (\<lambda>_. ret (PBool True)), aw_drain = (\<lambda>_. ret (PBool True)),
     aw_encode = (\<lambda>plan p. Inr \<lparr>nv_lif = [of_int p, 10, 7, 3], nv_lef = [of_int p]\<rparr>),
     aw_pools = \<lparr>ap_lif = [4, 5, 6], ap_lef = [8, 9, 10]\<rparr>, aw_boot = ''boot''\<rparr>"

definition no_attachments :: "lif_table attach_state" where
  "no_attachments = \<lparr>at_env = [], at_journal = [], at_rows = [], at_recovery = False\<rparr>"

definition mute_attachments :: "lif_table attach_owner" where
  "mute_attachments = sample_attachments\<lparr>aw_insert := (\<lambda>_ _ _. ret ())\<rparr>"

text \<open>An acquisition whose writes are lost fails at its first readback and stays in the journal.\<close>

definition interrupted :: "lif_table attach_state" where
  "interrupted = snd (attach_acquire mute_attachments (PStr ''ae1'') (sample_attach_plan ''ae1'' [1, 2]) no_attachments)"

lemma sample_plan_ok: "check_attach_plan (sample_attach_plan ''ae1'' [1, 2]) = Inr ()"
  by code_simp

lemma sample_name_ok: "attach_name (PStr ''ae1'') = Inr ''ae1''"
  by code_simp

lemma sample_slots:
  "attach_allocate mute_attachments ''lef'' 2 no_attachments = (Inr [8, 9], no_attachments)"
  "attach_allocate mute_attachments ''lif'' 2 no_attachments = (Inr [4, 5], no_attachments)"
  by code_simp+

definition pending :: attachment where
  "pending = \<lparr>at_boot = ''boot'', at_state = ''installing'', at_plan = sample_attach_plan ''ae1'' [1, 2],
     at_resources = map (\<lambda>(k, i, p, d). \<lparr>ar_kind = k, ar_index = i, ar_port = PInt p, ar_data = d\<rparr>)
       [(''lef'', 8, 1, [1]), (''lef'', 9, 2, [2]), (''lif'', 4, 1, [1, 10, 7, 3]), (''lif'', 5, 2, [2, 10, 7, 3])]\<rparr>"

lemma pending_new:
  "new_resources (aw_encode mute_attachments) (sample_attach_plan ''ae1'' [1, 2]) [8, 9] [4, 5] = Inr (at_resources pending)"
  by code_simp

lemma pending_valid:
  "validate_attachment (aw_encode mute_attachments) (aw_pools mute_attachments) ''ae1'' (record_value pending) = Inr pending"
  by code_simp

lemma sample_plan_eq: "py_eq (sample_attach_plan ''ae1'' [1, 2]) (sample_attach_plan ''ae1'' [1, 2])"
  by code_simp

lemma pending_fails:
  assumes "at_env s = []"
  shows "install_all mute_attachments ''ae1'' pending s = (Inl (RuntimeError ''Attachment readback mismatch''), s\<lparr>at_recovery := True\<rparr>)"
proof -
  have "install_item mute_attachments ''ae1'' (sample_attach_plan ''ae1'' [1, 2]) item s = (Inl (RuntimeError ''Attachment readback mismatch''), s)" for item
    using assms sample_plan_eq
    by (simp add: install_item_def attach_current_def at_io_def zoom_def bnd_def thn_def ensure_def gets_def ret_def mute_attachments_def
        sample_attachments_def)
  then show ?thesis
    by (simp add: install_all_def attach_fencing_def pending_def catch_all_def thn_def bnd_def upd_def raise_def)
qed

lemma interrupted_rows: "at_rows interrupted = [(''ae1'', pending)]"
proof -
  have "attach_current mute_attachments ''ae1'' (sample_attach_plan ''ae1'' [1, 2]) msg no_attachments = (Inr (), no_attachments)" for msg
    using sample_plan_eq by (simp add: attach_current_def at_io_def zoom_def bnd_def ensure_def ret_def mute_attachments_def
        sample_attachments_def no_attachments_def)
  moreover have "attach_save mute_attachments ''ae1'' pending no_attachments =
      (Inr (), no_attachments\<lparr>at_journal := [(''ae1'', record_value pending)], at_rows := [(''ae1'', pending)]\<rparr>)"
    by (simp add: attach_save_def attach_fencing_def no_open_transaction_def at_io_def zoom_def catch_all_def bnd_def thn_def ensure_def gets_def
        upd_def ret_def mute_attachments_def sample_attachments_def no_attachments_def text_row_put_def)
  moreover have "\<lparr>at_boot = aw_boot mute_attachments, at_state = ''installing'', at_plan = sample_attach_plan ''ae1'' [1, 2],
      at_resources = at_resources pending\<rparr> = pending"
    by (simp add: pending_def mute_attachments_def sample_attachments_def)
  moreover have "length (plan_ports (sample_attach_plan ''ae1'' [1, 2])) = 2" "py_get (sample_attach_plan ''ae1'' [1, 2]) ''interface'' = PStr ''ae1''"
    "at_rows no_attachments = []" "\<not> at_recovery no_attachments" "at_env no_attachments = []"
    by (simp_all add: plan_ports_def py_get_def sample_attach_plan_def no_attachments_def)
  ultimately show ?thesis
    unfolding interrupted_def attach_acquire_def
    by (simp add: sample_plan_ok sample_name_ok sample_slots pending_new pending_valid pending_fails thn_def bnd_def lift_res_def gets_def
        ensure_def Let_def)
qed

lemma interrupted_run: "attach_run mute_attachments interrupted"
proof -
  have "attach_init (aw_encode mute_attachments) (PDict [(''lif'', PList [PInt 4, PInt 5, PInt 6]), (''lef'', PList [PInt 8, PInt 9, PInt 10])])
      (PStr ''boot'') False 2 [] [] = Inr (aw_pools mute_attachments, aw_boot mute_attachments, no_attachments)"
    by (simp add: attach_init_def check_attach_pool_def keys_are_def py_get_def int_in_def mute_attachments_def sample_attachments_def
        no_attachments_def insert_commute)
  then show ?thesis
    unfolding interrupted_def by (intro attach_acquires attach_start)
qed

theorem attachments_exclusive_witness: "distinct [(10 :: int, 1 :: int), (10, 2)]"
proof -
  from attachments_exclusive [OF interrupted_run] have "distinct (attach_wires pending)" by (simp add: interrupted_rows)
  moreover have "attach_wires pending = [(10, 1), (10, 2)]" by code_simp
  ultimately show ?thesis by simp
qed

theorem attachments_well_formed_witness: "(''lif'', 4) \<in> set (attach_slots pending) \<and> 4 \<in> set (attach_pool (aw_pools mute_attachments) ''lif'')"
proof
  show slot: "(''lif'', 4) \<in> set (attach_slots pending)" by (simp add: pending_def attach_slots_def)
  from attachments_well_formed [OF interrupted_run]
  have "list_all (\<lambda>(kind, i). i \<in> set (attach_pool (aw_pools mute_attachments) kind)) (attach_slots pending)"
    by (simp add: interrupted_rows)
  with slot show "4 \<in> set (attach_pool (aw_pools mute_attachments) ''lif'')" by (auto simp: list_all_iff)
qed

definition sample_attachment :: attachment where
  "sample_attachment = \<lparr>at_boot = ''boot'', at_state = ''ready'', at_plan = sample_attach_plan ''ae1'' [1],
     at_resources = [\<lparr>ar_kind = ''lef'', ar_index = 8, ar_port = PInt 1, ar_data = [1]\<rparr>,
       \<lparr>ar_kind = ''lif'', ar_index = 4, ar_port = PInt 1, ar_data = [1, 10, 7, 3]\<rparr>]\<rparr>"

definition installed :: "lif_table attach_state" where
  "installed = \<lparr>at_env = [((''lef'', 8), [1]), ((''lif'', 4), [1, 10, 7, 3]), ((''lif'', 5), [9])],
     at_journal = [(''ae1'', record_value sample_attachment)], at_rows = [(''ae1'', sample_attachment)], at_recovery = False\<rparr>"

theorem attachment_release_exact_witness:
  "map_of (at_env (snd (attach_release sample_attachments (PStr ''ae1'') installed))) (''lif'', 5) = Some [9]"
proof -
  let ?s' = "snd (attach_release sample_attachments (PStr ''ae1'') installed)"
  have laws: "tables_behave sample_attachments map_of"
    by (auto simp: tables_behave_def sample_attachments_def gets_def upd_def ret_def)
  have "dict_get (at_rows installed) ''ae1'' = Some sample_attachment" "name_text ''ae1''"
    by (simp add: installed_def) code_simp
  from attachment_release_exact [OF laws this, of "fst (attach_release sample_attachments (PStr ''ae1'') installed)" ?s']
  have "map_of (at_env ?s') (''lif'', 5) = map_of (at_env installed) (''lif'', 5) \<or>
      own_entry sample_attachments sample_attachment (map_of (at_env installed)) (''lif'', 5)" by auto
  then show ?thesis by (simp add: own_entry_def sample_attachment_def installed_def)
qed

end
