(* ===== verification/Guard.thy ===== *)
theory Guard
  imports PyText
begin

text \<open>
  The supervisor of the FE100 owner process, \<open>ffn_fe100_guard.py\<close>: the owner's heartbeat lease, the
  ordered withdrawal, and \<open>_supervise\<close>, which fences an orphan, drains, launches, watches and
  drains again.  The operating system (processes, control groups, the socket, clocks, the report's
  file) and the recovery callback are parameters.  A loop that waits is cut by the termination
  signal after \<open>gw_turns\<close> or \<open>gw_polls\<close> turns, which may be any numbers.  The log is the trace of the
  effects the supervisor had and of what they answered, in order, written where the effect takes place
  and never read; the code has no such variable.
\<close>

section \<open>Heartbeats\<close>

definition token_pack :: "nat \<Rightarrow> nat \<Rightarrow> bytes \<Rightarrow> bytes" where
  "token_pack sequence stamp identity = to_be 8 sequence @ to_be 8 stamp @ identity"

definition token_size :: nat where
  "token_size = 32"

record lease =
  le_nonce :: bytes
  le_sequence :: nat

record 'e lease_world =
  lw_clock :: "('e, nat) py"
  lw_send :: "bytes \<Rightarrow> ('e, nat) py"

definition pulse :: "'e lease_world \<Rightarrow> ('e \<times> lease, unit) py" where
  "pulse W = (thn (upd (\<lambda>(e, l). (e, l\<lparr>le_sequence := le_sequence l + 1\<rparr>)))
    (bnd (gets snd) (\<lambda>l.
    bnd (zoom fst (\<lambda>e s. (e, snd s)) (lw_clock W)) (\<lambda>stamp.
    thn (ensure (le_sequence l < 2 ^ 64 \<and> stamp < 2 ^ 64) (OtherError ''struct.error''))
    (let raw = token_pack (le_sequence l) stamp (le_nonce l) in
    bnd (zoom fst (\<lambda>e s. (e, snd s)) (lw_send W raw)) (\<lambda>n.
    ensure (n = length raw) (RuntimeError ''guard heartbeat was not delivered'')))))))"

definition expired :: string where
  "expired = ''owner progress lease expired''"

text \<open>One frame received by the supervisor: the reason to stop, or the new sequence and time stamp.\<close>

definition judge_beat ::
  "bytes \<Rightarrow> rat \<Rightarrow> rat \<Rightarrow> int \<Rightarrow> int \<Rightarrow> rat \<Rightarrow> int \<Rightarrow> bytes \<Rightarrow> bool \<Rightarrow> string + int \<times> int" where
  "judge_beat identity timeout deadline sequence sent now now_ns raw truncated =
     (if deadline \<le> now then Inl expired
      else if length raw \<noteq> token_size \<or> truncated then Inl ''owner heartbeat closed or malformed''
      else let seq = int (from_be (slice 0 8 raw)); stamp = int (from_be (slice 8 16 raw)) in
        if seq \<noteq> sequence + 1 \<or> slice 16 32 raw \<noteq> identity \<or> stamp < sent \<or> now_ns < stamp \<or> \<lfloor>timeout * 1000000000\<rfloor> \<le> now_ns - stamp
        then Inl ''owner heartbeat lost continuity or freshness''
        else Inr (seq, stamp))"

section \<open>Ordered withdrawal\<close>

primrec withdraw_steps :: "(string \<times> (string \<Rightarrow> ('s, pyval) py)) list \<Rightarrow> string \<Rightarrow> ('s, pyval) py" where
  "withdraw_steps [] reason = ret (PBool True)"
| "withdraw_steps (step # steps) reason = (bnd (snd step reason) (\<lambda>answer.
  thn (ensure (answer = PBool True) (RuntimeError (fst step @ '' withdrawal not acknowledged'')))
  (withdraw_steps steps reason)))"

definition withdrawal ::
  "(string \<Rightarrow> ('s, pyval) py) \<Rightarrow> (string \<Rightarrow> ('s, pyval) py) \<Rightarrow> (string \<Rightarrow> ('s, pyval) py) \<Rightarrow> string \<Rightarrow> ('s, pyval) py" where
  "withdrawal ingress owned_sessions resources =
     withdraw_steps [(''ingress'', ingress), (''sessions'', owned_sessions), (''resources'', resources)]"

section \<open>The supervisor\<close>

text \<open>
  The trace: a supervisor began; the report was replaced, with this group; an owner is about to be
  launched in a group; its process exists, or was waited for; a group was looked up; its kill file was
  written; its population was read; the recovery callback returned.
\<close>

datatype guard_event =
    Began
  | Reported pyval
  | Launched string
  | Spawned
  | Reaped
  | Found string bool
  | Killed string
  | Population string "string option"
  | Recovered pyval

datatype wake = OwnerExit | Quiet | Frame bytes bool

type_synonym guard_doc = "(string \<times> pyval) list"

record 'e guard =
  gd_env :: 'e
  gd_report :: "guard_doc option"
  gd_doc :: guard_doc
  gd_child :: bool
  gd_pidfd :: bool
  gd_log :: "guard_event list"

record 'e guard_world =
  gw_lock :: "('e, unit) py"
  gw_boot :: "('e, string) py"
  gw_write :: "('e, unit) py"
  gw_sync :: "('e, unit) py"
  gw_exists :: "string \<Rightarrow> ('e, bool) py"
  gw_mkdir :: "string \<Rightarrow> ('e, unit) py"
  gw_rmdir :: "string \<Rightarrow> ('e, unit) py"
  gw_kill_file :: "string \<Rightarrow> ('e, bool) py"
  gw_kill_group :: "string \<Rightarrow> ('e, unit) py"
  gw_populated :: "string \<Rightarrow> ('e, string option) py"
  gw_monotonic :: "('e, rat) py"
  gw_now_ns :: "('e, int) py"
  gw_nonce :: "('e, string) py"
  gw_channel :: "('e, unit) py"
  gw_spawn :: "string \<Rightarrow> ('e, int) py"
  gw_pidfd_open :: "int \<Rightarrow> ('e, unit) py"
  gw_select :: "rat \<Rightarrow> ('e, wake) py"
  gw_signal :: "('e, unit) py"
  gw_kill_child :: "('e, unit) py"
  gw_wait :: "('e, int) py"
  gw_recover :: "string \<Rightarrow> ('e, pyval) py"
  gw_turns :: nat
  gw_polls :: nat

definition gd_io :: "('e, 'a) py \<Rightarrow> ('e guard, 'a) py" where
  "gd_io m = zoom gd_env (\<lambda>e s. s\<lparr>gd_env := e\<rparr>) m"

definition record_event :: "guard_event \<Rightarrow> ('e guard, unit) py" where
  "record_event ev = upd (\<lambda>s. s\<lparr>gd_log := gd_log s @ [ev]\<rparr>)"

definition traced :: "('a \<Rightarrow> guard_event) \<Rightarrow> ('e, 'a) py \<Rightarrow> ('e guard, 'a) py" where
  "traced ev m = (bnd (gd_io m) (\<lambda>x.
    thn (record_event (ev x))
    (ret x)))"

definition doc_get :: "guard_doc \<Rightarrow> string \<Rightarrow> pyval" where
  "doc_get d k = (case dict_get d k of None \<Rightarrow> PNone | Some v \<Rightarrow> v)"

definition set_doc :: "(string \<times> pyval) list \<Rightarrow> ('e guard, unit) py" where
  "set_doc kvs = upd (\<lambda>s. s\<lparr>gd_doc := foldl (\<lambda>d (k, v). dict_set k v d) (gd_doc s) kvs\<rparr>)"

text \<open>\<open>publish\<close>: the temporary file is written, then replaces the report, then the directory is synced.\<close>

definition guard_publish :: "'e guard_world \<Rightarrow> ('e guard, unit) py" where
  "guard_publish W = (thn (gd_io (gw_write W))
    (thn (upd (\<lambda>s. s\<lparr>gd_report := Some (gd_doc s), gd_log := gd_log s @ [Reported (doc_get (gd_doc s) ''group_nonce'')]\<rparr>))
    (gd_io (gw_sync W))))"

definition group_prefix :: string where
  "group_prefix = ''ffn-fe100-owner-''"

text \<open>\<open>group_path\<close>: the directory of a canonical UUID.\<close>

definition group_path :: "pyval \<Rightarrow> exn + string" where
  "group_path nonce = (if is_uuid nonce then Inr (group_prefix @ filter (\<lambda>c. c \<noteq> CHR ''-'') (the_str nonce))
     else if is_str nonce then Inl (ValueError ''invalid guardian identity'')
     else Inl (OtherError ''not a UUID string''))"

definition terminated :: exn where
  "terminated = OSError ''guardian termination requested''"

primrec await_empty :: "'e guard_world \<Rightarrow> string \<Rightarrow> rat \<Rightarrow> nat \<Rightarrow> ('e guard, unit) py" where
  "await_empty W g deadline 0 = raise terminated"
| "await_empty W g deadline (Suc n) = (bnd (traced (Population g) (gw_populated W g)) (\<lambda>populated.
  if populated = Some ''0'' then ret ()
     else (bnd (gd_io (gw_monotonic W)) (\<lambda>now.
       thn (ensure (\<not> deadline \<le> now) (RuntimeError ''owner cgroup is still populated''))
       (await_empty W g deadline n)))))"

definition stop_group :: "'e guard_world \<Rightarrow> string \<Rightarrow> ('e guard, unit) py" where
  "stop_group W g = (bnd (traced (Found g) (gw_exists W g)) (\<lambda>present.
    whn present ((thn (ensure (starts_with group_prefix g) (ValueError ''not an owned cgroup''))
       (thn (traced (\<lambda>_. Killed g) (gw_kill_group W g))
       (bnd (gd_io (gw_monotonic W)) (\<lambda>started.
       await_empty W g (started + 5) (gw_polls W))))))))"

definition do_recover :: "'e guard_world \<Rightarrow> string \<Rightarrow> string \<Rightarrow> ('e guard, unit) py" where
  "do_recover W reason fault = (bnd (traced Recovered (gw_recover W reason)) (\<lambda>answer.
    ensure (answer = PBool True) (RuntimeError fault)))"

definition fence_previous :: "'e guard_world \<Rightarrow> ('e guard, unit) py" where
  "fence_previous W = (bnd (gets gd_report) (\<lambda>report.
    case report of None \<Rightarrow> ret ()
     | Some previous \<Rightarrow> (thn (ensure (py_eq (doc_get previous ''schema'') (PInt 1)) (ValueError ''unknown guardian journal''))
       (whn (truthy (doc_get previous ''group_nonce'')) ((bnd (lift_res (group_path (doc_get previous ''group_nonce''))) (\<lambda>g.
           thn (stop_group W g)
           (bnd (gd_io (gw_exists W g)) (\<lambda>left.
           whn left (gd_io (gw_rmdir W g)))))))))))"

definition first_doc :: "string \<Rightarrow> guard_doc" where
  "first_doc boot = [(''schema'', PInt 1), (''cp_boot_id'', PStr boot), (''phase'', PStr ''recovering''), (''admission_enabled'', PBool False)]"

definition start_drain :: "'e guard_world \<Rightarrow> ('e guard, unit) py" where
  "start_drain W = catch_all (do_recover W ''startup recovery'' ''startup drain not acknowledged'')
     (\<lambda>e. (thn (set_doc [(''phase'', PStr ''blocked''), (''error'', PStr (exn_text e))])
       (thn (guard_publish W)
       (raise e))))"

primrec watch :: "'e guard_world \<Rightarrow> bytes \<Rightarrow> rat \<Rightarrow> nat \<Rightarrow> int \<Rightarrow> int \<Rightarrow> rat \<Rightarrow> ('e guard, string) py" where
  "watch W identity timeout 0 sequence sent deadline = raise terminated"
| "watch W identity timeout (Suc n) sequence sent deadline = (bnd (gd_io (gw_monotonic W)) (\<lambda>started.
  if deadline - started \<le> 0 then ret expired
     else (bnd (gd_io (gw_select W (deadline - started))) (\<lambda>woken.
       case woken of
         OwnerExit \<Rightarrow> ret ''owner exited''
       | Quiet \<Rightarrow> watch W identity timeout n sequence sent deadline
       | Frame raw truncated \<Rightarrow> (bnd (gd_io (gw_monotonic W)) (\<lambda>now.
         bnd (gd_io (gw_now_ns W)) (\<lambda>now_ns.
         (case judge_beat identity timeout deadline sequence sent now now_ns raw truncated of
              Inl reason \<Rightarrow> ret reason
            | Inr (seq, stamp) \<Rightarrow> (bnd (gets (\<lambda>s. doc_get (gd_doc s) ''phase'' = PStr ''running'')) (\<lambda>running.
              thn (whn (\<not> running) ((thn (set_doc [(''phase'', PStr ''running'')])
                  (guard_publish W))))
              (watch W identity timeout n seq stamp (of_int stamp / 1000000000 + timeout))))))))))))"

definition run_owner :: "'e guard_world \<Rightarrow> string \<Rightarrow> string \<Rightarrow> rat \<Rightarrow> rat \<Rightarrow> ('e guard, string) py" where
  "run_owner W g nonce timeout startup = (bnd (gd_io (gw_kill_file W g)) (\<lambda>able.
    thn (ensure able (RuntimeError ''cgroup.kill unavailable''))
    (thn (set_doc [(''phase'', PStr ''starting''), (''group_nonce'', PStr nonce)])
    (thn (guard_publish W)
    (thn (record_event (Launched g))
    (bnd (gd_io (gw_spawn W nonce)) (\<lambda>pid.
    thn (upd (\<lambda>s. s\<lparr>gd_child := True, gd_log := gd_log s @ [Spawned]\<rparr>))
    (thn (gd_io (gw_pidfd_open W pid))
    (thn (upd (\<lambda>s. s\<lparr>gd_pidfd := True\<rparr>))
    (thn (set_doc [(''owner_pid'', PInt pid)])
    (thn (guard_publish W)
    (bnd (gd_io (gw_monotonic W)) (\<lambda>started.
    watch W (the (from_hex (filter (\<lambda>c. c \<noteq> CHR ''-'') nonce))) timeout (gw_turns W) 0 0 (started + startup))))))))))))))"

text \<open>The cleanup of the \<open>finally\<close> block; its own failure becomes the error of the run.\<close>

definition stop_owner :: "'e guard_world \<Rightarrow> string \<Rightarrow> string \<Rightarrow> ('e guard, unit) py" where
  "stop_owner W g reason = (bnd (gets gd_pidfd) (\<lambda>pidfd.
    bnd (gets gd_child) (\<lambda>child.
    thn (if pidfd then gd_io (gw_signal W) else whn child (gd_io (gw_kill_child W)))
    (thn (stop_group W g)
    (thn (whn child ((bnd (traced (\<lambda>_. Reaped) (gw_wait W)) (\<lambda>code.
       set_doc [(''owner_exit_code'', PInt code)]))))
    (thn (set_doc [(''phase'', PStr ''draining''), (''reason'', PStr reason)])
    (thn (guard_publish W)
    (thn (do_recover W reason ''final drain not acknowledged'')
    (thn (gd_io (gw_rmdir W g))
    (set_doc [(''phase'', PStr ''drained''), (''group_nonce'', PNone), (''withdrawal_acknowledged'', PBool True)]))))))))))"

definition close_owner :: "'e guard_world \<Rightarrow> string \<Rightarrow> string \<Rightarrow> exn option \<Rightarrow> ('e guard, guard_doc) py" where
  "close_owner W g reason error = (bnd (catch_all ((thn (stop_owner W g reason)
       (ret error)))
       (\<lambda>e. (thn (set_doc [(''phase'', PStr ''blocked''), (''reason'', PStr reason), (''error'', PStr (exn_text e)), (''withdrawal_acknowledged'', PBool False)])
         (ret (Some e))))) (\<lambda>failed.
    thn (guard_publish W)
    ((case failed of Some e \<Rightarrow> raise e | None \<Rightarrow> gets gd_doc))))"

definition bounded_time :: "pyval \<Rightarrow> bool" where
  "bounded_time v \<longleftrightarrow> (case finite_num v of None \<Rightarrow> False | Some q \<Rightarrow> 1 / 10 \<le> q \<and> q \<le> 60)"

definition command_ok :: "pyval \<Rightarrow> bool" where
  "command_ok c \<longleftrightarrow> is_list c \<and> the_list c \<noteq> [] \<and>
     list_all (\<lambda>v. is_str v \<and> the_str v \<noteq> [] \<and> char_of (0 :: nat) \<notin> set (the_str v)) (the_list c)"

definition supervise :: "'e guard_world \<Rightarrow> pyval \<Rightarrow> pyval \<Rightarrow> pyval \<Rightarrow> ('e guard, guard_doc) py" where
  "supervise W command timeout startup = (thn (ensure (bounded_time timeout \<and> bounded_time startup) (ValueError ''bounded guardian timeout required''))
    (thn (ensure (command_ok command) (ValueError ''trusted owner command and recovery callback required''))
    (thn (gd_io (gw_lock W))
    (bnd (gd_io (gw_boot W)) (\<lambda>boot.
    thn (upd (\<lambda>s. s\<lparr>gd_doc := first_doc boot, gd_child := False, gd_pidfd := False, gd_log := gd_log s @ [Began]\<rparr>))
    (thn (fence_previous W)
    (thn (guard_publish W)
    (thn (start_drain W)
    (bnd (gd_io (gw_nonce W)) (\<lambda>nonce.
    bnd (lift_res (group_path (PStr nonce))) (\<lambda>g.
    thn (gd_io (gw_mkdir W g))
    (thn (gd_io (gw_channel W))
    (bnd (catch_all ((bnd (run_owner W g nonce (the (finite_num timeout)) (the (finite_num startup))) (\<lambda>reason.
       ret (reason, None))))
       (\<lambda>e. ret (''supervisor failure: '' @ exn_text e, Some e))) (\<lambda>outcome.
    close_owner W g (fst outcome) (snd outcome)))))))))))))))"

section \<open>Authentic, contiguous and recent heartbeats\<close>

text \<open>
  C21.  The supervisor accepts exactly the frames the owner's lease packs: an untruncated token of this
  supervisor's identity with the next sequence number, stamped no earlier than the last one, not
  in the future and younger than the timeout, received before the deadline.
\<close>

theorem beat_accepted_iff:
  assumes "length identity = 16"
  shows "judge_beat identity timeout deadline sequence sent now now_ns raw truncated = Inr (n, stamp) \<longleftrightarrow>
     \<not> truncated \<and> now < deadline \<and> n = sequence + 1 \<and> sent \<le> stamp \<and> stamp \<le> now_ns \<and>
     now_ns - stamp < \<lfloor>timeout * 1000000000\<rfloor> \<and>
     (\<exists>i t. n = int i \<and> stamp = int t \<and> i < 2 ^ 64 \<and> t < 2 ^ 64 \<and> raw = token_pack i t identity)"
    (is "?accepted \<longleftrightarrow> ?fresh")
proof
  assume ?accepted
  then have raw: "length raw = 32" "slice 16 32 raw = identity" "n = int (from_be (slice 0 8 raw))" "stamp = int (from_be (slice 8 16 raw))"
    and rest: "\<not> truncated" "now < deadline" "n = sequence + 1" "sent \<le> stamp" "stamp \<le> now_ns" "now_ns - stamp < \<lfloor>timeout * 1000000000\<rfloor>"
    by (auto simp: judge_beat_def Let_def token_size_def split: if_splits)
  have len: "length (slice 0 8 raw) = 8" "length (slice 8 16 raw) = 8"
    using raw(1) by (simp_all add: length_slice)
  have "raw = slice 0 8 raw @ slice 8 16 raw @ slice 16 32 raw"
    using raw(1) by (simp add: slice_def) (metis append_take_drop_id drop_drop take_all_iff order_refl add.commute numeral_Bit0)
  then have "raw = token_pack (from_be (slice 0 8 raw)) (from_be (slice 8 16 raw)) identity"
    using raw(2) len by (simp add: token_pack_def to_be_from_be)
  moreover have "from_be (slice 0 8 raw) < 2 ^ 64" "from_be (slice 8 16 raw) < 2 ^ 64"
    using from_be_less [of "slice 0 8 raw"] from_be_less [of "slice 8 16 raw"] by (simp_all add: len)
  ultimately show ?fresh using raw rest by blast
next
  assume ?fresh
  then obtain i t where it: "n = int i" "stamp = int t" "i < 2 ^ 64" "t < 2 ^ 64" "raw = token_pack i t identity" by blast
  have "slice 0 8 raw = to_be 8 i" "slice 8 16 raw = to_be 8 t" "slice 16 32 raw = identity" "length raw = 32"
    using assms by (simp_all add: it(5) token_pack_def slice_def)
  with \<open>?fresh\<close> it(1-4) show ?accepted
    by (auto simp: judge_beat_def Let_def token_size_def from_be_to_be)
qed

theorem beat_accepted_iff_witness:
  "judge_beat (replicate 16 7) 3 10 4 100 9 300 (token_pack 5 200 (replicate 16 7)) False = Inr (5, 200)"
proof -
  have "token_pack 5 200 (replicate 16 7) = token_pack (nat 5) (nat 200) (replicate 16 7)" by simp
  then show ?thesis
    by (subst beat_accepted_iff) (auto intro!: exI [of _ "5 :: nat"] exI [of _ "200 :: nat"])
qed

section \<open>An owner runs only between a drain and a drain\<close>

text \<open>
  What the trace may say.  An owner may run in its group from its launch until the group is seen
  absent, or its population is read as zero after the group was killed; a process this supervisor
  spawned may run until it is waited for.  An owner is launched only after the recovery callback last
  returned \<open>True\<close> and while the report names its group; the callback is not called while an owner or a
  spawned process may run; the report keeps naming the group until then.  The components are the
  phase, the group the report names and whether a process is left to be waited for.  A trace that
  breaks this has no value.
\<close>

datatype owner_phase = NotStarted | Drained | Active string | Halting string | Stopped

fun runs_in :: "owner_phase \<Rightarrow> string option" where
  "runs_in (Active g) = Some g"
| "runs_in (Halting g) = Some g"
| "runs_in _ = None"

definition group_in :: "pyval \<Rightarrow> string option" where
  "group_in v = (if truthy v then (case group_path v of Inl _ \<Rightarrow> None | Inr g \<Rightarrow> Some g) else None)"

fun fence_step :: "owner_phase \<times> string option \<times> bool \<Rightarrow> guard_event \<Rightarrow> (owner_phase \<times> string option \<times> bool) option" where
  "fence_step (st, named, child) Began = Some (st, named, False)"
| "fence_step (st, named, child) (Reported v) = (if runs_in st \<noteq> None \<and> group_in v \<noteq> runs_in st then None else Some (st, group_in v, child))"
| "fence_step (st, named, child) (Launched g) = (if st = Drained \<and> named = Some g \<and> \<not> child then Some (Active g, named, child) else None)"
| "fence_step (st, named, child) Spawned = Some (st, named, True)"
| "fence_step (st, named, child) Reaped = Some (st, named, False)"
| "fence_step (st, named, child) (Found g present) = Some (if \<not> present \<and> runs_in st = Some g then Stopped else st, named, child)"
| "fence_step (st, named, child) (Killed g) = Some (if st = Active g then Halting g else st, named, child)"
| "fence_step (st, named, child) (Population g v) = Some (if v = Some ''0'' \<and> st = Halting g then Stopped else st, named, child)"
| "fence_step (st, named, child) (Recovered v) =
     (if runs_in st \<noteq> None \<or> child then None else Some (if v = PBool True then Drained else NotStarted, named, child))"

definition fence_log :: "guard_event list \<Rightarrow> (owner_phase \<times> string option \<times> bool) option" where
  "fence_log l = foldl (\<lambda>r ev. case r of None \<Rightarrow> None | Some x \<Rightarrow> fence_step x ev) (Some (NotStarted, None, False)) l"

definition named_group :: "'e guard \<Rightarrow> string option" where
  "named_group s = (case gd_report s of None \<Rightarrow> None | Some d \<Rightarrow> group_in (doc_get d ''group_nonce''))"

definition claims_drained :: "guard_doc \<Rightarrow> bool" where
  "claims_drained d \<longleftrightarrow> doc_get d ''withdrawal_acknowledged'' = PBool True"

definition fenced_at :: "owner_phase \<Rightarrow> bool \<Rightarrow> 'e guard \<Rightarrow> bool" where
  "fenced_at st c s \<longleftrightarrow> fence_log (gd_log s) = Some (st, named_group s, c) \<and> (c \<longrightarrow> gd_child s) \<and>
     (runs_in st = None \<or> named_group s = runs_in st) \<and> (\<forall>d. gd_report s = Some d \<longrightarrow> claims_drained d \<longrightarrow> st = Drained)"

definition fits :: "string \<Rightarrow> owner_phase \<Rightarrow> guard_doc \<Rightarrow> bool" where
  "fits g st d \<longleftrightarrow> (runs_in st = None \<or> runs_in st = Some g \<and> group_in (doc_get d ''group_nonce'') = Some g) \<and> \<not> claims_drained d"

abbreviation running_at :: "string \<Rightarrow> owner_phase \<Rightarrow> bool \<Rightarrow> 'e guard \<Rightarrow> bool" where
  "running_at g st c s \<equiv> fenced_at st c s \<and> fits g st (gd_doc s)"

abbreviation unclaimed :: "'e guard \<Rightarrow> bool" where
  "unclaimed s \<equiv> \<forall>d. gd_report s = Some d \<longrightarrow> \<not> claims_drained d"

abbreviation same_doc :: "'e guard \<Rightarrow> 'e guard \<Rightarrow> bool" where
  "same_doc s s' \<equiv> gd_doc s' = gd_doc s \<and> gd_report s' = gd_report s \<and> gd_child s' = gd_child s"

lemma fence_log_snoc [simp]:
  "fence_log (l @ [ev]) = (case fence_log l of None \<Rightarrow> None | Some x \<Rightarrow> fence_step x ev)"
  by (simp add: fence_log_def)

lemma fence_broken: "fence_log l = None \<Longrightarrow> fence_log (l @ m) = None"
proof -
  have "foldl (\<lambda>r ev. case r of None \<Rightarrow> None | Some x \<Rightarrow> fence_step x ev) None m = None" by (induction m) simp_all
  then show "fence_log l = None \<Longrightarrow> fence_log (l @ m) = None" by (simp add: fence_log_def)
qed

lemma fence_prefix: "fence_log (l @ m) \<noteq> None \<Longrightarrow> fence_log l \<noteq> None"
  using fence_broken by metis

lemma doc_get_set [simp]: "doc_get (dict_set k v d) j = (if j = k then v else doc_get d j)"
  by (simp add: doc_get_def)

lemma named_log [simp]:
  "named_group (s\<lparr>gd_log := l\<rparr>) = named_group s" "named_group (s\<lparr>gd_env := e\<rparr>) = named_group s" "named_group (s\<lparr>gd_child := b\<rparr>) = named_group s"
  by (simp_all add: named_group_def)

lemma fenced_env [simp]:
  "fenced_at st c (s\<lparr>gd_env := e\<rparr>) = fenced_at st c s" "fenced_at st c (s\<lparr>gd_doc := d\<rparr>) = fenced_at st c s"
  "fenced_at st c (s\<lparr>gd_pidfd := b\<rparr>) = fenced_at st c s"
  by (simp_all add: fenced_at_def named_group_def)

text \<open>Effects of the system leave the supervisor's own variables alone; a traced one records what it answered.\<close>

lemma pres_gd_io: "(\<And>s e. I s \<Longrightarrow> I (s\<lparr>gd_env := e\<rparr>)) \<Longrightarrow> pres I (gd_io m)"
  unfolding gd_io_def by (rule pres_zoom)

lemma traced_wp:
  assumes "\<And>x e. Q x (s\<lparr>gd_env := e, gd_log := gd_log s @ [f x]\<rparr>)" and "\<And>x e. E x (s\<lparr>gd_env := e\<rparr>)"
  shows "wp (traced f m) Q E s"
  unfolding traced_def gd_io_def record_event_def using assms
  by (auto simp: wp_bnd wp_thn wp_upd wp_ret wp_zoom wp_def [of m] split: prod.split sum.split)

lemma running_io: "pres (running_at g st c) (gd_io m)"
  by (rule pres_gd_io) simp

lemma running_set:
  "\<forall>(k, v) \<in> set kvs. k \<noteq> ''group_nonce'' \<and> (k = ''withdrawal_acknowledged'' \<longrightarrow> v \<noteq> PBool True) \<Longrightarrow> pres (running_at g st c) (set_doc kvs)"
proof -
  assume *: "\<forall>(k, v) \<in> set kvs. k \<noteq> ''group_nonce'' \<and> (k = ''withdrawal_acknowledged'' \<longrightarrow> v \<noteq> PBool True)"
  have step: "fits g st (dict_set k v d)" if "fits g st d" "k \<noteq> ''group_nonce''" "k = ''withdrawal_acknowledged'' \<longrightarrow> v \<noteq> PBool True" for k v d
    using that by (auto simp: fits_def claims_drained_def)
  have "fits g st d \<Longrightarrow> fits g st (foldl (\<lambda>d (k, v). dict_set k v d) d kvs)" for d
    using * by (induction kvs arbitrary: d) (auto simp: step split: prod.splits)
  then show ?thesis unfolding set_doc_def by (intro pres_upd) simp
qed

lemma publish_wp:
  assumes "fenced_at st c s" "runs_in st = None \<or> group_in (doc_get (gd_doc s) ''group_nonce'') = runs_in st"
    and "claims_drained (gd_doc s) \<longrightarrow> st = Drained"
  shows "wp (guard_publish W) (\<lambda>_ s'. fenced_at st c s' \<and> gd_doc s' = gd_doc s \<and> gd_report s' = Some (gd_doc s))
     (\<lambda>_ s'. fenced_at st c s' \<and> gd_doc s' = gd_doc s) s"
proof -
  let ?I = "\<lambda>R s' :: 'a guard. fenced_at st c s' \<and> gd_doc s' = gd_doc s \<and> (R \<longrightarrow> gd_report s' = Some (gd_doc s))"
  have io: "pres (?I R) (gd_io m)" for R and m :: "('a, 'c) py"
    by (rule pres_gd_io) auto
  have put: "?I True (s'\<lparr>gd_report := Some (gd_doc s'), gd_log := gd_log s' @ [Reported (doc_get (gd_doc s') ''group_nonce'')]\<rparr>)"
    if "?I False s'" for s'
    using that assms(2,3) by (auto simp: fenced_at_def named_group_def)
  have "wp (guard_publish W) (\<lambda>_. ?I True) (\<lambda>_. ?I False) s"
    unfolding guard_publish_def
  proof (rule wp_thnI [OF wp_pres [OF io [of False]]], goal_cases)
    case (2 u s')
    let ?s = "s'\<lparr>gd_report := Some (gd_doc s'), gd_log := gd_log s' @ [Reported (doc_get (gd_doc s') ''group_nonce'')]\<rparr>"
    have "wp (gd_io (gw_sync W)) (\<lambda>_. ?I True) (\<lambda>_. ?I True) ?s"
      using io [of True "gw_sync W"] put [OF 2] by (rule wp_pres)
    then show ?case unfolding wp_thn wp_upd by (rule wp_mono) blast+
  qed (use assms(1) in blast)+
  then show ?thesis by (rule wp_mono) auto
qed

lemma running_publish_wp:
  "running_at g st c s \<Longrightarrow> wp (guard_publish W) (\<lambda>_ s'. running_at g st c s' \<and> gd_doc s' = gd_doc s \<and> gd_report s' = Some (gd_doc s))
     (\<lambda>_ s'. running_at g st c s' \<and> gd_doc s' = gd_doc s) s"
  by (rule wp_mono [OF publish_wp]) (auto simp: fits_def)

lemma running_publish: "pres (running_at g st c) (guard_publish W)"
  unfolding pres_wp by (intro allI impI wp_mono [OF running_publish_wp]) auto

text \<open>Stopping a group: what was running in it is seen to be gone.\<close>

definition settle :: "owner_phase \<Rightarrow> owner_phase" where
  "settle st = (if runs_in st = None then st else Stopped)"

lemma settle_simps [simp]: "runs_in (settle st) = None" "settle Stopped = Stopped"
  by (simp_all add: settle_def)

lemma fenced_settle:
  assumes "fenced_at st c s" "fence_step (st, named_group s, c) ev = Some (settle st, named_group s, c)"
  shows "fenced_at (settle st) c (s\<lparr>gd_env := e, gd_log := gd_log s @ [ev]\<rparr>)"
  using assms by (auto simp: fenced_at_def settle_def)

lemma fenced_event:
  assumes "fenced_at st c s" "fence_step (st, named_group s, c) ev = Some (st', named_group s, c)" "runs_in st' = runs_in st" "st = Drained \<longrightarrow> st' = Drained"
  shows "fenced_at st' c (s\<lparr>gd_env := e, gd_log := gd_log s @ [ev]\<rparr>)"
  using assms by (auto simp: fenced_at_def)

lemma await_empty_wp:
  fixes s :: "'e guard"
  assumes "fenced_at st c s" "runs_in st = None \<or> st = Halting g"
  shows "wp (await_empty W g deadline n) (\<lambda>_ s'. fenced_at (settle st) c s' \<and> same_doc s s') (\<lambda>_ s'. fenced_at st c s' \<and> same_doc s s') s"
  using assms(1)
proof (induction n arbitrary: s)
  case 0
  then show ?case by (simp add: wp_raise)
next
  case (Suc n)
  have rest: "wp (bnd (gd_io (gw_monotonic W)) (\<lambda>now. thn (ensure (\<not> deadline \<le> now) (RuntimeError ''owner cgroup is still populated'')) (await_empty W g deadline n)))
      (\<lambda>_ s'. fenced_at (settle st) c s' \<and> same_doc s s') (\<lambda>_ s'. fenced_at st c s' \<and> same_doc s s') s1"
    if s1: "fenced_at st c s1 \<and> same_doc s s1" for s1 :: "'e guard"
  proof (rule wp_bndI [OF wp_pres [where I = "\<lambda>s'. fenced_at st c s' \<and> same_doc s s'"]])
    show "pres (\<lambda>s'. fenced_at st c s' \<and> same_doc s s') (gd_io (gw_monotonic W))" by (rule pres_gd_io) simp
    fix now and s2 :: "'e guard" assume s2: "fenced_at st c s2 \<and> same_doc s s2"
    show "wp (thn (ensure (\<not> deadline \<le> now) (RuntimeError ''owner cgroup is still populated'')) (await_empty W g deadline n))
        (\<lambda>_ s'. fenced_at (settle st) c s' \<and> same_doc s s') (\<lambda>_ s'. fenced_at st c s' \<and> same_doc s s') s2"
      by (rule wp_ensureI, rule wp_mono [OF Suc.IH]) (use s2 in auto)
  qed (use s1 in auto)
  show ?case
    unfolding await_empty.simps
  proof (intro wp_bndI [OF traced_wp [where
      Q = "\<lambda>p s1. same_doc s s1 \<and> (if p = Some ''0'' then fenced_at (settle st) c s1 else fenced_at st c s1)" and E = "\<lambda>_ s1. fenced_at st c s1 \<and> same_doc s s1"]])
    fix p e
    show "same_doc s (s\<lparr>gd_env := e, gd_log := gd_log s @ [Population g p]\<rparr>) \<and>
        (if p = Some ''0'' then fenced_at (settle st) c (s\<lparr>gd_env := e, gd_log := gd_log s @ [Population g p]\<rparr>)
         else fenced_at st c (s\<lparr>gd_env := e, gd_log := gd_log s @ [Population g p]\<rparr>))"
      using fenced_settle [OF Suc.prems, of "Population g p" e] fenced_event [OF Suc.prems, of "Population g p" st e] assms(2)
      by (cases "st = Halting g") (auto simp: settle_def)
  next
    fix p and s1 :: "'e guard" assume "same_doc s s1 \<and> (if p = Some ''0'' then fenced_at (settle st) c s1 else fenced_at st c s1)"
    then show "wp (if p = Some ''0'' then ret () else bnd (gd_io (gw_monotonic W)) (\<lambda>now. thn (ensure (\<not> deadline \<le> now) (RuntimeError ''owner cgroup is still populated''))
        (await_empty W g deadline n))) (\<lambda>_ s'. fenced_at (settle st) c s' \<and> same_doc s s') (\<lambda>_ s'. fenced_at st c s' \<and> same_doc s s') s1"
      by (auto simp: wp_ret intro!: rest)
  qed (use Suc.prems in auto)
qed

lemma stop_group_wp:
  fixes s :: "'e guard"
  assumes "fenced_at st c s" "runs_in st = None \<or> runs_in st = Some g"
  shows "wp (stop_group W g) (\<lambda>_ s'. fenced_at (settle st) c s' \<and> same_doc s s')
     (\<lambda>_ s'. (\<exists>st'. runs_in st' = runs_in st \<and> fenced_at st' c s') \<and> same_doc s s') s"
proof -
  let ?Q = "\<lambda>_ s'. fenced_at (settle st) c s' \<and> same_doc s s'"
  let ?E = "\<lambda>_ s'. (\<exists>st'. runs_in st' = runs_in st \<and> fenced_at st' c s') \<and> same_doc s s'"
  let ?halt = "if st = Active g then Halting g else st"
  have halt: "runs_in ?halt = runs_in st" "settle ?halt = settle st" "runs_in ?halt = None \<or> ?halt = Halting g"
    using assms(2) by (auto simp: settle_def elim: runs_in.elims)
  have killed: "wp (bnd (gd_io (gw_monotonic W)) (\<lambda>started. await_empty W g (started + 5) (gw_polls W))) ?Q ?E s2"
    if s2: "fenced_at ?halt c s2 \<and> same_doc s s2" for s2 :: "'e guard"
  proof (rule wp_bndI [OF wp_pres [where I = "\<lambda>s'. fenced_at ?halt c s' \<and> same_doc s s'"]])
    show "pres (\<lambda>s'. fenced_at ?halt c s' \<and> same_doc s s') (gd_io (gw_monotonic W))" by (rule pres_gd_io) simp
    fix t and s3 :: "'e guard" assume s3: "fenced_at ?halt c s3 \<and> same_doc s s3"
    show "wp (await_empty W g (t + 5) (gw_polls W)) ?Q ?E s3"
      by (rule wp_mono [OF await_empty_wp [of ?halt]]) (use s3 halt in auto)
  qed (use s2 halt in auto)
  have kill: "wp (thn (traced (\<lambda>_. Killed g) (gw_kill_group W g)) (bnd (gd_io (gw_monotonic W)) (\<lambda>started. await_empty W g (started + 5) (gw_polls W)))) ?Q ?E s1"
    if s1: "fenced_at st c s1 \<and> same_doc s s1" for s1 :: "'e guard"
  proof (rule wp_thnI [OF traced_wp [where Q = "\<lambda>_ s2. fenced_at ?halt c s2 \<and> same_doc s s2" and E = ?E]])
    fix x :: unit and e
    have "fence_step (st, named_group s1, c) (Killed g) = Some (?halt, named_group s1, c)" by simp
    moreover have "st = Drained \<longrightarrow> ?halt = Drained" by simp
    ultimately have "fenced_at ?halt c (s1\<lparr>gd_env := e, gd_log := gd_log s1 @ [Killed g]\<rparr>)"
      using s1 halt(1) by (intro fenced_event [where st = st]) blast+
    with s1 show "fenced_at ?halt c (s1\<lparr>gd_env := e, gd_log := gd_log s1 @ [Killed g]\<rparr>) \<and> same_doc s (s1\<lparr>gd_env := e, gd_log := gd_log s1 @ [Killed g]\<rparr>)" by simp
  qed (use s1 in \<open>auto intro: killed\<close>)
  show ?thesis
    unfolding stop_group_def
  proof (rule wp_bndI [OF traced_wp [where Q = "\<lambda>b s1. same_doc s s1 \<and> (if b then fenced_at st c s1 else fenced_at (settle st) c s1)" and E = ?E]])
    fix b and e
    have "fenced_at (settle st) c (s\<lparr>gd_env := e, gd_log := gd_log s @ [Found g False]\<rparr>)" "fenced_at st c (s\<lparr>gd_env := e, gd_log := gd_log s @ [Found g True]\<rparr>)"
      using fenced_settle [OF assms(1), of "Found g False" e] fenced_event [OF assms(1), of "Found g True" st e] assms(2)
      by (auto simp: settle_def)
    then show "same_doc s (s\<lparr>gd_env := e, gd_log := gd_log s @ [Found g b]\<rparr>) \<and> (if b then fenced_at st c (s\<lparr>gd_env := e, gd_log := gd_log s @ [Found g b]\<rparr>)
         else fenced_at (settle st) c (s\<lparr>gd_env := e, gd_log := gd_log s @ [Found g b]\<rparr>))"
      by (cases b) simp_all
  next
    fix b and s1 :: "'e guard" assume "same_doc s s1 \<and> (if b then fenced_at st c s1 else fenced_at (settle st) c s1)"
    then show "wp (whn b (thn (ensure (starts_with group_prefix g) (ValueError ''not an owned cgroup'')) (thn (traced (\<lambda>_. Killed g) (gw_kill_group W g))
        (bnd (gd_io (gw_monotonic W)) (\<lambda>started. await_empty W g (started + 5) (gw_polls W)))))) ?Q ?E s1"
      by (auto simp: wp_whn intro!: wp_ensureI kill)
  qed (use assms(1) in auto)
qed

lemma recover_wp:
  fixes s :: "'e guard"
  assumes "fenced_at st False s" "runs_in st = None" "unclaimed s"
  shows "wp (do_recover W reason fault) (\<lambda>_ s'. fenced_at Drained False s' \<and> same_doc s s')
     (\<lambda>_ s'. (\<exists>st'. runs_in st' = None \<and> fenced_at st' False s') \<and> same_doc s s') s"
  unfolding do_recover_def
proof (rule wp_bndI [OF traced_wp [where Q = "\<lambda>v s'. same_doc s s' \<and> fenced_at (if v = PBool True then Drained else NotStarted) False s'"
      and E = "\<lambda>_ s'. fenced_at st False s' \<and> same_doc s s'"]])
  fix v e
  show "same_doc s (s\<lparr>gd_env := e, gd_log := gd_log s @ [Recovered v]\<rparr>) \<and>
      fenced_at (if v = PBool True then Drained else NotStarted) False (s\<lparr>gd_env := e, gd_log := gd_log s @ [Recovered v]\<rparr>)"
    using assms by (auto simp: fenced_at_def)
qed (use assms in \<open>auto simp: wp_ensure intro: exI [of _ NotStarted] exI [of _ st]\<close>)

lemma fence_previous_wp:
  fixes s :: "'e guard"
  assumes "fenced_at st False s"
  shows "wp (fence_previous W) (\<lambda>_ s'. (\<exists>st'. fenced_at st' False s' \<and> runs_in st' = None) \<and> gd_doc s' = gd_doc s) (\<lambda>_ s'. \<exists>st' c. fenced_at st' c s') s"
proof (cases "gd_report s")
  case None
  with assms have "runs_in st = None" by (auto simp: fenced_at_def named_group_def)
  with None assms show ?thesis by (auto simp: fence_previous_def wp_simps)
next
  case (Some previous)
  let ?v = "doc_get previous ''group_nonce''"
  let ?Q = "\<lambda>s' :: 'e guard. (\<exists>st'. fenced_at st' False s' \<and> runs_in st' = None) \<and> gd_doc s' = gd_doc s"
  have io: "pres ?Q (gd_io m)" for m :: "('e, 'c) py" by (rule pres_gd_io) auto
  have orphan: "wp (thn (stop_group W g) (bnd (gd_io (gw_exists W g)) (\<lambda>left. whn left (gd_io (gw_rmdir W g))))) (\<lambda>_. ?Q) (\<lambda>_ s'. \<exists>st' c. fenced_at st' c s') s"
    if g: "truthy ?v" "group_path ?v = Inr g" for g
  proof (rule wp_thnI [OF stop_group_wp [OF assms]])
    have "named_group s = Some g" using Some g by (simp add: named_group_def group_in_def)
    then show "runs_in st = None \<or> runs_in st = Some g" using assms by (auto simp: fenced_at_def)
    fix s' :: "'e guard" assume "fenced_at (settle st) False s' \<and> same_doc s s'"
    then have "?Q s'" using settle_simps(1) by blast
    then have "wp (bnd (gd_io (gw_exists W g)) (\<lambda>left. whn left (gd_io (gw_rmdir W g)))) (\<lambda>_. ?Q) (\<lambda>_. ?Q) s'"
      by (rule wp_pres [rotated]) (intro pres_intros io)
    then show "wp (bnd (gd_io (gw_exists W g)) (\<lambda>left. whn left (gd_io (gw_rmdir W g)))) (\<lambda>_. ?Q) (\<lambda>_ s'. \<exists>st' c. fenced_at st' c s') s'"
      by (rule wp_mono) auto
  qed auto
  have broken: "\<exists>st' c. fenced_at st' c s" using assms by blast
  have idle: "?Q s" if "\<not> truthy ?v"
    using assms Some that by (auto simp: fenced_at_def named_group_def group_in_def)
  show ?thesis
    unfolding fence_previous_def using assms Some idle
    by (auto intro!: wp_steps orphan simp: wp_whn broken)
qed

lemma start_drain_wp:
  fixes s :: "'e guard"
  assumes "running_at g st False s" "runs_in st = None" "unclaimed s"
  shows "wp (start_drain W) (\<lambda>_ s'. running_at g Drained False s') (\<lambda>_ s'. \<exists>st' c. fenced_at st' c s') s"
proof -
  have blocked: "pres (running_at g st' c) (thn (set_doc [(''phase'', PStr ''blocked''), (''error'', PStr (exn_text e))]) (thn (guard_publish W) (raise e)))"
    for e and W :: "'e guard_world" and st' c
    by (intro pres_thn running_set running_publish pres_raise) simp
  have fit: "fits g st' (gd_doc s)" if "runs_in st' = None" for st' using assms(1) that by (auto simp: fits_def)
  show ?thesis
    unfolding start_drain_def
  proof (rule wp_catch_allI [OF recover_wp])
    fix e and s' :: "'e guard" assume "(\<exists>st'. runs_in st' = None \<and> fenced_at st' False s') \<and> same_doc s s'"
    then obtain st' where "running_at g st' False s'" using fit by auto
    then show "wp (thn (set_doc [(''phase'', PStr ''blocked''), (''error'', PStr (exn_text e))]) (thn (guard_publish W) (raise e)))
        (\<lambda>_ s'. running_at g Drained False s') (\<lambda>_ s'. \<exists>st' c. fenced_at st' c s') s'"
      unfolding thn_def [of "guard_publish W"] thn_def [of "set_doc _"]
      by (intro wp_bndI [OF wp_pres [OF running_set]] wp_bndI [OF wp_pres [OF running_publish]]) (auto simp: wp_raise)
  qed (use assms fit in auto)
qed

lemma running_watch: "pres (running_at g st c) (watch W identity timeout n sequence sent deadline)"
proof (induction n arbitrary: sequence sent deadline)
  case (Suc n)
  show ?case
    unfolding watch.simps
    by (intro pres_intros running_io) (auto split: wake.split sum.split intro!: pres_intros running_io running_set running_publish Suc)
qed (simp add: pres_raise)

text \<open>The launch: what follows it may leave an owner and a process, both of this supervisor's group.\<close>

lemma launched_wp:
  fixes s :: "'e guard"
  assumes "running_at g (Active g) False s"
  shows "wp (bnd (gd_io (gw_spawn W nonce)) (\<lambda>pid. thn (upd (\<lambda>s. s\<lparr>gd_child := True, gd_log := gd_log s @ [Spawned]\<rparr>))
      (thn (gd_io (gw_pidfd_open W pid)) (thn (upd (\<lambda>s. s\<lparr>gd_pidfd := True\<rparr>)) (thn (set_doc [(''owner_pid'', PInt pid)])
      (thn (guard_publish W) (bnd (gd_io (gw_monotonic W)) (\<lambda>started. watch W i timeout n 0 0 (started + startup)))))))))
     (\<lambda>_ s'. \<exists>st c. running_at g st c s') (\<lambda>_ s'. \<exists>st c. running_at g st c s') s"
proof (rule wp_bndI [OF wp_pres [OF running_io assms]])
  fix pid and s' :: "'e guard" assume s': "running_at g (Active g) False s'"
  have "pres (running_at g (Active g) True) (thn (gd_io (gw_pidfd_open W pid)) (thn (upd (\<lambda>s. s\<lparr>gd_pidfd := True\<rparr>)) (thn (set_doc [(''owner_pid'', PInt pid)])
      (thn (guard_publish W) (bnd (gd_io (gw_monotonic W)) (\<lambda>started. watch W i timeout n 0 0 (started + startup)))))))"
    by (intro pres_intros running_io running_set running_publish running_watch pres_upd) simp_all
  moreover have "running_at g (Active g) True (s'\<lparr>gd_child := True, gd_log := gd_log s' @ [Spawned]\<rparr>)"
    using s' by (auto simp: fenced_at_def named_group_def)
  ultimately show "wp (thn (upd (\<lambda>s. s\<lparr>gd_child := True, gd_log := gd_log s @ [Spawned]\<rparr>)) (thn (gd_io (gw_pidfd_open W pid))
      (thn (upd (\<lambda>s. s\<lparr>gd_pidfd := True\<rparr>)) (thn (set_doc [(''owner_pid'', PInt pid)])
      (thn (guard_publish W) (bnd (gd_io (gw_monotonic W)) (\<lambda>started. watch W i timeout n 0 0 (started + startup))))))))
      (\<lambda>_ s'. \<exists>st c. running_at g st c s') (\<lambda>_ s'. \<exists>st c. running_at g st c s') s'"
    unfolding wp_thn [of "upd f" for f] wp_upd by (intro wp_mono [OF wp_pres]) blast+
qed blast

lemma run_owner_wp:
  fixes s :: "'e guard"
  assumes "running_at g Drained False s" "group_path (PStr nonce) = Inr g" "nonce \<noteq> []"
  shows "wp (run_owner W g nonce timeout startup) (\<lambda>_ s'. \<exists>st c. running_at g st c s') (\<lambda>_ s'. \<exists>st c. running_at g st c s') s"
proof -
  let ?I = "running_at g Drained False"
  let ?Q = "\<lambda>_ s'. \<exists>st c. running_at g st c s'"
  let ?spawn = "bnd (gd_io (gw_spawn W nonce)) (\<lambda>pid. thn (upd (\<lambda>s. s\<lparr>gd_child := True, gd_log := gd_log s @ [Spawned]\<rparr>))
      (thn (gd_io (gw_pidfd_open W pid)) (thn (upd (\<lambda>s. s\<lparr>gd_pidfd := True\<rparr>)) (thn (set_doc [(''owner_pid'', PInt pid)])
      (thn (guard_publish W) (bnd (gd_io (gw_monotonic W)) (\<lambda>started. watch W (the (from_hex (filter (\<lambda>c. c \<noteq> CHR ''-'') nonce))) timeout (gw_turns W) 0 0 (started + startup))))))))"
  have launch: "wp (thn (record_event (Launched g)) ?spawn) ?Q ?Q s'"
    if "?I s'" "gd_report s' = Some (gd_doc s')" "group_in (doc_get (gd_doc s') ''group_nonce'') = Some g" for s' :: "'e guard"
  proof -
    have "running_at g (Active g) False (s'\<lparr>gd_log := gd_log s' @ [Launched g]\<rparr>)"
      using that by (auto simp: fenced_at_def named_group_def fits_def)
    then show ?thesis
      unfolding record_event_def wp_thn wp_upd by (rule launched_wp)
  qed
  have named: "wp (thn (guard_publish W) (thn (record_event (Launched g)) ?spawn)) ?Q ?Q s'"
    if "?I s'" "group_in (doc_get (gd_doc s') ''group_nonce'') = Some g" for s' :: "'e guard"
    by (rule wp_thnI [OF running_publish_wp [OF that(1)]], rule launch) (use that(2) in auto)
  have first: "wp (thn (set_doc [(''phase'', PStr ''starting''), (''group_nonce'', PStr nonce)]) (thn (guard_publish W) (thn (record_event (Launched g)) ?spawn))) ?Q ?Q s'"
    if "?I s'" for s' :: "'e guard"
    unfolding set_doc_def [of "[(''phase'', PStr ''starting''), (''group_nonce'', PStr nonce)]"] wp_thn [of "upd f" for f] wp_upd
    by (rule named) (use that assms(2,3) in \<open>auto simp: fits_def claims_drained_def group_in_def\<close>)
  show ?thesis
    unfolding run_owner_def
    by (intro wp_bndI [OF wp_pres [OF running_io]] wp_ensureI first) (use assms in auto)
qed

abbreviation drained_doc :: "guard_doc \<Rightarrow> bool" where
  "drained_doc d \<equiv> doc_get d ''phase'' = PStr ''drained'' \<and> doc_get d ''group_nonce'' = PNone"

text \<open>The withdrawal after the owner is gone, and the report that says so.\<close>

lemma withdraw_wp:
  fixes s :: "'e guard"
  assumes "running_at g st False s" "runs_in st = None"
  shows "wp (thn (set_doc [(''phase'', PStr ''draining''), (''reason'', PStr reason)]) (thn (guard_publish W) (thn (do_recover W reason fault)
      (thn (gd_io (gw_rmdir W g)) (set_doc [(''phase'', PStr ''drained''), (''group_nonce'', PNone), (''withdrawal_acknowledged'', PBool True)])))))
     (\<lambda>_ s'. fenced_at Drained False s' \<and> drained_doc (gd_doc s')) (\<lambda>_ s'. \<exists>st c. running_at g st c s') s"
proof (rule wp_thnI [OF wp_pres [OF running_set assms(1)]])
  let ?Q = "\<lambda>_ (s' :: 'e guard). fenced_at Drained False s' \<and> drained_doc (gd_doc s')"
  let ?E = "\<lambda>_ (s' :: 'e guard). \<exists>st c. running_at g st c s'"
  have last_step: "wp (thn (gd_io (gw_rmdir W g)) (set_doc [(''phase'', PStr ''drained''), (''group_nonce'', PNone), (''withdrawal_acknowledged'', PBool True)])) ?Q ?E s'"
    if "running_at g Drained False s'" for s'
    by (rule wp_thnI [OF wp_pres [OF running_io that]]) (auto simp: set_doc_def wp_upd)
  have drain: "wp (thn (do_recover W reason fault) (thn (gd_io (gw_rmdir W g)) (set_doc [(''phase'', PStr ''drained''), (''group_nonce'', PNone), (''withdrawal_acknowledged'', PBool True)]))) ?Q ?E s'"
    if s': "running_at g st False s'" "gd_report s' = Some (gd_doc s')" for s' :: "'e guard"
  proof -
    have fit: "fits g st' (gd_doc s')" if "runs_in st' = None" for st' using s'(1) that by (auto simp: fits_def)
    show ?thesis
    proof (rule wp_thnI [OF recover_wp])
      show "unclaimed s'" using s' by (auto simp: fits_def)
      fix s1 :: "'e guard" assume "fenced_at Drained False s1 \<and> same_doc s' s1"
      then show "wp (thn (gd_io (gw_rmdir W g)) (set_doc [(''phase'', PStr ''drained''), (''group_nonce'', PNone), (''withdrawal_acknowledged'', PBool True)])) ?Q ?E s1"
        using fit [of Drained] by (intro last_step) auto
    next
      fix e and s1 :: "'e guard" assume "(\<exists>st'. runs_in st' = None \<and> fenced_at st' False s1) \<and> same_doc s' s1"
      then show "?E e s1" using fit by auto
    qed (use s' assms(2) in auto)
  qed
  fix s1 :: "'e guard" assume s1: "running_at g st False s1"
  show "wp (thn (guard_publish W) (thn (do_recover W reason fault) (thn (gd_io (gw_rmdir W g))
      (set_doc [(''phase'', PStr ''drained''), (''group_nonce'', PNone), (''withdrawal_acknowledged'', PBool True)])))) ?Q ?E s1"
    by (rule wp_thnI [OF running_publish_wp [OF s1]], rule drain) auto
qed auto

lemma stop_owner_wp:
  fixes s :: "'e guard"
  assumes "running_at g st c s"
  shows "wp (stop_owner W g reason) (\<lambda>_ s'. fenced_at Drained False s' \<and> drained_doc (gd_doc s')) (\<lambda>_ s'. \<exists>st c. running_at g st c s') s"
proof -
  let ?Q = "\<lambda>_ (s' :: 'e guard). fenced_at Drained False s' \<and> drained_doc (gd_doc s')"
  let ?E = "\<lambda>_ (s' :: 'e guard). \<exists>st c. running_at g st c s'"
  let ?rest = "thn (set_doc [(''phase'', PStr ''draining''), (''reason'', PStr reason)]) (thn (guard_publish W) (thn (do_recover W reason ''final drain not acknowledged'')
      (thn (gd_io (gw_rmdir W g)) (set_doc [(''phase'', PStr ''drained''), (''group_nonce'', PNone), (''withdrawal_acknowledged'', PBool True)]))))"
  let ?wait = "bnd (traced (\<lambda>_. Reaped) (gw_wait W)) (\<lambda>code. set_doc [(''owner_exit_code'', PInt code)])"
  have reaped: "wp ?wait (\<lambda>_ s'. running_at g (settle st) False s') ?E s1" if s1: "running_at g (settle st) c s1" for s1 :: "'e guard"
  proof (rule wp_bndI [OF traced_wp [where Q = "\<lambda>_ s'. running_at g (settle st) False s'" and E = ?E]])
    show "running_at g (settle st) False (s1\<lparr>gd_env := e, gd_log := gd_log s1 @ [Reaped]\<rparr>)" for x :: int and e
      using s1 by (auto simp: fenced_at_def)
    fix code and s2 :: "'e guard" assume "running_at g (settle st) False s2"
    then show "wp (set_doc [(''owner_exit_code'', PInt code)]) (\<lambda>_ s'. running_at g (settle st) False s') ?E s2"
      by (rule wp_mono [OF wp_pres [OF running_set, rotated]]) auto
  qed (use s1 in auto)
  have waited: "wp (thn (whn child ?wait) ?rest) ?Q ?E s1" if s1: "running_at g (settle st) c s1" "c \<longrightarrow> child" for s1 :: "'e guard" and child
  proof (rule wp_thnI [where P = "\<lambda>_ s'. running_at g (settle st) False s'" and E' = ?E])
    show "wp (whn child ?wait) (\<lambda>_ s'. running_at g (settle st) False s') ?E s1"
      by (cases child) (use s1 reaped in \<open>simp_all add: wp_whn\<close>)
    fix s2 :: "'e guard" assume "running_at g (settle st) False s2"
    then show "wp ?rest ?Q ?E s2" by (rule withdraw_wp) simp
  qed
  have stopped: "wp (thn (stop_group W g) (thn (whn child ?wait) ?rest)) ?Q ?E s1" if s1: "running_at g st c s1" "c \<longrightarrow> child" for s1 :: "'e guard" and child
  proof (rule wp_thnI [OF stop_group_wp [of st c]])
    show "runs_in st = None \<or> runs_in st = Some g" using s1 by (auto simp: fits_def)
    fix s2 :: "'e guard" assume "fenced_at (settle st) c s2 \<and> same_doc s1 s2"
    then show "wp (thn (whn child ?wait) ?rest) ?Q ?E s2" using s1 by (intro waited) (auto simp: fits_def)
  next
    fix e and s2 :: "'e guard" assume *: "(\<exists>st'. runs_in st' = runs_in st \<and> fenced_at st' c s2) \<and> same_doc s1 s2"
    then obtain st' where "runs_in st' = runs_in st" "fenced_at st' c s2" by blast
    moreover have "fits g st' (gd_doc s2)" using calculation(1) * s1 by (simp add: fits_def)
    ultimately show "?E e s2" by blast
  qed (use s1 in simp)
  have child: "c \<longrightarrow> gd_child s" using assms by (simp add: fenced_at_def)
  show ?thesis
    unfolding stop_owner_def
  proof (intro wp_getsI, rule wp_thnI [OF wp_pres [where I = "running_at g st c"]], goal_cases)
    case 1
    show ?case by (intro pres_intros running_io)
  next
    case (3 x s1)
    then show ?case using child by (intro stopped)
  qed (use assms in auto)
qed

lemma close_owner_wp:
  fixes s :: "'e guard"
  assumes "running_at g st c s"
  shows "wp (close_owner W g reason error) (\<lambda>d s'. fenced_at Drained False s' \<and> gd_report s' = Some d \<and> drained_doc d)
     (\<lambda>_ s'. \<exists>st c. fenced_at st c s') s"
proof -
  let ?M = "\<lambda>(failed :: exn option) (s' :: 'e guard).
      if failed = None then fenced_at Drained False s' \<and> drained_doc (gd_doc s')
      else (\<exists>st c. running_at g st c s') \<or> fenced_at Drained False s' \<and> drained_doc (gd_doc s')"
  have tried: "wp (catch_all (thn (stop_owner W g reason) (ret error)) (\<lambda>e. thn (set_doc [(''phase'', PStr ''blocked''), (''reason'', PStr reason),
      (''error'', PStr (exn_text e)), (''withdrawal_acknowledged'', PBool False)]) (ret (Some e)))) ?M (\<lambda>_ s'. \<exists>st c. fenced_at st c s') s"
  proof (rule wp_catch_allI)
    show "wp (thn (stop_owner W g reason) (ret error)) ?M (\<lambda>_ s'. \<exists>st c. running_at g st c s') s"
      by (rule wp_thnI [OF stop_owner_wp [OF assms]]) (auto simp: wp_ret)
    fix e and s' :: "'e guard" assume "\<exists>st c. running_at g st c s'"
    then obtain st' c' where "running_at g st' c' s'" by blast
    then show "wp (thn (set_doc [(''phase'', PStr ''blocked''), (''reason'', PStr reason), (''error'', PStr (exn_text e)), (''withdrawal_acknowledged'', PBool False)])
        (ret (Some e))) ?M (\<lambda>_ s'. \<exists>st c. fenced_at st c s') s'"
      by (rule wp_thnI [OF wp_pres [OF running_set, rotated]]) (auto simp: wp_ret)
  qed auto
  show ?thesis
    unfolding close_owner_def
  proof (rule wp_bndI [OF tried])
    fix failed :: "exn option" and s' :: "'e guard" assume M: "?M failed s'"
    let ?after = "thn (guard_publish W) (case failed of None \<Rightarrow> gets gd_doc | Some e \<Rightarrow> raise e)"
    have done_wp: "wp ?after (\<lambda>d s'. fenced_at Drained False s' \<and> gd_report s' = Some d \<and> drained_doc d) (\<lambda>_ s'. \<exists>st c. fenced_at st c s') s'"
      if "fenced_at Drained False s' \<and> drained_doc (gd_doc s')"
      by (rule wp_thnI [OF publish_wp [of Drained False]]) (use that in \<open>auto simp: wp_gets wp_raise split: option.split\<close>)
    have blocked_wp: "wp ?after (\<lambda>d s'. fenced_at Drained False s' \<and> gd_report s' = Some d \<and> drained_doc d) (\<lambda>_ s'. \<exists>st c. fenced_at st c s') s'"
      if "running_at g st' c' s'" "failed = Some e" for st' c' e
      by (rule wp_thnI [OF running_publish_wp [OF that(1)]]) (use that(2) in \<open>auto simp: wp_raise\<close>)
    show "wp ?after (\<lambda>d s'. fenced_at Drained False s' \<and> gd_report s' = Some d \<and> drained_doc d) (\<lambda>_ s'. \<exists>st c. fenced_at st c s') s'"
      using M done_wp blocked_wp by (cases failed) auto
  qed auto
qed

lemma supervise_wp:
  fixes s :: "'e guard"
  assumes "fenced_at st c s"
  shows "wp (supervise W command timeout startup) (\<lambda>d s'. fenced_at Drained False s' \<and> gd_report s' = Some d \<and> drained_doc d)
     (\<lambda>_ s'. \<exists>st c. fenced_at st c s') s"
proof -
  let ?Q = "\<lambda>d (s' :: 'e guard). fenced_at Drained False s' \<and> gd_report s' = Some d \<and> drained_doc d"
  let ?E = "\<lambda>_ (s' :: 'e guard). \<exists>st c. fenced_at st c s'"
  have io: "pres (fenced_at st c) (gd_io m)" for m :: "('e, 'c) py" and st c by (rule pres_gd_io) simp
  let ?I = "\<lambda>s' :: 'e guard. fenced_at Drained False s' \<and> \<not> claims_drained (gd_doc s')"
  have keep: "pres ?I (gd_io m)" for m :: "('e, 'c) py" by (rule pres_gd_io) simp
  have body: "wp (bnd (catch_all (bnd (run_owner W g nonce t u) (\<lambda>reason. ret (reason, None))) (\<lambda>e. ret (''supervisor failure: '' @ exn_text e, Some e)))
      (\<lambda>outcome. close_owner W g (fst outcome) (snd outcome))) ?Q ?E s'" if "?I s'" "group_path (PStr nonce) = Inr g" "nonce \<noteq> []" for s' g nonce t u
  proof (rule wp_bndI [where P = "\<lambda>_ s'. \<exists>st c. running_at g st c s'" and E' = "\<lambda>_ s'. \<exists>st c. running_at g st c s'"])
    show "wp (catch_all (bnd (run_owner W g nonce t u) (\<lambda>reason. ret (reason, None))) (\<lambda>e. ret (''supervisor failure: '' @ exn_text e, Some e)))
        (\<lambda>_ s'. \<exists>st c. running_at g st c s') (\<lambda>_ s'. \<exists>st c. running_at g st c s') s'"
      by (rule wp_catch_allI [OF wp_bndI [OF run_owner_wp]]) (use that in \<open>auto simp: wp_ret fits_def\<close>)
  qed (auto intro: close_owner_wp)
  have launched: "wp (bnd (gd_io (gw_nonce W)) (\<lambda>nonce. bnd (lift_res (group_path (PStr nonce))) (\<lambda>g.
      thn (gd_io (gw_mkdir W g)) (thn (gd_io (gw_channel W))
      (bnd (catch_all (bnd (run_owner W g nonce t u) (\<lambda>reason. ret (reason, None))) (\<lambda>e. ret (''supervisor failure: '' @ exn_text e, Some e)))
        (\<lambda>outcome. close_owner W g (fst outcome) (snd outcome))))))) ?Q ?E s'" if "?I s'" for s' t u
  proof (rule wp_bndI [OF wp_pres [OF keep that]], rule wp_liftI)
    fix nonce g and s1 :: "'e guard" assume s1: "?I s1" and g: "group_path (PStr nonce) = Inr g"
    then have "nonce \<noteq> []" by (auto simp: group_path_def is_uuid_def uuid_text_def split: if_splits)
    with g show "wp (thn (gd_io (gw_mkdir W g)) (thn (gd_io (gw_channel W))
      (bnd (catch_all (bnd (run_owner W g nonce t u) (\<lambda>reason. ret (reason, None))) (\<lambda>e. ret (''supervisor failure: '' @ exn_text e, Some e)))
        (\<lambda>outcome. close_owner W g (fst outcome) (snd outcome))))) ?Q ?E s1"
      by (intro wp_thnI [OF wp_pres [OF keep]] body) (use s1 in auto)
  qed auto
  have drained: "wp (thn (guard_publish W) (thn (start_drain W) k)) ?Q ?E s'"
    if "fenced_at st' False s'" "runs_in st' = None" "gd_doc s' = first_doc boot" "\<And>s'. ?I s' \<Longrightarrow> wp k ?Q ?E s'" for st' s' boot k
  proof (rule wp_thnI [OF running_publish_wp [where g = "[]" and st = st']])
    show "running_at [] st' False s'" using that(1-3) by (simp add: fits_def claims_drained_def doc_get_def first_doc_def)
    fix s1 :: "'e guard" assume s1: "running_at [] st' False s1 \<and> gd_doc s1 = gd_doc s' \<and> gd_report s1 = Some (gd_doc s')"
    then have "unclaimed s1" by (auto simp: fits_def)
    then show "wp (thn (start_drain W) k) ?Q ?E s1"
      by (intro wp_thnI [OF start_drain_wp [where g = "[]" and st = st']]) (use s1 that(2,4) in \<open>auto simp: fits_def\<close>)
  qed auto
  have fenced: "wp (thn (fence_previous W) (thn (guard_publish W) (thn (start_drain W) k))) ?Q ?E s'"
    if "fenced_at st False s'" "gd_doc s' = first_doc boot" "\<And>s'. ?I s' \<Longrightarrow> wp k ?Q ?E s'" for s' boot k
    by (rule wp_thnI [OF fence_previous_wp [OF that(1)]]) (use that(2,3) in \<open>auto intro: drained\<close>)
  have begin_at: "fenced_at st False (s'\<lparr>gd_doc := d, gd_child := b, gd_pidfd := p, gd_log := gd_log s' @ [Began]\<rparr>)" if "fenced_at st c s'" for s' :: "'e guard" and d b p
    using that by (auto simp: fenced_at_def named_group_def)
  show ?thesis
    unfolding supervise_def
  proof (intro wp_ensureI, rule wp_thnI [OF wp_pres [OF io assms]], rule wp_bndI [OF wp_pres [OF io]], assumption, goal_cases)
    case (1 u s1 boot s2)
    then show ?case
      unfolding wp_thn [of "upd f" for f] wp_upd by (intro fenced launched begin_at) auto
  qed (use assms in blast)+
qed

text \<open>
  Supervisors that run one after another on one machine, each ended by anything, on a report that
  only they write.
\<close>

inductive guard_run :: "'e guard \<Rightarrow> bool" where
  guard_start: "gd_report s = None \<Longrightarrow> gd_log s = [] \<Longrightarrow> guard_run s"
| guard_supervise: "guard_run s \<Longrightarrow> guard_run (snd (supervise W command timeout startup s))"
| guard_other: "guard_run s \<Longrightarrow> guard_run (s\<lparr>gd_env := e\<rparr>)"

lemma guard_run_fenced: "guard_run s \<Longrightarrow> \<exists>st c. fenced_at st c s"
proof (induction rule: guard_run.induct)
  case (guard_start s)
  then show ?case by (intro exI [of _ NotStarted] exI [of _ False]) (simp add: fenced_at_def fence_log_def named_group_def)
next
  case (guard_supervise s W command timeout startup)
  from guard_supervise.IH obtain st c where "fenced_at st c s" by blast
  from supervise_wp [OF this, of W command timeout startup] show ?case
    by (cases "supervise W command timeout startup s") (auto simp: wp_def split: sum.splits)
qed simp

text \<open>
  C19.  Over any sequence of supervisor runs, each ended anywhere, and at every moment of them: an owner
  was launched only when the recovery callback had last returned \<open>True\<close> and the report on disk named
  its group; from the launch on the report keeps naming the group, and the callback is not called,
  until the group was seen absent, or its kill file was written and then its population read as
  zero, and a process spawned by this supervisor was waited for.  A report that claims the
  withdrawal is about hardware whose recovery callback last returned \<open>True\<close>.
\<close>

theorem supervisor_fences_owner:
  assumes "guard_run s"
  shows "(\<exists>st named child. fence_log (gd_log s) = Some (st, named, child) \<and> (runs_in st = None \<or> named_group s = runs_in st) \<and>
      (\<forall>d. gd_report s = Some d \<longrightarrow> claims_drained d \<longrightarrow> st = Drained)) \<and>
    (\<forall>n. fence_log (take n (gd_log s)) \<noteq> None)"
proof -
  obtain st c where st: "fenced_at st c s" using guard_run_fenced [OF assms] by blast
  then have "fence_log (take n (gd_log s) @ drop n (gd_log s)) \<noteq> None" for n by (simp add: fenced_at_def)
  then have "fence_log (take n (gd_log s)) \<noteq> None" for n by (rule fence_prefix)
  then show ?thesis using st unfolding fenced_at_def by blast
qed

text \<open>
  C20.  A supervisor that returns leaves no owner and no process behind: whatever was launched was
  seen gone after its group was killed, or absent, what it spawned was waited for, and after that the
  recovery callback returned \<open>True\<close>; the report says so and names no group.  Every other end is an
  exception.
\<close>

theorem supervise_returns_drained:
  assumes "guard_run s" and "supervise W command timeout startup s = (Inr d, s')"
  shows "fence_log (gd_log s') = Some (Drained, None, False) \<and> gd_report s' = Some d \<and>
     doc_get d ''phase'' = PStr ''drained'' \<and> doc_get d ''group_nonce'' = PNone"
proof -
  obtain st c where "fenced_at st c s" using guard_run_fenced [OF assms(1)] by blast
  from wp_returns [OF supervise_wp [OF this] assms(2)] show ?thesis by (auto simp: fenced_at_def named_group_def group_in_def)
qed

section \<open>A concrete machine\<close>

definition sample_nonce :: string where
  "sample_nonce = ''00000000-0000-0000-0000-000000000000''"

definition sample_owner_group :: string where
  "sample_owner_group = ''ffn-fe100-owner-00000000000000000000000000000000''"

definition sample_guard :: "unit guard_world" where
  "sample_guard = \<lparr>gw_lock = ret (), gw_boot = ret ''boot'', gw_write = ret (), gw_sync = ret (), gw_exists = (\<lambda>_. ret True), gw_mkdir = (\<lambda>_. ret ()),
     gw_rmdir = (\<lambda>_. ret ()), gw_kill_file = (\<lambda>_. ret True), gw_kill_group = (\<lambda>_. ret ()), gw_populated = (\<lambda>_. ret (Some ''0'')),
     gw_monotonic = ret 0, gw_now_ns = ret 0, gw_nonce = ret sample_nonce, gw_channel = ret (), gw_spawn = (\<lambda>_. ret 77),
     gw_pidfd_open = (\<lambda>_. ret ()), gw_select = (\<lambda>_. ret OwnerExit), gw_signal = ret (), gw_kill_child = ret (), gw_wait = ret 0,
     gw_recover = (\<lambda>_. ret (PBool True)), gw_turns = 1, gw_polls = 1\<rparr>"

definition idle_guard :: "unit guard" where
  "idle_guard = \<lparr>gd_env = (), gd_report = None, gd_doc = [], gd_child = False, gd_pidfd = False, gd_log = []\<rparr>"

definition guarded :: "unit guard" where
  "guarded = snd (supervise sample_guard (PList [PStr ''owner'']) (PInt 3) (PInt 15) idle_guard)"

lemma sample_group:
  "group_path (PStr sample_nonce) = Inr sample_owner_group"
  by code_simp

lemma sample_prefix: "starts_with group_prefix sample_owner_group"
  by code_simp

lemma sample_checks: "bounded_time (PInt 3)" "bounded_time (PInt 15)" "command_ok (PList [PStr ''owner''])"
  by (simp_all add: bounded_time_def finite_num_def command_ok_def) code_simp

lemma guarded_run:
  "(\<exists>d. fst (supervise sample_guard (PList [PStr ''owner'']) (PInt 3) (PInt 15) idle_guard) = Inr d) \<and>
   gd_log guarded = [Began, Reported PNone, Recovered (PBool True), Reported (PStr sample_nonce), Launched sample_owner_group, Spawned, Reported (PStr sample_nonce),
     Found sample_owner_group True, Killed sample_owner_group, Population sample_owner_group (Some ''0''), Reaped, Reported (PStr sample_nonce),
     Recovered (PBool True), Reported PNone]"
  by (simp add: guarded_def supervise_def sample_checks sample_group sample_prefix gd_io_def zoom_def bnd_def thn_def ret_def upd_def gets_def
      lift_res_def ensure_def whn_def catch_all_def fence_previous_def guard_publish_def start_drain_def do_recover_def record_event_def traced_def
      run_owner_def close_owner_def stop_owner_def stop_group_def set_doc_def first_doc_def sample_guard_def idle_guard_def doc_get_def
      eval_nat_numeral)

lemma idle_guard_run: "guard_run idle_guard"
  by (rule guard_start) (simp_all add: idle_guard_def)

theorem supervisor_fences_owner_witness:
  "fence_log [Began, Reported PNone, Recovered (PBool True), Reported (PStr sample_nonce), Launched sample_owner_group] =
     Some (Active sample_owner_group, Some sample_owner_group, False)"
proof -
  have "guard_run guarded" unfolding guarded_def by (rule guard_supervise [OF idle_guard_run])
  from supervisor_fences_owner [OF this] have "fence_log (take 5 (gd_log guarded)) \<noteq> None" by blast
  then have "fence_log [Began, Reported PNone, Recovered (PBool True), Reported (PStr sample_nonce), Launched sample_owner_group] \<noteq> None"
    by (simp add: guarded_run)
  then show ?thesis by (simp add: fence_log_def group_in_def sample_group split: if_splits)
qed

theorem supervise_returns_drained_witness: "\<exists>d. gd_report guarded = Some d \<and> doc_get d ''phase'' = PStr ''drained''"
proof -
  obtain d where "supervise sample_guard (PList [PStr ''owner'']) (PInt 3) (PInt 15) idle_guard = (Inr d, guarded)"
    using guarded_run by (auto simp: guarded_def prod_eq_iff)
  from supervise_returns_drained [OF idle_guard_run this] show ?thesis by blast
qed

end
