(* ===== verification/PlaneRestart.thy ===== *)
theory PlaneRestart
  imports PyText
begin

unbundle bit_operations_syntax

text \<open>
  The restarts of the control and data processors owned by the management plane, \<open>Lifecycle\<close> of
  \<open>plane_lifecycle.py\<close>: what may be restarted, the submission of a job and its worker.  The control
  RPC, systemd, clocks, the lock and the writing of the two state files are parameters; the files'
  content is state.  A waiting loop is cut by an interrupt after \<open>pw_turns\<close> turns, any number.  The log
  of dispatched resets and that of observations, each with the resets before it, are not variables of
  the code.
\<close>

section \<open>What the processors report\<close>

record seen_role =
  sr_boot :: pyval
  sr_fresh :: bool
  sr_ready :: bool
  sr_acknowledged :: bool
  sr_age :: pyval
  sr_runtime :: pyval

record seen =
  se_cp :: seen_role
  se_dp :: seen_role

definition seen_of :: "string \<Rightarrow> seen \<Rightarrow> seen_role" where
  "seen_of role v = (if role = ''cp'' then se_cp v else se_dp v)"

text \<open>\<open>v.get(k)\<close> of a value that may not be a dictionary.\<close>

definition attr_get :: "pyval \<Rightarrow> string \<Rightarrow> exn + pyval" where
  "attr_get v k = (if is_dict v then Inr (py_get v k) else Inl (OtherError ''AttributeError''))"

definition pa5200_agent :: "string \<Rightarrow> pyval \<Rightarrow> exn + bool" where
  "pa5200_agent role a = (rbnd (attr_get a ''role'') (\<lambda>r.
    if r \<noteq> PStr role then Inr False
     else (rbnd (attr_get a ''last_observation'') (\<lambda>last.
       rbnd (attr_get (py_or last (PDict [])) ''platform'') (\<lambda>platform.
       Inr (platform = PStr ''pa5200''))))))"

definition observe_role :: "pyval list \<Rightarrow> string \<Rightarrow> exn + seen_role" where
  "observe_role agents role = (rbnd (rcollect agents (pa5200_agent role)) (\<lambda>flags.
    let mine = map fst (filter snd (zip agents flags)) in
    let a = (if length mine = 1 then hd mine else PDict []) in
    rbnd (attr_get a ''last_observation'') (\<lambda>last.
    rbnd (attr_get (py_or last (PDict [])) ''report'') (\<lambda>found.
    let report = py_or found (PDict []) in
    rbnd (attr_get report ''boot_id'') (\<lambda>reported.
    let boot = (if is_uuid reported then reported else PNone) in
    Inr \<lparr>sr_boot = boot, sr_fresh = (py_get a ''fresh'' = PBool True \<and> boot \<noteq> PNone), sr_ready = (py_get a ''ready'' = PBool True),
       sr_acknowledged = (py_get report ''restart_acknowledged'' = PBool True), sr_age = py_get a ''age_seconds'', sr_runtime = py_get report ''runtime''\<rparr>)))))"

definition observations :: "pyval \<Rightarrow> exn + seen" where
  "observations state = (rthn (rcheck (is_dict state) (OtherError ''AttributeError''))
    (let agents = (if has_key state ''agents'' then py_get state ''agents'' else PDict []) in
    rthn (rcheck (is_dict agents) (OtherError ''AttributeError''))
    (rbnd (observe_role (map snd (the_dict agents)) ''cp'') (\<lambda>cp.
    rbnd (observe_role (map snd (the_dict agents)) ''dp'') (\<lambda>dp.
    Inr \<lparr>se_cp = cp, se_dp = dp\<rparr>)))))"

section \<open>The commissioning file\<close>

record config_file =
  cf_symlink :: bool
  cf_uid :: int
  cf_mode :: int
  cf_size :: int
  cf_body :: pyval

record role_setting =
  rs_enabled :: bool
  rs_timeout :: int

definition roles :: "string list" where
  "roles = [''cp'', ''dp'']"

definition role_setting_of :: "string \<times> pyval \<Rightarrow> exn + string \<times> role_setting" where
  "role_setting_of = (\<lambda>(role, item). (rthn (rcheck (role \<in> set roles) (ValueError ''Invalid restart role configuration''))
    (rbnd (set_is item [''enabled'', ''timeout'']) (\<lambda>same.
    rthn (rcheck same (ValueError ''Invalid restart role configuration''))
    (rbnd (py_item item ''enabled'') (\<lambda>enabled.
    rbnd (py_item item ''timeout'') (\<lambda>timeout.
    rthn (rcheck (is_bool enabled \<and> int_in timeout 30 1200) (ValueError ''Invalid restart role configuration''))
    (Inr (role, \<lparr>rs_enabled = (enabled = PBool True), rs_timeout = the_int timeout\<rparr>)))))))))"

definition settings_of :: "config_file option \<Rightarrow> exn + (string \<times> role_setting) list" where
  "settings_of file = (case file of None \<Rightarrow> Inr []
    | Some f \<Rightarrow> (rthn (rcheck (\<not> cf_symlink f \<and> cf_uid f = 0 \<and> cf_mode f AND 18 = 0 \<and> cf_size f \<le> 8192)
          (ValueError ''Restart commissioning file must be root-owned and protected''))
      (rbnd (set_is (cf_body f) [''schema'', ''roles'']) (\<lambda>same.
      rthn (rcheck same (ValueError ''Invalid restart commissioning file''))
      (rbnd (py_item (cf_body f) ''schema'') (\<lambda>schema.
      rbnd (py_item (cf_body f) ''roles'') (\<lambda>found.
      rthn (rcheck (py_eq schema (PInt 1) \<and> is_dict found) (ValueError ''Invalid restart commissioning file''))
      (rcollect (the_dict found) role_setting_of))))))))"

section \<open>The state of the restarts\<close>

record role_status =
  rv_seen :: seen_role
  rv_available :: bool
  rv_reason :: "string option"

record job =
  jb_id :: string
  jb_role :: string
  jb_status :: string
  jb_message :: string
  jb_created :: rat
  jb_before :: "role_status \<times> role_status"
  jb_started :: "rat option"
  jb_finished :: "rat option"
  jb_after :: "seen option"
  jb_ready :: "bool option"

record plane_state =
  ps_revision :: int
  ps_job :: "job option"

record 'e plane =
  pl_env :: 'e
  pl_saved :: plane_state
  pl_history :: "job list"
  pl_job :: job
  pl_resets :: "(string \<times> string) list"
  pl_seen :: "((string \<times> string) list \<times> seen) list"

record 'e plane_world =
  pw_control :: "('e, pyval) py"
  pw_config :: "('e, config_file option) py"
  pw_show :: "string \<Rightarrow> ('e, (string \<times> string) list) py"
  pw_time :: "('e, rat) py"
  pw_clock :: "('e, rat) py"
  pw_sleep :: "('e, unit) py"
  pw_lock :: "('e, unit) py"
  pw_write :: "('e, unit) py"
  pw_sync :: "('e, unit) py"
  pw_launch :: "string \<Rightarrow> ('e, unit) py"
  pw_start :: "string \<Rightarrow> ('e, bool) py"
  pw_detail :: "string \<Rightarrow> ('e, (rat \<times> string) option) py"
  pw_turns :: nat

definition pl_io :: "('e, 'a) py \<Rightarrow> ('e plane, 'a) py" where
  "pl_io m = zoom pl_env (\<lambda>e s. s\<lparr>pl_env := e\<rparr>) m"

definition observe :: "'e plane_world \<Rightarrow> ('e plane, seen) py" where
  "observe W = (bnd (pl_io (pw_control W)) (\<lambda>state.
    bnd (lift_res (observations state)) (\<lambda>v.
    thn (upd (\<lambda>s. s\<lparr>pl_seen := pl_seen s @ [(pl_resets s, v)]\<rparr>))
    (ret v))))"

definition plane_settings :: "'e plane_world \<Rightarrow> ('e plane, (string \<times> role_setting) list) py" where
  "plane_settings W = (bnd (pl_io (pw_config W)) (\<lambda>file.
    lift_res (settings_of file)))"

definition unit_name :: "string \<Rightarrow> string" where
  "unit_name role = ''ffn-pa5200-restart-'' @ role @ ''.service''"

definition worker_name :: "string \<Rightarrow> string" where
  "worker_name ident = ''ffn-plane-restart-'' @ ident @ ''.service''"

definition active_in :: "string list \<Rightarrow> (string \<times> string) list \<Rightarrow> bool" where
  "active_in states u \<longleftrightarrow> (case dict_get u ''ActiveState'' of None \<Rightarrow> False | Some v \<Rightarrow> v \<in> set states)"

definition busy_states :: "string list" where
  "busy_states = [''active'', ''activating'', ''deactivating'']"

definition alive :: "'e plane_world \<Rightarrow> job \<Rightarrow> ('e plane, bool) py" where
  "alive W j = (bnd (pl_io (pw_show W (worker_name (jb_id j)))) (\<lambda>u.
    ret (active_in [''active'', ''activating''] u)))"

section \<open>Status and validation\<close>

definition unseen :: seen_role where
  "unseen = \<lparr>sr_boot = PNone, sr_fresh = False, sr_ready = False, sr_acknowledged = False, sr_age = PNone, sr_runtime = PNone\<rparr>"

definition oneshot :: "(string \<times> string) list \<Rightarrow> bool" where
  "oneshot u \<longleftrightarrow> dict_get u ''LoadState'' = Some ''loaded'' \<and> dict_get u ''Type'' = Some ''oneshot'' \<and> dict_get u ''RemainAfterExit'' = Some ''no''"

definition refusal :: "string option \<Rightarrow> (string \<times> role_setting) list \<Rightarrow> seen \<Rightarrow> (string \<times> string) list \<Rightarrow> string \<Rightarrow> string option" where
  "refusal error settings now u role =
     (if error \<noteq> None \<and> error \<noteq> Some [] then error
      else if \<not> (case dict_get settings role of None \<Rightarrow> False | Some c \<Rightarrow> rs_enabled c) then Some ''Restart owner is not commissioned''
      else if \<not> oneshot u then Some ''A dedicated oneshot restart service is required''
      else if \<not> sr_fresh (seen_of role now) then Some ''Fresh processor boot identity is unavailable''
      else if role = ''dp'' \<and> \<not> (sr_fresh (se_cp now) \<and> sr_ready (se_cp now)) then Some ''Control Plane must be connected and ready to restart Data Plane''
      else None)"

definition role_status_of :: "string option \<Rightarrow> (string \<times> role_setting) list \<Rightarrow> seen \<Rightarrow> bool \<Rightarrow> (string \<times> string) list \<Rightarrow> string \<Rightarrow> role_status" where
  "role_status_of error settings now busy u role = (let reason = refusal error settings now u role in
     \<lparr>rv_seen = seen_of role now, rv_available = (reason = None \<and> \<not> busy),
      rv_reason = (case reason of Some r \<Rightarrow> Some r | None \<Rightarrow> if busy then Some ''Another processor restart is in progress'' else None)\<rparr>)"

record status =
  st_revision :: int
  st_cp :: role_status
  st_dp :: role_status
  st_job :: "job option"
  st_busy :: bool

definition status_of :: "string \<Rightarrow> status \<Rightarrow> role_status" where
  "status_of role v = (if role = ''cp'' then st_cp v else st_dp v)"

text \<open>The errors of reading the configuration that \<open>except (ValueError, OSError)\<close> catches.\<close>

definition config_error :: "exn \<Rightarrow> string option" where
  "config_error e = (case e of ValueError m \<Rightarrow> Some m | _ \<Rightarrow> if is_os_error e then Some (exn_text e) else None)"

definition plane_status :: "'e plane_world \<Rightarrow> ('e plane, status) py" where
  "plane_status W = (bnd (gets pl_saved) (\<lambda>saved.
    bnd (catch_all ((bnd (plane_settings W) (\<lambda>c.
       ret (c, None))))
       (\<lambda>e. case config_error e of Some m \<Rightarrow> ret ([], Some m) | None \<Rightarrow> raise e)) (\<lambda>conf.
    bnd (catch_exn (observe W) (\<lambda>_. ret \<lparr>se_cp = unseen, se_dp = unseen\<rparr>)) (\<lambda>now.
    let waiting = (case ps_job saved of None \<Rightarrow> False | Some j \<Rightarrow> jb_status j \<in> {''queued'', ''running''}) in
    bnd (case ps_job saved of None \<Rightarrow> ret False
       | Some j \<Rightarrow> if \<not> waiting then ret False
           else (bnd (pl_io (pw_time W)) (\<lambda>t.
             if 30 < t - jb_created j then (bnd (alive W j) (\<lambda>up.
               ret (\<not> up))) else ret False))) (\<lambda>lost.
    let shown = (if lost then map_option (\<lambda>j. j\<lparr>jb_status := ''interrupted'',
       jb_message := ''Restart worker stopped; inspect processor and boot owner state''\<rparr>) (ps_job saved) else ps_job saved) in
    bnd (pl_io (pw_show W (unit_name ''cp''))) (\<lambda>cp.
    bnd (pl_io (pw_show W (unit_name ''dp''))) (\<lambda>dp.
    let busy = (waiting \<and> \<not> lost \<or> active_in busy_states cp \<or> active_in busy_states dp) in
    ret \<lparr>st_revision = ps_revision saved, st_cp = role_status_of (snd conf) (fst conf) now busy cp ''cp'',
       st_dp = role_status_of (snd conf) (fst conf) now busy dp ''dp'', st_job = shown, st_busy = busy\<rparr>)))))))"

definition payload_fields :: "string list" where
  "payload_fields = [''role'', ''operation'', ''revision'', ''expected_boot_id'', ''acknowledge_outage'']"

definition validate_restart :: "'e plane_world \<Rightarrow> pyval \<Rightarrow> ('e plane, status) py" where
  "validate_restart W payload = (thn (ensure (keys_are payload payload_fields) (ValueError ''Expected role, restart operation, revision, boot identity and outage acknowledgment''))
    (thn (ensure (is_str (py_get payload ''role'') \<and> the_str (py_get payload ''role'') \<in> set roles \<and> py_get payload ''operation'' = PStr ''restart'' \<and>
       py_get payload ''acknowledge_outage'' = PBool True \<and> is_int (py_get payload ''revision''))
       (ValueError ''Explicit processor restart and outage acknowledgment required''))
    (bnd (plane_status W) (\<lambda>v.
    thn (ensure (py_get payload ''revision'' = PInt (st_revision v)) (ValueError ''Restart state changed; refresh''))
    (let target = status_of (the_str (py_get payload ''role'')) v in
    thn (ensure (rv_available target) (ValueError (case rv_reason target of Some r \<Rightarrow> r | None \<Rightarrow> [])))
    (thn (ensure (py_eq (py_get payload ''expected_boot_id'') (sr_boot (rv_seen target))) (ValueError ''Processor boot identity changed; refresh''))
    (ret v)))))))"

section \<open>Submitting a job\<close>

definition save_plane :: "'e plane_world \<Rightarrow> plane_state \<Rightarrow> ('e plane, unit) py" where
  "save_plane W st = (thn (pl_io (pw_write W))
    (thn (upd (\<lambda>s. s\<lparr>pl_saved := st\<rparr>))
    (pl_io (pw_sync W))))"

definition submit :: "'e plane_world \<Rightarrow> string \<Rightarrow> pyval \<Rightarrow> ('e plane, job) py" where
  "submit W ident payload = (thn (pl_io (pw_lock W))
    (bnd (validate_restart W payload) (\<lambda>v.
    bnd (pl_io (pw_time W)) (\<lambda>t.
    let j = \<lparr>jb_id = ident, jb_role = the_str (py_get payload ''role''), jb_status = ''queued'', jb_message = ''Restart queued'', jb_created = t,
       jb_before = (st_cp v, st_dp v), jb_started = None, jb_finished = None, jb_after = None, jb_ready = None\<rparr> in
    thn (save_plane W \<lparr>ps_revision = st_revision v + 1, ps_job = Some j\<rparr>)
    (catch_exn ((thn (pl_io (pw_launch W ident))
       (ret j)))
       (\<lambda>_. let uncertain = j\<lparr>jb_message := ''Dispatch uncertain; inspect restart worker before retrying''\<rparr> in
         (thn (save_plane W \<lparr>ps_revision = st_revision v + 1, ps_job = Some uncertain\<rparr>)
           (ret uncertain))))))))"

section \<open>The worker\<close>

definition upper :: "string \<Rightarrow> string" where
  "upper role = (if role = ''cp'' then ''CP'' else ''DP'')"

definition change_job :: "(job \<Rightarrow> job) \<Rightarrow> ('e plane, unit) py" where
  "change_job f = upd (\<lambda>s. s\<lparr>pl_job := f (pl_job s)\<rparr>)"

definition save_job :: "'e plane_world \<Rightarrow> int \<Rightarrow> ('e plane, unit) py" where
  "save_job W revision = (bnd (gets pl_job) (\<lambda>j.
    save_plane W \<lparr>ps_revision = revision, ps_job = Some j\<rparr>))"

definition start_owner :: "'e plane_world \<Rightarrow> string \<Rightarrow> ('e plane, unit) py" where
  "start_owner W role = (bnd (pl_io (pw_time W)) (\<lambda>started.
    thn (upd (\<lambda>s. s\<lparr>pl_resets := pl_resets s @ [(jb_id (pl_job s), role)]\<rparr>))
    (bnd (pl_io (pw_start W role)) (\<lambda>accepted.
    thn (whn (\<not> accepted) ((bnd (pl_io (pw_detail W role)) (\<lambda>detail.
       case detail of
         Some (t, error) \<Rightarrow> if started - 2 \<le> t \<and> error \<noteq> [] then raise (ValueError (upper role @ '' restart failed: '' @ take 400 error))
                            else raise (SubprocessError ''CalledProcessError'')
       | None \<Rightarrow> raise (SubprocessError ''CalledProcessError'')))))
    (bnd (pl_io (pw_show W (unit_name role))) (\<lambda>u.
    ensure (dict_get u ''Result'' = Some ''success'') (ValueError ''Restart owner did not succeed'')))))))"

text \<open>\<open>try: after = self.observe()\<close>, and nothing when it fails.\<close>

definition try_observe :: "'e plane_world \<Rightarrow> ('e plane, seen option) py" where
  "try_observe W = catch_exn ((bnd (observe W) (\<lambda>v.
    ret (Some v)))) (\<lambda>_. ret None)"

definition restarted :: "seen_role \<Rightarrow> pyval \<Rightarrow> bool" where
  "restarted target boot \<longleftrightarrow> sr_fresh target \<and> (sr_ready target \<or> sr_acknowledged target) \<and> sr_boot target \<noteq> boot"

definition interrupted_worker :: exn where
  "interrupted_worker = Interrupt ''worker stopped''"

primrec await_dp :: "'e plane_world \<Rightarrow> pyval \<Rightarrow> rat \<Rightarrow> nat \<Rightarrow> ('e plane, seen) py" where
  "await_dp W boot deadline 0 = raise interrupted_worker"
| "await_dp W boot deadline (Suc n) = (bnd (pl_io (pw_clock W)) (\<lambda>now.
  thn (ensure (now < deadline) (ValueError ''CP restarted, but no new ready DP boot before the deadline; restart the DP explicitly''))
  (bnd (try_observe W) (\<lambda>after.
  (case after of
        Some v \<Rightarrow> if restarted (se_dp v) boot then ret v else (thn (pl_io (pw_sleep W))
          (await_dp W boot deadline n))
      | None \<Rightarrow> (thn (pl_io (pw_sleep W))
        (await_dp W boot deadline n)))))))"

definition cycle_dp :: "'e plane_world \<Rightarrow> seen \<Rightarrow> ('e plane, seen) py" where
  "cycle_dp W before_restart = (bnd (plane_settings W) (\<lambda>settings.
    (case dict_get settings ''dp'' of
        None \<Rightarrow> raise (ValueError ''CP restarted, but the DP restart owner is not commissioned; restart the DP explicitly'')
      | Some c \<Rightarrow> (thn (ensure (rs_enabled c) (ValueError ''CP restarted, but the DP restart owner is not commissioned; restart the DP explicitly''))
        (bnd (observe W) (\<lambda>current.
        thn (whn (sr_fresh (se_dp current) \<and> sr_boot (se_dp current) = sr_boot (se_dp before_restart)) (start_owner W ''dp''))
        (bnd (pl_io (pw_clock W)) (\<lambda>now.
        await_dp W (sr_boot (se_dp before_restart)) (now + of_int (rs_timeout c)) (pw_turns W)))))))))"

definition finish_cp :: "'e plane_world \<Rightarrow> int \<Rightarrow> seen \<Rightarrow> seen_role \<Rightarrow> ('e plane, unit) py" where
  "finish_cp W revision before_restart target = (thn (change_job (\<lambda>j. j\<lparr>jb_message := ''CP restarted; restarting DP, whose packet fabric belongs to the CP lifetime''\<rparr>))
    (thn (save_job W revision)
    (bnd (cycle_dp W before_restart) (\<lambda>v.
    let ready = (sr_ready target \<and> sr_ready (se_dp v)) in
    change_job (\<lambda>j. j\<lparr>jb_after := Some v, jb_status := ''succeeded'', jb_ready := Some ready,
       jb_message := (if ready then ''CP and DP restarted; new boots and ready agents verified. Traffic recovery must be checked separately.''
         else ''CP and DP restarted; a processor is in its recovery runtime. Dataplane is not ready for forwarding.'')\<rparr>)))))"

definition finish_dp :: "seen \<Rightarrow> seen \<Rightarrow> seen_role \<Rightarrow> ('e plane, unit) py" where
  "finish_dp before_restart after_restart target = (thn (ensure (\<not> (sr_fresh (se_cp after_restart) \<and> truthy (sr_boot (se_cp before_restart)) \<and> sr_boot (se_cp after_restart) \<noteq> sr_boot (se_cp before_restart)))
       (ValueError ''Unexpected reboot of the other processor; inspect boot owner''))
    (change_job (\<lambda>j. j\<lparr>jb_status := ''succeeded'', jb_ready := Some (sr_ready target),
       jb_message := (if sr_ready target then ''DP restarted; new boot and ready agent verified. Traffic recovery must be checked separately.''
         else ''DP restarted into recovery runtime; control agent acknowledged the new boot. Dataplane is not ready for forwarding.'')\<rparr>)))"

primrec await_boot :: "'e plane_world \<Rightarrow> int \<Rightarrow> string \<Rightarrow> seen \<Rightarrow> rat \<Rightarrow> nat \<Rightarrow> ('e plane, unit) py" where
  "await_boot W revision role before_restart deadline 0 = raise interrupted_worker"
| "await_boot W revision role before_restart deadline (Suc n) = (bnd (pl_io (pw_clock W)) (\<lambda>now.
  thn (ensure (now < deadline) (ValueError ''Restart not verified: no new ready processor boot before deadline''))
  (bnd (try_observe W) (\<lambda>after.
  (case after of
        Some v \<Rightarrow>
          if restarted (seen_of role v) (sr_boot (seen_of role before_restart))
          then (thn (change_job (\<lambda>j. j\<lparr>jb_after := Some v\<rparr>))
            (if role = ''cp'' then finish_cp W revision before_restart (seen_of role v) else finish_dp before_restart v (seen_of role v)))
          else (thn (pl_io (pw_sleep W))
            (await_boot W revision role before_restart deadline n))
      | None \<Rightarrow> (thn (pl_io (pw_sleep W))
        (await_boot W revision role before_restart deadline n)))))))"

definition job_boot :: "string \<Rightarrow> job \<Rightarrow> pyval" where
  "job_boot role j = sr_boot (rv_seen (if role = ''cp'' then fst (jb_before j) else snd (jb_before j)))"

text \<open>The marking of the job, the reset and the wait for a new boot.\<close>

definition dispatch_reset :: "'e plane_world \<Rightarrow> int \<Rightarrow> string \<Rightarrow> seen \<Rightarrow> int \<Rightarrow> rat \<Rightarrow> ('e plane, unit) py" where
  "dispatch_reset W revision role before_restart timeout t = (thn (change_job (\<lambda>j. j\<lparr>jb_status := ''running'', jb_message := ''Restarting '' @ upper role, jb_started := Some t\<rparr>))
    (thn (save_job W revision)
    (thn (start_owner W role)
    (thn (change_job (\<lambda>j. j\<lparr>jb_message := ''Waiting for a new boot identity and ready agent''\<rparr>))
    (thn (save_job W revision)
    (bnd (pl_io (pw_clock W)) (\<lambda>now.
    await_boot W revision role before_restart (now + of_int timeout) (pw_turns W))))))))"

definition restart_processor :: "'e plane_world \<Rightarrow> int \<Rightarrow> string \<Rightarrow> ('e plane, unit) py" where
  "restart_processor W revision role = (bnd (plane_settings W) (\<lambda>settings.
    (case dict_get settings role of None \<Rightarrow> raise (KeyError role)
      | Some c \<Rightarrow> (bnd (observe W) (\<lambda>before_restart.
        bnd (gets pl_job) (\<lambda>j.
        thn (ensure (rs_enabled c \<and> sr_fresh (seen_of role before_restart) \<and> sr_boot (seen_of role before_restart) = job_boot role j)
            (ValueError ''Restart preconditions changed; no reset dispatched''))
        (thn (ensure (\<not> (role = ''dp'' \<and> \<not> (sr_fresh (se_cp before_restart) \<and> sr_ready (se_cp before_restart))))
            (ValueError ''Control Plane is no longer ready; no reset dispatched''))
        (bnd (pl_io (pw_show W (unit_name ''cp''))) (\<lambda>cp.
        bnd (pl_io (pw_show W (unit_name ''dp''))) (\<lambda>dp.
        thn (ensure (oneshot (if role = ''cp'' then cp else dp) \<and> \<not> active_in busy_states cp \<and> \<not> active_in busy_states dp)
            (ValueError ''Boot owner changed or is already running; no reset dispatched''))
        (bnd (pl_io (pw_time W)) (\<lambda>t.
        dispatch_reset W revision role before_restart (rs_timeout c) t))))))))))))"

definition job_failed :: "exn \<Rightarrow> ('e plane, unit) py" where
  "job_failed e = change_job (\<lambda>j. j\<lparr>jb_status := ''failed'', jb_message := (if exn_text e = [] then ''Restart outcome unverified; inspect boot owner'' else take 512 (exn_text e))\<rparr>)"

text \<open>The \<open>finally\<close> block, run after the handler whether or not it left an exception.\<close>

definition close_job :: "'e plane_world \<Rightarrow> int \<Rightarrow> ('e plane, unit) py" where
  "close_job W revision = (bnd (pl_io (pw_time W)) (\<lambda>t.
    thn (change_job (\<lambda>j. j\<lparr>jb_finished := Some t\<rparr>))
    (thn (save_job W (revision + 1))
    (bnd (gets pl_job) (\<lambda>j.
    thn (pl_io (pw_write W))
    (upd (\<lambda>s. s\<lparr>pl_history := take 50 (j # pl_history s)\<rparr>)))))))"

definition worker_ident :: "string \<Rightarrow> bool" where
  "worker_ident s \<longleftrightarrow> length s = 32 \<and> list_all (\<lambda>c. c \<in> set hexdigits) s"

definition work :: "'e plane_world \<Rightarrow> string \<Rightarrow> ('e plane, job) py" where
  "work W ident = (thn (ensure (worker_ident ident) (ValueError ''Invalid worker identity''))
    (thn (pl_io (pw_lock W))
    (bnd (gets pl_saved) (\<lambda>saved.
    (case ps_job saved of None \<Rightarrow> raise (ValueError ''No matching queued restart'')
      | Some j \<Rightarrow> (thn (ensure (jb_id j = ident \<and> jb_status j = ''queued'') (ValueError ''No matching queued restart''))
        (thn (upd (\<lambda>s. s\<lparr>pl_job := j\<rparr>))
        (thn (catch_all (catch_exn (restart_processor W (ps_revision saved) (jb_role j)) job_failed)
            (\<lambda>e. (thn (close_job W (ps_revision saved))
              (raise e))))
        (thn (close_job W (ps_revision saved))
        (gets pl_job))))))))))"


section \<open>Every job resets a processor at most once\<close>

text \<open>
  The histories of the restarts: submissions under new identities, workers with any identity, and
  anything the environment does between them.  A run that raises has happened too.
\<close>

definition fresh_ident :: "string \<Rightarrow> 'e plane \<Rightarrow> bool" where
  "fresh_ident ident s \<longleftrightarrow> ident \<notin> fst ` set (pl_resets s)"

inductive plane_reach :: "'e plane_world \<Rightarrow> 'e plane \<Rightarrow> bool" for W where
  plane_start: "pl_resets s = [] \<Longrightarrow> plane_reach W s"
| plane_submit: "plane_reach W s \<Longrightarrow> fresh_ident ident s \<Longrightarrow> plane_reach W (snd (submit W ident payload s))"
| plane_work: "plane_reach W s \<Longrightarrow> plane_reach W (snd (work W ident s))"
| plane_other: "plane_reach W s \<Longrightarrow> plane_reach W (s\<lparr>pl_env := e\<rparr>)"

text \<open>A job that is queued on disk has dispatched nothing yet.\<close>

definition queued_idle :: "'e plane \<Rightarrow> bool" where
  "queued_idle s \<longleftrightarrow> distinct (pl_resets s) \<and> (\<forall>j. ps_job (pl_saved s) = Some j \<longrightarrow> jb_status j = ''queued'' \<longrightarrow> fresh_ident (jb_id j) s)"

text \<open>The same of the job the worker holds, which is \<open>ident\<close>.\<close>

definition worker_idle :: "job \<Rightarrow> 'e plane \<Rightarrow> bool" where
  "worker_idle j s \<longleftrightarrow> queued_idle s \<and> (jb_status (pl_job s) = ''queued'' \<longrightarrow> fresh_ident (jb_id j) s) \<and>
     jb_id (pl_job s) = jb_id j \<and> jb_role (pl_job s) = jb_role j \<and> jb_before (pl_job s) = jb_before j"

text \<open>A worker whose job is marked on disk has reset the processors of \<open>R\<close> and has made the observations \<open>L\<close>.\<close>

definition dispatched :: "job \<Rightarrow> ((string \<times> string) list \<times> seen) set \<Rightarrow> string set \<Rightarrow> 'e plane \<Rightarrow> bool" where
  "dispatched j L R s \<longleftrightarrow> L \<subseteq> set (pl_seen s) \<and> distinct (pl_resets s) \<and> (\<forall>r. (jb_id j, r) \<in> set (pl_resets s) \<longleftrightarrow> r \<in> R) \<and>
     (\<forall>k. ps_job (pl_saved s) = Some k \<longrightarrow> jb_status k \<noteq> ''queued'') \<and> jb_status (pl_job s) \<noteq> ''queued'' \<and>
     jb_id (pl_job s) = jb_id j \<and> jb_role (pl_job s) = jb_role j \<and> jb_before (pl_job s) = jb_before j"

lemma idle_env [simp]:
  "fresh_ident ident (s\<lparr>pl_env := e\<rparr>) = fresh_ident ident s" "fresh_ident ident (s\<lparr>pl_saved := v\<rparr>) = fresh_ident ident s"
  "fresh_ident ident (s\<lparr>pl_job := k\<rparr>) = fresh_ident ident s" "fresh_ident ident (s\<lparr>pl_history := h\<rparr>) = fresh_ident ident s"
  "queued_idle (s\<lparr>pl_env := e\<rparr>) = queued_idle s" "queued_idle (s\<lparr>pl_job := k\<rparr>) = queued_idle s"
  "queued_idle (s\<lparr>pl_history := h\<rparr>) = queued_idle s" "worker_idle j (s\<lparr>pl_env := e\<rparr>) = worker_idle j s"
  "worker_idle j (s\<lparr>pl_history := h\<rparr>) = worker_idle j s" "dispatched j L R (s\<lparr>pl_env := e\<rparr>) = dispatched j L R s"
  "fresh_ident ident (s\<lparr>pl_seen := l\<rparr>) = fresh_ident ident s" "queued_idle (s\<lparr>pl_seen := l\<rparr>) = queued_idle s"
  "worker_idle j (s\<lparr>pl_seen := l\<rparr>) = worker_idle j s"
  by (simp_all add: queued_idle_def worker_idle_def dispatched_def fresh_ident_def)

lemma dispatched_idle: "dispatched j L R s \<Longrightarrow> worker_idle j s"
  by (simp add: dispatched_def worker_idle_def queued_idle_def)

lemma dispatched_seen: "dispatched j L R s \<Longrightarrow> dispatched j L R (s\<lparr>pl_seen := pl_seen s @ l\<rparr>)"
  by (auto simp: dispatched_def)

lemma pres_pl_io: "(\<And>s e. I s \<Longrightarrow> I (s\<lparr>pl_env := e\<rparr>)) \<Longrightarrow> pres I (pl_io m)"
  unfolding pl_io_def by (rule pres_zoom)

lemma idle_io: "pres queued_idle (pl_io m)" "pres (worker_idle j) (pl_io m)" "pres (dispatched j L R) (pl_io m)"
  by (rule pres_pl_io; simp)+

lemma idle_observe: "pres queued_idle (observe W)" "pres (worker_idle j) (observe W)" "pres (dispatched j L R) (observe W)"
  by (auto simp: observe_def intro!: pres_intros idle_io pres_upd dispatched_seen)

lemma idle_try: "pres (dispatched j L R) (try_observe W)"
  by (auto simp: try_observe_def intro!: pres_intros idle_observe)

lemma idle_settings: "pres queued_idle (plane_settings W)" "pres (worker_idle j) (plane_settings W)" "pres (dispatched j L R) (plane_settings W)"
  by (auto simp: plane_settings_def intro!: pres_intros idle_io)

lemmas idle_pres = idle_io idle_observe idle_try idle_settings

text \<open>Reading the status changes nothing but the environment.\<close>

lemma status_pres:
  "(\<And>s e. I s \<Longrightarrow> I (s\<lparr>pl_env := e\<rparr>)) \<Longrightarrow> (\<And>s l. I s \<Longrightarrow> I (s\<lparr>pl_seen := l\<rparr>)) \<Longrightarrow> pres I (plane_status W)"
  unfolding plane_status_def observe_def plane_settings_def alive_def Let_def
  by (auto intro!: pres_intros pres_pl_io pres_upd split: option.split)

lemma validate_pres:
  "(\<And>s e. I s \<Longrightarrow> I (s\<lparr>pl_env := e\<rparr>)) \<Longrightarrow> (\<And>s l. I s \<Longrightarrow> I (s\<lparr>pl_seen := l\<rparr>)) \<Longrightarrow> pres I (validate_restart W payload)"
  unfolding validate_restart_def Let_def by (intro pres_intros status_pres) auto

lemma submit_idle: "pres (\<lambda>s. queued_idle s \<and> fresh_ident ident s) (submit W ident payload)"
proof -
  let ?I = "\<lambda>s. queued_idle s \<and> fresh_ident ident s"
  have "pres ?I (save_plane W \<lparr>ps_revision = r, ps_job = Some k\<rparr>)" if "jb_id k = ident" for r k
    unfolding save_plane_def using that
    by (intro pres_intros pres_upd pres_pl_io) (simp_all, simp add: queued_idle_def)
  then show ?thesis
    unfolding submit_def Let_def by (intro pres_intros validate_pres pres_pl_io) simp_all
qed

lemma change_idle:
  "(\<And>k. jb_id (f k) = jb_id k \<and> jb_role (f k) = jb_role k \<and> jb_before (f k) = jb_before k \<and> jb_status (f k) = jb_status k) \<Longrightarrow>
   pres (worker_idle j) (change_job f)"
  unfolding change_job_def by (rule pres_upd) (simp add: worker_idle_def fresh_ident_def)

lemma change_dispatched:
  "(\<And>k. jb_id (f k) = jb_id k \<and> jb_role (f k) = jb_role k \<and> jb_before (f k) = jb_before k) \<Longrightarrow>
   (\<And>k. jb_status k \<noteq> ''queued'' \<Longrightarrow> jb_status (f k) \<noteq> ''queued'') \<Longrightarrow> pres (dispatched j L R) (change_job f)"
  unfolding change_job_def by (rule pres_upd) (simp add: dispatched_def)

lemma save_worker: "pres (worker_idle j) (save_job W revision)"
proof (rule presI)
  fix s :: "'a plane" assume s: "worker_idle j s"
  have "wp (save_job W revision) (\<lambda>_. worker_idle j) (\<lambda>_. worker_idle j) s"
  unfolding save_job_def save_plane_def
  proof (rule wp_getsI, rule wp_thnI [OF wp_pres])
    show "pres (\<lambda>s'. worker_idle j s' \<and> pl_job s' = pl_job s) (pl_io (pw_write W))"
      by (rule pres_pl_io) simp
  next
    fix u and s' :: "'a plane" assume *: "worker_idle j s' \<and> pl_job s' = pl_job s"
    let ?t = "s'\<lparr>pl_saved := \<lparr>ps_revision = revision, ps_job = Some (pl_job s)\<rparr>\<rparr>"
    have eq: "pl_job s = pl_job s'" using * by simp
    have "worker_idle j ?t" using * by (simp add: eq worker_idle_def queued_idle_def)
    then show "wp (thn (upd (\<lambda>s'. s'\<lparr>pl_saved := \<lparr>ps_revision = revision, ps_job = Some (pl_job s)\<rparr>\<rparr>)) (pl_io (pw_sync W)))
        (\<lambda>_. worker_idle j) (\<lambda>_. worker_idle j) s'"
      unfolding wp_thn wp_upd by (rule wp_pres [OF idle_io(2)])
  qed (use s in auto)
  then show "worker_idle j (snd (save_job W revision s))" by (simp add: wp_def split: prod.splits sum.splits)
qed

text \<open>A marked job: what is on disk is not queued any more, and stays so.\<close>

lemma save_dispatched: "pres (dispatched j L R) (save_job W revision)"
proof (rule presI)
  fix s :: "'a plane" assume s: "dispatched j L R s"
  have "wp (save_job W revision) (\<lambda>_. dispatched j L R) (\<lambda>_. dispatched j L R) s"
  unfolding save_job_def save_plane_def
  proof (rule wp_getsI, rule wp_thnI [OF wp_pres])
    show "pres (\<lambda>s'. dispatched j L R s' \<and> pl_job s' = pl_job s) (pl_io (pw_write W))"
      by (rule pres_pl_io) simp
  next
    fix u and s' :: "'a plane" assume *: "dispatched j L R s' \<and> pl_job s' = pl_job s"
    let ?t = "s'\<lparr>pl_saved := \<lparr>ps_revision = revision, ps_job = Some (pl_job s)\<rparr>\<rparr>"
    have eq: "pl_job s = pl_job s'" using * by simp
    have "dispatched j L R ?t" using * by (simp add: eq dispatched_def)
    then show "wp (thn (upd (\<lambda>s'. s'\<lparr>pl_saved := \<lparr>ps_revision = revision, ps_job = Some (pl_job s)\<rparr>\<rparr>)) (pl_io (pw_sync W)))
        (\<lambda>_. dispatched j L R) (\<lambda>_. dispatched j L R) s'"
      unfolding wp_thn wp_upd by (rule wp_pres [OF idle_io(3)])
  qed (use s in auto)
  then show "dispatched j L R (snd (save_job W revision s))" by (simp add: wp_def split: prod.splits sum.splits)
qed

lemma start_owner_wp:
  fixes s :: "'e plane"
  assumes "dispatched j L R s" "role \<notin> R"
  shows "wp (start_owner W role) (\<lambda>_. dispatched j L (insert role R)) (\<lambda>_. worker_idle j) s"
proof -
  have push: "dispatched j L (insert role R) (s'\<lparr>pl_resets := pl_resets s' @ [(jb_id (pl_job s'), role)]\<rparr>)" if "dispatched j L R s'" for s'
    using that assms(2) by (auto simp: dispatched_def)
  have rest: "wp k (\<lambda>_. dispatched j L (insert role R)) (\<lambda>_. worker_idle j) s'"
    if "pres (dispatched j L (insert role R)) k" "dispatched j L (insert role R) s'" for s' and k :: "('e plane, unit) py"
    by (rule wp_mono [OF wp_pres [OF that]]) (auto intro: dispatched_idle)
  show ?thesis
    unfolding start_owner_def
  proof (rule wp_bndI [OF wp_pres [OF idle_io(3) assms(1)]])
    fix started and s' :: "'e plane" assume "dispatched j L R s'"
    then show "wp (thn (upd (\<lambda>s. s\<lparr>pl_resets := pl_resets s @ [(jb_id (pl_job s), role)]\<rparr>))
      (bnd (pl_io (pw_start W role)) (\<lambda>accepted.
         thn (whn (\<not> accepted) (bnd (pl_io (pw_detail W role)) (\<lambda>detail. case detail of None \<Rightarrow> raise (SubprocessError ''CalledProcessError'')
            | Some (t, error) \<Rightarrow> if started - 2 \<le> t \<and> error \<noteq> [] then raise (ValueError (upper role @ '' restart failed: '' @ take 400 error))
                            else raise (SubprocessError ''CalledProcessError''))))
         (bnd (pl_io (pw_show W (unit_name role))) (\<lambda>u. ensure (dict_get u ''Result'' = Some ''success'') (ValueError ''Restart owner did not succeed''))))))
      (\<lambda>_. dispatched j L (insert role R)) (\<lambda>_. worker_idle j) s'"
      unfolding wp_thn [of "upd f" for f] wp_upd
      by (intro rest push pres_intros idle_io)
  qed (auto intro: dispatched_idle)
qed

text \<open>An observation is made after the resets of \<open>R\<close>, and is remembered.\<close>

definition resets_are :: "job \<Rightarrow> string set \<Rightarrow> (string \<times> string) list \<Rightarrow> bool" where
  "resets_are j R us \<longleftrightarrow> (\<forall>r. (jb_id j, r) \<in> set us \<longleftrightarrow> r \<in> R)"

definition saw :: "job \<Rightarrow> ((string \<times> string) list \<times> seen) set \<Rightarrow> string set \<Rightarrow> seen \<Rightarrow> 'e plane \<Rightarrow> bool" where
  "saw j L R v s \<longleftrightarrow> (\<exists>us. resets_are j R us \<and> dispatched j (insert (us, v) L) R s)"

lemma dispatched_less: "dispatched j L R s \<Longrightarrow> K \<subseteq> L \<Longrightarrow> dispatched j K R s"
  by (auto simp: dispatched_def)

lemma saw_dispatched: "saw j L R v s \<Longrightarrow> dispatched j L R s"
  by (auto simp: saw_def intro: dispatched_less)

lemma observe_wp:
  fixes s :: "'e plane"
  assumes "dispatched j L R s"
  shows "wp (observe W) (saw j L R) (\<lambda>_. dispatched j L R) s"
proof -
  have keep: "saw j L R v (s'\<lparr>pl_seen := pl_seen s' @ [(pl_resets s', v)]\<rparr>)" if "dispatched j L R s'" for s' :: "'e plane" and v
    using that by (auto simp: saw_def resets_are_def dispatched_def)
  show ?thesis
    unfolding observe_def
    by (rule wp_bndI [OF wp_pres [OF idle_io(3) assms]], rule wp_liftI) (auto simp: wp_thn wp_upd wp_ret keep)
qed

lemma try_observe_wp:
  assumes "dispatched j L R s"
  shows "wp (try_observe W) (\<lambda>seen s'. case seen of None \<Rightarrow> dispatched j L R s' | Some v \<Rightarrow> saw j L R v s') (\<lambda>_. dispatched j L R) s"
  unfolding try_observe_def wp_catch_exn wp_bnd wp_ret
  by (rule wp_mono [OF observe_wp [OF assms]]) simp_all

text \<open>Waiting for the data processor: what it returns is one that answers under another boot.\<close>

definition new_boot :: "pyval \<Rightarrow> seen_role \<Rightarrow> bool" where
  "new_boot boot r \<longleftrightarrow> sr_fresh r \<and> (sr_ready r \<or> sr_acknowledged r) \<and> sr_boot r \<noteq> boot"

lemma restarted_new: "restarted r boot = new_boot boot r"
  by (simp add: restarted_def new_boot_def)

lemma await_dp_wp:
  fixes s :: "'e plane"
  assumes "dispatched j L R s"
  shows "wp (await_dp W boot deadline n) (\<lambda>v s'. new_boot boot (se_dp v) \<and> saw j L R v s') (\<lambda>_. dispatched j L R) s"
  using assms
proof (induction n arbitrary: s)
  case (Suc n)
  let ?Q = "\<lambda>v (s' :: 'e plane). new_boot boot (se_dp v) \<and> saw j L R v s'"
  have again: "wp (thn (pl_io (pw_sleep W)) (await_dp W boot deadline n)) ?Q (\<lambda>_. dispatched j L R) s'" if "dispatched j L R s'" for s' :: "'e plane"
    by (rule wp_thnI [OF wp_pres [OF idle_io(3) that] Suc.IH])
  show ?case
    unfolding await_dp.simps
  proof (rule wp_bndI [OF wp_pres [OF idle_io(3) Suc.prems]], rule wp_ensureI, rule wp_bndI [OF try_observe_wp], assumption)
    fix after :: "seen option" and s2 :: "'e plane"
    assume "case after of None \<Rightarrow> dispatched j L R s2 | Some v \<Rightarrow> saw j L R v s2"
    then show "wp (case after of None \<Rightarrow> thn (pl_io (pw_sleep W)) (await_dp W boot deadline n)
        | Some v \<Rightarrow> if restarted (se_dp v) boot then ret v else thn (pl_io (pw_sleep W)) (await_dp W boot deadline n)) ?Q (\<lambda>_. dispatched j L R) s2"
      by (auto simp: wp_ret restarted_new split: option.splits intro!: again intro: saw_dispatched)
  qed auto
qed (simp add: wp_raise)

lemma cycle_dp_wp:
  fixes s :: "'e plane"
  assumes "dispatched j L R s" "''dp'' \<notin> R"
  shows "wp (cycle_dp W prior) (\<lambda>v s'. new_boot (sr_boot (se_dp prior)) (se_dp v) \<and> (\<exists>S. R \<subseteq> S \<and> saw j L S v s')) (\<lambda>_. worker_idle j) s"
proof -
  let ?Q = "\<lambda>boot v (s' :: 'e plane). new_boot boot (se_dp v) \<and> (\<exists>S. R \<subseteq> S \<and> saw j L S v s')"
  have wait: "wp (bnd (pl_io (pw_clock W)) (\<lambda>now. await_dp W boot (now + t) n)) (?Q boot) (\<lambda>_. worker_idle j) s'"
    if "dispatched j L S s'" "R \<subseteq> S" for s' :: "'e plane" and S boot t n
  proof (rule wp_bndI [OF wp_pres [OF idle_io(3) that(1)]])
    fix now and s1 :: "'e plane" assume "dispatched j L S s1"
    then show "wp (await_dp W boot (now + t) n) (?Q boot) (\<lambda>_. worker_idle j) s1"
      by (rule wp_mono [OF await_dp_wp]) (use that(2) in \<open>auto intro: dispatched_idle\<close>)
  qed (auto intro: dispatched_idle)
  have maybe: "wp (whn b (start_owner W ''dp'')) (\<lambda>_ s'. \<exists>S. R \<subseteq> S \<and> dispatched j L S s') (\<lambda>_. worker_idle j) s'" if "dispatched j L R s'" for b s'
    using that by (auto simp: wp_whn intro!: wp_mono [OF start_owner_wp [OF that assms(2)]])
  have cycle: "wp (bnd (observe W) (\<lambda>current. thn (whn (sr_fresh (se_dp current) \<and> sr_boot (se_dp current) = sr_boot (se_dp prior)) (start_owner W ''dp''))
      (bnd (pl_io (pw_clock W)) (\<lambda>now. await_dp W (sr_boot (se_dp prior)) (now + t) n)))) (?Q (sr_boot (se_dp prior))) (\<lambda>_. worker_idle j) s1"
    if "dispatched j L R s1" for s1 :: "'e plane" and t n
    by (rule wp_bndI [OF observe_wp [OF that]], rule wp_thnI [OF maybe], erule saw_dispatched) (auto intro: wait dispatched_idle)
  show ?thesis
    unfolding cycle_dp_def
  proof (rule wp_bndI [OF wp_pres [OF idle_settings(3) assms(1)]])
    fix settings and s1 :: "'e plane" assume s1: "dispatched j L R s1"
    show "wp (case dict_get settings ''dp'' of None \<Rightarrow> raise (ValueError ''CP restarted, but the DP restart owner is not commissioned; restart the DP explicitly'')
       | Some c \<Rightarrow> thn (ensure (rs_enabled c) (ValueError ''CP restarted, but the DP restart owner is not commissioned; restart the DP explicitly''))
          (bnd (observe W) (\<lambda>current. thn (whn (sr_fresh (se_dp current) \<and> sr_boot (se_dp current) = sr_boot (se_dp prior)) (start_owner W ''dp''))
            (bnd (pl_io (pw_clock W)) (\<lambda>now. await_dp W (sr_boot (se_dp prior)) (now + of_int (rs_timeout c)) (pw_turns W))))))
       (?Q (sr_boot (se_dp prior))) (\<lambda>_. worker_idle j) s1"
      using s1 by (auto simp: wp_raise dispatched_idle split: option.split intro!: wp_ensureI cycle)
  qed (auto intro: dispatched_idle)
qed

text \<open>
  What a job that succeeded has seen: \<open>b\<close> before it reset its processor, with the boot the operator
  saw; \<open>u\<close> after that, its processor under another boot; and \<open>v\<close>, its last observation, the data
  processor under another boot than in \<open>b\<close>.  A restart of the data processor alone saw no other boot
  of the control processor.
\<close>

definition verified :: "job \<Rightarrow> ((string \<times> string) list \<times> seen) list \<Rightarrow> job \<Rightarrow> bool" where
  "verified j l k \<longleftrightarrow> jb_status k = ''succeeded'' \<and> (\<exists>rs b us u vs v. (rs, b) \<in> set l \<and> (us, u) \<in> set l \<and> (vs, v) \<in> set l \<and>
     (jb_id j, jb_role j) \<notin> set rs \<and> (jb_id j, jb_role j) \<in> set us \<and> (jb_id j, jb_role j) \<in> set vs \<and> jb_after k = Some v \<and>
     sr_boot (seen_of (jb_role j) b) = job_boot (jb_role j) j \<and> new_boot (job_boot (jb_role j) j) (seen_of (jb_role j) u) \<and>
     new_boot (sr_boot (se_dp b)) (se_dp v) \<and> jb_ready k = Some (sr_ready (seen_of (jb_role j) u) \<and> sr_ready (se_dp v)) \<and>
     (jb_role j = ''cp'' \<or> \<not> (sr_fresh (se_cp v) \<and> truthy (sr_boot (se_cp b)) \<and> sr_boot (se_cp v) \<noteq> sr_boot (se_cp b))))"

definition settled :: "job \<Rightarrow> 'e plane \<Rightarrow> bool" where
  "settled j s \<longleftrightarrow> (\<exists>L R. jb_role j \<in> R \<and> dispatched j L R s) \<and> verified j (pl_seen s) (pl_job s)"

lemma settled_idle: "settled j s \<Longrightarrow> worker_idle j s"
  by (auto simp: settled_def intro: dispatched_idle)

text \<open>The observation before the reset, of the job's worker.\<close>

abbreviation looked_before :: "job \<Rightarrow> (string \<times> string) list \<Rightarrow> seen \<Rightarrow> bool" where
  "looked_before j rs prior \<equiv> (jb_id j, jb_role j) \<notin> set rs \<and> sr_boot (seen_of (jb_role j) prior) = job_boot (jb_role j) j"

lemma finish_cp_wp:
  fixes s :: "'e plane"
  assumes "dispatched j {(us, u), (rs, prior)} {''cp''} s" "jb_role j = ''cp''" "looked_before j rs prior" "(jb_id j, ''cp'') \<in> set us"
    and "new_boot (job_boot ''cp'' j) (se_cp u)"
  shows "wp (finish_cp W revision prior (se_cp u)) (\<lambda>_. settled j) (\<lambda>_. worker_idle j) s"
proof -
  let ?L = "{(us, u), (rs, prior)}"
  have renamed: "pres (dispatched j ?L {''cp''} :: 'e plane \<Rightarrow> bool) (change_job (\<lambda>j. j\<lparr>jb_message := m\<rparr>))" for m by (rule change_dispatched) simp_all
  have closing: "settled j (s'\<lparr>pl_job := pl_job s'\<lparr>jb_after := Some v, jb_status := ''succeeded'', jb_ready := Some (sr_ready (se_cp u) \<and> sr_ready (se_dp v)), jb_message := m\<rparr>\<rparr>)"
    if new: "new_boot (sr_boot (se_dp prior)) (se_dp v)" and S: "{''cp''} \<subseteq> S" "saw j ?L S v s'" for s' :: "'e plane" and v m S
  proof -
    from S(2) obtain vs where vs: "resets_are j S vs" "dispatched j (insert (vs, v) ?L) S s'" by (auto simp: saw_def)
    then have "(jb_id j, ''cp'') \<in> set vs" using S(1) by (auto simp: resets_are_def)
    moreover have "{(vs, v), (us, u), (rs, prior)} \<subseteq> set (pl_seen s')" using vs(2) by (simp add: dispatched_def)
    ultimately have "verified j (pl_seen s') (pl_job s'\<lparr>jb_after := Some v, jb_status := ''succeeded'', jb_ready := Some (sr_ready (se_cp u) \<and> sr_ready (se_dp v)), jb_message := m\<rparr>)"
      unfolding verified_def using assms(2-5) new
      by (intro conjI exI [of _ rs] exI [of _ prior] exI [of _ us] exI [of _ u] exI [of _ vs] exI [of _ v]) (auto simp: seen_of_def)
    moreover have "dispatched j ?L S (s'\<lparr>pl_job := pl_job s'\<lparr>jb_after := Some v, jb_status := ''succeeded'', jb_ready := r, jb_message := m\<rparr>\<rparr>)" for r
      using vs(2) by (simp add: dispatched_def)
    ultimately show ?thesis using S(1) assms(2) unfolding settled_def by (auto simp del: insert_subset)
  qed
  show ?thesis
    unfolding finish_cp_def Let_def
  proof (rule wp_thnI [OF wp_pres [OF renamed assms(1)]], rule wp_thnI [OF wp_pres [OF save_dispatched]], assumption, rule wp_bndI [OF cycle_dp_wp], assumption)
    fix v :: seen and s' :: "'e plane" assume "new_boot (sr_boot (se_dp prior)) (se_dp v) \<and> (\<exists>S. {''cp''} \<subseteq> S \<and> saw j ?L S v s')"
    then show "wp (change_job (\<lambda>j. j\<lparr>jb_after := Some v, jb_status := ''succeeded'', jb_ready := Some (sr_ready (se_cp u) \<and> sr_ready (se_dp v)),
          jb_message := if sr_ready (se_cp u) \<and> sr_ready (se_dp v) then ''CP and DP restarted; new boots and ready agents verified. Traffic recovery must be checked separately.''
            else ''CP and DP restarted; a processor is in its recovery runtime. Dataplane is not ready for forwarding.''\<rparr>)) (\<lambda>_. settled j) (\<lambda>_. worker_idle j) s'"
      unfolding change_job_def wp_upd using closing by blast
  qed (auto intro: dispatched_idle)
qed

lemma finish_dp_wp:
  assumes "dispatched j {(us, v), (rs, prior)} {jb_role j} s" "jb_role j \<noteq> ''cp''" "looked_before j rs prior" "(jb_id j, jb_role j) \<in> set us"
    and "new_boot (job_boot (jb_role j) j) (se_dp v)" "jb_after (pl_job s) = Some v"
  shows "wp (finish_dp prior v (se_dp v)) (\<lambda>_. settled j) (\<lambda>_. worker_idle j) s"
  unfolding finish_dp_def
proof (rule wp_ensureI)
  assume cp: "\<not> (sr_fresh (se_cp v) \<and> truthy (sr_boot (se_cp prior)) \<and> sr_boot (se_cp v) \<noteq> sr_boot (se_cp prior))"
  have "dispatched j {(us, v), (rs, prior)} {jb_role j} (s\<lparr>pl_job := pl_job s\<lparr>jb_status := ''succeeded'', jb_ready := r, jb_message := m\<rparr>\<rparr>)" for r m
    using assms(1) by (simp add: dispatched_def)
  moreover have "verified j (pl_seen s) (pl_job s\<lparr>jb_status := ''succeeded'', jb_ready := Some (sr_ready (se_dp v)), jb_message := m\<rparr>)" for m
    unfolding verified_def
    by (rule conjI, simp, rule exI [of _ rs], rule exI [of _ prior], rule exI [of _ us], rule exI [of _ v], rule exI [of _ us], rule exI [of _ v])
      (use assms cp in \<open>auto simp: seen_of_def dispatched_def\<close>)
  ultimately show "wp (change_job (\<lambda>j. j\<lparr>jb_status := ''succeeded'', jb_ready := Some (sr_ready (se_dp v)),
      jb_message := if sr_ready (se_dp v) then ''DP restarted; new boot and ready agent verified. Traffic recovery must be checked separately.''
        else ''DP restarted into recovery runtime; control agent acknowledged the new boot. Dataplane is not ready for forwarding.''\<rparr>)) (\<lambda>_. settled j) (\<lambda>_. worker_idle j) s"
    unfolding change_job_def wp_upd settled_def by auto
qed (use assms(1) in \<open>rule dispatched_idle\<close>)

lemma await_boot_wp:
  fixes s :: "'e plane"
  assumes "dispatched j {(rs, prior)} {jb_role j} s" "looked_before j rs prior"
  shows "wp (await_boot W revision (jb_role j) prior deadline n) (\<lambda>_. settled j) (\<lambda>_. worker_idle j) s"
  using assms(1)
proof (induction n arbitrary: s)
  case 0
  then show ?case by (simp add: wp_raise dispatched_idle)
next
  case (Suc n)
  let ?D = "dispatched j {(rs, prior)} {jb_role j} :: 'e plane \<Rightarrow> bool"
  have again: "wp (thn (pl_io (pw_sleep W)) (await_boot W revision (jb_role j) prior deadline n)) (\<lambda>_. settled j) (\<lambda>_. worker_idle j) s'" if "?D s'" for s'
    by (rule wp_thnI [OF wp_pres [OF idle_io(3) that]]) (auto intro: Suc.IH dispatched_idle)
  have seen: "wp (thn (change_job (\<lambda>k. k\<lparr>jb_after := Some v\<rparr>)) (if jb_role j = ''cp'' then finish_cp W revision prior (seen_of (jb_role j) v) else finish_dp prior v (seen_of (jb_role j) v)))
      (\<lambda>_. settled j) (\<lambda>_. worker_idle j) s'" if saw: "saw j {(rs, prior)} {jb_role j} v s'" and new: "restarted (seen_of (jb_role j) v) (sr_boot (seen_of (jb_role j) prior))" for s' :: "'e plane" and v
  proof -
    from saw obtain us where us: "resets_are j {jb_role j} us" "dispatched j {(us, v), (rs, prior)} {jb_role j} s'" by (auto simp: saw_def)
    then have D: "dispatched j {(us, v), (rs, prior)} {jb_role j} (s'\<lparr>pl_job := pl_job s'\<lparr>jb_after := Some v\<rparr>\<rparr>)" by (simp add: dispatched_def)
    have reset: "(jb_id j, jb_role j) \<in> set us" using us(1) by (simp add: resets_are_def)
    have boot: "new_boot (job_boot (jb_role j) j) (seen_of (jb_role j) v)" using new assms(2) by (simp add: restarted_new)
    show ?thesis
    proof (cases "jb_role j = ''cp''")
      case True
      with D reset boot assms(2) show ?thesis
        unfolding change_job_def wp_thn wp_upd by (simp add: seen_of_def finish_cp_wp)
    next
      case False
      then show ?thesis
        unfolding change_job_def wp_thn wp_upd using boot assms(2)
        by (simp add: seen_of_def) (rule finish_dp_wp [OF D False _ reset], simp_all add: seen_of_def)
    qed
  qed
  have turn: "wp (case after of None \<Rightarrow> thn (pl_io (pw_sleep W)) (await_boot W revision (jb_role j) prior deadline n)
      | Some v \<Rightarrow> if restarted (seen_of (jb_role j) v) (sr_boot (seen_of (jb_role j) prior))
          then thn (change_job (\<lambda>k. k\<lparr>jb_after := Some v\<rparr>)) (if jb_role j = ''cp'' then finish_cp W revision prior (seen_of (jb_role j) v) else finish_dp prior v (seen_of (jb_role j) v))
          else thn (pl_io (pw_sleep W)) (await_boot W revision (jb_role j) prior deadline n)) (\<lambda>_. settled j) (\<lambda>_. worker_idle j) s'"
    if "case after of None \<Rightarrow> ?D s' | Some v \<Rightarrow> saw j {(rs, prior)} {jb_role j} v s'" for after s'
  proof (cases after)
    case None
    then show ?thesis using that by (simp only: option.case again)
  next
    case (Some v)
    then have v: "saw j {(rs, prior)} {jb_role j} v s'" using that by simp
    show ?thesis
      by (cases "restarted (seen_of (jb_role j) v) (sr_boot (seen_of (jb_role j) prior))")
        (simp_all only: Some option.case if_True if_False seen [OF v] again [OF saw_dispatched [OF v]])
  qed
  show ?case
    unfolding await_boot.simps
    by (rule wp_bndI [OF wp_pres [OF idle_io(3) Suc.prems]], rule wp_ensureI, rule wp_bndI [OF try_observe_wp], assumption, rule turn, assumption)
      (auto intro: dispatched_idle)
qed

lemma save_running_wp:
  assumes "worker_idle j s" "fresh_ident (jb_id j) s" "jb_status (pl_job s) = ''running''" "L \<subseteq> set (pl_seen s)"
  shows "wp (save_job W revision) (\<lambda>_. dispatched j L {}) (\<lambda>_. worker_idle j) s"
  unfolding save_job_def save_plane_def
proof (rule wp_getsI, rule wp_thnI [OF wp_pres])
  show "pres (\<lambda>s'. worker_idle j s' \<and> fresh_ident (jb_id j) s' \<and> pl_job s' = pl_job s \<and> L \<subseteq> set (pl_seen s')) (pl_io (pw_write W))"
    by (rule pres_pl_io) simp
next
  fix u and s' :: "'a plane" assume *: "worker_idle j s' \<and> fresh_ident (jb_id j) s' \<and> pl_job s' = pl_job s \<and> L \<subseteq> set (pl_seen s')"
  let ?t = "s'\<lparr>pl_saved := \<lparr>ps_revision = revision, ps_job = Some (pl_job s)\<rparr>\<rparr>"
  have eq: "pl_job s = pl_job s'" and fresh: "fresh_ident (jb_id j) s'" using * by simp_all
  have "\<forall>r. (jb_id j, r) \<notin> set (pl_resets s')" using fresh by (force simp: fresh_ident_def)
  then have "dispatched j L {} ?t" using * assms(3) by (simp add: eq dispatched_def worker_idle_def queued_idle_def)
  then show "wp (thn (upd (\<lambda>s'. s'\<lparr>pl_saved := \<lparr>ps_revision = revision, ps_job = Some (pl_job s)\<rparr>\<rparr>)) (pl_io (pw_sync W)))
      (\<lambda>_. dispatched j L {}) (\<lambda>_. worker_idle j) s'"
    unfolding wp_thn wp_upd by (rule wp_mono [OF wp_pres [OF idle_io(3)]]) (auto intro: dispatched_idle)
qed (use assms in auto)

lemma dispatch_wp:
  fixes s :: "'e plane"
  assumes "worker_idle j s" "pl_job s = j" "fresh_ident (jb_id j) s" "(rs, prior) \<in> set (pl_seen s)" "looked_before j rs prior"
  shows "wp (dispatch_reset W revision (jb_role j) prior timeout t) (\<lambda>_. settled j) (\<lambda>_. worker_idle j) s"
proof -
  let ?D = "dispatched j {(rs, prior)} {jb_role j} :: 'e plane \<Rightarrow> bool"
  let ?s = "s\<lparr>pl_job := j\<lparr>jb_status := ''running'', jb_message := ''Restarting '' @ upper (jb_role j), jb_started := Some t\<rparr>\<rparr>"
  have marked: "worker_idle j ?s" "fresh_ident (jb_id j) ?s" using assms by (simp_all add: worker_idle_def)
  have renamed: "pres ?D (change_job (\<lambda>j. j\<lparr>jb_message := m\<rparr>))" for m by (rule change_dispatched) simp_all
  have waiting: "wp (thn (change_job (\<lambda>j. j\<lparr>jb_message := m\<rparr>)) (thn (save_job W revision) (bnd (pl_io (pw_clock W)) (\<lambda>now. await_boot W revision (jb_role j) prior (now + d) n))))
      (\<lambda>_. settled j) (\<lambda>_. worker_idle j) s'" if "?D s'" for s' m d n
    by (rule wp_thnI [OF wp_pres [OF renamed that]], rule wp_thnI [OF wp_pres [OF save_dispatched]], assumption,
        rule wp_bndI [OF wp_pres [OF idle_io(3)]], assumption, rule await_boot_wp, assumption, rule assms(5))
      (auto intro: dispatched_idle)
  show ?thesis
    unfolding dispatch_reset_def change_job_def [of "\<lambda>j. j\<lparr>jb_status := _, jb_message := _, jb_started := _\<rparr>"] wp_thn [of "upd f" for f] wp_upd assms(2)
    by (rule wp_thnI [OF save_running_wp [where L = "{(rs, prior)}", OF marked]], simp, use assms(4) in simp,
        rule wp_thnI [OF start_owner_wp], assumption, simp, rule waiting, assumption) auto
qed

lemma restart_processor_wp:
  fixes s :: "'e plane"
  assumes "worker_idle j s" "pl_job s = j" "jb_status j = ''queued''"
  shows "wp (restart_processor W revision (jb_role j)) (\<lambda>_. settled j) (\<lambda>_. worker_idle j) s"
proof -
  let ?I = "\<lambda>s' :: 'e plane. worker_idle j s' \<and> pl_job s' = j \<and> fresh_ident (jb_id j) s'"
  let ?J = "\<lambda>prior s'. ?I s' \<and> (\<exists>rs. (rs, prior) \<in> set (pl_seen s') \<and> (jb_id j, jb_role j) \<notin> set rs)"
  have io: "pres ?I (pl_io m)" "pres (?J prior) (pl_io m)" for m :: "('e, 'c) py" and prior by (rule pres_pl_io; simp)+
  have config: "pres ?I (plane_settings W)"
    by (auto simp: plane_settings_def intro!: pres_intros io(1))
  have seen: "?J v (s'\<lparr>pl_seen := pl_seen s' @ [(pl_resets s', v)]\<rparr>)" if "?I s'" for v s'
  proof -
    have "(jb_id j, jb_role j) \<notin> set (pl_resets s')" using that by (force simp: fresh_ident_def)
    then show ?thesis using that by auto
  qed
  have look: "wp (observe W) ?J (\<lambda>_. worker_idle j) s'" if "?I s'" for s'
    unfolding observe_def
    by (rule wp_bndI [OF wp_pres [OF io(1) that]], rule wp_liftI) (unfold wp_thn wp_upd wp_ret, rule seen, blast+)
  have "?I s" using assms by (auto simp: worker_idle_def)
  have reset: "wp (dispatch_reset W revision (jb_role j) prior timeout t) (\<lambda>_. settled j) (\<lambda>_. worker_idle j) s'"
    if "?J prior s'" "sr_boot (seen_of (jb_role j) prior) = job_boot (jb_role j) (pl_job s1)" "?J prior s1" for s' prior timeout t s1
    using that by (elim conjE exE) (rule dispatch_wp; simp)
  show ?thesis
    unfolding restart_processor_def
  proof (rule wp_bndI [OF wp_pres [OF config \<open>?I s\<close>]], goal_cases)
    case (1 settings s1)
    show ?case
    proof (cases "dict_get settings (jb_role j)")
      case None
      then show ?thesis using 1 by (simp add: wp_raise)
    next
      case (Some c)
      show ?thesis
        unfolding Some option.case
        by (rule wp_bndI [OF look [OF 1]], rule wp_getsI, rule wp_ensureI, rule wp_ensureI,
            rule wp_bndI [OF wp_pres [OF io(2)]], assumption, rule wp_bndI [OF wp_pres [OF io(2)]], assumption, rule wp_ensureI,
            rule wp_bndI [OF wp_pres [OF io(2)]], assumption, rule reset, assumption, blast, assumption) auto
    qed
  qed auto
qed

section \<open>The worker's outcome\<close>

definition outcome :: "job \<Rightarrow> 'e plane \<Rightarrow> bool" where
  "outcome j s \<longleftrightarrow> worker_idle j s \<and> (jb_status (pl_job s) = ''failed'' \<or> verified j (pl_seen s) (pl_job s) \<and> (jb_id j, jb_role j) \<in> set (pl_resets s))"

lemma pres_conj: "pres I m \<Longrightarrow> pres J m \<Longrightarrow> pres (\<lambda>s. I s \<and> J s) m"
  by (simp add: pres_def)

lemma settled_outcome: "settled j s \<Longrightarrow> outcome j s"
  by (auto simp: outcome_def settled_def dispatched_def intro: dispatched_idle [unfolded dispatched_def])

lemma outcome_env [simp]: "outcome j (s\<lparr>pl_env := e\<rparr>) = outcome j s" "outcome j (s\<lparr>pl_history := h\<rparr>) = outcome j s"
  by (simp_all add: outcome_def)

lemma save_job_keeps: "pres (\<lambda>s. P (pl_job s) (pl_resets s) (pl_seen s)) (save_job W revision)"
  unfolding save_job_def save_plane_def by (intro pres_intros pres_upd pres_pl_io) simp_all

lemma save_outcome: "pres (outcome j) (save_job W revision)"
proof -
  have eq: "outcome j = (\<lambda>s. worker_idle j s \<and> (jb_status (pl_job s) = ''failed'' \<or> verified j (pl_seen s) (pl_job s) \<and> (jb_id j, jb_role j) \<in> set (pl_resets s)))"
    by (rule ext) (simp add: outcome_def)
  show ?thesis
    unfolding eq
    by (rule pres_conj [OF save_worker save_job_keeps [of "\<lambda>k l v. jb_status k = ''failed'' \<or> verified j v k \<and> (jb_id j, jb_role j) \<in> set l"]])
qed

lemma finished_outcome: "pres (outcome j) (change_job (\<lambda>k. k\<lparr>jb_finished := t\<rparr>))"
  unfolding change_job_def by (rule pres_upd) (simp add: outcome_def worker_idle_def verified_def)

text \<open>Saving leaves the worker's job on disk, or raises.\<close>

lemma save_job_saves:
  "wp (save_job W revision) (\<lambda>_ s'. ps_job (pl_saved s') = Some (pl_job s') \<and> ps_revision (pl_saved s') = revision \<and> pl_history s' = pl_history s) (\<lambda>_ _. True) s"
  unfolding save_job_def save_plane_def
proof (rule wp_getsI, rule wp_thnI [OF wp_pres])
  show "pres (\<lambda>s'. pl_job s' = pl_job s \<and> pl_history s' = pl_history s) (pl_io (pw_write W))" by (rule pres_pl_io) simp
next
  fix u and s' :: "'a plane" assume *: "pl_job s' = pl_job s \<and> pl_history s' = pl_history s"
  let ?P = "\<lambda>t :: 'a plane. ps_job (pl_saved t) = Some (pl_job t) \<and> ps_revision (pl_saved t) = revision \<and> pl_history t = pl_history s"
  have "wp (pl_io (pw_sync W)) (\<lambda>_. ?P) (\<lambda>_. ?P) (s'\<lparr>pl_saved := \<lparr>ps_revision = revision, ps_job = Some (pl_job s)\<rparr>\<rparr>)"
    by (rule wp_pres [OF pres_pl_io]) (use * in simp_all)
  then show "wp (thn (upd (\<lambda>s'. s'\<lparr>pl_saved := \<lparr>ps_revision = revision, ps_job = Some (pl_job s)\<rparr>\<rparr>)) (pl_io (pw_sync W))) (\<lambda>_. ?P) (\<lambda>_ _. True) s'"
    unfolding wp_thn wp_upd by (rule wp_mono) auto
qed auto

abbreviation closed :: "int \<Rightarrow> job \<Rightarrow> 'e plane \<Rightarrow> bool" where
  "closed revision k s \<equiv> k = pl_job s \<and> ps_job (pl_saved s) = Some k \<and> ps_revision (pl_saved s) = revision \<and> (\<exists>h. pl_history s = take 50 (k # h))"

lemma close_job_wp:
  fixes s :: "'e plane"
  assumes "outcome j s"
  shows "wp (thn (close_job W revision) (gets pl_job)) (\<lambda>k s'. outcome j s' \<and> closed (revision + 1) k s') (\<lambda>_. worker_idle j) s"
proof -
  have E: "outcome j t \<Longrightarrow> worker_idle j t" for t :: "'e plane" by (simp add: outcome_def)
  have io: "pres (outcome j) (pl_io m)" for m :: "('e, 'c) py" by (rule pres_pl_io) simp
  have saved: "wp (save_job W r) (\<lambda>_ t. outcome j t \<and> ps_job (pl_saved t) = Some (pl_job t) \<and> ps_revision (pl_saved t) = r) (\<lambda>_. worker_idle j) s'"
    if "outcome j s'" for s' :: "'e plane" and r
    by (rule wp_mono [OF wp_conj [THEN iffD2, OF conjI, OF wp_pres [OF save_outcome that] save_job_saves]]) (use E in auto)
  have written: "wp (pl_io (pw_write W)) (\<lambda>_ t. outcome j t \<and> closed r (pl_job t) (t\<lparr>pl_history := take 50 (k # pl_history t)\<rparr>)) (\<lambda>_. worker_idle j) s'"
    if *: "outcome j s' \<and> ps_job (pl_saved s') = Some (pl_job s') \<and> ps_revision (pl_saved s') = r" "k = pl_job s'" for s' :: "'e plane" and r k
  proof -
    let ?I = "\<lambda>t :: 'e plane. outcome j t \<and> ps_job (pl_saved t) = Some k \<and> ps_revision (pl_saved t) = r \<and> pl_job t = k"
    have "pres ?I (pl_io (pw_write W))" by (rule pres_pl_io) simp
    moreover have "?I s'" using * by simp
    ultimately have "wp (pl_io (pw_write W)) (\<lambda>_. ?I) (\<lambda>_. ?I) s'" by (rule wp_pres)
    then show ?thesis by (rule wp_mono) (use E in auto)
  qed
  have tail: "wp (save_job W r) (\<lambda>_ s'. wp (pl_io (pw_write W)) (\<lambda>_ t. outcome j t \<and> closed r (pl_job t) (t\<lparr>pl_history := take 50 (pl_job s' # pl_history t)\<rparr>)) (\<lambda>_. worker_idle j) s') (\<lambda>_. worker_idle j) s'"
    if "outcome j s'" for s' :: "'e plane" and r
    by (rule wp_mono [OF saved [OF that]], erule written, rule refl)
  have "wp (pl_io (pw_time W)) (\<lambda>t. wp (change_job (\<lambda>k. k\<lparr>jb_finished := Some t\<rparr>)) (\<lambda>_. wp (save_job W (revision + 1)) (\<lambda>_ s'. wp (pl_io (pw_write W))
      (\<lambda>_ t. outcome j t \<and> closed (revision + 1) (pl_job t) (t\<lparr>pl_history := take 50 (pl_job s' # pl_history t)\<rparr>)) (\<lambda>_. worker_idle j) s') (\<lambda>_. worker_idle j)) (\<lambda>_. worker_idle j)) (\<lambda>_. worker_idle j) s"
    by (rule wp_mono [OF wp_pres [OF io assms]], rule wp_mono [OF wp_pres [OF finished_outcome]], assumption, rule tail, assumption) (auto intro: E)
  then show ?thesis
    unfolding close_job_def wp_thn wp_bnd wp_gets wp_upd by simp
qed

lemma close_idle: "pres (worker_idle j) (close_job W revision)"
  unfolding close_job_def by (intro pres_intros idle_io save_worker change_idle pres_upd) simp_all

lemma attempt_wp:
  fixes s :: "'e plane"
  assumes "worker_idle j s" "pl_job s = j" "jb_status j = ''queued''"
  shows "wp (catch_all (catch_exn (restart_processor W revision (jb_role j)) job_failed) (\<lambda>e. thn (close_job W revision) (raise e)))
     (\<lambda>_. outcome j) (\<lambda>_. worker_idle j) s"
proof (rule wp_catch_allI)
  have failed: "wp (job_failed e) (\<lambda>_. outcome j) (\<lambda>_. worker_idle j) s'" if "worker_idle j s'" for e and s' :: "'e plane"
    using that by (auto simp: job_failed_def change_job_def wp_upd outcome_def worker_idle_def)
  show "wp (catch_exn (restart_processor W revision (jb_role j)) job_failed) (\<lambda>_. outcome j) (\<lambda>_. worker_idle j) s"
    unfolding wp_catch_exn
    by (rule wp_mono [OF restart_processor_wp [OF assms]]) (auto intro: settled_outcome failed)
next
  fix e and s' :: "'e plane" assume "worker_idle j s'"
  then show "wp (thn (close_job W revision) (raise e)) (\<lambda>_. outcome j) (\<lambda>_. worker_idle j) s'"
    by (intro wp_thnI [OF wp_pres [OF close_idle]]) (auto simp: wp_raise)
qed

lemma work_wp:
  fixes s :: "'e plane"
  assumes "queued_idle s"
  shows "wp (work W ident) (\<lambda>k s'. queued_idle s' \<and> closed (ps_revision (pl_saved s) + 1) k s' \<and> (\<exists>j. ps_job (pl_saved s) = Some j \<and> jb_id j = ident \<and> outcome j s')) (\<lambda>_. queued_idle) s"
proof -
  let ?I = "\<lambda>s' :: 'e plane. queued_idle s' \<and> pl_saved s' = pl_saved s"
  let ?Q = "\<lambda>k (s' :: 'e plane). queued_idle s' \<and> closed (ps_revision (pl_saved s) + 1) k s' \<and> (\<exists>j. ps_job (pl_saved s) = Some j \<and> jb_id j = ident \<and> outcome j s')"
  have idle: "worker_idle j t \<Longrightarrow> queued_idle t" for j and t :: "'e plane" by (simp add: worker_idle_def)
  have body: "wp (thn (upd (\<lambda>s. s\<lparr>pl_job := j\<rparr>)) (thn (catch_all (catch_exn (restart_processor W (ps_revision (pl_saved s)) (jb_role j)) job_failed)
      (\<lambda>e. thn (close_job W (ps_revision (pl_saved s))) (raise e))) (thn (close_job W (ps_revision (pl_saved s))) (gets pl_job)))) ?Q (\<lambda>_. queued_idle) s'"
    if "?I s'" "ps_job (pl_saved s) = Some j" "jb_id j = ident \<and> jb_status j = ''queued''" for j and s' :: "'e plane"
  proof -
    have "fresh_ident (jb_id j) s'" using that by (auto simp: queued_idle_def)
    with that have start: "worker_idle j (s'\<lparr>pl_job := j\<rparr>)" by (simp add: worker_idle_def)
    have closing: "wp (thn (close_job W (ps_revision (pl_saved s))) (gets pl_job)) ?Q (\<lambda>_. queued_idle) t" if "outcome j t" for t
      by (rule wp_mono [OF close_job_wp [OF that]]) (use \<open>ps_job _ = Some j\<close> \<open>jb_id j = ident \<and> _\<close> idle in \<open>auto simp: outcome_def\<close>)
    show ?thesis
      unfolding wp_thn [of "upd f" for f] wp_upd
      by (rule wp_thnI [OF attempt_wp [OF start]]) (use that(3) closing idle in auto)
  qed
  have "pres ?I (pl_io (pw_lock W))" by (rule pres_pl_io) simp
  then show ?thesis
    unfolding work_def
  proof (intro wp_ensureI wp_thnI [OF wp_pres [where I = ?I]] wp_getsI, goal_cases)
    case (3 u s')
    show ?case
    proof (cases "ps_job (pl_saved s)")
      case None
      then show ?thesis using 3 by (simp add: wp_raise)
    next
      case (Some j)
      have eq: "pl_saved s' = pl_saved s" using 3 by simp
      show ?thesis
        unfolding eq Some option.case by (rule wp_ensureI, rule body [OF _ Some, unfolded Some]) (use 3 in auto)
    qed
  qed (use assms in auto)
qed

lemma reach_idle: "plane_reach W s \<Longrightarrow> queued_idle s"
proof (induction rule: plane_reach.induct)
  case (plane_start s)
  then show ?case by (simp add: queued_idle_def fresh_ident_def)
next
  case (plane_submit s ident payload)
  then show ?case using pres_snd [OF submit_idle, of s ident] by blast
next
  case (plane_work s ident)
  then show ?case using work_wp [of s W ident] by (auto simp: wp_def split: prod.splits sum.splits)
qed simp

text \<open>
  C22.  However submissions, workers, failures and interruptions follow each other, no job resets the
  same processor twice: a repeated hardware action is never dispatched.
\<close>

theorem plane_reset_once:
  assumes "plane_reach W s"
  shows "distinct (pl_resets s)"
  using reach_idle [OF assms] by (simp add: queued_idle_def)

text \<open>
  C23.  A worker that returns has settled its job: it is on disk and first in the history, under the
  next revision, and is failed or succeeded.  It succeeded only if it observed, before this job reset
  its processor, the boot the operator saw (\<open>b\<close>); after the reset, that processor answering, ready or
  in recovery, under another boot (\<open>u\<close>); and at the end the data processor answering under another
  boot than before (\<open>v\<close>), so that after a restart of the control processor both have new boots.  It
  is reported ready exactly when both were, and a restart of the data processor alone saw no reboot
  of the control processor.
\<close>

theorem work_settles:
  assumes "plane_reach W s" "work W ident s = (Inr k, s')"
  shows "jb_id k = ident \<and> ps_job (pl_saved s') = Some k \<and> ps_revision (pl_saved s') = ps_revision (pl_saved s) + 1 \<and>
     (\<exists>h. pl_history s' = take 50 (k # h)) \<and>
     (jb_status k = ''failed'' \<or> jb_status k = ''succeeded'' \<and> (ident, jb_role k) \<in> set (pl_resets s') \<and>
        (\<exists>rs b us u vs v. (rs, b) \<in> set (pl_seen s') \<and> (us, u) \<in> set (pl_seen s') \<and> (vs, v) \<in> set (pl_seen s') \<and>
           (ident, jb_role k) \<notin> set rs \<and> (ident, jb_role k) \<in> set us \<and> (ident, jb_role k) \<in> set vs \<and> jb_after k = Some v \<and>
           sr_boot (seen_of (jb_role k) b) = job_boot (jb_role k) k \<and> new_boot (job_boot (jb_role k) k) (seen_of (jb_role k) u) \<and>
           new_boot (sr_boot (se_dp b)) (se_dp v) \<and> jb_ready k = Some (sr_ready (seen_of (jb_role k) u) \<and> sr_ready (se_dp v)) \<and>
           (jb_role k = ''cp'' \<or> \<not> (sr_fresh (se_cp v) \<and> truthy (sr_boot (se_cp b)) \<and> sr_boot (se_cp v) \<noteq> sr_boot (se_cp b)))))"
proof -
  obtain j where k: "closed (ps_revision (pl_saved s) + 1) k s'" and j: "jb_id j = ident" "outcome j s'"
    using wp_returns [OF work_wp [OF reach_idle [OF assms(1)]] assms(2)] by blast
  have same: "pl_job s' = k" "jb_role j = jb_role k" "\<And>r. job_boot r j = job_boot r k"
    using k j by (auto simp: outcome_def worker_idle_def job_boot_def)
  have "jb_id k = ident" using k j by (simp add: outcome_def worker_idle_def)
  moreover note k
  moreover have "jb_status k = ''failed'' \<or> verified j (pl_seen s') k \<and> (ident, jb_role k) \<in> set (pl_resets s')"
    using j by (simp add: outcome_def same)
  ultimately show ?thesis
    unfolding verified_def same j(1) by blast
qed

section \<open>A concrete platform\<close>

text \<open>A restart of the data processor is the only event; its boot identity changes.\<close>

definition boot_text :: "char \<Rightarrow> string" where
  "boot_text c = concat (map (\<lambda>n. if n \<in> {8, 13, 18, 23} then ''-'' else [c]) [0..<36 :: nat])"

definition sample_agent :: "string \<Rightarrow> char \<Rightarrow> pyval" where
  "sample_agent role c = PDict [(''role'', PStr role), (''fresh'', PBool True), (''ready'', PBool True),
     (''last_observation'', PDict [(''platform'', PStr ''pa5200''), (''report'', PDict [(''boot_id'', PStr (boot_text c))])])]"

definition sample_state :: "bool \<Rightarrow> pyval" where
  "sample_state restarted_dp = PDict [(''agents'', PDict [(''1'', sample_agent ''cp'' CHR ''a''), (''2'', sample_agent ''dp'' (if restarted_dp then CHR ''b'' else CHR ''a''))])]"

definition sample_role :: "char \<Rightarrow> seen_role" where
  "sample_role c = \<lparr>sr_boot = PStr (boot_text c), sr_fresh = True, sr_ready = True, sr_acknowledged = False, sr_age = PNone, sr_runtime = PNone\<rparr>"

definition sample_config :: config_file where
  "sample_config = \<lparr>cf_symlink = False, cf_uid = 0, cf_mode = 384, cf_size = 100,
     cf_body = PDict [(''schema'', PInt 1), (''roles'', PDict [(''dp'', PDict [(''enabled'', PBool True), (''timeout'', PInt 60)])])]\<rparr>"

definition sample_unit :: "(string \<times> string) list" where
  "sample_unit = [(''LoadState'', ''loaded''), (''Type'', ''oneshot''), (''RemainAfterExit'', ''no''), (''Result'', ''success'')]"

definition sample_plane :: "bool plane_world" where
  "sample_plane = \<lparr>pw_control = bnd (gets id) (\<lambda>b. ret (sample_state b)), pw_config = ret (Some sample_config), pw_show = (\<lambda>_. ret sample_unit),
     pw_time = ret 0, pw_clock = ret 0, pw_sleep = ret (), pw_lock = ret (), pw_write = ret (), pw_sync = ret (), pw_launch = (\<lambda>_. ret ()),
     pw_start = (\<lambda>_. thn (upd (\<lambda>_. True)) (ret True)), pw_detail = (\<lambda>_. ret None), pw_turns = 1\<rparr>"

definition sample_ident :: string where
  "sample_ident = replicate 32 (CHR ''0'')"

definition sample_job :: job where
  "sample_job = (let v = \<lparr>rv_seen = sample_role CHR ''a'', rv_available = True, rv_reason = None\<rparr> in
     \<lparr>jb_id = sample_ident, jb_role = ''dp'', jb_status = ''queued'', jb_message = ''Restart queued'', jb_created = 0, jb_before = (v, v),
      jb_started = None, jb_finished = None, jb_after = None, jb_ready = None\<rparr>)"

definition queued_plane :: "bool plane" where
  "queued_plane = \<lparr>pl_env = False, pl_saved = \<lparr>ps_revision = 1, ps_job = Some sample_job\<rparr>, pl_history = [], pl_job = sample_job, pl_resets = [], pl_seen = []\<rparr>"

definition restarted_plane :: "bool plane" where
  "restarted_plane = snd (work sample_plane sample_ident queued_plane)"

lemma sample_observations:
  "observations (sample_state True) = Inr \<lparr>se_cp = sample_role CHR ''a'', se_dp = sample_role CHR ''b''\<rparr>"
  "observations (sample_state False) = Inr \<lparr>se_cp = sample_role CHR ''a'', se_dp = sample_role CHR ''a''\<rparr>"
  by code_simp+

lemma sample_settings: "settings_of (Some sample_config) = Inr [(''dp'', \<lparr>rs_enabled = True, rs_timeout = 60\<rparr>)]"
  by code_simp

lemma sample_texts: "boot_text CHR ''a'' \<noteq> boot_text CHR ''b''" "boot_text CHR ''b'' \<noteq> boot_text CHR ''a''" "worker_ident sample_ident"
  "oneshot sample_unit" "\<not> active_in l sample_unit" "dict_get sample_unit ''Result'' = Some ''success''"
  by (code_simp, code_simp, code_simp, code_simp, simp add: active_in_def sample_unit_def, code_simp)

lemma restarted_run:
  "(\<exists>k. fst (work sample_plane sample_ident queued_plane) = Inr k \<and> jb_status k = ''succeeded'') \<and> pl_resets restarted_plane = [(sample_ident, ''dp'')]"
  by (simp add: restarted_plane_def work_def sample_texts sample_settings sample_observations pl_io_def zoom_def bnd_def thn_def ret_def upd_def gets_def
      lift_res_def ensure_def whn_def catch_all_def catch_exn_def restart_processor_def dispatch_reset_def plane_settings_def observe_def save_job_def
      save_plane_def start_owner_def change_job_def try_observe_def restarted_def finish_dp_def close_job_def seen_of_def job_boot_def sample_role_def
      sample_plane_def queued_plane_def sample_job_def Let_def)

lemma queued_reach: "plane_reach W queued_plane"
  by (rule plane_start) (simp add: queued_plane_def)

theorem plane_reset_once_witness: "distinct (pl_resets restarted_plane) \<and> pl_resets restarted_plane \<noteq> []"
proof -
  have "plane_reach sample_plane restarted_plane" unfolding restarted_plane_def by (rule plane_work [OF queued_reach])
  from plane_reset_once [OF this] show ?thesis using restarted_run by simp
qed

theorem work_settles_witness: "\<exists>k. ps_job (pl_saved restarted_plane) = Some k \<and> jb_status k = ''succeeded'' \<and> jb_id k = sample_ident"
proof -
  obtain k where "work sample_plane sample_ident queued_plane = (Inr k, restarted_plane)" "jb_status k = ''succeeded''"
    using restarted_run by (auto simp: restarted_plane_def prod_eq_iff)
  with work_settles [OF queued_reach this(1)] show ?thesis by blast
qed

end
