(* ===== verification/FlowCodec.thy ===== *)
theory FlowCodec
  imports Octets
begin

text \<open>
  The FE100 IPv4 flow entry: the codec half of \<open>ffn_fe100_sessions.py\<close>, the paired
  encoder of \<open>ffn_fe100_nat.py\<close> and the next-hop encoders of \<open>ffn_fe100_nexthop.py\<close>.
  A wire entry is 64 bytes: a 16-byte key (0x40, protocol, lookup zone, source port,
  destination port, source, destination), the 32-bit flags, the next-hop override, the
  flow id at 36 and the translated addresses and ports at 48.
\<close>

section \<open>The flow key\<close>

definition key4 :: "pyval \<Rightarrow> pyval \<Rightarrow> pyval \<Rightarrow> pyval \<Rightarrow> pyval \<Rightarrow> pyval \<Rightarrow> exn + bytes" where
  "key4 src dst sport dport protocol zone =
     rthn (rcheck (protocol = PInt 6 \<or> protocol = PInt 17)
            (ValueError ''only established TCP or UDP flows are eligible''))
     (rbnd (ipv4_of src) (\<lambda>a. rbnd (ipv4_of dst) (\<lambda>b.
      rthn (rcheck (\<not> (is_multicast a \<or> is_multicast b \<or> is_unspecified a \<or> is_unspecified b))
             (ValueError ''unicast addresses required''))
      (rbnd (uint_arg zone 16 ''zone'') (\<lambda>z.
       rbnd (uint_arg sport 16 ''source port'') (\<lambda>sp.
       rbnd (uint_arg dport 16 ''destination port'') (\<lambda>dp.
       Inr ([0x40, of_int (the_int protocol)] @ to_be 2 (nat z) @ to_be 2 (nat sp) @
            to_be 2 (nat dp) @ a @ b))))))))"

definition key_ok :: "bytes \<Rightarrow> bool" where
  "key_ok key \<longleftrightarrow> length key = 16 \<and> key ! 0 = 0x40 \<and> (key ! 1 = 6 \<or> key ! 1 = 17)"

section \<open>Entries\<close>

definition entry4 :: "bytes \<Rightarrow> int \<Rightarrow> exn + bytes" where
  "entry4 key flow_id =
     rthn (rcheck (key_ok key) (ValueError ''invalid IPv4 key''))
     (rbnd (uint_arg (PInt flow_id) 32 ''flow ID'') (\<lambda>f.
      Inr (key @ replicate 20 0 @ to_be 4 (nat f) @ replicate 24 0)))"

text \<open>\<open>struct.pack_into('!II', wire, 16, flags, override)\<close>.\<close>

definition put_action :: "nat \<Rightarrow> nat \<Rightarrow> bytes \<Rightarrow> bytes" where
  "put_action flags override wire = take 16 wire @ to_be 4 flags @ to_be 4 override @ drop 24 wire"

text \<open>Flags of a forwarding action: CT 31, next hop 26, TTL decrement 28.\<close>

definition base_flags :: "bool \<Rightarrow> nat" where
  "base_flags ttl = 2 ^ 31 + 2 ^ 26 + (if ttl then 2 ^ 28 else 0)"

definition forwarding_entry4 ::
  "bytes \<Rightarrow> int \<Rightarrow> pyval \<Rightarrow> bool \<Rightarrow> bool \<Rightarrow> exn + bytes" where
  "forwarding_entry4 key flow_id next_hop dropping decrement_ttl =
     rbnd (if dropping
           then rthn (rcheck (next_hop = PNone \<and> \<not> decrement_ttl)
                        (ValueError ''drop cannot include forwarding actions''))
                  (Inr (2 ^ 27, 0))
           else rbnd (uint_arg next_hop 16 ''next-hop index'') (\<lambda>override.
                  Inr (base_flags decrement_ttl, nat override)))
       (\<lambda>(flags, override).
     rbnd (entry4 key flow_id) (\<lambda>wire. Inr (put_action flags override wire)))"

text \<open>The 32-bit flags word and its NAT mode: \<open>(flags >> 29) & 3\<close>.\<close>

definition entry_flags :: "bytes \<Rightarrow> nat" where
  "entry_flags wire = from_be (slice 16 20 wire)"

definition mode_of :: "nat \<Rightarrow> nat" where
  "mode_of flags = (flags div 2 ^ 29) mod 4"

definition nat_fields :: "string list" where
  "nat_fields = [''source'', ''destination'', ''source_port'', ''destination_port'']"

text \<open>The NAT mode: 2 when a port changes, 1 when only addresses do.\<close>

definition nat_mode :: "bytes \<Rightarrow> bytes \<Rightarrow> nat" where
  "nat_mode key target = (if slice 4 8 target \<noteq> slice 4 8 key then 2 else 1)"

definition nat_entry4 :: "bytes \<Rightarrow> int \<Rightarrow> pyval \<Rightarrow> pyval \<Rightarrow> bool \<Rightarrow> exn + bytes" where
  "nat_entry4 key flow_id next_hop translated decrement_ttl =
     rthn (rcheck (keys_are translated nat_fields)
            (ValueError ''complete translated IPv4 tuple required''))
     (rbnd (forwarding_entry4 key flow_id next_hop False decrement_ttl) (\<lambda>wire.
      rbnd (key4 (py_get translated ''source'') (py_get translated ''destination'')
                 (py_get translated ''source_port'') (py_get translated ''destination_port'')
                 (PInt (uint (key ! 1))) (PInt (int (from_be (slice 2 4 key))))) (\<lambda>target.
      rthn (rcheck (target \<noteq> key) (ValueError ''NAT action must change the tuple''))
      (let flags = entry_flags wire + nat_mode key target * 2 ^ 29
       in Inr (take 16 wire @ to_be 4 flags @ slice 20 48 wire @
               slice 8 16 target @ slice 4 8 target @ drop 60 wire)))))"

definition output_key4 :: "bytes \<Rightarrow> bytes" where
  "output_key4 wire =
     (if mode_of (entry_flags wire) \<noteq> 0
      then take 4 (take 16 wire) @ slice 56 60 wire @ slice 48 56 wire
      else take 16 wire)"

definition flow_id_of :: "bytes \<Rightarrow> int" where
  "flow_id_of wire = int (from_be (slice 36 40 wire))"

definition validate_entry4 :: "bytes \<Rightarrow> exn + bytes" where
  "validate_entry4 wire =
     rthn (rcheck (length wire = 64) (ValueError ''invalid flow entry length''))
     (let key = take 16 wire; flow_id = flow_id_of wire in
      rbnd (entry4 key flow_id) (\<lambda>identity.
      if wire = identity then Inr wire
      else let flags = entry_flags wire; override = from_be (slice 20 24 wire);
               mode = mode_of flags; ttl = odd (flags div 2 ^ 28) in
        rbnd (if flags = 2 ^ 27 then forwarding_entry4 key flow_id PNone True False
              else if flags - mode * 2 ^ 29 \<in> {base_flags False, base_flags True} then
                if mode = 3 then Inl (ValueError ''IP version translation is not supported'')
                else if mode \<noteq> 0 then
                  nat_entry4 key flow_id (PInt (int override))
                    (PDict [(''source'', PStr (ipv4_str (slice 48 52 wire))),
                            (''destination'', PStr (ipv4_str (slice 52 56 wire))),
                            (''source_port'', PInt (int (from_be (slice 56 58 wire)))),
                            (''destination_port'', PInt (int (from_be (slice 58 60 wire))))]) ttl
                else forwarding_entry4 key flow_id (PInt (int override)) False ttl
              else Inl (ValueError ''unsupported flow actions'')) (\<lambda>expected.
        if wire \<noteq> expected then Inl (ValueError ''unsupported flow state'') else Inr wire)))"

definition owned_variants :: "bytes \<Rightarrow> exn + bytes list" where
  "owned_variants entry =
     rthn (validate_entry4 entry)
     (rbnd (entry4 (take 16 entry) (flow_id_of entry)) (\<lambda>identity. Inr [entry, identity]))"

section \<open>Paired directions\<close>

definition tuple_fields :: "string list" where
  "tuple_fields = [''source'', ''destination'', ''source_port'', ''destination_port'', ''protocol'']"

text \<open>One direction of \<open>session_pair4\<close>: the translation is the peer tuple reversed.\<close>

definition pair_direction :: "int \<Rightarrow> pyval \<Rightarrow> pyval \<Rightarrow> pyval \<Rightarrow> pyval \<Rightarrow> exn + bytes" where
  "pair_direction flow_id row peer hop zone =
     rbnd (key4 (py_get row ''source'') (py_get row ''destination'') (py_get row ''source_port'')
            (py_get row ''destination_port'') (py_get row ''protocol'') zone) (\<lambda>key.
     let translated = PDict [(''source'', py_get peer ''destination''),
                             (''destination'', py_get peer ''source''),
                             (''source_port'', py_get peer ''destination_port''),
                             (''destination_port'', py_get peer ''source_port'')]
     in if py_eq translated (PDict (filter (\<lambda>(k, v). k \<noteq> ''protocol'') (the_dict row)))
        then forwarding_entry4 key flow_id hop False True
        else nat_entry4 key flow_id hop translated True)"

definition session_pair4 :: "pyval \<Rightarrow> pyval \<Rightarrow> pyval \<Rightarrow> pyval \<Rightarrow> pyval \<Rightarrow> exn + bytes list" where
  "session_pair4 session_id original reply zone next_hops =
     rthn (rcheck (keys_are original tuple_fields \<and> keys_are reply tuple_fields)
            (ValueError ''complete TCP/UDP conntrack tuples required''))
     (rthn (rcheck (py_eq (py_get original ''protocol'') (py_get reply ''protocol''))
            (ValueError ''conntrack directions have different protocols''))
     (rthn (rcheck (is_list next_hops \<and> length (the_list next_hops) = 2)
            (ValueError ''two verified directional next hops required''))
     (let zones = (if is_int zone then PList [zone, zone] else zone) in
      rthn (rcheck (is_list zones \<and> length (the_list zones) = 2)
            (ValueError ''two verified directional lookup zones required''))
     (rthn (rcollect (the_list zones) (\<lambda>value. uint_arg value 16 ''zone''))
     (rbnd (uint_arg session_id 31 ''session ID'') (\<lambda>sid.
      rbnd (pair_direction (sid * 2) original reply (the_list next_hops ! 0) (the_list zones ! 0)) (\<lambda>e0.
      rbnd (pair_direction (sid * 2 + 1) reply original (the_list next_hops ! 1) (the_list zones ! 1)) (\<lambda>e1.
      Inr [e0, e1]))))))))"

section \<open>Next-hop and source-MAC entries\<close>

definition encode_smac :: "pyval \<Rightarrow> exn + bytes" where
  "encode_smac mac =
     rbnd (mac_raw mac) (\<lambda>raw.
     rthn (rcheck (length raw = 6 \<and> unicast_mac raw)
            (ValueError ''source MAC must be nonzero unicast''))
     (Inr ([0x80, 0x00] @ raw)))"

text \<open>\<open>encode(destination, dmac, vlan, mtu)\<close>: bit 23 valid, 20 sysport, 18 VLAN, 16 DA.\<close>

definition encode_nexthop :: "pyval \<Rightarrow> pyval \<Rightarrow> pyval \<Rightarrow> pyval \<Rightarrow> exn + bytes" where
  "encode_nexthop destination dmac vlan mtu =
     rthn (rcheck (int_in destination 0 15) (ValueError ''system port must be 0..15''))
     (rthn (rcheck (int_in mtu 64 9216) (ValueError ''invalid MTU''))
     (rthn (rcheck (vlan = PNone \<or> int_in vlan 1 4094) (ValueError ''invalid VLAN''))
     (rbnd (if truthy dmac then mac_raw dmac else Inr (replicate 6 0)) (\<lambda>mac.
      rthn (rcheck (length mac = 6 \<and> (truthy dmac \<longrightarrow> unicast_mac mac))
             (ValueError ''destination MAC must be unicast and nonzero''))
      (let flags = 2 ^ 23 + 2 ^ 20 + (if vlan \<noteq> PNone then 2 ^ 18 else 0) + (if truthy dmac then 2 ^ 16 else 0)
       in Inr (to_be 4 flags @ to_be 2 (nat (the_int destination)) @
               to_be 2 (nat (the_int vlan)) @ to_be 2 (nat (the_int mtu)) @ mac))))))"

text \<open>
  \<open>encode_front\<close>: the sysport bit is cleared, the egress LIF stored at 4 and the source-MAC
  index with its valid bit 15 in the flags.  The bits written are clear before, so the
  bitwise operations are written as addition and subtraction.
\<close>

definition encode_front :: "pyval \<Rightarrow> pyval \<Rightarrow> pyval \<Rightarrow> pyval \<Rightarrow> pyval \<Rightarrow> exn + bytes" where
  "encode_front egress_lif dmac mtu vlan smac_index =
     rthn (rcheck (int_in egress_lif 0 65535) (ValueError ''invalid egress LIF''))
     (rbnd (encode_nexthop (PInt 0) dmac vlan mtu) (\<lambda>raw.
      let flags = from_be (take 4 raw) - 2 ^ 20 in
      rthn (rcheck (smac_index = PNone \<or> int_in smac_index 0 1023)
             (ValueError ''source MAC index must be 0..1023''))
      (let flags' = (if smac_index = PNone then flags
                     else flags + 2 ^ 15 + nat (the_int smac_index))
       in Inr (to_be 4 flags' @ to_be 2 (nat (the_int egress_lif)) @ drop 6 raw))))"

section \<open>The normal form of an entry\<close>

text \<open>
  Every entry the encoders produce is a key, flags, an override, a flow id and a NAT area.
\<close>

definition wire_form :: "bytes \<Rightarrow> nat \<Rightarrow> nat \<Rightarrow> nat \<Rightarrow> bytes \<Rightarrow> bytes" where
  "wire_form key flags override fid natf =
     key @ to_be 4 flags @ to_be 4 override @ replicate 12 0 @ to_be 4 fid @ replicate 8 0 @
     natf @ replicate 4 0"

lemma to_be_zero [simp]: "to_be n 0 = replicate n 0"
  by (induction n) (simp_all add: replicate_append_same)

lemma wire_form_slices:
  assumes "length key = 16" "length natf = 12"
  shows "length (wire_form key flags ov fid natf) = 64"
    and "take 16 (wire_form key flags ov fid natf) = key"
    and "slice 16 20 (wire_form key flags ov fid natf) = to_be 4 flags"
    and "slice 20 24 (wire_form key flags ov fid natf) = to_be 4 ov"
    and "slice 36 40 (wire_form key flags ov fid natf) = to_be 4 fid"
    and "slice 48 60 (wire_form key flags ov fid natf) = natf"
    and "slice 48 56 (wire_form key flags ov fid natf) = take 8 natf"
    and "slice 56 60 (wire_form key flags ov fid natf) = drop 8 natf"
    and "slice 16 48 (wire_form key flags ov fid natf) =
           to_be 4 flags @ to_be 4 ov @ replicate 12 0 @ to_be 4 fid @ replicate 8 0"
  using assms by (simp_all add: wire_form_def slice_def)

lemma put_action_form:
  "length key = 16 \<Longrightarrow> length natf = 12 \<Longrightarrow>
   put_action f' o' (wire_form key f o1 fid natf) = wire_form key f' o' fid natf"
  by (simp add: put_action_def wire_form_def)

lemma key_ok_length: "key_ok key \<Longrightarrow> length key = 16"
  by (simp add: key_ok_def)

lemma entry4_Inr_iff:
  "entry4 key f = Inr w \<longleftrightarrow>
     key_ok key \<and> 0 \<le> f \<and> f < 2 ^ 32 \<and> w = wire_form key 0 0 (nat f) (replicate 12 0)"
proof -
  have "replicate 20 (0 :: byte) = replicate 4 0 @ replicate 4 0 @ replicate 12 0"
    and "replicate 24 (0 :: byte) = replicate 8 0 @ replicate 12 0 @ replicate 4 0"
    by (simp_all flip: replicate_add)
  then show ?thesis
    by (auto simp: entry4_def res_iffs uint_arg_Inr_iff wire_form_def)
qed

lemma forwarding_entry4_Inr_iff:
  "forwarding_entry4 key f hop dropping ttl = Inr w \<longleftrightarrow>
     key_ok key \<and> 0 \<le> f \<and> f < 2 ^ 32 \<and>
     (if dropping then hop = PNone \<and> \<not> ttl \<and> w = wire_form key (2 ^ 27) 0 (nat f) (replicate 12 0)
      else \<exists>h. hop = PInt h \<and> 0 \<le> h \<and> h < 2 ^ 16 \<and>
        w = wire_form key (base_flags ttl) (nat h) (nat f) (replicate 12 0))"
  by (auto simp: forwarding_entry4_def res_iffs uint_arg_Inr_iff entry4_Inr_iff put_action_form key_ok_length)

lemma key4_Inr_iff:
  "key4 src dst sport dport protocol zone = Inr k \<longleftrightarrow>
     (\<exists>a b p z sp dp. (p = 6 \<or> p = 17) \<and> protocol = PInt p \<and> ipv4_of src = Inr a \<and> ipv4_of dst = Inr b \<and>
        \<not> is_multicast a \<and> \<not> is_multicast b \<and> \<not> is_unspecified a \<and> \<not> is_unspecified b \<and>
        zone = PInt z \<and> 0 \<le> z \<and> z < 2 ^ 16 \<and> sport = PInt sp \<and> 0 \<le> sp \<and> sp < 2 ^ 16 \<and>
        dport = PInt dp \<and> 0 \<le> dp \<and> dp < 2 ^ 16 \<and>
        k = [0x40, of_int p] @ to_be 2 (nat z) @ to_be 2 (nat sp) @ to_be 2 (nat dp) @ a @ b)"
  by (auto simp: key4_def res_iffs uint_arg_Inr_iff)

lemma key4_length: "key4 src dst sport dport protocol zone = Inr k \<Longrightarrow> length k = 16"
  by (auto simp: key4_Inr_iff length_ipv4_of)

lemma key4_ok: "key4 src dst sport dport protocol zone = Inr k \<Longrightarrow> key_ok k"
  by (auto simp: key4_Inr_iff length_ipv4_of key_ok_def)

lemma entry_flags_form [simp]:
  "length key = 16 \<Longrightarrow> flags < 2 ^ 32 \<Longrightarrow> length natf = 12 \<Longrightarrow>
   entry_flags (wire_form key flags ov fid natf) = flags"
  by (simp add: entry_flags_def wire_form_slices from_be_to_be)

lemma flow_id_form [simp]:
  "length key = 16 \<Longrightarrow> fid < 2 ^ 32 \<Longrightarrow> length natf = 12 \<Longrightarrow>
   flow_id_of (wire_form key flags ov fid natf) = int fid"
  by (simp add: flow_id_of_def wire_form_slices from_be_to_be)

definition nat_area :: "bytes \<Rightarrow> bytes" where
  "nat_area target = slice 8 16 target @ slice 4 8 target"

lemma length_nat_area: "length target = 16 \<Longrightarrow> length (nat_area target) = 12"
  by (simp add: nat_area_def length_slice)

lemma nat_flags:
  "base_flags ttl + nat_mode key target * 536870912 < 4294967296"
  "mode_of (base_flags ttl + nat_mode key target * 536870912) = nat_mode key target"
  "odd ((base_flags ttl + nat_mode key target * 536870912) div 268435456) = ttl"
  "mode_of (base_flags ttl) = 0" "base_flags ttl < 4294967296"
  "odd (base_flags ttl div 268435456) = ttl"
  by (simp_all add: base_flags_def nat_mode_def mode_of_def)

lemma nat_wire:
  assumes "length key = 16" "length natf = 12"
  shows "take 16 (wire_form key fl ov fid natf) @ to_be 4 fl' @ slice 20 48 (wire_form key fl ov fid natf) @
           na @ nb @ drop 60 (wire_form key fl ov fid natf) = wire_form key fl' ov fid (na @ nb)"
  using assms by (simp add: wire_form_def slice_def)

lemma nat_entry4_step:
  assumes "forwarding_entry4 key f hop False ttl = Inr wire"
  shows "take 16 wire @ to_be 4 (entry_flags wire + m * 2 ^ 29) @ slice 20 48 wire @
           slice 8 16 target @ slice 4 8 target @ drop 60 wire =
         wire_form key (base_flags ttl + m * 2 ^ 29) (nat (the_int hop)) (nat f) (nat_area target)"
  using assms by (auto simp: forwarding_entry4_Inr_iff key_ok_length nat_wire nat_area_def
    nat_flags)

lemma nat_entry4_Inr_iff:
  "nat_entry4 key f hop tr ttl = Inr w \<longleftrightarrow>
     keys_are tr nat_fields \<and> key_ok key \<and> 0 \<le> f \<and> f < 2 ^ 32 \<and>
     (\<exists>h target. hop = PInt h \<and> 0 \<le> h \<and> h < 2 ^ 16 \<and>
        key4 (py_get tr ''source'') (py_get tr ''destination'') (py_get tr ''source_port'')
          (py_get tr ''destination_port'') (PInt (uint (key ! 1))) (PInt (int (from_be (slice 2 4 key)))) = Inr target \<and>
        target \<noteq> key \<and>
        w = wire_form key (base_flags ttl + nat_mode key target * 2 ^ 29) (nat h) (nat f) (nat_area target))"
  (is "_ = (_ \<and> _ \<and> _ \<and> _ \<and> ?R)")
proof (cases "\<exists>wire. forwarding_entry4 key f hop False ttl = Inr wire")
  case True
  then obtain wire where w: "forwarding_entry4 key f hop False ttl = Inr wire" by blast
  then obtain h where h: "hop = PInt h" "0 \<le> h" "h < 65536" "key_ok key" "0 \<le> f" "f < 4294967296"
    by (auto simp: forwarding_entry4_Inr_iff)
  show ?thesis
    using h(5,6)
    by (simp add: nat_entry4_def res_iffs w [unfolded h] Let_def nat_entry4_step [OF w, unfolded h, simplified] h) blast
next
  case False
  then show ?thesis
    by (auto simp: nat_entry4_def res_iffs) (auto simp: forwarding_entry4_Inr_iff)
qed

section \<open>The validator accepts exactly what the encoders produce\<close>

definition key_form :: "byte \<Rightarrow> bytes \<Rightarrow> bytes \<Rightarrow> bytes \<Rightarrow> bytes \<Rightarrow> bytes \<Rightarrow> bytes" where
  "key_form p z sp dp a b = [0x40, p] @ z @ sp @ dp @ a @ b"

lemma key_form_slices:
  assumes "length z = 2" "length sp = 2" "length dp = 2" "length a = 4" "length b = 4"
  shows "length (key_form p z sp dp a b) = 16"
    and "key_form p z sp dp a b ! 1 = p"
    and "take 2 (key_form p z sp dp a b) = [0x40, p]"
    and "take 4 (key_form p z sp dp a b) = [0x40, p] @ z"
    and "slice 2 4 (key_form p z sp dp a b) = z"
    and "slice 4 6 (key_form p z sp dp a b) = sp"
    and "slice 6 8 (key_form p z sp dp a b) = dp"
    and "slice 4 8 (key_form p z sp dp a b) = sp @ dp"
    and "slice 8 12 (key_form p z sp dp a b) = a"
    and "slice 12 16 (key_form p z sp dp a b) = b"
    and "slice 8 16 (key_form p z sp dp a b) = a @ b"
  using assms by (simp_all add: key_form_def slice_def take_Cons')

lemma key4_key_form:
  assumes "key4 src dst sport dport protocol zone = Inr k"
  obtains p z sp dp a b where "k = key_form p z sp dp a b"
    "length z = 2" "length sp = 2" "length dp = 2" "length a = 4" "length b = 4"
    "p = 6 \<or> p = 17" "protocol = PInt (uint p)" "zone = PInt (int (from_be z))"
    "sport = PInt (int (from_be sp))" "dport = PInt (int (from_be dp))"
    "ipv4_of src = Inr a" "ipv4_of dst = Inr b"
    "\<not> is_multicast a" "\<not> is_multicast b" "\<not> is_unspecified a" "\<not> is_unspecified b"
proof -
  from assms obtain a b q z sp dp where k: "q = 6 \<or> q = 17" "protocol = PInt q" "ipv4_of src = Inr a"
    "ipv4_of dst = Inr b" "\<not> is_multicast a" "\<not> is_multicast b" "\<not> is_unspecified a"
    "\<not> is_unspecified b" "zone = PInt z" "0 \<le> z" "z < 65536" "sport = PInt sp" "0 \<le> sp" "sp < 65536"
    "dport = PInt dp" "0 \<le> dp" "dp < 65536"
    "k = [0x40, of_int q] @ to_be 2 (nat z) @ to_be 2 (nat sp) @ to_be 2 (nat dp) @ a @ b"
    by (auto simp: key4_Inr_iff)
  have be: "int (from_be (to_be 2 (nat i))) = i" if "0 \<le> i" "i < 65536" for i
    using that by (simp add: from_be_to_be)
  show thesis
    by (rule that [of "of_int q" "to_be 2 (nat z)" "to_be 2 (nat sp)" "to_be 2 (nat dp)" a b])
      (use k in \<open>auto simp: key_form_def be length_ipv4_of\<close>)
qed

lemma key4_rebuild:
  assumes "key4 src dst sport dport protocol zone = Inr k"
  shows "key4 (PStr (ipv4_str (slice 8 12 k))) (PStr (ipv4_str (slice 12 16 k)))
           (PInt (int (from_be (slice 4 6 k)))) (PInt (int (from_be (slice 6 8 k)))) protocol zone = Inr k"
proof -
  from assms obtain p z sp dp a b where k: "k = key_form p z sp dp a b"
    "length z = 2" "length sp = 2" "length dp = 2" "length a = 4" "length b = 4"
    "p = 6 \<or> p = 17" "protocol = PInt (uint p)" "zone = PInt (int (from_be z))"
    "\<not> is_multicast a" "\<not> is_multicast b" "\<not> is_unspecified a" "\<not> is_unspecified b"
    by (rule key4_key_form) blast
  have ip: "ipv4_of (PStr (ipv4_str x)) = Inr x" if "length x = 4" for x
    using that by (simp add: ipv4_of_def ipv4_parse_str)
  have "int (from_be x) < 65536" "to_be 2 (from_be x) = x" if "length x = 2" for x
    using from_be_less [of x] that by (simp_all add: to_be_from_be)
  with k show ?thesis
    by (auto simp: key4_Inr_iff key_form_slices ip) (auto simp: key_form_def)
qed

lemma nat_area_slices:
  assumes "length key = 16" "key4 src dst sport dport protocol zone = Inr target"
  shows "slice 48 52 (wire_form key fl ov fid (nat_area target)) = slice 8 12 target"
    and "slice 52 56 (wire_form key fl ov fid (nat_area target)) = slice 12 16 target"
    and "slice 56 58 (wire_form key fl ov fid (nat_area target)) = slice 4 6 target"
    and "slice 58 60 (wire_form key fl ov fid (nat_area target)) = slice 6 8 target"
proof -
  from assms(2) obtain p z sp dp a b where k: "target = key_form p z sp dp a b"
    "length z = 2" "length sp = 2" "length dp = 2" "length a = 4" "length b = 4"
    by (rule key4_key_form) blast
  show "slice 48 52 (wire_form key fl ov fid (nat_area target)) = slice 8 12 target"
    and "slice 52 56 (wire_form key fl ov fid (nat_area target)) = slice 12 16 target"
    and "slice 56 58 (wire_form key fl ov fid (nat_area target)) = slice 4 6 target"
    and "slice 58 60 (wire_form key fl ov fid (nat_area target)) = slice 6 8 target"
    using assms(1) k by (simp_all add: key_form_slices nat_area_def wire_form_def)
      (simp_all add: slice_def)
qed

lemma validate_entry4_form:
  assumes "key_ok key" "0 \<le> f" "f < 4294967296" "length natf = 12"
    and w: "w = wire_form key flags ov (nat f) natf"
  shows "length w = 64" "take 16 w = key" "flow_id_of w = f"
    and "entry4 key f = Inr (wire_form key 0 0 (nat f) (replicate 12 0))"
  using assms by (simp_all add: wire_form_slices key_ok_length entry4_Inr_iff)

lemma validate_identity: "entry4 key f = Inr w \<Longrightarrow> validate_entry4 w = Inr w"
  by (auto simp: entry4_Inr_iff validate_entry4_def wire_form_slices key_ok_length Let_def
      entry4_Inr_iff [THEN iffD2])

lemma validate_forwarding:
  assumes "forwarding_entry4 key f hop dropping ttl = Inr w"
  shows "validate_entry4 w = Inr w"
proof -
  from assms have k: "key_ok key" "0 \<le> f" "f < 4294967296"
    by (simp_all add: forwarding_entry4_Inr_iff)
  show ?thesis
  proof (cases dropping)
    case True
    with assms have w: "w = wire_form key 134217728 0 (nat f) (replicate 12 0)" "hop = PNone" "\<not> ttl"
      by (auto simp: forwarding_entry4_Inr_iff)
    have fl: "entry_flags w = 134217728" using k w by (simp add: key_ok_length)
    from assms True w have "forwarding_entry4 (take 16 w) (flow_id_of w) PNone True False = Inr w"
      using k by (simp add: wire_form_slices key_ok_length)
    then show ?thesis
      using fl by (simp add: validate_entry4_def Let_def validate_entry4_form [OF k _ w(1)])
  next
    case False
    with assms obtain h where h: "hop = PInt h" "0 \<le> h" "h < 65536"
      and w: "w = wire_form key (base_flags ttl) (nat h) (nat f) (replicate 12 0)"
      by (auto simp: forwarding_entry4_Inr_iff)
    have fl: "entry_flags w = base_flags ttl" using k w by (simp add: key_ok_length nat_flags)
    have ov: "int (from_be (slice 20 24 w)) = h"
      using k w h by (simp add: wire_form_slices key_ok_length from_be_to_be)
    have "base_flags ttl \<noteq> 134217728" "base_flags ttl = base_flags False \<or> base_flags ttl = base_flags True"
      by (cases ttl; simp add: base_flags_def)+
    with assms False show ?thesis
      by (simp add: validate_entry4_def Let_def validate_entry4_form [OF k _ w] fl ov nat_flags h)
  qed
qed

lemma validate_nat:
  assumes "nat_entry4 key f hop tr ttl = Inr w"
  shows "validate_entry4 w = Inr w"
proof -
  from assms obtain h target where k: "key_ok key" "0 \<le> f" "f < 4294967296"
    and h: "hop = PInt h" "0 \<le> h" "h < 65536"
    and target: "key4 (py_get tr ''source'') (py_get tr ''destination'') (py_get tr ''source_port'')
          (py_get tr ''destination_port'') (PInt (uint (key ! 1))) (PInt (int (from_be (slice 2 4 key)))) = Inr target"
      "target \<noteq> key"
    and w: "w = wire_form key (base_flags ttl + nat_mode key target * 536870912) (nat h) (nat f) (nat_area target)"
    by (auto simp: nat_entry4_Inr_iff)
  let ?fl = "base_flags ttl + nat_mode key target * 536870912"
  let ?tr = "PDict [(''source'', PStr (ipv4_str (slice 48 52 w))),
      (''destination'', PStr (ipv4_str (slice 52 56 w))),
      (''source_port'', PInt (int (from_be (slice 56 58 w)))),
      (''destination_port'', PInt (int (from_be (slice 58 60 w))))]"
  have na: "length (nat_area target) = 12" by (simp add: length_nat_area key4_length [OF target(1)])
  have fl: "entry_flags w = ?fl" using k w na by (simp add: key_ok_length nat_flags)
  have ov: "int (from_be (slice 20 24 w)) = h"
    using k w h na by (simp add: wire_form_slices key_ok_length from_be_to_be)
  note parts = nat_area_slices [OF key_ok_length [OF k(1)] target(1),
      of ?fl "nat h" "nat f", folded w]
  have "nat_entry4 key f (PInt h) ?tr ttl = Inr w"
    unfolding nat_entry4_Inr_iff parts
    by (rule conjI [OF _ conjI [OF k(1) conjI [OF k(2) conjI]]], simp add: keys_are_def nat_fields_def,
        use k in simp, rule exI [of _ h], rule exI [of _ target])
      (use h w target(2) key4_rebuild [OF target(1)] in \<open>simp add: py_get_def\<close>)
  moreover have "?fl \<noteq> 134217728" "nat_mode key target \<noteq> 0" "nat_mode key target \<noteq> 3"
    "base_flags ttl = base_flags False \<or> base_flags ttl = base_flags True"
    by (cases ttl; simp add: base_flags_def nat_mode_def)+
  ultimately show ?thesis
    by (simp add: validate_entry4_def Let_def validate_entry4_form [OF k na w] fl ov nat_flags h)
qed

lemma validate_entry4_cases:
  assumes "validate_entry4 w = Inr w'"
  shows "\<exists>key f. entry4 key f = Inr w \<or>
        (\<exists>hop dropping ttl. forwarding_entry4 key f hop dropping ttl = Inr w) \<or>
        (\<exists>hop tr ttl. nat_entry4 key f hop tr ttl = Inr w)"
  using assms by (auto simp: validate_entry4_def res_iffs Let_def split: if_splits) blast+

lemma validate_shape:
  assumes "validate_entry4 w = Inr w'"
  obtains key fl ov f area where "w = wire_form key fl ov f area" "key_ok key" "length area = 12"
    "fl < 4294967296" "f < 4294967296" "mode_of fl \<noteq> 3" "mode_of fl = 0 \<longrightarrow> area = replicate 12 0"
proof -
  from validate_entry4_cases [OF assms] consider key f where "entry4 key f = Inr w"
    | key f hop dropping ttl where "forwarding_entry4 key f hop dropping ttl = Inr w"
    | key f hop tr ttl where "nat_entry4 key f hop tr ttl = Inr w"
    by blast
  then show thesis
  proof cases
    case (1 key f)
    then show thesis
      by (intro that [of key 0 0 "nat f" "replicate 12 0"]) (auto simp: entry4_Inr_iff mode_of_def)
  next
    case (2 key f hop dropping ttl)
    then show thesis
      by (cases dropping)
        (auto simp: forwarding_entry4_Inr_iff nat_flags mode_of_def [of 134217728] intro: that)
  next
    case (3 key f hop tr ttl)
    then obtain h target where "key_ok key" "0 \<le> f" "f < 4294967296" "length target = 16"
      "w = wire_form key (base_flags ttl + nat_mode key target * 536870912) (nat h) (nat f) (nat_area target)"
      by (auto simp: nat_entry4_Inr_iff dest: key4_length)
    moreover have "nat_mode key target \<noteq> 0" "nat_mode key target \<noteq> 3" by (simp_all add: nat_mode_def)
    ultimately show thesis
      by (intro that [of key "base_flags ttl + nat_mode key target * 536870912" "nat h" "nat f" "nat_area target"])
        (simp_all add: nat_flags length_nat_area)
  qed
qed

text \<open>
  C3.  \<open>validate_entry4\<close> accepts a byte string exactly when it is an entry that
  \<open>entry4\<close>, \<open>forwarding_entry4\<close> or \<open>nat_entry4\<close> produces for some arguments: the
  validator admits the whole audited action subset and nothing else.
\<close>

theorem validate_entry4_exact:
  "validate_entry4 w = Inr w \<longleftrightarrow>
     (\<exists>key f. entry4 key f = Inr w \<or>
        (\<exists>hop dropping ttl. forwarding_entry4 key f hop dropping ttl = Inr w) \<or>
        (\<exists>hop tr ttl. nat_entry4 key f hop tr ttl = Inr w))"
proof
  assume "validate_entry4 w = Inr w"
  then show "\<exists>key f. entry4 key f = Inr w \<or>
        (\<exists>hop dropping ttl. forwarding_entry4 key f hop dropping ttl = Inr w) \<or>
        (\<exists>hop tr ttl. nat_entry4 key f hop tr ttl = Inr w)"
    by (rule validate_entry4_cases)
next
  assume "\<exists>key f. entry4 key f = Inr w \<or>
        (\<exists>hop dropping ttl. forwarding_entry4 key f hop dropping ttl = Inr w) \<or>
        (\<exists>hop tr ttl. nat_entry4 key f hop tr ttl = Inr w)"
  then show "validate_entry4 w = Inr w"
    using validate_identity validate_forwarding validate_nat by blast
qed

lemma validate_entry4_same: "validate_entry4 w = Inr w' \<Longrightarrow> w' = w"
  by (auto simp: validate_entry4_def res_iffs Let_def split: if_splits)

section \<open>The two directions of a pair reverse each other\<close>

text \<open>
  The directional check of \<open>SessionManager.install\<close>: the effective tuple of one entry is the
  lookup tuple of the other with its ends exchanged; the lookup zones may differ.
\<close>

definition directions_reverse :: "bytes \<Rightarrow> bytes \<Rightarrow> bool" where
  "directions_reverse forward reverse =
     (let a = output_key4 forward; b = take 16 reverse in
      take 2 a = take 2 b \<and> slice 4 6 a = slice 6 8 b \<and> slice 6 8 a = slice 4 6 b \<and>
      slice 8 12 a = slice 12 16 b \<and> slice 12 16 a = slice 8 12 b)"

lemma output_key4_forwarding:
  "forwarding_entry4 key f hop dropping ttl = Inr w \<Longrightarrow> output_key4 w = key \<and> take 16 w = key"
  by (auto simp: forwarding_entry4_Inr_iff output_key4_def key_ok_length wire_form_slices nat_flags
      mode_of_def [of 134217728] split: if_splits)

lemma output_key4_nat:
  assumes "nat_entry4 key f hop tr ttl = Inr w"
    and "key4 (py_get tr ''source'') (py_get tr ''destination'') (py_get tr ''source_port'')
          (py_get tr ''destination_port'') (PInt (uint (key ! 1))) (PInt (int (from_be (slice 2 4 key)))) = Inr target"
  shows "output_key4 w = take 4 key @ slice 4 8 target @ slice 8 16 target \<and> take 16 w = key"
proof -
  from assms obtain h where k: "key_ok key"
    and w: "w = wire_form key (base_flags ttl + nat_mode key target * 536870912) (nat h) (nat f) (nat_area target)"
    by (auto simp: nat_entry4_Inr_iff)
  have l: "length target = 16" by (rule key4_length [OF assms(2)])
  have "nat_mode key target \<noteq> 0" by (simp add: nat_mode_def)
  then show ?thesis
    using k l w by (simp add: output_key4_def key_ok_length wire_form_slices length_nat_area nat_flags)
      (simp add: nat_area_def length_slice)
qed

lemma py_eq_ipv4:
  "py_eq v w \<Longrightarrow> ipv4_of v = Inr a \<Longrightarrow> ipv4_of w = Inr b \<Longrightarrow> a = b"
  by (cases v; cases w) (auto simp: ipv4_of_def num_eq_def split: option.splits if_splits)

lemma map_of_filter_key: "map_of (filter (\<lambda>(k, v). P k) d) k = (if P k then map_of d k else None)"
  by (induction d) auto

lemma be2_inject: "length x = 2 \<Longrightarrow> length y = 2 \<Longrightarrow> from_be x = from_be y \<Longrightarrow> x = y"
  by (metis to_be_from_be)

text \<open>A translation equal to the row's own tuple: the peer's tuple is the row's reversed.\<close>

lemma same_tuple:
  assumes "py_eq (PDict [(''source'', s), (''destination'', d), (''source_port'', sp), (''destination_port'', dp)])
      (PDict (filter (\<lambda>(k, v). k \<noteq> ''protocol'') (the_dict row)))"
  shows "py_eq s (py_get row ''source'')" "py_eq d (py_get row ''destination'')"
    "py_eq sp (py_get row ''source_port'')" "py_eq dp (py_get row ''destination_port'')"
  using assms by (auto simp: map_of_filter_key [of "\<lambda>k. k \<noteq> ''protocol''"] py_get_def split: option.splits)

text \<open>One direction, when the other's key is valid: its output is the other's key reversed.\<close>

lemma pair_direction_output:
  assumes dir: "pair_direction fid row peer hop zone = Inr e"
    and peer: "key4 (py_get peer ''source'') (py_get peer ''destination'') (py_get peer ''source_port'')
      (py_get peer ''destination_port'') (py_get peer ''protocol'') zone' = Inr k'"
    and proto: "py_eq (py_get row ''protocol'') (py_get peer ''protocol'')"
    and e': "take 16 e' = k'"
  shows "directions_reverse e e'"
proof -
  from dir obtain k where k: "key4 (py_get row ''source'') (py_get row ''destination'') (py_get row ''source_port'')
      (py_get row ''destination_port'') (py_get row ''protocol'') zone = Inr k"
    by (auto simp: pair_direction_def res_iffs)
  from k obtain p z sp dp a b where kf: "k = key_form p z sp dp a b"
    "length z = 2" "length sp = 2" "length dp = 2" "length a = 4" "length b = 4"
    "py_get row ''protocol'' = PInt (uint p)"
    "py_get row ''source_port'' = PInt (int (from_be sp))" "py_get row ''destination_port'' = PInt (int (from_be dp))"
    "ipv4_of (py_get row ''source'') = Inr a" "ipv4_of (py_get row ''destination'') = Inr b"
    by (rule key4_key_form) blast
  from peer obtain p' z' sp' dp' a' b' where kf': "k' = key_form p' z' sp' dp' a' b'"
    "length z' = 2" "length sp' = 2" "length dp' = 2" "length a' = 4" "length b' = 4"
    "py_get peer ''protocol'' = PInt (uint p')"
    "py_get peer ''source_port'' = PInt (int (from_be sp'))" "py_get peer ''destination_port'' = PInt (int (from_be dp'))"
    "ipv4_of (py_get peer ''source'') = Inr a'" "ipv4_of (py_get peer ''destination'') = Inr b'"
    by (rule key4_key_form) blast
  have "uint p = uint p'" using proto kf(7) kf'(7) by simp
  then have p: "p' = p" by (metis word_of_int_uint)
  have "take 2 (output_key4 e) = [0x40, p] \<and> slice 4 6 (output_key4 e) = dp' \<and>
     slice 6 8 (output_key4 e) = sp' \<and> slice 8 12 (output_key4 e) = b' \<and> slice 12 16 (output_key4 e) = a'"
  proof (cases "py_eq (PDict [(''source'', py_get peer ''destination''), (''destination'', py_get peer ''source''),
        (''source_port'', py_get peer ''destination_port''), (''destination_port'', py_get peer ''source_port'')])
      (PDict (filter (\<lambda>(k, v). k \<noteq> ''protocol'') (the_dict row)))")
    case True
    note eq = same_tuple [OF True]
    have "b' = a" by (rule py_eq_ipv4 [OF eq(1) kf'(11) kf(10)])
    moreover have "a' = b" by (rule py_eq_ipv4 [OF eq(2) kf'(10) kf(11)])
    moreover have "from_be sp = from_be dp'" "from_be dp = from_be sp'"
      using eq(3,4) kf(8,9) kf'(8,9) by simp_all
    then have "sp = dp'" "dp = sp'"
      using be2_inject kf(3,4) kf'(3,4) by blast+
    moreover have "forwarding_entry4 k fid hop False True = Inr e"
      using dir k True by (simp add: pair_direction_def del: py_eq.simps)
    ultimately show ?thesis
      using output_key4_forwarding kf by (auto simp: key_form_slices)
  next
    case False
    let ?tr = "PDict [(''source'', py_get peer ''destination''), (''destination'', py_get peer ''source''),
        (''source_port'', py_get peer ''destination_port''), (''destination_port'', py_get peer ''source_port'')]"
    have tr: "py_get ?tr ''source'' = py_get peer ''destination''" "py_get ?tr ''destination'' = py_get peer ''source''"
      "py_get ?tr ''source_port'' = py_get peer ''destination_port''"
      "py_get ?tr ''destination_port'' = py_get peer ''source_port''"
      by (simp_all add: py_get_def)
    have ne: "nat_entry4 k fid hop ?tr True = Inr e"
      using dir k False by (simp add: pair_direction_def del: py_eq.simps)
    then obtain target where t: "key4 (py_get ?tr ''source'') (py_get ?tr ''destination'') (py_get ?tr ''source_port'')
          (py_get ?tr ''destination_port'') (PInt (uint (k ! 1))) (PInt (int (from_be (slice 2 4 k)))) = Inr target"
      by (auto simp: nat_entry4_Inr_iff)
    then obtain pt zt spt dpt ta tb where tf: "target = key_form pt zt spt dpt ta tb"
      "length zt = 2" "length spt = 2" "length dpt = 2" "length ta = 4" "length tb = 4"
      "py_get ?tr ''source_port'' = PInt (int (from_be spt))"
      "py_get ?tr ''destination_port'' = PInt (int (from_be dpt))"
      "ipv4_of (py_get ?tr ''source'') = Inr ta" "ipv4_of (py_get ?tr ''destination'') = Inr tb"
      by (rule key4_key_form) blast
    have "ta = b'" "tb = a'" "from_be spt = from_be dp'" "from_be dpt = from_be sp'"
      using tf(7-10) kf'(8-11) unfolding tr by simp_all
    then have "ta = b'" "tb = a'" "spt = dp'" "dpt = sp'"
      using be2_inject tf(3,4) kf'(3,4) by blast+
    moreover have "output_key4 e = take 4 k @ slice 4 8 target @ slice 8 16 target"
      using output_key4_nat [OF ne t] by blast
    ultimately show ?thesis
      using kf tf by (simp add: key_form_slices) (simp add: slice_def)
  qed
  then show ?thesis
    using kf' p e' by (simp add: directions_reverse_def key_form_slices)
qed

lemma pair_direction_key:
  assumes "pair_direction fid row peer hop zone = Inr e"
  shows "\<exists>k. key4 (py_get row ''source'') (py_get row ''destination'') (py_get row ''source_port'')
      (py_get row ''destination_port'') (py_get row ''protocol'') zone = Inr k \<and> take 16 e = k"
proof -
  from assms obtain k where k: "key4 (py_get row ''source'') (py_get row ''destination'') (py_get row ''source_port'')
      (py_get row ''destination_port'') (py_get row ''protocol'') zone = Inr k"
    by (auto simp: pair_direction_def res_iffs)
  with assms have "(\<exists>f. forwarding_entry4 k f hop False True = Inr e) \<or>
      (\<exists>f tr. nat_entry4 k f hop tr True = Inr e)"
    by (auto simp: pair_direction_def Let_def split: if_splits simp del: py_eq.simps)
  then have "take 16 e = k"
  proof (elim disjE exE)
    fix f assume "forwarding_entry4 k f hop False True = Inr e"
    then show ?thesis using output_key4_forwarding by blast
  next
    fix f tr assume "nat_entry4 k f hop tr True = Inr e"
    then show ?thesis
      by (auto simp: nat_entry4_Inr_iff key_ok_length wire_form_slices length_nat_area key4_length)
  qed
  with k show ?thesis by blast
qed

lemma pair_direction_valid:
  "pair_direction fid row peer hop zone = Inr e \<Longrightarrow> validate_entry4 e = Inr e"
  by (auto simp: pair_direction_def res_iffs Let_def simp del: py_eq.simps split: if_splits
      intro: validate_forwarding validate_nat)

lemma session_pair4_Inr:
  assumes "session_pair4 sid original reply zone hops = Inr es"
  obtains s e0 e1 h0 h1 z0 z1 where "es = [e0, e1]" "sid = PInt s" "0 \<le> s" "s < 2 ^ 31"
    "pair_direction (s * 2) original reply h0 z0 = Inr e0"
    "pair_direction (s * 2 + 1) reply original h1 z1 = Inr e1"
    "py_eq (py_get original ''protocol'') (py_get reply ''protocol'')"
    "hops = PList [h0, h1]" "zone = PList [z0, z1] \<or> z0 = zone \<and> z1 = zone"
  using assms
  by (cases hops; cases zone) (auto simp: session_pair4_def res_iffs uint_arg_Inr_iff Let_def numeral_2_eq_2
      length_Suc_conv simp del: py_eq.simps split: if_splits)

text \<open>
  C4.  Whatever tuples and next hops \<open>session_pair4\<close> accepts, NAT or not, the two entries it
  returns pass the validator and each entry's effective tuple is the other's lookup tuple
  with the ends exchanged: the directional check of \<open>SessionManager.install\<close> never rejects a
  pair this encoder built.
\<close>

theorem session_pair4_reverses:
  assumes "session_pair4 sid original reply zone hops = Inr es"
  shows "\<exists>e0 e1. es = [e0, e1] \<and> validate_entry4 e0 = Inr e0 \<and> validate_entry4 e1 = Inr e1 \<and>
     directions_reverse e0 e1 \<and> directions_reverse e1 e0"
proof -
  from assms obtain s e0 e1 h0 h1 z0 z1 where es: "es = [e0, e1]"
    and d0: "pair_direction (s * 2) original reply h0 z0 = Inr e0"
    and d1: "pair_direction (s * 2 + 1) reply original h1 z1 = Inr e1"
    and p: "py_eq (py_get original ''protocol'') (py_get reply ''protocol'')"
    by (rule session_pair4_Inr) blast
  from pair_direction_key [OF d0] obtain k0 where k0: "key4 (py_get original ''source'') (py_get original ''destination'')
      (py_get original ''source_port'') (py_get original ''destination_port'') (py_get original ''protocol'') z0 = Inr k0"
    "take 16 e0 = k0" by blast
  from pair_direction_key [OF d1] obtain k1 where k1: "key4 (py_get reply ''source'') (py_get reply ''destination'')
      (py_get reply ''source_port'') (py_get reply ''destination_port'') (py_get reply ''protocol'') z1 = Inr k1"
    "take 16 e1 = k1" by blast
  have p': "py_eq (py_get reply ''protocol'') (py_get original ''protocol'')"
    using p k0(1) k1(1) by (auto simp: key4_Inr_iff)
  have "directions_reverse e0 e1"
    by (rule pair_direction_output [OF d0 k1(1) p k1(2)])
  moreover have "directions_reverse e1 e0"
    by (rule pair_direction_output [OF d1 k0(1) p' k0(2)])
  ultimately show ?thesis
    using es d0 d1 by (simp add: pair_direction_valid)
qed

text \<open>A source-translated TCP session, for the witness.\<close>

definition sample_row :: "string \<Rightarrow> string \<Rightarrow> int \<Rightarrow> int \<Rightarrow> pyval" where
  "sample_row source destination source_port destination_port =
     PDict [(''source'', PStr source), (''destination'', PStr destination), (''source_port'', PInt source_port),
            (''destination_port'', PInt destination_port), (''protocol'', PInt 6)]"

lemma sample_row_get:
  "py_get (sample_row s d sp dp) ''source'' = PStr s" "py_get (sample_row s d sp dp) ''destination'' = PStr d"
  "py_get (sample_row s d sp dp) ''source_port'' = PInt sp" "py_get (sample_row s d sp dp) ''destination_port'' = PInt dp"
  "py_get (sample_row s d sp dp) ''protocol'' = PInt 6"
  by (simp_all add: sample_row_def py_get_def)

lemma sample_key0: "key4 (PStr ''10.0.0.2'') (PStr ''9.9.9.9'') (PInt 1025) (PInt 80) (PInt 6) (PInt 1)
  =  Inr [64, 6, 0, 1, 4, 1, 0, 80, 10, 0, 0, 2, 9, 9, 9, 9] " by code_simp

lemma sample_key1: "key4 (PStr ''9.9.9.9'') (PStr ''1.2.3.4'') (PInt 80) (PInt 4096) (PInt 6) (PInt 1)
  =  Inr [64, 6, 0, 1, 0, 80, 16, 0, 9, 9, 9, 9, 1, 2, 3, 4] " by code_simp

lemma sample_key2: "key4 (PStr ''1.2.3.4'') (PStr ''9.9.9.9'') (PInt 4096) (PInt 80) (PInt 6) (PInt 1)
  =  Inr [64, 6, 0, 1, 16, 0, 0, 80, 1, 2, 3, 4, 9, 9, 9, 9] " by code_simp

lemma sample_key3: "key4 (PStr ''9.9.9.9'') (PStr ''10.0.0.2'') (PInt 80) (PInt 1025) (PInt 6) (PInt 1)
  =  Inr [64, 6, 0, 1, 0, 80, 4, 1, 9, 9, 9, 9, 10, 0, 0, 2] " by code_simp

lemma sample_nat:
  "key_ok k \<Longrightarrow> 0 \<le> f \<Longrightarrow> f < 4294967296 \<Longrightarrow> 0 \<le> h \<Longrightarrow> h < 65536 \<Longrightarrow> keys_are tr nat_fields \<Longrightarrow>
   key4 (py_get tr ''source'') (py_get tr ''destination'') (py_get tr ''source_port'')
          (py_get tr ''destination_port'') (PInt (uint (k ! 1))) (PInt (int (from_be (slice 2 4 k)))) = Inr t \<Longrightarrow>
   t \<noteq> k \<Longrightarrow> \<exists>e. nat_entry4 k f (PInt h) tr ttl = Inr e"
  by (auto simp: nat_entry4_Inr_iff)

lemma sample_direction:
  "\<exists>e. pair_direction 10 (sample_row ''10.0.0.2'' ''9.9.9.9'' 1025 80) (sample_row ''9.9.9.9'' ''1.2.3.4'' 80 4096)
     (PInt 7) (PInt 1) = Inr e"
  "\<exists>e. pair_direction 11 (sample_row ''9.9.9.9'' ''1.2.3.4'' 80 4096) (sample_row ''10.0.0.2'' ''9.9.9.9'' 1025 80) 
     (PInt 8) (PInt 1) = Inr e"
  unfolding pair_direction_def sample_row_get sample_key0 sample_key1 Let_def
  subgoal
    apply (simp add: sample_row_def num_eq_def del: ex_simps)
    apply (rule sample_nat [where t = "[64, 6, 0, 1, 16, 0, 0, 80, 1, 2, 3, 4, 9, 9, 9, 9]"])
    by (simp_all add: key_ok_def keys_are_def nat_fields_def py_get_def sample_key2 slice_def from_be_def)
  subgoal
    apply (simp add: sample_row_def num_eq_def del: ex_simps)
    apply (rule sample_nat [where t = "[64, 6, 0, 1, 0, 80, 4, 1, 9, 9, 9, 9, 10, 0, 0, 2]"])
    by (simp_all add: key_ok_def keys_are_def nat_fields_def py_get_def sample_key3 slice_def from_be_def)
  done

theorem session_pair4_reverses_witness:
  "\<exists>e0 e1. session_pair4 (PInt 5) (sample_row ''10.0.0.2'' ''9.9.9.9'' 1025 80)
     (sample_row ''9.9.9.9'' ''1.2.3.4'' 80 4096) (PInt 1) (PList [PInt 7, PInt 8]) = Inr [e0, e1] \<and>
     validate_entry4 e0 = Inr e0 \<and> validate_entry4 e1 = Inr e1 \<and>
     directions_reverse e0 e1 \<and> directions_reverse e1 e0"
proof -
  have "\<exists>es. session_pair4 (PInt 5) (sample_row ''10.0.0.2'' ''9.9.9.9'' 1025 80)
     (sample_row ''9.9.9.9'' ''1.2.3.4'' 80 4096) (PInt 1) (PList [PInt 7, PInt 8]) = Inr es"
    using sample_direction by (auto simp: session_pair4_def sample_row_get uint_arg_def num_eq_def)
      (auto simp: keys_are_def sample_row_def tuple_fields_def)
  then show ?thesis using session_pair4_reverses by blast
qed
end
