(* ===== verification/NativeAdapter.thy ===== *)
theory NativeAdapter
  imports FlowCodec
begin

text \<open>
  The native boundary: \<open>ffn_fe100_session_adapter.py\<close> and the \<open>readiness\<close> check of
  \<open>ffn_fe100_sessions.py\<close>.  \<open>encode_native\<close> and \<open>decode_native\<close> map the 64-byte wire
  entry to the 144-byte C union of the owner library and back; \<open>NativeSessionAdapter\<close> is
  the backend the session manager drives.  The owner library itself is not in the
  repository: it is the record of functions \<open>transport\<close>.
\<close>

section \<open>Native entries\<close>

definition native_size :: nat where "native_size = 144"

text \<open>
  \<open>bytearray(144)\<close> with the key at 16, the state at 32 and, for a NAT action, the ports
  and addresses at 64.
\<close>

definition encode_native :: "bytes \<Rightarrow> exn + bytes" where
  "encode_native wire0 =
     rbnd (validate_entry4 wire0) (\<lambda>wire.
     Inr (replicate 16 0 @ take 16 wire @ slice 16 48 wire @
          (if mode_of (entry_flags wire) \<noteq> 0
           then slice 56 60 wire @ slice 48 56 wire else replicate 12 0) @
          replicate 68 0))"

definition decode_native :: "bytes \<Rightarrow> bytes \<Rightarrow> exn + bytes" where
  "decode_native native expected_key =
     rthn (rcheck (length native = native_size \<and> length expected_key = 16)
            (ValueError ''incorrect FE100 native entry size''))
     (rthn (rcheck (slice 16 32 native = expected_key)
            (RuntimeError ''FE100 lookup returned a different key''))
     (let wire = slice 16 32 native @ slice 32 64 native @ replicate 16 0;
          mode = mode_of (from_be (slice 32 36 native)) in
      rthn (rcheck (mode \<noteq> 3) (RuntimeError ''FE100 IP version translation is unsupported''))
      (validate_entry4
        (if mode \<noteq> 0
         then take 48 wire @ slice 68 76 native @ slice 64 68 native @ replicate 4 0
         else wire))))"

section \<open>Readiness\<close>

text \<open>\<open>d.get(k, default)\<close> on a value that must be a dictionary.\<close>

definition get_or :: "pyval \<Rightarrow> string \<Rightarrow> pyval \<Rightarrow> exn + pyval" where
  "get_or d k v = (if is_dict d
     then Inr (if has_key d k then py_get d k else v)
     else Inl (OtherError ''object has no attribute get''))"

definition clock_names :: "string list" where
  "clock_names = [''dram_ddr_clk'', ''dram_pclk'', ''tcam_2x_clk'', ''tcam_1x_clk'']"

text \<open>\<open>any(p(x) for x in xs)\<close> where \<open>p\<close> may raise.\<close>

primrec any_of :: "'a list \<Rightarrow> ('a \<Rightarrow> exn + bool) \<Rightarrow> exn + bool" where
  "any_of [] p = Inr False"
| "any_of (x # xs) p = rbnd (p x) (\<lambda>b. if b then Inr True else any_of xs p)"

definition flow_paused :: "pyval \<Rightarrow> exn + bool" where
  "flow_paused summary =
     rbnd (get_or summary ''mode_faults_or_pauses'' PNone) (\<lambda>faults.
     if truthy faults then Inr True
     else rbnd (get_or summary ''flow_control_flags'' (PList [])) (\<lambda>flags.
       rbnd (py_iter flags) (\<lambda>fs.
       any_of fs (\<lambda>f. rbnd (get_or f ''current'' PNone) (\<lambda>v. Inr (v = PBool True))))))"

definition readiness :: "pyval \<Rightarrow> pyval \<Rightarrow> exn + string list" where
  "readiness summary transport_verified =
     rbnd (get_or summary ''external_clock_status'' (PDict [])) (\<lambda>clocks.
     rbnd (any_of clock_names (\<lambda>k. rbnd (get_or clocks k PNone) (\<lambda>v. Inr (\<not> py_eq v (PInt 1))))) (\<lambda>unclocked.
     rbnd (get_or summary ''offload_verified'' PNone) (\<lambda>offload.
     rbnd (flow_paused summary) (\<lambda>paused.
     Inr ((if transport_verified \<noteq> PBool True then [''DP physical packet transport is not qualified''] else []) @
          (if unclocked then [''FE100 external lookup clocks are not ready''] else []) @
          (if offload \<noteq> PBool True then [''FE100 session forwarding has not passed packet validation''] else []) @
          (if paused then [''FE100 lookup pipeline reports a fault, pause or flow control''] else []))))))"

section \<open>The adapter\<close>

text \<open>
  \<open>tr_call op native\<close> is the owner library's hash operation: its status and the entry
  buffer afterwards.  \<open>tr_status\<close> is what the endpoint reports of itself, \<open>tr_health\<close>
  the qualification readout.
\<close>

record 'e transport =
  tr_status :: "('e, pyval) py"
  tr_call :: "string \<Rightarrow> bytes \<Rightarrow> ('e, pyval \<times> bytes) py"
  tr_health :: "('e, pyval) py"

definition owner_sha256 :: string where
  "owner_sha256 = ''b57227a460144c8c2545fc2e268b31f475ef72ac2a6f1d457387ab46d842c3e9''"

definition check_transport :: "'e transport \<Rightarrow> ('e, unit) py" where
  "check_transport tr =
     bnd (tr_status tr) (\<lambda>s.
     bnd (lift_res (get_or s ''owner_sha256'' PNone)) (\<lambda>owner.
     bnd (lift_res (get_or s ''device'' PNone)) (\<lambda>device.
     thn (ensure (owner = PStr owner_sha256 \<and> py_eq device (PInt 0))
            (RuntimeError ''unrecognized FE100 owner ABI/device''))
     (for_each [''initialized'', ''exclusive'', ''bounded''] (\<lambda>key.
        ensure (py_get s key = PBool True)
          (RuntimeError (''FE100 session transport requires '' @ key)))))))"

fun is_runtime_error :: "exn \<Rightarrow> bool" where
  "is_runtime_error (RuntimeError _) = True"
| "is_runtime_error _ = False"

definition adapter_readiness :: "'e transport \<Rightarrow> ('e, string list) py" where
  "adapter_readiness tr =
     bnd (catch_all (thn (check_transport tr) (ret None))
            (\<lambda>e. if is_runtime_error e then ret (Some [exn_text e]) else raise e)) (\<lambda>failed.
     case failed of Some reasons \<Rightarrow> ret reasons
     | None \<Rightarrow>
       bnd (tr_health tr) (\<lambda>health.
       bnd (lift_res (py_item health ''summary'')) (\<lambda>summary.
       lift_res (readiness summary (py_get health ''physical_transport_verified'')))))"

definition adapter_call :: "'e transport \<Rightarrow> string \<Rightarrow> bytes \<Rightarrow> ('e, int \<times> bytes) py" where
  "adapter_call tr op wire =
     thn (check_transport tr)
     (bnd (lift_res (encode_native wire)) (\<lambda>native.
     bnd (tr_call tr op native) (\<lambda>(rc, result).
     thn (ensure (is_int rc \<and> length result = native_size) (RuntimeError ''malformed FE100 session response''))
     (thn (ensure (the_int rc = 0 \<or> op = ''fetch'' \<and> the_int rc = 3)
            (RuntimeError (''FE100 '' @ op @ '' failed: '' @ dec_int (the_int rc))))
     (ret (the_int rc, result))))))"

definition adapter_fetch :: "'e transport \<Rightarrow> bytes \<Rightarrow> ('e, bytes option) py" where
  "adapter_fetch tr key =
     bnd (lift_res (entry4 key 0)) (\<lambda>wire.
     bnd (adapter_call tr ''fetch'' wire) (\<lambda>(rc, result).
     if rc = 3 then ret None
     else bnd (lift_res (decode_native result key)) (\<lambda>w. ret (Some w))))"

text \<open>NAT entries need the NAT qualification.\<close>

definition nat_gate :: "'e transport \<Rightarrow> bytes \<Rightarrow> ('e, unit) py" where
  "nat_gate tr wire =
     whn (mode_of (entry_flags wire) \<noteq> 0)
       (bnd (tr_health tr) (\<lambda>health.
        bnd (lift_res (get_or health ''nat_offload_verified'' PNone)) (\<lambda>v.
        ensure (v = PBool True) (RuntimeError ''FE100 NAT packet forwarding is not qualified''))))"

text \<open>FLOWADD carries only the key and flow id; FLOWUPDATE the state and the NAT tuple.\<close>

definition program_native :: "'e transport \<Rightarrow> bytes \<Rightarrow> bytes \<Rightarrow> ('e, unit) py" where
  "program_native tr wire identity =
     bnd (adapter_call tr ''insert'' identity) (\<lambda>_.
     whn (wire \<noteq> identity) (bnd (adapter_call tr ''update'' wire) (\<lambda>_. ret ())))"

definition adapter_insert :: "'e transport \<Rightarrow> bytes \<Rightarrow> ('e, unit) py" where
  "adapter_insert tr wire0 =
     bnd (adapter_readiness tr) (\<lambda>reasons.
     thn (ensure (reasons = []) (RuntimeError (join ''; '' reasons)))
     (bnd (lift_res (validate_entry4 wire0)) (\<lambda>wire.
     thn (nat_gate tr wire)
     (bnd (lift_res (entry4 (take 16 wire) (flow_id_of wire))) (\<lambda>identity.
     program_native tr wire identity)))))"

definition adapter_delete :: "'e transport \<Rightarrow> bytes \<Rightarrow> ('e, unit) py" where
  "adapter_delete tr key =
     bnd (adapter_fetch tr key) (\<lambda>wire.
     case wire of None \<Rightarrow> ret ()
     | Some w \<Rightarrow> bnd (adapter_call tr ''delete'' w) (\<lambda>_. ret ()))"

section \<open>The native form loses nothing\<close>

lemma native_slices:
  assumes "length key = 16" "length st = 32" "length area = 12"
  defines "n \<equiv> replicate 16 0 @ key @ st @ area @ replicate 68 (0 :: byte)"
  shows "length n = 144" "slice 16 32 n = key" "slice 32 64 n = st" "slice 32 36 n = take 4 st"
    "slice 68 76 n = drop 4 area" "slice 64 68 n = take 4 area"
  unfolding n_def using assms(1-3) by (simp_all add: slice_def)

lemma decode_encode:
  assumes "encode_native w = Inr n"
  shows "decode_native n (take 16 w) = Inr w"
proof -
  from assms obtain w' where Inr: "validate_entry4 w = Inr w'"
    by (auto simp: encode_native_def res_iffs)
  then have same: "validate_entry4 w = Inr w" using validate_entry4_same by metis
  from Inr obtain key fl ov f area where w: "w = wire_form key fl ov f area" and k: "key_ok key"
    and l: "length area = 12" "fl < 4294967296" "f < 4294967296" and m: "mode_of fl \<noteq> 3"
    and z: "mode_of fl = 0 \<longrightarrow> area = replicate 12 0"
    by (rule validate_shape)
  note kl = key_ok_length [OF k]
  let ?st = "to_be 4 fl @ to_be 4 ov @ replicate 12 0 @ to_be 4 f @ replicate 8 (0 :: byte)"
  let ?area = "if mode_of fl \<noteq> 0 then drop 8 area @ take 8 area else replicate 12 0"
  have fl: "entry_flags w = fl" using w l kl by simp
  have n: "encode_native w = Inr (replicate 16 0 @ key @ ?st @ ?area @ replicate 68 0)"
    using same fl by (simp add: encode_native_def) (simp add: w kl l wire_form_slices)
  have st: "length ?st = 32" "take 4 ?st = to_be 4 fl" by simp_all
  have area: "length ?area = 12" using l by simp
  note sl = native_slices [OF kl st(1) area]
  have "decode_native (replicate 16 0 @ key @ ?st @ ?area @ replicate 68 0) key = validate_entry4 w"
  proof (cases "mode_of fl = 0")
    case True
    have "replicate 16 (0 :: byte) = replicate 12 0 @ replicate 4 0" by (simp flip: replicate_add)
    with True show ?thesis
      using m z l kl unfolding decode_native_def sl st native_size_def Let_def
      by (simp add: from_be_to_be w wire_form_def)
  next
    case False
    have glue: "take 8 area @ drop 8 area @ x = area @ x" for x
      by (metis append_assoc append_take_drop_id)
    show ?thesis
      using False m l kl unfolding decode_native_def sl st native_size_def Let_def
      by (simp add: from_be_to_be w wire_form_def glue)
  qed
  with n same assms show ?thesis by (simp add: w wire_form_slices kl l)
qed

lemma encode_valid: "validate_entry4 w = Inr w' \<Longrightarrow> \<exists>n. encode_native w = Inr n"
  by (simp add: encode_native_def)

text \<open>
  C5.  Encoding a wire entry for the native union and decoding it under its own key gives
  back the entry, whatever the action: \<open>decode_native\<close> undoes \<open>encode_native\<close> exactly where
  \<open>validate_entry4\<close> accepts, and both refuse with the validator's error elsewhere.
\<close>

theorem native_round_trip:
  "rbnd (encode_native w) (\<lambda>native. decode_native native (take 16 w)) = validate_entry4 w"
proof (cases "validate_entry4 w")
  case (Inl e)
  then show ?thesis by (simp add: encode_native_def)
next
  case (Inr w')
  with encode_valid obtain n where "encode_native w = Inr n" by blast
  with Inr validate_entry4_same [OF Inr] show ?thesis by (simp add: decode_encode)
qed

end
