(* ===== verification/SessionManager.thy ===== *)
theory SessionManager
  imports NativeAdapter
begin

text \<open>
  The transactional session lifecycle: \<open>SessionManager\<close> of \<open>ffn_fe100_sessions.py\<close> and
  the durable \<open>Journal\<close> of \<open>ffn_fe100_journal.py\<close> it writes its intent to.  The manager's
  backend is a record of functions over an environment \<open>'e\<close>; \<open>db_commit\<close> is the commit
  of one journal transaction, which may fail (\<open>with self.db\<close> then rolls back).  A ghost
  field records the hardware accesses and journal commits in the order they happen.
\<close>

section \<open>State\<close>

record session =
  s_entries :: "bytes list"
  s_revision :: "pyval option"
  s_state :: string

datatype effect =
    HwInsert bytes
  | HwDelete bytes
  | HwAbsent bytes
  | JPut int "bytes list"
  | JDel int

record 'e mgr =
  env :: 'e
  jrows :: "(int \<times> pyval) list"
  sessions :: "(int \<times> session) list"
  recovery_required :: bool
  trace :: "effect list"

record 'e backend =
  be_readiness :: "('e, string list) py"
  be_fetch :: "bytes \<Rightarrow> ('e, bytes option) py"
  be_insert :: "bytes \<Rightarrow> ('e, unit) py"
  be_delete :: "bytes \<Rightarrow> ('e, unit) py"
  db_commit :: "('e, unit) py"

text \<open>Code that acts on the environment only; the ghost trace.\<close>

definition io :: "('e, 'a) py \<Rightarrow> (('e, 'z) mgr_scheme, 'a) py" where
  "io m = (\<lambda>s. case m (env s) of (r, e) \<Rightarrow> (r, s\<lparr>env := e\<rparr>))"

definition observe :: "effect \<Rightarrow> (('e, 'z) mgr_scheme, unit) py" where
  "observe x = upd (\<lambda>s. s\<lparr>trace := trace s @ [x]\<rparr>)"

section \<open>The journal\<close>

definition journal_body :: "session \<Rightarrow> pyval" where
  "journal_body v =
     PDict ([(''entries'', PList (map (\<lambda>e. PStr (to_hex e)) (s_entries v)))] @
       (case s_revision v of None \<Rightarrow> [] | Some r \<Rightarrow> [(''revision'', r)]) @
       [(''state'', PStr (s_state v))])"

definition session_states :: "string list" where
  "session_states = [''installing'', ''installed'', ''removing'', ''unknown'']"

definition from_hex_value :: "pyval \<Rightarrow> exn + bytes" where
  "from_hex_value v = (case v of
      PStr s \<Rightarrow> (case from_hex s of None \<Rightarrow> Inl (ValueError ''non-hexadecimal number found'') | Some b \<Rightarrow> Inr b)
    | _ \<Rightarrow> Inl (TypeError ''fromhex() argument must be str''))"

definition journal_session :: "pyval \<Rightarrow> exn + session" where
  "journal_session body =
     rbnd (py_item body ''entries'') (\<lambda>raw.
     rbnd (py_iter raw) (\<lambda>items.
     rbnd (rcollect items from_hex_value) (\<lambda>entries.
     let corrupt = RuntimeError ''invalid FE100 journal; manual recovery required'' in
     rthn (rcheck (length entries = 2 \<and> list_all (\<lambda>e. length e = 64) entries) corrupt)
     (rbnd (py_item body ''state'') (\<lambda>state.
      rthn (rcheck (is_str state \<and> the_str state \<in> set session_states) corrupt)
      (Inr \<lparr>s_entries = entries,
            s_revision = (if has_key body ''revision'' then Some (py_get body ''revision'') else None),
            s_state = the_str state\<rparr>))))))"

definition journal_load :: "(int \<times> pyval) list \<Rightarrow> exn + (int \<times> session) list" where
  "journal_load rows =
     rcollect rows (\<lambda>(ident, body). rbnd (journal_session body) (\<lambda>v. Inr (ident, v)))"

definition journal_put :: "'e backend \<Rightarrow> int \<Rightarrow> session \<Rightarrow> (('e, 'z) mgr_scheme, unit) py" where
  "journal_put be ident v =
     thn (io (db_commit be))
     (thn (upd (\<lambda>s. s\<lparr>jrows := row_put ident (journal_body v) (jrows s)\<rparr>))
     (observe (JPut ident (s_entries v))))"

definition journal_delete :: "'e backend \<Rightarrow> int \<Rightarrow> (('e, 'z) mgr_scheme, unit) py" where
  "journal_delete be ident =
     thn (io (db_commit be))
     (thn (upd (\<lambda>s. s\<lparr>jrows := dict_del ident (jrows s)\<rparr>))
     (observe (JDel ident)))"

section \<open>The manager\<close>

definition manager_init :: "'e \<Rightarrow> (int \<times> pyval) list \<Rightarrow> exn + 'e mgr" where
  "manager_init e rows =
     rbnd (journal_load rows) (\<lambda>ss.
     Inr \<lparr>env = e, jrows = rows, sessions = ss, recovery_required = (ss \<noteq> []), trace = []\<rparr>)"

definition require_recovery :: "(('e, 'z) mgr_scheme, unit) py" where
  "require_recovery = upd (\<lambda>s. s\<lparr>recovery_required := True\<rparr>)"

text \<open>\<open>except BaseException: self.recovery_required = True; raise\<close>.\<close>

definition fencing :: "(('e, 'z) mgr_scheme, unit) py \<Rightarrow> (('e, 'z) mgr_scheme, unit) py" where
  "fencing m = catch_all m (\<lambda>e. thn require_recovery (raise e))"

definition save :: "'e backend \<Rightarrow> int \<Rightarrow> session \<Rightarrow> (('e, 'z) mgr_scheme, unit) py" where
  "save be ident v =
     thn (fencing (journal_put be ident v))
     (upd (\<lambda>s. s\<lparr>sessions := dict_set ident v (sessions s)\<rparr>))"

definition forget :: "'e backend \<Rightarrow> int \<Rightarrow> (('e, 'z) mgr_scheme, unit) py" where
  "forget be ident =
     thn (fencing (journal_delete be ident))
     (upd (\<lambda>s. s\<lparr>sessions := dict_del ident (sessions s)\<rparr>))"

text \<open>The three hardware accesses, with their ghost events.\<close>

definition hw_fetch :: "'e backend \<Rightarrow> bytes \<Rightarrow> (('e, 'z) mgr_scheme, bytes option) py" where
  "hw_fetch be key =
     bnd (io (be_fetch be key)) (\<lambda>r. thn (whn (r = None) (observe (HwAbsent key))) (ret r))"

definition hw_insert :: "'e backend \<Rightarrow> bytes \<Rightarrow> (('e, 'z) mgr_scheme, unit) py" where
  "hw_insert be entry = thn (observe (HwInsert entry)) (io (be_insert be entry))"

definition hw_delete :: "'e backend \<Rightarrow> bytes \<Rightarrow> (('e, 'z) mgr_scheme, unit) py" where
  "hw_delete be key = thn (observe (HwDelete key)) (io (be_delete be key))"

text \<open>Fetch, check ownership, delete, read back: one entry of a rollback or a removal.\<close>

definition remove_entry :: "'e backend \<Rightarrow> bytes \<Rightarrow> (('e, 'z) mgr_scheme, unit) py" where
  "remove_entry be entry =
     bnd (hw_fetch be (take 16 entry)) (\<lambda>actual.
     thn (case actual of None \<Rightarrow> ret ()
          | Some a \<Rightarrow>
              bnd (lift_res (owned_variants entry)) (\<lambda>variants.
              thn (ensure (a \<in> set variants) (RuntimeError ''flow ownership changed''))
              (hw_delete be (take 16 entry))))
     (bnd (hw_fetch be (take 16 entry)) (\<lambda>again.
      ensure (again = None) (RuntimeError ''flow removal not confirmed''))))"

definition with_state :: "string \<Rightarrow> session \<Rightarrow> session" where
  "with_state st v = v\<lparr>s_state := st\<rparr>"

definition remove_failed :: "'e backend \<Rightarrow> int \<Rightarrow> session \<Rightarrow> exn \<Rightarrow> (('e, 'z) mgr_scheme, unit) py" where
  "remove_failed be ident v e =
     thn require_recovery (thn (save be ident (with_state ''unknown'' v)) (raise e))"

text \<open>
  \<open>remove\<close>.  Once saved, the dictionary \<open>session\<close> is the object stored in
  \<open>self.sessions\<close>, so \<open>session['state'] = 'unknown'\<close> changes the stored value as well,
  even when the second \<open>_save\<close> fails.
\<close>

definition remove :: "'e backend \<Rightarrow> int \<Rightarrow> (('e, 'z) mgr_scheme, unit) py" where
  "remove be ident =
     bnd (gets sessions) (\<lambda>ss.
     case dict_get ss ident of
       None \<Rightarrow> raise (KeyError (dec_int ident))
     | Some old \<Rightarrow>
         let v = with_state ''removing'' old in
         thn (catch_all (save be ident v) (remove_failed be ident v))
         (thn (catch_all (for_each (s_entries v) (remove_entry be)) (\<lambda>e.
                 thn (upd (\<lambda>s. s\<lparr>sessions := dict_set ident (with_state ''unknown'' v) (sessions s)\<rparr>))
                 (remove_failed be ident v e)))
         (fencing (forget be ident))))"

definition recover :: "'e backend \<Rightarrow> (('e, 'z) mgr_scheme, unit) py" where
  "recover be =
     thn require_recovery
     (bnd (gets sessions) (\<lambda>ss.
      thn (for_each (dict_keys ss) (remove be))
      (upd (\<lambda>s. s\<lparr>recovery_required := False\<rparr>))))"

definition install_checks :: "bytes list \<Rightarrow> pyval \<Rightarrow> exn + unit" where
  "install_checks entries lookup_zones =
     (let a = entries ! 0; b = entries ! 1; zones = map (\<lambda>e. int (from_be (slice 2 4 e))) entries in
      rthn (rcheck (list_all (\<lambda>e. length e = 64) entries \<and> take 16 a \<noteq> take 16 b)
             (ValueError ''invalid bidirectional entries''))
      (rthn (rfor entries (\<lambda>e. rthn (validate_entry4 e) (Inr ())))
      (rthn (if lookup_zones = PNone
             then rcheck (zones ! 0 = zones ! 1) (ValueError ''explicit directional lookup zones required'')
             else rthn (rcheck (is_list lookup_zones \<and> length (the_list lookup_zones) = 2)
                          (ValueError ''flow keys do not match commissioned lookup zones''))
                  (rbnd (rcollect (the_list lookup_zones) (\<lambda>z. uint_arg z 16 ''lookup zone'')) (\<lambda>zs.
                   rcheck (zs = zones) (ValueError ''flow keys do not match commissioned lookup zones''))))
      (rthn (rcheck (directions_reverse a b) (ValueError ''directional actions must reverse the translated tuple''))
      (rcheck (directions_reverse b a) (ValueError ''directional actions must reverse the translated tuple''))))))"

text \<open>The body of the insertion loop; the rollback of the entries touched so far, newest first.\<close>

definition insert_entry :: "'e backend \<Rightarrow> bytes \<Rightarrow> (('e, 'z) mgr_scheme, unit) py" where
  "insert_entry be entry =
     thn (hw_insert be entry)
     (bnd (hw_fetch be (take 16 entry)) (\<lambda>r.
      ensure (r = Some entry) (RuntimeError ''flow readback mismatch'')))"

definition roll_back :: "'e backend \<Rightarrow> int \<Rightarrow> session \<Rightarrow> bytes list \<Rightarrow> exn \<Rightarrow> (('e, 'z) mgr_scheme, unit) py" where
  "roll_back be ident v touched e =
     thn (for_each touched (\<lambda>entry. catch_exn (remove_entry be entry) (\<lambda>_. require_recovery)))
     (bnd (gets recovery_required) (\<lambda>fenced.
      thn (if fenced then save be ident (with_state ''unknown'' v) else forget be ident)
      (raise e)))"

primrec insert_entries ::
  "'e backend \<Rightarrow> int \<Rightarrow> session \<Rightarrow> bytes list \<Rightarrow> bytes list \<Rightarrow> (('e, 'z) mgr_scheme, unit) py" where
  "insert_entries be ident v touched [] = ret ()"
| "insert_entries be ident v touched (entry # rest) =
     thn (catch_all (insert_entry be entry) (roll_back be ident v (entry # touched)))
     (insert_entries be ident v (entry # touched) rest)"

text \<open>From the preflight of both keys to the final save.\<close>

definition program_pair :: "'e backend \<Rightarrow> int \<Rightarrow> session \<Rightarrow> (('e, 'z) mgr_scheme, unit) py" where
  "program_pair be ident v =
     thn (for_each (s_entries v) (\<lambda>entry.
            bnd (hw_fetch be (take 16 entry)) (\<lambda>r.
            ensure (r = None) (RuntimeError ''flow key is already owned''))))
     (thn (save be ident v)
     (thn (insert_entries be ident v [] (s_entries v))
     (fencing (save be ident (with_state ''installed'' v)))))"

definition install ::
  "'e backend \<Rightarrow> pyval \<Rightarrow> bytes list \<Rightarrow> pyval \<Rightarrow> pyval \<Rightarrow> (('e, 'z) mgr_scheme, unit) py" where
  "install be session_id entries revision lookup_zones =
     bnd (lift_res (uint_arg session_id 32 ''session ID'')) (\<lambda>ident.
     thn (lift_res (uint_arg revision 64 ''policy revision''))
     (bnd (gets recovery_required) (\<lambda>fenced.
     thn (ensure (\<not> fenced) (RuntimeError ''offload recovery required''))
     (bnd (io (be_readiness be)) (\<lambda>reasons.
     thn (ensure (reasons = []) (RuntimeError (join ''; '' reasons)))
     (bnd (gets sessions) (\<lambda>ss.
     thn (ensure (ident \<notin> set (dict_keys ss) \<and> length entries = 2)
            (ValueError ''a new session requires two directional entries''))
     (thn (lift_res (install_checks entries lookup_zones))
     (program_pair be ident
        \<lparr>s_entries = entries, s_revision = Some revision, s_state = ''installing''\<rparr>)))))))))"

definition invalidate_policy :: "'e backend \<Rightarrow> pyval \<Rightarrow> (('e, 'z) mgr_scheme, unit) py" where
  "invalidate_policy be revision =
     thn (lift_res (uint_arg revision 64 ''policy revision''))
     (bnd (gets sessions) (\<lambda>ss.
      for_each ss (\<lambda>(ident, v).
        case s_revision v of
          None \<Rightarrow> raise (KeyError ''revision'')
        | Some r \<Rightarrow> whn (\<not> py_eq r revision) (remove be ident))))"

section \<open>Write-ahead safety\<close>

text \<open>
  What an observer of the hardware accesses and journal commits knows: the entries each
  journal row names, and the entries that may be in the hardware (inserted, or owned by
  the journal at start, and not read back absent since).
\<close>

type_synonym knowledge = "(int \<times> bytes list) list \<times> bytes list"

fun learn :: "knowledge \<Rightarrow> effect \<Rightarrow> knowledge" where
  "learn (jr, live) (HwInsert e) = (jr, e # live)"
| "learn (jr, live) (HwDelete k) = (jr, live)"
| "learn (jr, live) (HwAbsent k) = (jr, filter (\<lambda>e. take 16 e \<noteq> k) live)"
| "learn (jr, live) (JPut i es) = (dict_set i es jr, live)"
| "learn (jr, live) (JDel i) = (dict_del i jr, live)"

text \<open>
  Every entry that may be in the hardware is named by a journal row; a delete is issued
  only for the key of a journalled entry.
\<close>

definition journalled :: "knowledge \<Rightarrow> bytes \<Rightarrow> bool" where
  "journalled st e \<longleftrightarrow>
     dict_any (\<lambda>i es. e \<in> set es) (fst st)"

definition covered :: "knowledge \<Rightarrow> bool" where
  "covered st \<longleftrightarrow> list_all (journalled st) (snd st)"

fun own_delete :: "knowledge \<Rightarrow> effect \<Rightarrow> bool" where
  "own_delete (jr, live) (HwDelete k) =
     dict_any (\<lambda>i es. k \<in> set (map (take 16) es)) jr"
| "own_delete _ _ = True"

fun safe_trace :: "knowledge \<Rightarrow> effect list \<Rightarrow> bool" where
  "safe_trace st [] = covered st"
| "safe_trace st (x # xs) = (covered st \<and> own_delete st x \<and> safe_trace (learn st x) xs)"

definition session_rows :: "(int \<times> session) list \<Rightarrow> (int \<times> bytes list) list" where
  "session_rows ss = map (\<lambda>(i, v). (i, s_entries v)) ss"

text \<open>At start every entry the journal names may be in the hardware.\<close>

definition initial_knowledge :: "('e, 'z) mgr_scheme \<Rightarrow> knowledge" where
  "initial_knowledge s = (session_rows (sessions s), concat (map s_entries (map snd (sessions s))))"

lemma safe_trace_snoc:
  "safe_trace st (xs @ [x]) \<longleftrightarrow>
     safe_trace st xs \<and> own_delete (foldl learn st xs) x \<and> covered (learn (foldl learn st xs) x)"
proof (induction xs arbitrary: st)
  case Nil
  then show ?case by (cases "covered st") auto
qed auto

lemma safe_trace_covered: "safe_trace st xs \<Longrightarrow> covered (foldl learn st xs)"
  by (induction xs arbitrary: st) auto

lemma journalled_iff: "journalled st e \<longleftrightarrow> (\<exists>i es. dict_get (fst st) i = Some es \<and> e \<in> set es)"
  by (simp add: journalled_def dict_any_iff)

lemma own_delete_iff:
  "own_delete (jr, live) (HwDelete k) \<longleftrightarrow> (\<exists>i es. dict_get jr i = Some es \<and> k \<in> set (map (take 16) es))"
  by (simp add: dict_any_iff)

definition knows :: "knowledge \<Rightarrow> ('e, 'z) mgr_scheme \<Rightarrow> knowledge" where
  "knows st s = foldl learn st (trace s)"

text \<open>
  The invariant of the manager: the trace so far is safe and the journal's rows are the
  manager's sessions.
\<close>

definition write_ahead :: "knowledge \<Rightarrow> ('e, 'z) mgr_scheme \<Rightarrow> bool" where
  "write_ahead st s \<longleftrightarrow> safe_trace st (trace s) \<and>
     (\<forall>i. dict_get (fst (knows st s)) i = map_option s_entries (dict_get (sessions s) i))"

text \<open>No entry that may be in the hardware lies under the keys \<open>ks\<close>.\<close>

definition cold :: "knowledge \<Rightarrow> bytes set \<Rightarrow> ('e, 'z) mgr_scheme \<Rightarrow> bool" where
  "cold st ks s \<longleftrightarrow> (\<forall>e \<in> set (snd (knows st s)). take 16 e \<notin> ks)"

lemma knows_simps [simp]:
  "knows st (s\<lparr>env := e\<rparr>) = knows st s"
  "knows st (s\<lparr>jrows := r\<rparr>) = knows st s"
  "knows st (s\<lparr>sessions := ss\<rparr>) = knows st s"
  "knows st (s\<lparr>recovery_required := b\<rparr>) = knows st s"
  "knows st (s\<lparr>trace := trace s @ [x]\<rparr>) = learn (knows st s) x"
  by (simp_all add: knows_def)

lemma write_ahead_simps [simp]:
  "write_ahead st (s\<lparr>env := e\<rparr>) = write_ahead st s"
  "write_ahead st (s\<lparr>jrows := r\<rparr>) = write_ahead st s"
  "write_ahead st (s\<lparr>recovery_required := b\<rparr>) = write_ahead st s"
  by (simp_all add: write_ahead_def)

lemma cold_simps [simp]:
  "cold st ks (s\<lparr>env := e\<rparr>) = cold st ks s"
  "cold st ks (s\<lparr>jrows := r\<rparr>) = cold st ks s"
  "cold st ks (s\<lparr>sessions := ss\<rparr>) = cold st ks s"
  "cold st ks (s\<lparr>recovery_required := b\<rparr>) = cold st ks s"
  by (simp_all add: cold_def)

lemma cold_mono: "cold st ks s \<Longrightarrow> ls \<subseteq> ks \<Longrightarrow> cold st ls s"
  by (auto simp: cold_def)

lemma cold_union: "cold st ks s \<Longrightarrow> cold st ls s \<Longrightarrow> cold st (ks \<union> ls) s"
  by (auto simp: cold_def)

lemma write_ahead_covered:
  "write_ahead st s \<Longrightarrow> e \<in> set (snd (knows st s)) \<Longrightarrow>
   \<exists>i v. dict_get (sessions s) i = Some v \<and> e \<in> set (s_entries v)"
  using safe_trace_covered [of st "trace s"]
  by (auto simp: write_ahead_def covered_def list_all_iff journalled_iff simp flip: knows_def) blast

lemma write_ahead_rows:
  "write_ahead st s \<Longrightarrow> dict_get (fst (knows st s)) i = map_option s_entries (dict_get (sessions s) i)"
  by (simp add: write_ahead_def)

text \<open>How the invariant survives each recorded effect.\<close>

lemma write_ahead_step:
  assumes "write_ahead st s" and "own_delete (knows st s) x"
    and rows: "\<And>i. dict_get (fst (learn (knows st s) x)) i = map_option s_entries (dict_get ss i)"
    and cov: "\<And>e. e \<in> set (snd (learn (knows st s) x)) \<Longrightarrow>
      \<exists>i v. dict_get ss i = Some v \<and> e \<in> set (s_entries v)"
  shows "write_ahead st (s\<lparr>trace := trace s @ [x], sessions := ss\<rparr>)"
proof -
  have "covered (learn (knows st s) x)"
    unfolding covered_def list_all_iff journalled_iff rows
  proof
    fix e assume "e \<in> set (snd (learn (knows st s) x))"
    from cov [OF this] obtain i v where "dict_get ss i = Some v" "e \<in> set (s_entries v)" by blast
    then have "map_option s_entries (dict_get ss i) = Some (s_entries v) \<and> e \<in> set (s_entries v)" by simp
    then show "\<exists>i es. map_option s_entries (dict_get ss i) = Some es \<and> e \<in> set es" by blast
  qed
  with assms(1,2) show ?thesis
    by (simp add: write_ahead_def safe_trace_snoc rows flip: knows_def)
qed

lemma write_ahead_absent:
  assumes "write_ahead st s"
  shows "write_ahead st (s\<lparr>trace := trace s @ [HwAbsent k]\<rparr>)"
  using write_ahead_step [OF assms, of "HwAbsent k" "sessions s"]
  by (cases "knows st s") (use write_ahead_rows [OF assms] write_ahead_covered [OF assms] in auto)

lemma write_ahead_insert:
  assumes "write_ahead st s" "dict_get (sessions s) i = Some v" "e \<in> set (s_entries v)"
  shows "write_ahead st (s\<lparr>trace := trace s @ [HwInsert e]\<rparr>)"
  using write_ahead_step [OF assms(1), of "HwInsert e" "sessions s"] assms(2,3)
  by (cases "knows st s") (use write_ahead_rows [OF assms(1)] write_ahead_covered [OF assms(1)] in auto)

lemma write_ahead_delete:
  assumes "write_ahead st s" "dict_get (sessions s) i = Some v" "e \<in> set (s_entries v)"
  shows "write_ahead st (s\<lparr>trace := trace s @ [HwDelete (take 16 e)]\<rparr>)"
proof -
  obtain jr live where k: "knows st s = (jr, live)" by fastforce
  have "own_delete (knows st s) (HwDelete (take 16 e))"
    unfolding k own_delete_iff using write_ahead_rows [OF assms(1), of i] assms(2,3) k by auto
  from write_ahead_step [OF assms(1) this, of "sessions s"] show ?thesis
    using write_ahead_rows [OF assms(1)] write_ahead_covered [OF assms(1)] by (simp add: k)
qed

lemma write_ahead_put:
  assumes "write_ahead st s"
    and same: "map_option s_entries (dict_get (sessions s) i) \<in> {None, Some (s_entries v)}"
  shows "write_ahead st (s\<lparr>trace := trace s @ [JPut i (s_entries v)], sessions := dict_set i v (sessions s)\<rparr>)"
proof (rule write_ahead_step [OF assms(1)])
  obtain jr live where k: "knows st s = (jr, live)" by fastforce
  show "own_delete (knows st s) (JPut i (s_entries v))" by (simp add: k)
  show "dict_get (fst (learn (knows st s) (JPut i (s_entries v)))) j =
      map_option s_entries (dict_get (dict_set i v (sessions s)) j)" for j
    using write_ahead_rows [OF assms(1), of j] by (simp add: k)
  fix e assume "e \<in> set (snd (learn (knows st s) (JPut i (s_entries v))))"
  then obtain j w where j: "dict_get (sessions s) j = Some w" "e \<in> set (s_entries w)"
    using write_ahead_covered [OF assms(1), of e] k by auto
  show "\<exists>j w. dict_get (dict_set i v (sessions s)) j = Some w \<and> e \<in> set (s_entries w)"
  proof (cases "j = i")
    case True
    have "s_entries w = s_entries v" using same j(1) True by simp
    with j(2) show ?thesis by (intro exI [of _ i] exI [of _ v]) simp
  next
    case False
    with j show ?thesis by (intro exI [of _ j] exI [of _ w]) simp
  qed
qed

lemma write_ahead_del:
  assumes "write_ahead st s" and i: "dict_get (sessions s) i = Some v"
    and cold: "cold st (take 16 ` set (s_entries v)) s"
  shows "write_ahead st (s\<lparr>trace := trace s @ [JDel i], sessions := dict_del i (sessions s)\<rparr>)"
proof (rule write_ahead_step [OF assms(1)])
  obtain jr live where k: "knows st s = (jr, live)" by fastforce
  show "own_delete (knows st s) (JDel i)" by (simp add: k)
  show "dict_get (fst (learn (knows st s) (JDel i))) j = map_option s_entries (dict_get (dict_del i (sessions s)) j)" for j
    using write_ahead_rows [OF assms(1), of j] by (simp add: k)
  fix e assume "e \<in> set (snd (learn (knows st s) (JDel i)))"
  then have e: "e \<in> set live" by (simp add: k)
  then obtain j w where j: "dict_get (sessions s) j = Some w" "e \<in> set (s_entries w)"
    using write_ahead_covered [OF assms(1), of e] k by auto
  moreover have "j \<noteq> i" using j i e cold by (auto simp: cold_def k)
  ultimately show "\<exists>j w. dict_get (dict_del i (sessions s)) j = Some w \<and> e \<in> set (s_entries w)"
    by (intro exI [of _ j] exI [of _ w]) auto
qed

section \<open>The operations keep it\<close>

lemma wp_io:
  assumes "\<And>x en. m (env s) = (Inr x, en) \<Longrightarrow> Q x (s\<lparr>env := en\<rparr>)"
    and "\<And>e en. m (env s) = (Inl e, en) \<Longrightarrow> E e (s\<lparr>env := en\<rparr>)"
  shows "wp (io m) Q E s"
  using assms by (auto simp: wp_def io_def split: prod.splits sum.splits)

lemma wp_observe [wp_simps]: "wp (observe x) Q E s = Q () (s\<lparr>trace := trace s @ [x]\<rparr>)"
  by (simp add: observe_def wp_simps)

lemma wp_require [wp_simps]: "wp require_recovery Q E s = Q () (s\<lparr>recovery_required := True\<rparr>)"
  by (simp add: require_recovery_def wp_simps)

lemma wp_fencing [wp_simps]:
  "wp (fencing m) Q E s = wp m Q (\<lambda>e s. E e (s\<lparr>recovery_required := True\<rparr>)) s"
  by (auto simp: fencing_def wp_def catch_all_def thn_def bnd_def require_recovery_def upd_def raise_def
      split: prod.splits sum.splits)

text \<open>Steps that keep the sessions and the fence; \<open>kept\<close> ones also keep keys cold.\<close>

definition kept :: "knowledge \<Rightarrow> ('e, 'z) mgr_scheme \<Rightarrow> ('e, 'z) mgr_scheme \<Rightarrow> bool" where
  "kept st s s' \<longleftrightarrow> write_ahead st s' \<and> sessions s' = sessions s \<and>
     recovery_required s' = recovery_required s \<and> (\<forall>ks. cold st ks s \<longrightarrow> cold st ks s')"

lemma kept_refl: "write_ahead st s \<Longrightarrow> kept st s s"
  by (simp add: kept_def)

lemma kept_trans: "kept st s s' \<Longrightarrow> kept st s' s'' \<Longrightarrow> kept st s s''"
  by (simp add: kept_def)

lemma kept_env: "write_ahead st s \<Longrightarrow> kept st s (s\<lparr>env := e\<rparr>)"
  by (simp add: kept_def)

lemma hw_fetch_kept:
  assumes "write_ahead st s"
  shows "wp (hw_fetch be k) (\<lambda>r s'. kept st s s' \<and> (r = None \<longrightarrow> cold st {k} s')) (\<lambda>_. kept st s) s"
proof -
  have "kept st s (s\<lparr>env := en, trace := trace s @ [HwAbsent k]\<rparr>)"
    "cold st {k} (s\<lparr>env := en, trace := trace s @ [HwAbsent k]\<rparr>)" for en
    using write_ahead_absent [of st "s\<lparr>env := en\<rparr>" k] assms
    by (simp_all add: kept_def cold_def knows_def) (cases "foldl learn st (trace s)"; simp)+
  then show ?thesis
    unfolding hw_fetch_def wp_bnd
    by (intro wp_io) (auto simp: wp_simps kept_env assms)
qed

lemma hw_delete_kept:
  assumes "write_ahead st s" "dict_get (sessions s) i = Some v" "e \<in> set (s_entries v)"
  shows "wp (hw_delete be (take 16 e)) (\<lambda>_. kept st s) (\<lambda>_. kept st s) s"
proof -
  have "kept st s (s\<lparr>trace := trace s @ [HwDelete (take 16 e)], env := en\<rparr>)" for en
    using write_ahead_delete [OF assms]
    by (simp add: kept_def cold_def knows_def) (cases "foldl learn st (trace s)"; simp)
  then show ?thesis
    unfolding hw_delete_def wp_thn wp_observe by (intro wp_io) simp_all
qed

lemma hw_insert_warms:
  assumes "write_ahead st s" "dict_get (sessions s) i = Some v" "e \<in> set (s_entries v)"
  shows "wp (hw_insert be e)
    (\<lambda>_ s'. write_ahead st s' \<and> sessions s' = sessions s \<and> recovery_required s' = recovery_required s \<and>
      (\<forall>ks. cold st ks s \<longrightarrow> cold st (ks - {take 16 e}) s'))
    (\<lambda>_ s'. write_ahead st s' \<and> sessions s' = sessions s \<and> recovery_required s' = recovery_required s \<and>
      (\<forall>ks. cold st ks s \<longrightarrow> cold st (ks - {take 16 e}) s')) s"
proof -
  have "cold st ks s \<Longrightarrow> cold st (ks - {take 16 e}) (s\<lparr>trace := trace s @ [HwInsert e], env := en\<rparr>)" for en ks
    by (cases "knows st s") (auto simp: cold_def)
  then show ?thesis
    using write_ahead_insert [OF assms]
    unfolding hw_insert_def wp_thn wp_observe by (intro wp_io) simp_all
qed

lemma remove_entry_kept:
  assumes "write_ahead st s" "dict_get (sessions s) i = Some v" "e \<in> set (s_entries v)"
  shows "wp (remove_entry be e) (\<lambda>_ s'. kept st s s' \<and> cold st {take 16 e} s') (\<lambda>_. kept st s) s"
proof -
  have del: "wp (hw_delete be (take 16 e)) (\<lambda>_. kept st s) (\<lambda>_. kept st s) s1" if "kept st s s1" for s1
    by (rule wp_mono [OF hw_delete_kept [where i = i and v = v]])
      (use assms that in \<open>auto simp: kept_def [of _ s s1] intro: kept_trans [OF that]\<close>)
  show ?thesis
  proof (unfold remove_entry_def, rule wp_bndI [OF hw_fetch_kept [OF assms(1)]], rule wp_thnI)
    fix r :: "bytes option" and s1 assume s1: "kept st s s1 \<and> (r = None \<longrightarrow> cold st {take 16 e} s1)"
    show "wp (case r of None \<Rightarrow> ret () | Some a \<Rightarrow> bnd (lift_res (owned_variants e)) (\<lambda>variants.
        thn (ensure (a \<in> set variants) (RuntimeError ''flow ownership changed'')) (hw_delete be (take 16 e))))
      (\<lambda>_. kept st s) (\<lambda>_. kept st s) s1"
      using s1 del by (auto simp: wp_simps split: option.split sum.split)
  next
    fix s2 assume s2: "kept st s s2"
    then have "write_ahead st s2" by (simp add: kept_def)
    then show "wp (bnd (hw_fetch be (take 16 e)) (\<lambda>again.
        ensure (again = None) (RuntimeError ''flow removal not confirmed'')))
      (\<lambda>_ s'. kept st s s' \<and> cold st {take 16 e} s') (\<lambda>_. kept st s) s2"
      by (rule wp_bndI [OF hw_fetch_kept]) (use s2 in \<open>auto simp: wp_simps intro: kept_trans\<close>)
  qed
qed

lemma save_kept:
  assumes "write_ahead st s" "map_option s_entries (dict_get (sessions s) i) \<in> {None, Some (s_entries v)}"
  shows "wp (save be i v)
    (\<lambda>_ s'. write_ahead st s' \<and> sessions s' = dict_set i v (sessions s) \<and>
       recovery_required s' = recovery_required s \<and> (\<forall>ks. cold st ks s \<longrightarrow> cold st ks s'))
    (\<lambda>_ s'. write_ahead st s' \<and> sessions s' = sessions s \<and> recovery_required s' \<and>
       (\<forall>ks. cold st ks s \<longrightarrow> cold st ks s')) s"
proof -
  have "write_ahead st (s\<lparr>env := en, jrows := r, trace := trace s @ [JPut i (s_entries v)],
      sessions := dict_set i v (sessions s)\<rparr>)" for en r
    using write_ahead_put [of st "s\<lparr>env := en, jrows := r\<rparr>" i v] assms by simp
  moreover have "cold st ks s \<Longrightarrow> cold st ks (s\<lparr>env := en, jrows := r, trace := trace s @ [JPut i (s_entries v)],
      sessions := dict_set i v (sessions s)\<rparr>)" for ks en r
    by (cases "foldl learn st (trace s)") (simp add: cold_def knows_def)
  ultimately show ?thesis
    using assms(1) unfolding save_def wp_thn wp_fencing journal_put_def wp_upd wp_observe
    by (intro wp_io) simp_all
qed

lemma forget_kept:
  assumes "write_ahead st s" "dict_get (sessions s) i = Some v" "cold st (take 16 ` set (s_entries v)) s"
  shows "wp (forget be i)
    (\<lambda>_ s'. write_ahead st s' \<and> sessions s' = dict_del i (sessions s) \<and>
       recovery_required s' = recovery_required s)
    (\<lambda>_ s'. write_ahead st s' \<and> sessions s' = sessions s \<and> recovery_required s') s"
proof -
  have "write_ahead st (s\<lparr>env := en, jrows := r, trace := trace s @ [JDel i],
      sessions := dict_del i (sessions s)\<rparr>)" for en r
    using write_ahead_del [of st "s\<lparr>env := en, jrows := r\<rparr>" i v] assms by simp
  then show ?thesis
    using assms(1) unfolding forget_def wp_thn wp_fencing journal_delete_def wp_upd wp_observe
    by (intro wp_io) simp_all
qed

lemma s_entries_with_state [simp]:
  "s_entries (with_state x v) = s_entries v" "s_revision (with_state x v) = s_revision v"
  by (simp_all add: with_state_def)

lemma remove_failed_kept:
  assumes "write_ahead st s" "map_option s_entries (dict_get (sessions s) i) = Some (s_entries v)"
  shows "wp (remove_failed be i v e) (\<lambda>_ _. False)
    (\<lambda>_ s'. write_ahead st s' \<and> recovery_required s' \<and> i \<in> set (dict_keys (sessions s'))) s"
proof -
  have "i \<in> set (dict_keys (sessions s))" using assms(2) dict_keys_get [of i "sessions s"] by fast
  then show ?thesis
    unfolding remove_failed_def wp_thn wp_require
    by (intro wp_mono [OF save_kept [of st]]) (use assms in \<open>auto simp: wp_simps dom_update\<close>)
qed

lemma remove_all_kept:
  assumes "write_ahead st s" "dict_get (sessions s) i = Some v" "set es \<subseteq> set (s_entries v)"
  shows "wp (for_each es (remove_entry be))
    (\<lambda>_ s'. kept st s s' \<and> cold st (take 16 ` set es) s') (\<lambda>_. kept st s) s"
  using assms
proof (induction es arbitrary: s)
  case Nil
  then show ?case by (simp add: wp_simps kept_refl cold_def)
next
  case (Cons e es)
  show ?case
    unfolding for_each.simps
  proof (rule wp_thnI [OF remove_entry_kept [OF Cons.prems(1,2)]])
    fix s1 assume s1: "kept st s s1 \<and> cold st {take 16 e} s1"
    then have "wp (for_each es (remove_entry be))
        (\<lambda>_ s'. kept st s1 s' \<and> cold st (take 16 ` set es) s') (\<lambda>_. kept st s1) s1"
      using Cons.prems by (intro Cons.IH) (auto simp: kept_def)
    then show "wp (for_each es (remove_entry be))
        (\<lambda>_ s'. kept st s s' \<and> cold st (take 16 ` set (e # es)) s') (\<lambda>_. kept st s) s1"
    proof (rule wp_mono)
      fix s2 assume s2: "kept st s1 s2 \<and> cold st (take 16 ` set es) s2"
      then have "cold st {take 16 e} s2" using s1 by (simp add: kept_def)
      then show "kept st s s2 \<and> cold st (take 16 ` set (e # es)) s2"
        using s1 s2 cold_union [of st "{take 16 e}" s2] by (auto intro: kept_trans)
    qed (use s1 in \<open>auto intro: kept_trans\<close>)
  qed (use Cons.prems(3) in auto)
qed

lemma remove_kept:
  fixes s :: "('e, 'z) mgr_scheme"
  assumes "write_ahead st s"
  shows "wp (remove be i)
    (\<lambda>_ s'. write_ahead st s' \<and> sessions s' = dict_del i (sessions s) \<and>
       recovery_required s' = recovery_required s)
    (\<lambda>_ s'. write_ahead st s' \<and> (if i \<in> set (dict_keys (sessions s))
       then recovery_required s' \<and> i \<in> set (dict_keys (sessions s')) else s' = s)) s"
proof (cases "dict_get (sessions s) i")
  case None
  then have "i \<notin> set (dict_keys (sessions s))" using dict_get_None [of "sessions s" i] by blast
  with None show ?thesis
    using assms unfolding remove_def by (simp add: wp_simps del: set_map)
next
  case (Some old)
  then have i: "i \<in> set (dict_keys (sessions s))" using dict_keys_get [of i "sessions s"] by blast
  let ?v = "with_state ''removing'' old"
  let ?E = "\<lambda>_ (s' :: ('e, 'z) mgr_scheme). write_ahead st s' \<and> recovery_required s' \<and> i \<in> set (dict_keys (sessions s'))"
  let ?Q = "\<lambda>_ (s' :: ('e, 'z) mgr_scheme). write_ahead st s' \<and> sessions s' = dict_del i (sessions s) \<and>
      recovery_required s' = recovery_required s"
  let ?S = "\<lambda>s' :: ('e, 'z) mgr_scheme. write_ahead st s' \<and> sessions s' = dict_set i ?v (sessions s) \<and>
      recovery_required s' = recovery_required s"
  have failed: "wp (remove_failed be i ?v e) (\<lambda>_ _. False) ?E s'"
    if "write_ahead st s'" "sessions s' = sessions s \<or> sessions s' = dict_set i ?v (sessions s) \<or>
      sessions s' = dict_set i (with_state ''unknown'' ?v) (sessions s)" for e s'
    by (rule wp_mono [OF remove_failed_kept [of st]]) (use that Some in auto)
  have loop_failed: "wp (thn (upd (\<lambda>s. s\<lparr>sessions := dict_set i (with_state ''unknown'' ?v) (sessions s)\<rparr>))
      (remove_failed be i ?v e)) (\<lambda>_ _. False) ?E s'" if "?S s'" for e s'
  proof -
    have "write_ahead st (s'\<lparr>sessions := dict_set i (with_state ''unknown'' ?v) (sessions s')\<rparr>)"
      using that Some by (auto simp: write_ahead_def knows_def)
    then show ?thesis unfolding wp_thn wp_upd using that by (intro failed) simp_all
  qed
  have last: "wp (fencing (forget be i)) ?Q ?E s'"
    if "?S s'" "cold st (take 16 ` set (s_entries old)) s'" for s'
    unfolding wp_fencing
    by (rule wp_mono [OF forget_kept [of st _ _ ?v]])
      (use that i in \<open>auto simp: delete_update_same dom_update\<close>)
  have "wp (remove be i) ?Q ?E s"
    unfolding remove_def wp_bnd wp_gets Some option.case Let_def
  proof (rule wp_thnI [where P = "\<lambda>_. ?S" and E' = ?E])
    show "wp (catch_all (save be i ?v) (remove_failed be i ?v)) (\<lambda>_. ?S) ?E s"
      by (rule wp_catch_allI [OF save_kept [OF assms]])
        (use Some in \<open>auto intro!: failed [THEN wp_mono]\<close>)
  next
    fix s1 assume s1: "?S s1"
    show "wp (thn (catch_all (for_each (s_entries ?v) (remove_entry be)) (\<lambda>e.
           thn (upd (\<lambda>s. s\<lparr>sessions := dict_set i (with_state ''unknown'' ?v) (sessions s)\<rparr>)) (remove_failed be i ?v e)))
         (fencing (forget be i))) ?Q ?E s1"
    proof (rule wp_thnI [where P = "\<lambda>_ s'. ?S s' \<and> cold st (take 16 ` set (s_entries old)) s'" and E' = ?E])
      show "wp (catch_all (for_each (s_entries ?v) (remove_entry be)) (\<lambda>e.
           thn (upd (\<lambda>s. s\<lparr>sessions := dict_set i (with_state ''unknown'' ?v) (sessions s)\<rparr>)) (remove_failed be i ?v e)))
         (\<lambda>_ s'. ?S s' \<and> cold st (take 16 ` set (s_entries old)) s') ?E s1"
        by (rule wp_catch_allI [OF remove_all_kept [of st s1 i ?v]])
          (use s1 in \<open>auto simp: kept_def intro!: loop_failed [THEN wp_mono]\<close>)
    qed (use last in auto)
  qed
  with i show ?thesis by (auto elim!: wp_mono)
qed

lemma recover_kept:
  fixes s :: "('e, 'z) mgr_scheme"
  assumes "write_ahead st s"
  shows "wp (recover be)
    (\<lambda>_ s'. write_ahead st s' \<and> sessions s' = [] \<and> \<not> recovery_required s')
    (\<lambda>_ s'. write_ahead st s' \<and> recovery_required s') s"
proof -
  let ?I = "\<lambda>ids (s' :: ('e, 'z) mgr_scheme). write_ahead st s' \<and> recovery_required s' \<and> set (dict_keys (sessions s')) \<subseteq> set ids"
  let ?s = "s\<lparr>recovery_required := True\<rparr>"
  have "wp (for_each (dict_keys (sessions ?s)) (remove be)) (\<lambda>_. ?I [])
      (\<lambda>_ s'. write_ahead st s' \<and> recovery_required s') ?s"
  proof (rule wp_for_each [where I = ?I])
    show "?I (dict_keys (sessions ?s)) ?s" using assms by simp
  next
    fix i ids s' assume "?I (i # ids) s'"
    then show "wp (remove be i) (\<lambda>_. ?I ids) (\<lambda>_ s'. write_ahead st s' \<and> recovery_required s') s'"
      by (intro wp_mono [OF remove_kept [of st s']]) (auto simp: delete_keys split: if_splits)
  qed
  then show ?thesis
    unfolding recover_def wp_thn wp_bnd wp_require wp_gets
    by (rule wp_mono) (auto simp: wp_simps)
qed

lemma invalidate_kept: "pres (write_ahead st) (invalidate_policy be revision)"
  unfolding invalidate_policy_def
  by (intro pres_intros; (simp split: option.split)?; (intro pres_intros allI impI)?)
    (auto simp: pres_wp intro: wp_mono [OF remove_kept])

lemma roll_back_kept:
  fixes s :: "('e, 'z) mgr_scheme"
  assumes "write_ahead st s" "map_option s_entries (dict_get (sessions s) i) = Some (s_entries v)"
    and "set touched \<subseteq> set (s_entries v)"
    and "cold st (take 16 ` set (s_entries v) - take 16 ` set touched) s"
  shows "wp (roll_back be i v touched e) (\<lambda>_ _. False) (\<lambda>_. write_ahead st) s"
proof -
  obtain w where w: "dict_get (sessions s) i = Some w" "s_entries w = s_entries v"
    using assms(2) by auto
  let ?I = "\<lambda>es (s' :: ('e, 'z) mgr_scheme). write_ahead st s' \<and> sessions s' = sessions s \<and> set es \<subseteq> set (s_entries v) \<and>
    (recovery_required s' \<or> cold st (take 16 ` set (s_entries v) - take 16 ` set es) s')"
  have loop: "wp (for_each touched (\<lambda>entry. catch_exn (remove_entry be entry) (\<lambda>_. require_recovery)))
      (\<lambda>_. ?I []) (\<lambda>_. write_ahead st) s"
  proof (rule wp_for_each [where I = ?I])
    show "?I touched s" using assms by simp
  next
    fix y ys s' assume I: "?I (y # ys) s'"
    then have "wp (remove_entry be y) (\<lambda>_ s''. kept st s' s'' \<and> cold st {take 16 y} s'') (\<lambda>_. kept st s') s'"
      by (intro remove_entry_kept [where i = i and v = w]) (use w in auto)
    then show "wp (catch_exn (remove_entry be y) (\<lambda>_. require_recovery)) (\<lambda>_. ?I ys) (\<lambda>_. write_ahead st) s'"
      unfolding wp_catch_exn
    proof (rule wp_mono)
      fix s'' assume s'': "kept st s' s'' \<and> cold st {take 16 y} s''"
      have "cold st (take 16 ` set (s_entries v) - take 16 ` set ys) s''"
        if "cold st (take 16 ` set (s_entries v) - take 16 ` set (y # ys)) s'"
        by (rule cold_mono [OF cold_union [of st "take 16 ` set (s_entries v) - take 16 ` set (y # ys)" s'' "{take 16 y}"]])
          (use that s'' in \<open>auto simp: kept_def\<close>)
      then show "?I ys s''" using I s'' by (auto simp: kept_def)
    qed (use I in \<open>auto simp: kept_def wp_simps\<close>)
  qed
  have rest: "wp (bnd (gets recovery_required) (\<lambda>fenced.
        thn (if fenced then save be i (with_state ''unknown'' v) else forget be i) (raise e)))
      (\<lambda>_ _. False) (\<lambda>_. write_ahead st) s'" if I: "?I [] s'" for s'
  proof (cases "recovery_required s'")
    case True
    then show ?thesis
      unfolding wp_bnd wp_gets wp_thn using I w
      by simp (rule wp_mono [OF save_kept [of st]], auto simp: wp_simps)
  next
    case False
    then show ?thesis
      unfolding wp_bnd wp_gets wp_thn using I w
      by simp (rule wp_mono [OF forget_kept [of st _ _ w]], auto simp: wp_simps)
  qed
  show ?thesis unfolding roll_back_def by (rule wp_thnI [OF loop rest]) auto
qed

lemma insert_entry_kept:
  fixes s :: "('e, 'z) mgr_scheme"
  assumes "write_ahead st s" "map_option s_entries (dict_get (sessions s) i) = Some (s_entries v)"
    and "e \<in> set (s_entries v)" and "cold st ks s"
  shows "wp (insert_entry be e)
    (\<lambda>_ s'. write_ahead st s' \<and> sessions s' = sessions s \<and> recovery_required s' = recovery_required s \<and>
      cold st (ks - {take 16 e}) s')
    (\<lambda>_ s'. write_ahead st s' \<and> sessions s' = sessions s \<and> recovery_required s' = recovery_required s \<and>
      cold st (ks - {take 16 e}) s') s"
proof -
  obtain w where w: "dict_get (sessions s) i = Some w" "e \<in> set (s_entries w)"
    using assms(2,3) by auto
  show ?thesis
    unfolding insert_entry_def
  proof (rule wp_thnI [OF hw_insert_warms [OF assms(1) w]])
    fix s1 :: "('e, 'z) mgr_scheme"
    assume s1: "write_ahead st s1 \<and> sessions s1 = sessions s \<and> recovery_required s1 = recovery_required s \<and>
      (\<forall>ks. cold st ks s \<longrightarrow> cold st (ks - {take 16 e}) s1)"
    then have "write_ahead st s1" by blast
    then show "wp (bnd (hw_fetch be (take 16 e)) (\<lambda>r.
        ensure (r = Some e) (RuntimeError ''flow readback mismatch'')))
      (\<lambda>_ s'. write_ahead st s' \<and> sessions s' = sessions s \<and> recovery_required s' = recovery_required s \<and>
        cold st (ks - {take 16 e}) s')
      (\<lambda>_ s'. write_ahead st s' \<and> sessions s' = sessions s \<and> recovery_required s' = recovery_required s \<and>
        cold st (ks - {take 16 e}) s') s1"
      by (rule wp_bndI [OF hw_fetch_kept]) (use s1 assms(4) in \<open>auto simp: kept_def wp_simps\<close>)
  qed (use assms(4) in auto)
qed

lemma insert_entries_kept:
  fixes s :: "('e, 'z) mgr_scheme"
  assumes "write_ahead st s" "map_option s_entries (dict_get (sessions s) i) = Some (s_entries v)"
    and "set touched \<union> set rest \<subseteq> set (s_entries v)"
    and "cold st (take 16 ` set (s_entries v) - take 16 ` set touched) s"
  shows "wp (insert_entries be i v touched rest)
    (\<lambda>_ s'. write_ahead st s' \<and> sessions s' = sessions s) (\<lambda>_. write_ahead st) s"
  using assms
proof (induction rest arbitrary: touched s)
  case Nil
  then show ?case by (simp add: wp_simps)
next
  case (Cons e rest)
  let ?S = "\<lambda>s' :: ('e, 'z) mgr_scheme. write_ahead st s' \<and> sessions s' = sessions s \<and>
    cold st (take 16 ` set (s_entries v) - take 16 ` set (e # touched)) s'"
  have eq: "take 16 ` set (s_entries v) - take 16 ` set (e # touched) =
    take 16 ` set (s_entries v) - take 16 ` set touched - {take 16 e}" by auto
  have e: "e \<in> set (s_entries v)" using Cons.prems(3) by simp
  show ?case
    unfolding insert_entries.simps
  proof (rule wp_thnI [where P = "\<lambda>_. ?S"])
    show "wp (catch_all (insert_entry be e) (roll_back be i v (e # touched))) (\<lambda>_. ?S) (\<lambda>_. write_ahead st) s"
      by (rule wp_catch_allI [OF insert_entry_kept [OF Cons.prems(1,2) e Cons.prems(4)]])
        (use Cons.prems eq in \<open>auto intro!: roll_back_kept [THEN wp_mono]\<close>)
  next
    fix s1 :: "('e, 'z) mgr_scheme" assume s1: "?S s1"
    then show "wp (insert_entries be i v (e # touched) rest)
        (\<lambda>_ s'. write_ahead st s' \<and> sessions s' = sessions s) (\<lambda>_. write_ahead st) s1"
      by (intro wp_mono [OF Cons.IH [of s1 "e # touched"]]) (use Cons.prems in auto)
  qed auto
qed

lemma preflight_kept:
  fixes s :: "('e, 'z) mgr_scheme"
  assumes "write_ahead st s"
  shows "wp (for_each es (\<lambda>entry. bnd (hw_fetch be (take 16 entry)) (\<lambda>r.
      ensure (r = None) (RuntimeError ''flow key is already owned''))))
    (\<lambda>_ s'. kept st s s' \<and> cold st (take 16 ` set es) s') (\<lambda>_. kept st s) s"
  using assms
proof (induction es arbitrary: s)
  case Nil
  then show ?case by (simp add: wp_simps kept_refl cold_def)
next
  case (Cons e es)
  show ?case
    unfolding for_each.simps
  proof (rule wp_thnI [where P = "\<lambda>_ s1. kept st s s1 \<and> cold st {take 16 e} s1" and E' = "\<lambda>_. kept st s"])
    show "wp (bnd (hw_fetch be (take 16 e)) (\<lambda>r. ensure (r = None) (RuntimeError ''flow key is already owned'')))
        (\<lambda>_ s1. kept st s s1 \<and> cold st {take 16 e} s1) (\<lambda>_. kept st s) s"
      unfolding wp_bnd by (rule wp_mono [OF hw_fetch_kept [OF Cons.prems]]) (auto simp: wp_simps)
  next
    fix s1 :: "('e, 'z) mgr_scheme" assume s1: "kept st s s1 \<and> cold st {take 16 e} s1"
    then have "write_ahead st s1" by (simp add: kept_def)
    from Cons.IH [OF this] show "wp (for_each es (\<lambda>entry. bnd (hw_fetch be (take 16 entry)) (\<lambda>r.
        ensure (r = None) (RuntimeError ''flow key is already owned''))))
      (\<lambda>_ s'. kept st s s' \<and> cold st (take 16 ` set (e # es)) s') (\<lambda>_. kept st s) s1"
    proof (rule wp_mono)
      fix s2 :: "('e, 'z) mgr_scheme" assume s2: "kept st s1 s2 \<and> cold st (take 16 ` set es) s2"
      then have "cold st {take 16 e} s2" using s1 by (simp add: kept_def)
      with s2 have "cold st ({take 16 e} \<union> take 16 ` set es) s2"
        using cold_union [of st "{take 16 e}" s2 "take 16 ` set es"] by simp
      with s1 s2 show "kept st s s2 \<and> cold st (take 16 ` set (e # es)) s2"
        by (auto intro: kept_trans)
    qed (use s1 in \<open>auto intro: kept_trans\<close>)
  qed auto
qed

lemma program_pair_kept:
  fixes s :: "('e, 'z) mgr_scheme"
  assumes "write_ahead st s" and "dict_get (sessions s) i = None"
  shows "wp (program_pair be i v) (\<lambda>_. write_ahead st) (\<lambda>_. write_ahead st) s"
proof -
  let ?W = "\<lambda>_ :: unit. \<lambda>s' :: ('e, 'z) mgr_scheme. write_ahead st s'"
  let ?E = "\<lambda>_ :: exn. \<lambda>s' :: ('e, 'z) mgr_scheme. write_ahead st s'"
  show ?thesis
    unfolding program_pair_def
  proof (rule wp_thnI [OF preflight_kept [OF assms(1)]], unfold wp_thn)
    fix s2 :: "('e, 'z) mgr_scheme"
    assume s2: "kept st s s2 \<and> cold st (take 16 ` set (s_entries v)) s2"
    show "wp (save be i v) (\<lambda>_. wp (insert_entries be i v [] (s_entries v))
        (\<lambda>_. wp (fencing (save be i (with_state ''installed'' v))) ?W ?E) ?E) ?E s2"
    proof (rule wp_mono [OF save_kept [of st]])
      fix s3 :: "('e, 'z) mgr_scheme"
      assume s3: "write_ahead st s3 \<and> sessions s3 = dict_set i v (sessions s2) \<and>
        recovery_required s3 = recovery_required s2 \<and> (\<forall>ks. cold st ks s2 \<longrightarrow> cold st ks s3)"
      show "wp (insert_entries be i v [] (s_entries v))
          (\<lambda>_. wp (fencing (save be i (with_state ''installed'' v))) ?W ?E) ?E s3"
      proof (rule wp_mono [OF insert_entries_kept [of st]])
        fix s4 :: "('e, 'z) mgr_scheme" assume "write_ahead st s4 \<and> sessions s4 = sessions s3"
        then show "wp (fencing (save be i (with_state ''installed'' v))) ?W ?E s4"
          unfolding wp_fencing by (intro wp_mono [OF save_kept [of st]]) (use s3 in auto)
      qed (use s2 s3 in \<open>auto simp: kept_def\<close>)
    qed (use assms s2 in \<open>auto simp: kept_def\<close>)
  qed (auto simp: kept_def)
qed

lemma install_kept:
  assumes "write_ahead st s"
  shows "wp (install be session_id entries revision lookup_zones) (\<lambda>_. write_ahead st) (\<lambda>_. write_ahead st) s"
proof -
  have "wp (program_pair be i v) (\<lambda>_. write_ahead st) (\<lambda>_. write_ahead st) (s\<lparr>env := en\<rparr>)"
    if "i \<notin> set (dict_keys (sessions s))" for i v en
    using that assms dict_get_None [of "sessions s" i] by (intro program_pair_kept) simp_all
  with assms show ?thesis
    unfolding install_def wp_bnd wp_thn wp_lift_res wp_gets wp_ensure
    by (auto split: sum.split intro!: wp_io)
qed

section \<open>Every operation sequence is crash-safe\<close>

inductive mgr_run :: "'e backend \<Rightarrow> ('e, 'z) mgr_scheme \<Rightarrow> ('e, 'z) mgr_scheme \<Rightarrow> bool" for be where
  run_start: "mgr_run be s s"
| run_install: "mgr_run be s s1 \<Longrightarrow> mgr_run be s (snd (install be ident entries revision zones s1))"
| run_remove: "mgr_run be s s1 \<Longrightarrow> mgr_run be s (snd (remove be i s1))"
| run_recover: "mgr_run be s s1 \<Longrightarrow> mgr_run be s (snd (recover be s1))"
| run_invalidate: "mgr_run be s s1 \<Longrightarrow> mgr_run be s (snd (invalidate_policy be revision s1))"

lemma mgr_run_pres:
  assumes "mgr_run be s s'" and "I s"
    and "\<And>ident entries revision zones. pres I (install be ident entries revision zones)"
    and "\<And>i. pres I (remove be i)" and "pres I (recover be)" and "\<And>r. pres I (invalidate_policy be r)"
  shows "I s'"
  using assms by (induction rule: mgr_run.induct) (simp_all add: pres_def)

lemma write_ahead_pres:
  "pres (write_ahead st) (install be ident entries revision zones)"
  "pres (write_ahead st) (remove be i)" "pres (write_ahead st) (recover be)"
  by (auto simp: pres_wp intro: install_kept wp_mono [OF remove_kept] wp_mono [OF recover_kept])

lemma session_rows_get: "dict_get (session_rows ss) i = map_option s_entries (dict_get ss i)"
  by (induction ss) (auto simp: session_rows_def)

lemma write_ahead_initial:
  assumes "trace s = []" "dict_ok (sessions s)"
  shows "write_ahead (initial_knowledge s) s"
proof -
  have "\<exists>i es. dict_get (session_rows (sessions s)) i = Some es \<and> e \<in> set es"
    if "(i, v) \<in> set (sessions s)" "e \<in> set (s_entries v)" for i v e
    using that assms(2) by (auto simp: session_rows_get dict_items_get intro!: exI [of _ i])
  then have "covered (initial_knowledge s)"
    by (auto simp: initial_knowledge_def covered_def list_all_iff journalled_iff)
  with assms(1) show ?thesis
    by (simp add: write_ahead_def knows_def) (simp add: initial_knowledge_def session_rows_get)
qed

lemma journal_load_keys: "journal_load rows = Inr ss \<Longrightarrow> dict_keys ss = dict_keys rows"
  by (induction rows arbitrary: ss) (auto simp: journal_load_def res_iffs)

text \<open>
  C6.  Crash safety.  Start the manager on any journal and run any sequence of installs,
  removals, recoveries and policy invalidations against any backend, failing or lying in
  any way, with any journal commit failing: at every moment of the trace of hardware
  accesses and journal commits, each entry that may be in the hardware (inserted, or owned
  at start, and not read back absent since) is named by a committed journal row, and a
  delete is only issued for the key of a journalled entry.
\<close>

theorem manager_crash_safe:
  assumes "manager_init e rows = Inr s" and "dict_ok rows" and "mgr_run be s s'"
  shows "safe_trace (initial_knowledge s) (trace s')"
proof -
  from assms(1) obtain ss where ss: "journal_load rows = Inr ss"
    and s: "s = \<lparr>env = e, jrows = rows, sessions = ss, recovery_required = (ss \<noteq> []), trace = []\<rparr>"
    by (auto simp: manager_init_def res_iffs)
  have "dict_ok (sessions s)" using assms(2) journal_load_keys [OF ss] by (simp add: s dict_ok_def)
  then have "write_ahead (initial_knowledge s) s" by (intro write_ahead_initial) (simp_all add: s)
  then have "write_ahead (initial_knowledge s) s'"
    by (rule mgr_run_pres [OF assms(3)]) (rule write_ahead_pres invalidate_kept)+
  then show ?thesis by (simp add: write_ahead_def)
qed

section \<open>The journal reproduces the sessions\<close>

definition session_ok :: "session \<Rightarrow> bool" where
  "session_ok v \<longleftrightarrow> length (s_entries v) = 2 \<and> list_all (\<lambda>e. length e = 64) (s_entries v) \<and>
     s_state v \<in> set session_states"

lemma journal_round_trip: "session_ok v \<Longrightarrow> journal_session (journal_body v) = Inr v"
proof -
  assume ok: "session_ok v"
  have "rcollect (map (\<lambda>e. PStr (to_hex e)) es) from_hex_value = Inr es" for es
    by (induction es) (simp_all add: from_hex_value_def)
  with ok show ?thesis
    by (cases v) (auto simp: journal_session_def journal_body_def session_ok_def py_item_def py_iter_def
        has_key_def py_get_def split: option.split)
qed

lemma journal_session_ok: "journal_session body = Inr v \<Longrightarrow> session_ok v"
  by (auto simp: journal_session_def res_iffs session_ok_def Let_def)

text \<open>The row of a session decodes to it, up to the state label.\<close>

definition row_matches :: "pyval \<Rightarrow> session \<Rightarrow> bool" where
  "row_matches body v \<longleftrightarrow> session_ok v \<and>
     (case journal_session body of Inl e \<Rightarrow> False
      | Inr w \<Rightarrow> s_entries w = s_entries v \<and> s_revision w = s_revision v)"

definition synced :: "('e, 'z) mgr_scheme \<Rightarrow> bool" where
  "synced s \<longleftrightarrow> dict_ok (jrows s) \<and> sorted (dict_keys (jrows s)) \<and>
     (\<forall>i. rel_option row_matches (dict_get (jrows s) i) (dict_get (sessions s) i))"

lemma synced_simps [simp]:
  "synced (s\<lparr>env := e\<rparr>) = synced s" "synced (s\<lparr>trace := t\<rparr>) = synced s"
  "synced (s\<lparr>recovery_required := b\<rparr>) = synced s"
  by (simp_all add: synced_def)

lemma pres_io: "(\<And>s e. J s \<Longrightarrow> J (s\<lparr>env := e\<rparr>)) \<Longrightarrow> pres J (io m)"
  by (auto simp: pres_wp intro: wp_io)

lemma pres_observe: "(\<And>s t. J s \<Longrightarrow> J (s\<lparr>trace := t\<rparr>)) \<Longrightarrow> pres J (observe x)"
  by (simp add: pres_wp wp_simps)

text \<open>The hardware loops touch the environment and the trace only.\<close>

lemma hw_frame:
  assumes "\<And>s e. J s \<Longrightarrow> J (s\<lparr>env := e\<rparr>)" and "\<And>s t. J s \<Longrightarrow> J (s\<lparr>trace := t\<rparr>)"
  shows "pres J (hw_fetch be k)" "pres J (hw_insert be e)" "pres J (hw_delete be k)"
  unfolding hw_fetch_def hw_insert_def hw_delete_def
  by (intro pres_intros pres_io pres_observe assms; assumption)+

lemma entry_frame:
  assumes "\<And>s e. J s \<Longrightarrow> J (s\<lparr>env := e\<rparr>)" and "\<And>s t. J s \<Longrightarrow> J (s\<lparr>trace := t\<rparr>)"
  shows "pres J (remove_entry be e)" "pres J (insert_entry be e)"
  unfolding remove_entry_def insert_entry_def
  by (intro pres_intros hw_frame assms; assumption)+

lemma synced_put:
  assumes "synced s" "session_ok v"
  shows "synced (s\<lparr>jrows := row_put i (journal_body v) (jrows s), sessions := dict_set i v (sessions s)\<rparr>)"
  using assms row_put_sorted [of "jrows s" i "journal_body v"]
  by (auto simp: synced_def row_matches_def journal_round_trip)

lemma synced_save:
  assumes "session_ok v" and "synced s"
  shows "wp (save be i v) (\<lambda>_ s'. synced s' \<and> dict_get (sessions s') i = Some v) (\<lambda>_. synced) s"
proof -
  have "synced (s\<lparr>env := en, jrows := row_put i (journal_body v) (jrows s), trace := t,
      sessions := dict_set i v (sessions s)\<rparr>)" for en t
    using synced_put [OF assms(2,1), of i] by (simp add: synced_def)
  then show ?thesis
    using assms(2) unfolding save_def wp_thn wp_fencing journal_put_def wp_upd wp_observe
    by (intro wp_io) simp_all
qed

lemma synced_forget: "pres synced (forget be i)"
proof -
  have "synced (s\<lparr>env := en, jrows := dict_del i (jrows s), trace := t, sessions := dict_del i (sessions s)\<rparr>)"
    if "synced s" for s :: "('a, 'b) mgr_scheme" and en t
    using that row_del_sorted [of "jrows s" i] by (auto simp: synced_def)
  then show ?thesis
    unfolding pres_wp forget_def wp_thn wp_fencing journal_delete_def wp_upd wp_observe
    by (intro allI impI wp_io) simp_all
qed

lemma session_ok_state: "session_ok v \<Longrightarrow> st \<in> set session_states \<Longrightarrow> session_ok (with_state st v)"
  by (simp add: session_ok_def with_state_def)

lemma session_state_names [simp]:
  "''unknown'' \<in> set session_states" "''removing'' \<in> set session_states"
  "''installed'' \<in> set session_states" "''installing'' \<in> set session_states"
  by (simp_all add: session_states_def)

lemma synced_save_pres: "session_ok v \<Longrightarrow> pres synced (save be i v)"
  by (auto simp: pres_wp intro: wp_mono [OF synced_save])

lemma synced_require [simp]: "pres synced require_recovery"
  by (simp add: require_recovery_def pres_upd)

lemma synced_remove: "pres synced (remove be i)"
proof -
  have "wp (remove be i) (\<lambda>_. synced) (\<lambda>_. synced) s" if s: "synced s" for s :: "('a, 'b) mgr_scheme"
  proof (cases "dict_get (sessions s) i")
    case None
    then show ?thesis using s by (simp add: remove_def wp_simps)
  next
    case (Some old)
    then obtain body where "dict_get (jrows s) i = Some body" "row_matches body old"
      using s by (auto simp: synced_def dest!: spec [of _ i] elim: option.rel_cases)
    then have ok: "session_ok (with_state ''removing'' old)"
      by (simp add: row_matches_def session_ok_state)
    let ?v = "with_state ''removing'' old"
    let ?J = "\<lambda>s' :: ('a, 'b) mgr_scheme. synced s' \<and> dict_get (sessions s') i = Some ?v"
    have failed: "wp (remove_failed be i ?v e) (\<lambda>_ _. False) (\<lambda>_. synced) s1" if "synced s1"
      for e and s1 :: "('a, 'b) mgr_scheme"
      unfolding remove_failed_def wp_thn wp_require
      by (rule wp_mono [OF synced_save]) (use that ok in \<open>auto simp: session_ok_state wp_simps\<close>)
    have label: "synced (s1\<lparr>sessions := dict_set i (with_state ''unknown'' ?v) (sessions s1)\<rparr>)"
      if "?J s1" for s1 :: "('a, 'b) mgr_scheme"
      using that ok unfolding synced_def
      by (auto simp: row_matches_def session_ok_state dest!: spec [of _ i] elim!: option.rel_cases
          split: sum.splits)
    have loop: "wp (for_each (s_entries ?v) (remove_entry be)) (\<lambda>_. ?J) (\<lambda>_. ?J) s1" if "?J s1"
      for s1 :: "('a, 'b) mgr_scheme"
    proof (rule wp_pres [where I = ?J])
      show "pres ?J (for_each (s_entries ?v) (remove_entry be))"
        by (intro pres_for_each entry_frame) auto
    qed (rule that)
    show ?thesis
      unfolding remove_def wp_bnd wp_gets Some option.case Let_def
    proof (rule wp_thnI [where P = "\<lambda>_. ?J" and E' = "\<lambda>_. synced"])
      show "wp (catch_all (save be i ?v) (remove_failed be i ?v)) (\<lambda>_. ?J) (\<lambda>_. synced) s"
        by (rule wp_catch_allI [OF synced_save [OF ok s]]) (auto intro!: failed [THEN wp_mono])
    next
      fix s1 :: "('a, 'b) mgr_scheme" assume s1: "?J s1"
      show "wp (thn (catch_all (for_each (s_entries ?v) (remove_entry be)) (\<lambda>e.
           thn (upd (\<lambda>s. s\<lparr>sessions := dict_set i (with_state ''unknown'' ?v) (sessions s)\<rparr>)) (remove_failed be i ?v e)))
         (fencing (forget be i))) (\<lambda>_. synced) (\<lambda>_. synced) s1"
      proof (rule wp_thnI [where P = "\<lambda>_. ?J" and E' = "\<lambda>_. synced"])
        show "wp (catch_all (for_each (s_entries ?v) (remove_entry be)) (\<lambda>e.
           thn (upd (\<lambda>s. s\<lparr>sessions := dict_set i (with_state ''unknown'' ?v) (sessions s)\<rparr>))
             (remove_failed be i ?v e))) (\<lambda>_. ?J) (\<lambda>_. synced) s1"
          by (rule wp_catch_allI [OF loop [OF s1]])
            (auto simp: wp_thn wp_upd intro!: failed [THEN wp_mono] label)
      qed (use synced_forget [of be i] in \<open>auto simp: wp_fencing pres_wp intro: wp_mono\<close>)
    qed auto
  qed
  then show ?thesis by (simp add: pres_wp)
qed

lemma synced_roll_back: "session_ok v \<Longrightarrow> pres synced (roll_back be i v touched e)"
  unfolding roll_back_def
  by (intro pres_intros entry_frame synced_save_pres synced_forget synced_require) (simp_all add: session_ok_state)

lemma synced_insert_entries: "session_ok v \<Longrightarrow> pres synced (insert_entries be i v touched rest)"
  by (induction rest arbitrary: touched) (auto intro!: pres_intros entry_frame synced_roll_back)

lemma install_checks_ok:
  "install_checks entries zones = Inr u \<Longrightarrow> length entries = 2 \<Longrightarrow>
   session_ok \<lparr>s_entries = entries, s_revision = r, s_state = ''installing''\<rparr>"
  by (auto simp: install_checks_def res_iffs Let_def session_ok_def)

lemma pres_fencing: "pres I m \<Longrightarrow> pres I require_recovery \<Longrightarrow> pres I (fencing m)"
  unfolding fencing_def by (intro pres_intros)

lemma synced_program: "session_ok v \<Longrightarrow> pres synced (program_pair be i v)"
  unfolding program_pair_def
  by (intro pres_intros hw_frame synced_save_pres synced_insert_entries pres_fencing synced_require)
    (simp_all add: session_ok_state)

lemma pres_lift_bnd: "(\<And>x. r = Inr x \<Longrightarrow> pres I (k x)) \<Longrightarrow> pres I (bnd (lift_res r) k)"
  by (auto simp: pres_wp wp_simps split: sum.split)

lemma pres_ensure_thn: "(b \<Longrightarrow> pres I k) \<Longrightarrow> pres I (thn (ensure b e) k)"
  by (auto simp: pres_wp wp_simps)

lemma synced_install: "pres synced (install be ident entries revision zones)"
  unfolding install_def thn_def [of "lift_res r" for r]
  by (intro pres_lift_bnd pres_ensure_thn pres_intros pres_io synced_program install_checks_ok) auto

lemma synced_recover: "pres synced (recover be)"
  unfolding recover_def by (intro pres_intros synced_require synced_remove pres_upd) simp

lemma synced_invalidate: "pres synced (invalidate_policy be r)"
  unfolding invalidate_policy_def
  by (intro pres_intros; (simp split: option.split)?; (intro pres_intros allI impI synced_remove)?)

lemma synced_initial:
  assumes "manager_init e rows = Inr s" "dict_ok rows" "sorted (dict_keys rows)"
  shows "synced s"
proof -
  have "rel_option row_matches (dict_get rows i) (dict_get ss i)"
    if "journal_load rows = Inr ss" for ss i
    using that
  proof (induction rows arbitrary: ss)
    case Nil
    then show ?case by (simp add: journal_load_def)
  next
    case (Cons row rows)
    obtain j body where row: "row = (j, body)" by fastforce
    with Cons.prems obtain v ss' where "journal_session body = Inr v" "journal_load rows = Inr ss'" "ss = (j, v) # ss'"
      by (auto simp: journal_load_def res_iffs)
    with Cons.IH [of ss'] row show ?case by (simp add: row_matches_def journal_session_ok)
  qed
  with assms show ?thesis by (auto simp: manager_init_def res_iffs synced_def)
qed

lemma journal_load_get:
  assumes "list_all (\<lambda>(i, body). \<exists>v. journal_session body = Inr v) rows"
  shows "\<exists>ss. journal_load rows = Inr ss \<and>
    (\<forall>i. rel_option (\<lambda>body v. journal_session body = Inr v) (dict_get rows i) (dict_get ss i))"
  using assms
proof (induction rows)
  case Nil
  then show ?case by (simp add: journal_load_def)
next
  case (Cons row rows)
  obtain j body where row: "row = (j, body)" by fastforce
  with Cons obtain v ss where "journal_session body = Inr v" "journal_load rows = Inr ss"
    "\<forall>i. rel_option (\<lambda>body v. journal_session body = Inr v) (dict_get rows i) (dict_get ss i)"
    by auto
  then show ?case
    by (intro exI [of _ "(j, v) # ss"]) (simp add: row journal_load_def)
qed

lemma synced_restart:
  assumes "synced s"
  shows "\<exists>s'. manager_init e (jrows s) = Inr s' \<and>
    (\<forall>i. map_option (\<lambda>v. (s_entries v, s_revision v)) (dict_get (sessions s') i) =
         map_option (\<lambda>v. (s_entries v, s_revision v)) (dict_get (sessions s) i)) \<and>
    recovery_required s' = (sessions s \<noteq> [])"
proof -
  have m: "rel_option row_matches (dict_get (jrows s) i) (dict_get (sessions s) i)" for i
    using assms by (simp add: synced_def)
  have "\<exists>v. journal_session body = Inr v" if "(i, body) \<in> set (jrows s)" for i body
  proof -
    have "dict_get (jrows s) i = Some body" using that assms by (simp add: synced_def dict_items_get)
    with m [of i] show ?thesis by (auto simp: row_matches_def elim!: option.rel_cases split: sum.splits)
  qed
  then obtain ss where ss: "journal_load (jrows s) = Inr ss"
    and get: "\<And>i. rel_option (\<lambda>body v. journal_session body = Inr v) (dict_get (jrows s) i) (dict_get ss i)"
    using journal_load_get [of "jrows s"] by (auto simp: list_all_iff)
  have same: "map_option (\<lambda>v. (s_entries v, s_revision v)) (dict_get ss i) =
      map_option (\<lambda>v. (s_entries v, s_revision v)) (dict_get (sessions s) i)" for i
    using m [of i] get [of i]
    by (cases "dict_get (jrows s) i"; cases "dict_get ss i"; cases "dict_get (sessions s) i")
      (simp_all add: row_matches_def)
  have "dict_get ss i = None \<longleftrightarrow> dict_get (sessions s) i = None" for i
    using same [of i] by (cases "dict_get ss i"; cases "dict_get (sessions s) i") simp_all
  then have "ss = [] \<longleftrightarrow> sessions s = []" by (simp only: dict_empty_iff)
  with ss same show ?thesis by (simp add: manager_init_def)
qed

text \<open>
  C10.  Restart.  After any sequence of operations from a start on a well-formed journal,
  whatever failed on the way, a restarted manager loads the journal without error, owns
  exactly the same sessions with the same entries and revisions, and requires recovery
  unless there are none.
\<close>

theorem manager_restart:
  assumes "manager_init e rows = Inr s" and "dict_ok rows" and "sorted (dict_keys rows)" and "mgr_run be s s'"
  shows "\<exists>s''. manager_init e' (jrows s') = Inr s'' \<and>
    (\<forall>i. map_option (\<lambda>v. (s_entries v, s_revision v)) (dict_get (sessions s'') i) =
         map_option (\<lambda>v. (s_entries v, s_revision v)) (dict_get (sessions s') i)) \<and>
    recovery_required s'' = (sessions s' \<noteq> [])"
proof (rule synced_restart)
  show "synced s'"
    by (rule mgr_run_pres [where I = synced, OF assms(4) synced_initial [OF assms(1-3)]])
      (rule synced_install synced_remove synced_recover synced_invalidate)+
qed

section \<open>Concrete runs\<close>

text \<open>A backend with an empty table that accepts nothing, and a journal left by a crash.\<close>

definition dead_backend :: "unit backend" where
  "dead_backend =
     \<lparr>be_readiness = ret [], be_fetch = (\<lambda>k. ret None), be_insert = (\<lambda>w. raise (TimeoutError ''no reply'')),
      be_delete = (\<lambda>k. ret ()), db_commit = ret ()\<rparr>"

definition crashed_row :: "int \<times> pyval" where
  "crashed_row = (4, journal_body \<lparr>s_entries = [replicate 64 1, replicate 64 2], s_revision = Some (PInt 7),
     s_state = ''installing''\<rparr>)"

definition crashed :: "unit mgr" where
  "crashed = \<lparr>env = (), jrows = [crashed_row],
     sessions = [(4, \<lparr>s_entries = [replicate 64 1, replicate 64 2], s_revision = Some (PInt 7), s_state = ''installing''\<rparr>)],
     recovery_required = True, trace = []\<rparr>"

lemma crashed_init: "manager_init () [crashed_row] = Inr crashed"
  by (simp add: manager_init_def journal_load_def crashed_row_def crashed_def journal_round_trip session_ok_def)

lemma crashed_recovered: "mgr_run dead_backend crashed (snd (recover dead_backend crashed))"
  by (intro run_recover run_start)

theorem manager_crash_safe_witness:
  "safe_trace (initial_knowledge crashed) (trace (snd (recover dead_backend crashed)))"
  by (rule manager_crash_safe [OF crashed_init _ crashed_recovered]) (simp add: dict_ok_def)

theorem manager_restart_witness:
  "\<exists>s''. manager_init () (jrows (snd (recover dead_backend crashed))) = Inr s'' \<and>
     recovery_required s'' = (sessions (snd (recover dead_backend crashed)) \<noteq> [])"
  using manager_restart [OF crashed_init _ _ crashed_recovered, of "()"] by (auto simp: dict_ok_def)

end
