(* ===== verification/FlowTable.thy ===== *)
theory FlowTable
  imports SessionManager
begin

text \<open>
  The interface between the session manager and the hardware flow table.  \<open>flow_table\<close>
  is the backend contract the class comment of \<open>SessionManager\<close> states, over an abstract
  table from keys to entries; under it installing and removing a pair are exact.
  \<open>native_table\<close> is the contract of the owner library's four hash operations, from which
  \<open>NativeSessionAdapter\<close> provides \<open>flow_table\<close>.
\<close>

section \<open>The backend contract\<close>

locale flow_table =
  fixes be :: "'e backend" and tbl :: "'e \<Rightarrow> bytes \<Rightarrow> bytes option"
  assumes readiness_frame: "be_readiness be e = (r1, e') \<Longrightarrow> tbl e' = tbl e"
    and commit_frame: "db_commit be e = (r2, e') \<Longrightarrow> tbl e' = tbl e"
    and fetch_frame: "be_fetch be k e = (r3, e') \<Longrightarrow> tbl e' = tbl e"
    and fetch_value: "be_fetch be k e = (Inr v, e') \<Longrightarrow> v = tbl e k"
    and insert_ok: "tbl e (take 16 w) = None \<Longrightarrow> be_insert be w e = (Inr (), e') \<Longrightarrow>
        tbl e' = (tbl e)(take 16 w \<mapsto> w)"
    and insert_failed: "tbl e (take 16 w) = None \<Longrightarrow> be_insert be w e = (Inl x, e') \<Longrightarrow>
        k \<noteq> take 16 w \<Longrightarrow> tbl e' k = tbl e k"
    and delete_ok: "be_delete be k e = (Inr (), e') \<Longrightarrow> tbl e' = (tbl e)(k := None)"
    and delete_failed: "be_delete be k e = (Inl x, e') \<Longrightarrow> tbl e' = tbl e \<or> tbl e' = (tbl e)(k := None)"

context flow_table
begin

abbreviation "table_of s \<equiv> tbl (env s)"

definition hw_same :: "('e, 'z) mgr_scheme \<Rightarrow> ('e, 'z) mgr_scheme \<Rightarrow> bool" where
  "hw_same s s' \<longleftrightarrow> sessions s' = sessions s \<and> recovery_required s' = recovery_required s"

lemma hw_same_refl [simp]: "hw_same s s"
  by (simp add: hw_same_def)

lemma hw_same_trans: "hw_same s s1 \<Longrightarrow> hw_same s1 s2 \<Longrightarrow> hw_same s s2"
  by (simp add: hw_same_def)

lemma hw_same_env [simp]: "hw_same s (s1\<lparr>env := e\<rparr>) = hw_same s s1" "hw_same s (s1\<lparr>trace := t\<rparr>) = hw_same s s1"
  by (simp_all add: hw_same_def)

lemma fetch_exact:
  "wp (hw_fetch be k) (\<lambda>r s'. hw_same s s' \<and> table_of s' = table_of s \<and> r = table_of s k)
     (\<lambda>_ s'. hw_same s s' \<and> table_of s' = table_of s) s"
  unfolding hw_fetch_def wp_bnd
  by (rule wp_io) (auto simp: wp_simps dest: fetch_frame fetch_value)

lemma delete_exact:
  "wp (hw_delete be k) (\<lambda>_ s'. hw_same s s' \<and> table_of s' = (table_of s)(k := None))
     (\<lambda>_ s'. hw_same s s' \<and> (table_of s' = table_of s \<or> table_of s' = (table_of s)(k := None))) s"
  unfolding hw_delete_def wp_thn wp_observe
  by (rule wp_io) (auto dest: delete_ok delete_failed)

text \<open>One entry removed: its key is empty and nothing else changed; on failure only its key may have.\<close>

lemma remove_entry_exact:
  fixes s :: "('e, 'z) mgr_scheme"
  shows "wp (remove_entry be w)
     (\<lambda>_ s'. hw_same s s' \<and> table_of s' = (table_of s)(take 16 w := None))
     (\<lambda>_ s'. hw_same s s' \<and> (table_of s' = table_of s \<or> table_of s' = (table_of s)(take 16 w := None))) s"
proof -
  let ?k = "take 16 w"
  let ?E = "\<lambda>_ :: exn. \<lambda>s' :: ('e, 'z) mgr_scheme. hw_same s s' \<and>
    (table_of s' = table_of s \<or> table_of s' = (table_of s)(?k := None))"
  show ?thesis
  proof (unfold remove_entry_def, rule wp_bndI [OF fetch_exact], rule wp_thnI)
    fix r :: "bytes option" and s1 :: "('e, 'z) mgr_scheme"
    assume s1: "hw_same s s1 \<and> table_of s1 = table_of s \<and> r = table_of s ?k"
    then have "(table_of s)(?k := None) = table_of s" if "r = None" using that by (auto simp: fun_eq_iff)
    then show "wp (case r of None \<Rightarrow> ret () | Some a \<Rightarrow> bnd (lift_res (owned_variants w)) (\<lambda>variants.
        thn (ensure (a \<in> set variants) (RuntimeError ''flow ownership changed'')) (hw_delete be ?k)))
      (\<lambda>_ s'. hw_same s s' \<and> table_of s' = (table_of s)(?k := None)) ?E s1"
      using s1
      by (auto simp: wp_simps split: option.split sum.split intro!: delete_exact [THEN wp_mono]
          intro: hw_same_trans)
  next
    fix s2 :: "('e, 'z) mgr_scheme"
    assume "hw_same s s2 \<and> table_of s2 = (table_of s)(?k := None)"
    then show "wp (bnd (hw_fetch be ?k) (\<lambda>again. ensure (again = None) (RuntimeError ''flow removal not confirmed'')))
      (\<lambda>_ s'. hw_same s s' \<and> table_of s' = (table_of s)(?k := None)) ?E s2"
      by (intro wp_bndI [OF fetch_exact]) (auto simp: wp_simps intro: hw_same_trans)
  qed auto
qed

definition cleared :: "bytes set \<Rightarrow> (bytes \<Rightarrow> bytes option) \<Rightarrow> bytes \<Rightarrow> bytes option" where
  "cleared ks t k = (if k \<in> ks then None else t k)"

lemma remove_entries_exact:
  "wp (for_each ws (remove_entry be))
     (\<lambda>_ s'. hw_same s s' \<and> table_of s' = cleared (take 16 ` set ws) (table_of s))
     (\<lambda>_ s'. hw_same s s' \<and> (\<forall>k. table_of s' k = table_of s k \<or> k \<in> take 16 ` set ws \<and> table_of s' k = None)) s"
proof (induction ws arbitrary: s)
  case Nil
  then show ?case by (simp add: wp_simps cleared_def fun_eq_iff)
next
  case (Cons w ws)
  show ?case
    unfolding for_each.simps
    by (rule wp_thnI [OF remove_entry_exact wp_mono [OF Cons.IH]])
      (auto simp: cleared_def fun_eq_iff intro: hw_same_trans split: if_splits)
qed

lemma save_exact:
  "wp (save be i v)
     (\<lambda>_ s'. sessions s' = dict_set i v (sessions s) \<and> recovery_required s' = recovery_required s \<and>
        table_of s' = table_of s)
     (\<lambda>_ s'. sessions s' = sessions s \<and> recovery_required s' \<and> table_of s' = table_of s) s"
  unfolding save_def wp_thn wp_fencing journal_put_def wp_upd wp_observe
  by (rule wp_io) (auto dest: commit_frame)

lemma forget_exact:
  "wp (forget be i)
     (\<lambda>_ s'. sessions s' = dict_del i (sessions s) \<and> recovery_required s' = recovery_required s \<and>
        table_of s' = table_of s)
     (\<lambda>_ s'. sessions s' = sessions s \<and> recovery_required s' \<and> table_of s' = table_of s) s"
  unfolding forget_def wp_thn wp_fencing journal_delete_def wp_upd wp_observe
  by (rule wp_io) (auto dest: commit_frame)

text \<open>A removal that returns leaves exactly the session's keys empty and forgets the session.\<close>

lemma remove_exact:
  fixes s :: "('e, 'z) mgr_scheme"
  assumes "dict_get (sessions s) i = Some old"
  shows "wp (remove be i)
     (\<lambda>_ s'. sessions s' = dict_del i (sessions s) \<and> recovery_required s' = recovery_required s \<and>
        table_of s' = cleared (take 16 ` set (s_entries old)) (table_of s))
     (\<lambda>_ s'. recovery_required s' \<and> i \<in> set (dict_keys (sessions s')) \<and>
        (\<forall>k. table_of s' k = table_of s k \<or> k \<in> take 16 ` set (s_entries old) \<and> table_of s' k = None)) s"
proof -
  let ?ks = "take 16 ` set (s_entries old)"
  let ?Q = "\<lambda>_ :: unit. \<lambda>s' :: ('e, 'z) mgr_scheme. sessions s' = dict_del i (sessions s) \<and>
    recovery_required s' = recovery_required s \<and> table_of s' = cleared ?ks (table_of s)"
  let ?T = "\<lambda>s' :: ('e, 'z) mgr_scheme. \<forall>k. table_of s' k = table_of s k \<or> k \<in> ?ks \<and> table_of s' k = None"
  let ?E = "\<lambda>_ :: exn. \<lambda>s' :: ('e, 'z) mgr_scheme. recovery_required s' \<and> i \<in> set (dict_keys (sessions s')) \<and> ?T s'"
  let ?v = "with_state ''removing'' old"
  have i: "i \<in> set (dict_keys (sessions s))" using assms dict_keys_get [of i "sessions s"] by blast
  have failed: "wp (remove_failed be i ?v e) (\<lambda>_ _. False) ?E s1"
    if "i \<in> set (dict_keys (sessions s1))" "?T s1" for e and s1 :: "('e, 'z) mgr_scheme"
    unfolding remove_failed_def wp_thn wp_require
    by (rule wp_mono [OF save_exact]) (use that in \<open>auto simp: wp_simps dom_update\<close>)
  show ?thesis
    unfolding remove_def wp_bnd wp_gets assms option.case Let_def
  proof (rule wp_thnI [where P = "\<lambda>_ s'. sessions s' = dict_set i ?v (sessions s) \<and>
        recovery_required s' = recovery_required s \<and> table_of s' = table_of s" and E' = ?E])
    show "wp (catch_all (save be i ?v) (remove_failed be i ?v)) (\<lambda>_ s'. sessions s' = dict_set i ?v (sessions s) \<and>
        recovery_required s' = recovery_required s \<and> table_of s' = table_of s) ?E s"
      by (rule wp_catch_allI [OF save_exact]) (use i in \<open>auto simp del: set_map intro!: failed [THEN wp_mono]\<close>)
  next
    fix s1 :: "('e, 'z) mgr_scheme"
    assume s1: "sessions s1 = dict_set i ?v (sessions s) \<and>
        recovery_required s1 = recovery_required s \<and> table_of s1 = table_of s"
    show "wp (thn (catch_all (for_each (s_entries ?v) (remove_entry be)) (\<lambda>e.
           thn (upd (\<lambda>s. s\<lparr>sessions := dict_set i (with_state ''unknown'' ?v) (sessions s)\<rparr>)) (remove_failed be i ?v e)))
         (fencing (forget be i))) ?Q ?E s1"
    proof (rule wp_thnI [where P = "\<lambda>_ s'. hw_same s1 s' \<and> table_of s' = cleared ?ks (table_of s)" and E' = ?E])
      show "wp (catch_all (for_each (s_entries ?v) (remove_entry be)) (\<lambda>e.
           thn (upd (\<lambda>s. s\<lparr>sessions := dict_set i (with_state ''unknown'' ?v) (sessions s)\<rparr>))
             (remove_failed be i ?v e))) (\<lambda>_ s'. hw_same s1 s' \<and> table_of s' = cleared ?ks (table_of s)) ?E s1"
        by (rule wp_catch_allI [OF remove_entries_exact])
          (use s1 in \<open>auto simp: wp_thn wp_upd dom_update hw_same_def intro!: failed [THEN wp_mono]\<close>)
    next
      fix s2 :: "('e, 'z) mgr_scheme"
      assume s2: "hw_same s1 s2 \<and> table_of s2 = cleared ?ks (table_of s)"
      show "wp (fencing (forget be i)) ?Q ?E s2"
        unfolding wp_fencing
        by (rule wp_mono [OF forget_exact])
          (use s1 s2 in \<open>auto simp: hw_same_def delete_update_same dom_update cleared_def\<close>)
    qed auto
  qed auto
qed

section \<open>Installing\<close>

lemma insert_entry_exact:
  fixes s :: "('e, 'z) mgr_scheme"
  assumes "table_of s (take 16 w) = None"
  shows "wp (insert_entry be w)
     (\<lambda>_ s'. hw_same s s' \<and> table_of s' = (table_of s)(take 16 w \<mapsto> w))
     (\<lambda>_ s'. hw_same s s' \<and> (\<forall>k. k \<noteq> take 16 w \<longrightarrow> table_of s' k = table_of s k)) s"
proof -
  have "wp (hw_insert be w)
     (\<lambda>_ s'. hw_same s s' \<and> table_of s' = (table_of s)(take 16 w \<mapsto> w))
     (\<lambda>_ s'. hw_same s s' \<and> (\<forall>k. k \<noteq> take 16 w \<longrightarrow> table_of s' k = table_of s k)) s"
    unfolding hw_insert_def wp_thn wp_observe
    by (rule wp_io) (use assms in \<open>auto dest: insert_ok insert_failed\<close>)
  then show ?thesis
    unfolding insert_entry_def
    by (rule wp_thnI [OF _ wp_bndI [OF fetch_exact]]) (auto simp: wp_simps intro: hw_same_trans)
qed

text \<open>
  The outcome of an insertion that failed with \<open>x\<close>: the manager is fenced, or an interrupt of the
  rollback left the session listed, or the table and the sessions are what they were.
\<close>

definition undone :: "exn \<Rightarrow> int \<Rightarrow> bytes set \<Rightarrow> (bytes \<Rightarrow> bytes option) \<Rightarrow> (int \<times> session) list \<Rightarrow>
    ('e, 'z) mgr_scheme \<Rightarrow> bool" where
  "undone x i ks t ss s' \<longleftrightarrow> (\<forall>k. k \<notin> ks \<longrightarrow> table_of s' k = t k) \<and>
     (recovery_required s' \<or> \<not> is_exception x \<and> i \<in> set (dict_keys (sessions s')) \<or> table_of s' = t \<and> sessions s' = ss)"

lemma roll_back_exact:
  fixes s :: "('e, 'z) mgr_scheme"
  assumes "sessions s = dict_set i v ss" "i \<notin> set (dict_keys ss)"
    and "set touched \<subseteq> set (s_entries v)" and "\<And>w. w \<in> set (s_entries v) \<Longrightarrow> t (take 16 w) = None"
    and "\<And>k. k \<notin> take 16 ` set touched \<Longrightarrow> table_of s k = t k"
  shows "wp (roll_back be i v touched e) (\<lambda>_ _. False)
     (\<lambda>x. undone x i (take 16 ` set (s_entries v)) t ss) s"
proof -
  let ?ks = "take 16 ` set (s_entries v)"
  let ?E = "\<lambda>x :: exn. undone x i ?ks t ss :: ('e, 'z) mgr_scheme \<Rightarrow> bool"
  let ?I = "\<lambda>ws (s' :: ('e, 'z) mgr_scheme). sessions s' = dict_set i v ss \<and> set ws \<subseteq> set (s_entries v) \<and>
    (\<forall>k. k \<notin> ?ks \<longrightarrow> table_of s' k = t k) \<and>
    (recovery_required s' \<or> (\<forall>k. k \<notin> take 16 ` set ws \<longrightarrow> table_of s' k = t k))"
  have listed: "undone x i ?ks t ss s'" if "\<not> is_exception x" "sessions s' = dict_set i v ss" "\<forall>k. k \<notin> ?ks \<longrightarrow> table_of s' k = t k"
    for x and s' :: "('e, 'z) mgr_scheme"
    using that by (simp add: undone_def dom_update)
  have loop: "wp (for_each touched (\<lambda>w. catch_exn (remove_entry be w) (\<lambda>_. require_recovery))) (\<lambda>_. ?I []) ?E s"
  proof (rule wp_for_each [where I = ?I])
    have "take 16 ` set touched \<subseteq> ?ks" using assms(3) by blast
    then show "?I touched s" using assms by blast
  next
    fix w ws and s1 :: "('e, 'z) mgr_scheme" assume I: "?I (w # ws) s1"
    then have k: "take 16 w \<in> ?ks" "t (take 16 w) = None" using assms(4) by auto
    show "wp (catch_exn (remove_entry be w) (\<lambda>_. require_recovery)) (\<lambda>_. ?I ws) ?E s1"
      unfolding wp_catch_exn
    proof (rule wp_mono [OF remove_entry_exact])
      fix s2 :: "('e, 'z) mgr_scheme"
      assume "hw_same s1 s2 \<and> table_of s2 = (table_of s1)(take 16 w := None)"
      then show "?I ws s2" using I k by (auto simp: hw_same_def)
    next
      fix x and s2 :: "('e, 'z) mgr_scheme"
      assume s2: "hw_same s1 s2 \<and> (table_of s2 = table_of s1 \<or> table_of s2 = (table_of s1)(take 16 w := None))"
      then have "\<forall>k. k \<notin> ?ks \<longrightarrow> table_of s2 k = t k" using I k by auto
      then show "if is_exception x then wp require_recovery (\<lambda>_. ?I ws) ?E s2 else ?E x s2"
        using I s2 by (auto simp: wp_simps hw_same_def intro!: listed)
    qed
  qed
  have rest: "wp (bnd (gets recovery_required) (\<lambda>fenced.
        thn (if fenced then save be i (with_state ''unknown'' v) else forget be i) (raise e))) (\<lambda>_ _. False) ?E s1"
    if I: "?I [] s1" for s1 :: "('e, 'z) mgr_scheme"
  proof (cases "recovery_required s1")
    case True
    then show ?thesis
      unfolding wp_bnd wp_gets wp_thn
      by simp (rule wp_mono [OF save_exact], use I in \<open>auto simp: wp_simps undone_def dom_update\<close>)
  next
    case False
    have "dict_del i (dict_set i v ss) = ss" using assms(2) by (simp add: delete_update_same)
    with False show ?thesis
      unfolding wp_bnd wp_gets wp_thn
      by simp (rule wp_mono [OF forget_exact], use I in \<open>auto simp: wp_simps undone_def fun_eq_iff\<close>)
  qed
  show ?thesis unfolding roll_back_def by (rule wp_thnI [OF loop rest]) auto
qed

definition loaded :: "bytes list \<Rightarrow> (bytes \<Rightarrow> bytes option) \<Rightarrow> bytes \<Rightarrow> bytes option" where
  "loaded ws t = foldl (\<lambda>f w. f(take 16 w \<mapsto> w)) t ws"

lemma insert_entries_exact:
  fixes s :: "('e, 'z) mgr_scheme"
  assumes "sessions s = dict_set i v ss" "i \<notin> set (dict_keys ss)" "s_entries v = rev touched @ rest"
    and "distinct (map (take 16) (s_entries v))" and "\<And>w. w \<in> set (s_entries v) \<Longrightarrow> t (take 16 w) = None"
    and "table_of s = loaded (rev touched) t"
  shows "wp (insert_entries be i v touched rest)
     (\<lambda>_ s'. hw_same s s' \<and> table_of s' = loaded (s_entries v) t)
     (\<lambda>x. undone x i (take 16 ` set (s_entries v)) t ss) s"
  using assms
proof (induction rest arbitrary: touched s)
  case Nil
  then show ?case by (simp add: wp_simps)
next
  case (Cons w rest)
  have off: "loaded ws t k = t k" if "k \<notin> take 16 ` set ws" for ws k
    using that by (induction ws rule: rev_induct) (auto simp: loaded_def)
  have new: "take 16 w \<notin> take 16 ` set touched" using Cons.prems(3,4) by auto
  then have none: "table_of s (take 16 w) = None"
    using Cons.prems(3,5,6) off [of "take 16 w" "rev touched"] by simp
  show ?case
    unfolding insert_entries.simps
  proof (rule wp_thnI [where P = "\<lambda>_ s'. hw_same s s' \<and> table_of s' = loaded (rev (w # touched)) t"])
    show "wp (catch_all (insert_entry be w) (roll_back be i v (w # touched)))
       (\<lambda>_ s'. hw_same s s' \<and> table_of s' = loaded (rev (w # touched)) t)
       (\<lambda>x. undone x i (take 16 ` set (s_entries v)) t ss) s"
    proof (rule wp_catch_allI [OF insert_entry_exact [OF none]])
      fix e and s1 :: "('e, 'z) mgr_scheme"
      assume s1: "hw_same s s1 \<and> (\<forall>k. k \<noteq> take 16 w \<longrightarrow> table_of s1 k = table_of s k)"
      have "table_of s1 k = t k" if "k \<notin> take 16 ` set (w # touched)" for k
        using that s1 Cons.prems(6) off [of k "rev touched"] by simp
      with s1 Cons.prems show "wp (roll_back be i v (w # touched) e)
         (\<lambda>_ s'. hw_same s s' \<and> table_of s' = loaded (rev (w # touched)) t)
         (\<lambda>x. undone x i (take 16 ` set (s_entries v)) t ss) s1"
        by (intro roll_back_exact [THEN wp_mono]) (auto simp: hw_same_def)
    qed (use Cons.prems in \<open>auto simp: loaded_def\<close>)
  next
    fix s1 :: "('e, 'z) mgr_scheme"
    assume s1: "hw_same s s1 \<and> table_of s1 = loaded (rev (w # touched)) t"
    then show "wp (insert_entries be i v (w # touched) rest)
       (\<lambda>_ s'. hw_same s s' \<and> table_of s' = loaded (s_entries v) t)
       (\<lambda>x. undone x i (take 16 ` set (s_entries v)) t ss) s1"
      by (intro wp_mono [OF Cons.IH [of s1 "w # touched"]])
        (use Cons.prems in \<open>auto simp: hw_same_def\<close>)
  qed
qed

lemma preflight_exact:
  fixes s :: "('e, 'z) mgr_scheme"
  shows "wp (for_each ws (\<lambda>w. bnd (hw_fetch be (take 16 w)) (\<lambda>r.
      ensure (r = None) (RuntimeError ''flow key is already owned''))))
    (\<lambda>_ s'. hw_same s s' \<and> table_of s' = table_of s \<and> (\<forall>w \<in> set ws. table_of s (take 16 w) = None))
    (\<lambda>_ s'. hw_same s s' \<and> table_of s' = table_of s) s"
proof (induction ws arbitrary: s)
  case Nil
  then show ?case by (simp add: wp_simps)
next
  case (Cons w ws)
  have "wp (bnd (hw_fetch be (take 16 w)) (\<lambda>r. ensure (r = None) (RuntimeError ''flow key is already owned'')))
     (\<lambda>_ s'. hw_same s s' \<and> table_of s' = table_of s \<and> table_of s (take 16 w) = None)
     (\<lambda>_ s'. hw_same s s' \<and> table_of s' = table_of s) s"
    by (rule wp_bndI [OF fetch_exact]) (auto simp: wp_simps)
  then show ?case
    unfolding for_each.simps
    by (rule wp_thnI [OF _ wp_mono [OF Cons.IH]]) (auto intro: hw_same_trans)
qed

lemma program_pair_exact:
  fixes s :: "('e, 'z) mgr_scheme"
  assumes "i \<notin> set (dict_keys (sessions s))" and "distinct (map (take 16) (s_entries v))"
  shows "wp (program_pair be i v)
     (\<lambda>_ s'. sessions s' = dict_set i (with_state ''installed'' v) (sessions s) \<and>
        recovery_required s' = recovery_required s \<and>
        (\<forall>w \<in> set (s_entries v). table_of s (take 16 w) = None) \<and>
        table_of s' = loaded (s_entries v) (table_of s))
     (\<lambda>x. undone x i (take 16 ` set (s_entries v)) (table_of s) (sessions s)) s"
proof -
  let ?Q = "\<lambda>_ :: unit. \<lambda>s' :: ('e, 'z) mgr_scheme.
        sessions s' = dict_set i (with_state ''installed'' v) (sessions s) \<and>
        recovery_required s' = recovery_required s \<and>
        (\<forall>w \<in> set (s_entries v). table_of s (take 16 w) = None) \<and>
        table_of s' = loaded (s_entries v) (table_of s)"
  let ?E = "\<lambda>x :: exn. undone x i (take 16 ` set (s_entries v)) (table_of s) (sessions s) :: ('e, 'z) mgr_scheme \<Rightarrow> bool"
  have off: "loaded ws t k = t k" if "k \<notin> take 16 ` set ws" for ws k t
    using that by (induction ws rule: rev_induct) (auto simp: loaded_def)
  show ?thesis
    unfolding program_pair_def
  proof (rule wp_thnI [OF preflight_exact], unfold wp_thn)
    fix s1 :: "('e, 'z) mgr_scheme"
    assume s1: "hw_same s s1 \<and> table_of s1 = table_of s \<and> (\<forall>w \<in> set (s_entries v). table_of s (take 16 w) = None)"
    show "wp (save be i v) (\<lambda>_. wp (insert_entries be i v [] (s_entries v))
        (\<lambda>_. wp (fencing (save be i (with_state ''installed'' v))) ?Q ?E) ?E) ?E s1"
    proof (rule wp_mono [OF save_exact])
      fix s2 :: "('e, 'z) mgr_scheme"
      assume s2: "sessions s2 = dict_set i v (sessions s1) \<and> recovery_required s2 = recovery_required s1 \<and>
        table_of s2 = table_of s1"
      show "wp (insert_entries be i v [] (s_entries v))
          (\<lambda>_. wp (fencing (save be i (with_state ''installed'' v))) ?Q ?E) ?E s2"
      proof (rule wp_mono [OF insert_entries_exact [where ss = "sessions s" and t = "table_of s"]])
        fix s3 :: "('e, 'z) mgr_scheme"
        assume "hw_same s2 s3 \<and> table_of s3 = loaded (s_entries v) (table_of s)"
        then show "wp (fencing (save be i (with_state ''installed'' v))) ?Q ?E s3"
          unfolding wp_fencing
          by (intro wp_mono [OF save_exact]) (use s1 s2 in \<open>auto simp: hw_same_def undone_def off\<close>)
      qed (use assms s1 s2 in \<open>auto simp: hw_same_def loaded_def\<close>)
    qed (use s1 in \<open>auto simp: undone_def hw_same_def\<close>)
  qed (auto simp: undone_def hw_same_def)
qed

lemma uint_arg_int: "uint_arg v n name = Inr i \<Longrightarrow> i = the_int v \<and> v = PInt (the_int v)"
  by (auto simp: uint_arg_Inr_iff)

lemma install_exact:
  fixes s :: "('e, 'z) mgr_scheme"
  shows "wp (install be ident entries revision zones)
     (\<lambda>_ s'. \<exists>i a b. ident = PInt i \<and> entries = [a, b] \<and> take 16 a \<noteq> take 16 b \<and> directions_reverse a b \<and>
        i \<notin> set (dict_keys (sessions s)) \<and> \<not> recovery_required s \<and> \<not> recovery_required s' \<and>
        sessions s' = dict_set i \<lparr>s_entries = entries, s_revision = Some revision, s_state = ''installed''\<rparr> (sessions s) \<and>
        table_of s (take 16 a) = None \<and> table_of s (take 16 b) = None \<and>
        table_of s' = (table_of s)(take 16 a \<mapsto> a, take 16 b \<mapsto> b))
     (\<lambda>x. undone x (the_int ident) (take 16 ` set entries) (table_of s) (sessions s)) s"
proof -
  have same: "undone x i ks (table_of s) (sessions s) s" for x i ks by (simp add: undone_def)
  have env: "undone x i ks (table_of s) (sessions s) (s\<lparr>env := en\<rparr>)" if "be_readiness be (env s) = (r, en)" for x i ks r en
    using readiness_frame [OF that] by (simp add: undone_def)
  have body: "wp (program_pair be i \<lparr>s_entries = entries, s_revision = Some revision, s_state = ''installing''\<rparr>)
     (\<lambda>_ s'. \<exists>i a b. ident = PInt i \<and> entries = [a, b] \<and> take 16 a \<noteq> take 16 b \<and> directions_reverse a b \<and>
        i \<notin> set (dict_keys (sessions s)) \<and> \<not> recovery_required s \<and> \<not> recovery_required s' \<and>
        sessions s' = dict_set i \<lparr>s_entries = entries, s_revision = Some revision, s_state = ''installed''\<rparr> (sessions s) \<and>
        table_of s (take 16 a) = None \<and> table_of s (take 16 b) = None \<and>
        table_of s' = (table_of s)(take 16 a \<mapsto> a, take 16 b \<mapsto> b))
     (\<lambda>x. undone x (the_int ident) (take 16 ` set entries) (table_of s) (sessions s)) (s\<lparr>env := en\<rparr>)"
    if g: "i = the_int ident \<and> ident = PInt (the_int ident)" "\<not> recovery_required s" "be_readiness be (env s) = (r, en)"
      "i \<notin> set (dict_keys (sessions s))" "length entries = 2" "install_checks entries zones = Inr u" for i r en u
  proof -
    from g(5) obtain a b where ab: "entries = [a, b]" by (auto simp: numeral_2_eq_2 length_Suc_conv)
    have d: "take 16 a \<noteq> take 16 b" "directions_reverse a b"
      using g(6) by (auto simp: ab install_checks_def res_iffs Let_def)
    have "ident = PInt i" using g(1) by metis
    then show ?thesis
      by (intro wp_mono [OF program_pair_exact])
        (use g(2-5) d readiness_frame [OF g(3)] in \<open>auto simp: ab with_state_def loaded_def\<close>)
  qed
  show ?thesis
    unfolding install_def wp_bnd wp_thn wp_lift_res wp_gets wp_ensure
    by (auto split: sum.split simp: same dest!: uint_arg_int intro!: wp_io env)
      (rule wp_mono [OF body]; force)
qed

end

section \<open>The owner library's operations\<close>

definition adapter_backend :: "'e transport \<Rightarrow> ('e, unit) py \<Rightarrow> 'e backend" where
  "adapter_backend tr commit =
     \<lparr>be_readiness = adapter_readiness tr, be_fetch = adapter_fetch tr, be_insert = adapter_insert tr,
      be_delete = adapter_delete tr, db_commit = commit\<rparr>"

definition native_key :: "bytes \<Rightarrow> bytes" where
  "native_key n = slice 16 32 n"

text \<open>
  What the four operations of the library do to its table, success being status 0 and a
  missing key status 3: \<open>insert\<close> of an absent key stores the bare identity (key and flow
  id), \<open>update\<close> of a present key its actions; a call that does not report success may
  have taken effect or not.
\<close>

locale native_table =
  fixes tr :: "'e transport" and commit :: "('e, unit) py" and tbl :: "'e \<Rightarrow> bytes \<Rightarrow> bytes option"
  assumes status_frame: "tr_status tr e = (r1, e') \<Longrightarrow> tbl e' = tbl e"
    and health_frame: "tr_health tr e = (r2, e') \<Longrightarrow> tbl e' = tbl e"
    and native_commit_frame: "commit e = (r3, e') \<Longrightarrow> tbl e' = tbl e"
    and native_fetch: "tr_call tr ''fetch'' n e = (r4, e') \<Longrightarrow> tbl e' = tbl e"
    and native_found: "tr_call tr ''fetch'' n e = (Inr (PInt 0, b), e') \<Longrightarrow>
        decode_native b (native_key n) = Inr w \<Longrightarrow> tbl e (native_key n) = Some w"
    and native_missing: "tr_call tr ''fetch'' n e = (Inr (PInt 3, b), e') \<Longrightarrow> tbl e (native_key n) = None"
    and keyed: "tbl e k = Some w \<Longrightarrow> take 16 w = k"
    and native_insert: "encode_native i = Inr n \<Longrightarrow> tbl e (take 16 i) = None \<Longrightarrow>
        entry4 (take 16 i) (flow_id_of i) = Inr i \<Longrightarrow> tr_call tr ''insert'' n e = (r5, e') \<Longrightarrow>
        (case r5 of Inr (PInt c, _) \<Rightarrow> c = 0 | _ \<Rightarrow> False) \<and> tbl e' = (tbl e)(take 16 i \<mapsto> i) \<or>
        \<not> (case r5 of Inr (PInt c, _) \<Rightarrow> c = 0 | _ \<Rightarrow> False) \<and>
          (tbl e' = tbl e \<or> tbl e' = (tbl e)(take 16 i \<mapsto> i))"
    and native_update: "encode_native w = Inr n \<Longrightarrow> tbl e (take 16 w) \<noteq> None \<Longrightarrow>
        tr_call tr ''update'' n e = (r6, e') \<Longrightarrow>
        (case r6 of Inr (PInt c, _) \<Rightarrow> c = 0 | _ \<Rightarrow> False) \<and> tbl e' = (tbl e)(take 16 w \<mapsto> w) \<or>
        \<not> (case r6 of Inr (PInt c, _) \<Rightarrow> c = 0 | _ \<Rightarrow> False) \<and>
          (tbl e' = tbl e \<or> tbl e' = (tbl e)(take 16 w \<mapsto> w))"
    and native_delete: "encode_native w = Inr n \<Longrightarrow> tbl e (take 16 w) = Some w \<Longrightarrow>
        tr_call tr ''delete'' n e = (r7, e') \<Longrightarrow>
        (case r7 of Inr (PInt c, _) \<Rightarrow> c = 0 | _ \<Rightarrow> False) \<and> tbl e' = (tbl e)(take 16 w := None) \<or>
        \<not> (case r7 of Inr (PInt c, _) \<Rightarrow> c = 0 | _ \<Rightarrow> False) \<and>
          (tbl e' = tbl e \<or> tbl e' = (tbl e)(take 16 w := None))"

context native_table
begin

lemma check_frame: "wp (check_transport tr) (\<lambda>_ e'. tbl e' = tbl e) (\<lambda>_ e'. tbl e' = tbl e) e"
proof -
  have "wp (tr_status tr) (\<lambda>_ e'. tbl e' = tbl e) (\<lambda>_ e'. tbl e' = tbl e) e"
    using status_frame by (auto simp: wp_def split: prod.split sum.split)
  then show ?thesis
    unfolding check_transport_def
    by (rule wp_bndI) (auto simp: wp_simps split: sum.split)
qed

lemma readiness_native: "wp (adapter_readiness tr) (\<lambda>_ e'. tbl e' = tbl e) (\<lambda>_ e'. tbl e' = tbl e) e"
proof -
  have health: "wp (tr_health tr) (\<lambda>_ e'. tbl e' = tbl e) (\<lambda>_ e'. tbl e' = tbl e) e1" if "tbl e1 = tbl e" for e1
    using health_frame that by (auto simp: wp_def split: prod.split sum.split)
  have "wp (catch_all (thn (check_transport tr) (ret None))
      (\<lambda>e. if is_runtime_error e then ret (Some [exn_text e]) else raise e))
    (\<lambda>_ e'. tbl e' = tbl e) (\<lambda>_ e'. tbl e' = tbl e) e"
    unfolding wp_catch_all wp_thn by (rule wp_mono [OF check_frame]) (auto simp: wp_simps)
  then show ?thesis
    unfolding adapter_readiness_def
    by (rule wp_bndI) (auto simp: wp_simps split: option.split sum.split intro!: health [THEN wp_mono])
qed

text \<open>One checked call: its native status is 0, or 3 for a fetch; other outcomes raise.\<close>

lemma call_wp:
  assumes "\<And>n b e1 e2. encode_native w = Inr n \<Longrightarrow> tbl e1 = tbl e \<Longrightarrow> tr_call tr op n e1 = (Inr (PInt 0, b), e2) \<Longrightarrow> Q (0, b) e2"
    and "\<And>n b e1 e2. encode_native w = Inr n \<Longrightarrow> tbl e1 = tbl e \<Longrightarrow> op = ''fetch'' \<Longrightarrow>
      tr_call tr op n e1 = (Inr (PInt 3, b), e2) \<Longrightarrow> Q (3, b) e2"
    and "\<And>x e1. tbl e1 = tbl e \<Longrightarrow> E x e1"
    and "\<And>n r x e1 e2. encode_native w = Inr n \<Longrightarrow> tbl e1 = tbl e \<Longrightarrow> tr_call tr op n e1 = (r, e2) \<Longrightarrow> E x e2"
  shows "wp (adapter_call tr op w) Q E e"
proof -
  show ?thesis
    unfolding adapter_call_def
  proof (rule wp_thnI [OF check_frame])
    fix e1 assume e1: "tbl e1 = tbl e"
    show "wp (bnd (lift_res (encode_native w)) (\<lambda>native. bnd (tr_call tr op native) (\<lambda>(rc, result).
        thn (ensure (is_int rc \<and> length result = native_size) (RuntimeError ''malformed FE100 session response''))
        (thn (ensure (the_int rc = 0 \<or> op = ''fetch'' \<and> the_int rc = 3)
            (RuntimeError (''FE100 '' @ op @ '' failed: '' @ dec_int (the_int rc))))
        (ret (the_int rc, result)))))) Q E e1"
    proof (cases "encode_native w")
      case (Inl x)
      then show ?thesis using assms(3) e1 by (simp add: wp_simps)
    next
      case (Inr n)
      with assms(1,2,4) [OF Inr e1] show ?thesis
        unfolding wp_bnd [of "tr_call tr op n"] wp_bnd wp_lift_res Inr sum.case wp_def [of "tr_call tr op n"]
        by (auto simp: wp_simps split: prod.split sum.split elim!: is_int.elims)
    qed
  qed (rule assms(3))
qed

lemma fetch_native:
  "wp (adapter_fetch tr k) (\<lambda>r e'. tbl e' = tbl e \<and> r = tbl e k) (\<lambda>_ e'. tbl e' = tbl e) e"
proof (cases "entry4 k 0")
  case (Inl x)
  then show ?thesis by (simp add: adapter_fetch_def wp_simps)
next
  case (Inr w)
  then have k: "take 16 w = k" by (auto simp: entry4_Inr_iff wire_form_slices key_ok_length)
  have nk: "native_key n = k" if "encode_native w = Inr n" for n
  proof -
    from decode_encode [OF that] have "native_key n = take 16 w"
      by (auto simp: decode_native_def res_iffs native_key_def)
    with k show ?thesis by simp
  qed
  let ?Q = "\<lambda>(rc, b) e'. tbl e' = tbl e \<and> (if rc = (3 :: int) then tbl e k = None
         else \<forall>v. decode_native b k = Inr v \<longrightarrow> tbl e k = Some v)"
  have "wp (adapter_call tr ''fetch'' w) ?Q (\<lambda>_ e'. tbl e' = tbl e) e"
  proof (rule call_wp)
    fix n b e1 e2 assume a: "encode_native w = Inr n" "tbl e1 = tbl e" "tr_call tr ''fetch'' n e1 = (Inr (PInt 0, b), e2)"
    have "decode_native b k = Inr v \<longrightarrow> tbl e k = Some v" for v
      using native_found [OF a(3)] nk [OF a(1)] a(2) by metis
    then show "?Q (0, b) e2"
      using native_fetch [OF a(3)] a(2) by simp
  next
    fix n b e1 e2 assume a: "encode_native w = Inr n" "tbl e1 = tbl e" "tr_call tr ''fetch'' n e1 = (Inr (PInt 3, b), e2)"
    then show "?Q (3, b) e2" using native_fetch [OF a(3)] native_missing [OF a(3)] nk [OF a(1)] by simp
  qed (use native_fetch in auto)
  then show ?thesis
    unfolding adapter_fetch_def wp_bnd wp_lift_res Inr sum.case
    by (rule wp_mono) (auto simp: wp_simps split: sum.split)
qed

lemma insert_native:
  assumes "tbl e (take 16 w) = None"
  shows "wp (adapter_insert tr w) (\<lambda>_ e'. tbl e' = (tbl e)(take 16 w \<mapsto> w))
    (\<lambda>_ e'. \<forall>k. k \<noteq> take 16 w \<longrightarrow> tbl e' k = tbl e k) e"
proof -
  let ?k = "take 16 w"
  let ?E = "\<lambda>_ :: exn. \<lambda>e'. \<forall>k. k \<noteq> ?k \<longrightarrow> tbl e' k = tbl e k"
  have insert: "wp (adapter_call tr ''insert'' i) (\<lambda>_ e'. tbl e' = (tbl e)(?k \<mapsto> i)) ?E e1"
    if i: "entry4 ?k (flow_id_of w) = Inr i" "validate_entry4 w = Inr w" "tbl e1 = tbl e" for i e1
  proof -
    have w: "key_ok ?k" "0 \<le> flow_id_of w" "flow_id_of w < 2 ^ 32" "i = wire_form ?k 0 0 (nat (flow_id_of w)) (replicate 12 0)"
      using i(1) by (auto simp: entry4_Inr_iff)
    note l = key_ok_length [OF w(1)]
    have "take 16 i = ?k" "flow_id_of i = flow_id_of w"
      unfolding w(4) using w(2,3) wire_form_slices(2) [OF l] flow_id_form [OF l] by simp_all
    then have same: "take 16 i = ?k" "entry4 ?k (flow_id_of i) = Inr i"
      using i(1) by simp_all
    have law: "tbl e3 = (tbl e)(?k \<mapsto> i) \<or> (\<not> (case r of Inr (PInt c, _) \<Rightarrow> c = 0 | _ \<Rightarrow> False) \<and> tbl e3 = tbl e)"
      "(case r of Inr (PInt c, _) \<Rightarrow> c = 0 | _ \<Rightarrow> False) \<Longrightarrow> tbl e3 = (tbl e)(?k \<mapsto> i)"
      if "encode_native i = Inr n" "tbl e2 = tbl e1" "tr_call tr ''insert'' n e2 = (r, e3)" for n e2 e3 r
      using native_insert [OF that(1) _ _ that(3)] that(2) i(3) same assms by auto
    show ?thesis
    proof (rule call_wp)
      show "tbl e3 = (tbl e)(?k \<mapsto> i)" if "encode_native i = Inr n" "tbl e2 = tbl e1"
        "tr_call tr ''insert'' n e2 = (Inr (PInt 0, b), e3)" for n b e2 e3
        using law(2) [OF that] by simp
      show "\<forall>k. k \<noteq> ?k \<longrightarrow> tbl e3 k = tbl e k" if "encode_native i = Inr n" "tbl e2 = tbl e1"
        "tr_call tr ''insert'' n e2 = (r, e3)" for n r and x :: exn and e2 e3
        using law(1) [OF that] by auto
    qed (use i(3) in auto)
  qed
  have update: "wp (adapter_call tr ''update'' w) (\<lambda>_ e'. tbl e' = (tbl e)(?k \<mapsto> w)) ?E e1"
    if "tbl e1 = (tbl e)(?k \<mapsto> i)" for i e1
  proof -
    have law: "tbl e3 = (tbl e)(?k \<mapsto> w) \<or> (\<not> (case r of Inr (PInt c, _) \<Rightarrow> c = 0 | _ \<Rightarrow> False) \<and> tbl e3 = (tbl e)(?k \<mapsto> i))"
      "(case r of Inr (PInt c, _) \<Rightarrow> c = 0 | _ \<Rightarrow> False) \<Longrightarrow> tbl e3 = (tbl e)(?k \<mapsto> w)"
      if "encode_native w = Inr n" "tbl e2 = tbl e1" "tr_call tr ''update'' n e2 = (r, e3)" for n e2 e3 r
      using native_update [OF that(1) _ that(3)] that(2) \<open>tbl e1 = (tbl e)(?k \<mapsto> i)\<close> by auto
    show ?thesis
    proof (rule call_wp)
      show "tbl e3 = (tbl e)(?k \<mapsto> w)" if "encode_native w = Inr n" "tbl e2 = tbl e1"
        "tr_call tr ''update'' n e2 = (Inr (PInt 0, b), e3)" for n b e2 e3
        using law(2) [OF that] by simp
      show "\<forall>k. k \<noteq> ?k \<longrightarrow> tbl e3 k = tbl e k" if "encode_native w = Inr n" "tbl e2 = tbl e1"
        "tr_call tr ''update'' n e2 = (r, e3)" for n r and x :: exn and e2 e3
        using law(1) [OF that] by auto
    qed (use that in auto)
  qed
  have health: "wp (tr_health tr) (\<lambda>_ e'. tbl e' = tbl e) (\<lambda>_ e'. tbl e' = tbl e) e1" if "tbl e1 = tbl e" for e1
    using health_frame that by (auto simp: wp_def split: prod.split sum.split)
  have program: "wp (program_native tr w i) (\<lambda>_ e'. tbl e' = (tbl e)(?k \<mapsto> w)) ?E e1"
    if "entry4 ?k (flow_id_of w) = Inr i" "validate_entry4 w = Inr w" "tbl e1 = tbl e" for i e1
    unfolding program_native_def
    by (rule wp_bndI [OF insert [OF that]]) (auto simp: wp_simps intro!: update [THEN wp_mono])
  have gate: "wp (nat_gate tr w) (\<lambda>_ e'. tbl e' = tbl e) (\<lambda>_ e'. tbl e' = tbl e) e1" if "tbl e1 = tbl e" for e1
    unfolding nat_gate_def using that
    by (auto simp: wp_simps split: sum.split intro!: health [THEN wp_mono])
  show ?thesis
    unfolding adapter_insert_def
  proof (rule wp_bndI [OF readiness_native])
    fix rs e1 assume e1: "tbl e1 = tbl e"
    show "wp (thn (ensure (rs = []) (RuntimeError (join ''; '' rs)))
       (bnd (lift_res (validate_entry4 w)) (\<lambda>wire. thn (nat_gate tr wire)
       (bnd (lift_res (entry4 (take 16 wire) (flow_id_of wire))) (program_native tr wire)))))
      (\<lambda>_ e'. tbl e' = (tbl e)(?k \<mapsto> w)) ?E e1"
    proof (cases "validate_entry4 w")
      case (Inl x)
      with e1 show ?thesis by (simp add: wp_simps)
    next
      case (Inr w')
      then have w: "validate_entry4 w = Inr w" using validate_entry4_same by metis
      have "wp (thn (nat_gate tr w) (bnd (lift_res (entry4 ?k (flow_id_of w))) (program_native tr w)))
          (\<lambda>_ e'. tbl e' = (tbl e)(?k \<mapsto> w)) ?E e1"
        by (rule wp_thnI [OF gate [OF e1]])
          (auto simp: wp_simps split: sum.split intro!: program [THEN wp_mono] w)
      with e1 w show ?thesis
        by (simp add: wp_thn [of "ensure b e" for b e] wp_ensure)
    qed
  qed auto
qed

lemma delete_native:
  "wp (adapter_delete tr k) (\<lambda>_ e'. tbl e' = (tbl e)(k := None))
    (\<lambda>_ e'. tbl e' = tbl e \<or> tbl e' = (tbl e)(k := None)) e"
proof -
  let ?E = "\<lambda>_ :: exn. \<lambda>e'. tbl e' = tbl e \<or> tbl e' = (tbl e)(k := None)"
  have del: "wp (adapter_call tr ''delete'' w) (\<lambda>_ e'. tbl e' = (tbl e)(k := None)) ?E e1"
    if w: "tbl e k = Some w" "tbl e1 = tbl e" "take 16 w = k" for w e1
  proof -
    have law: "tbl e3 = (tbl e)(k := None) \<or> \<not> (case r of Inr (PInt c, _) \<Rightarrow> c = 0 | _ \<Rightarrow> False) \<and> tbl e3 = tbl e"
      if "encode_native w = Inr n" "tbl e2 = tbl e1" "tr_call tr ''delete'' n e2 = (r, e3)" for n e2 e3 r
      using native_delete [OF that(1) _ that(3)] that(2) w by auto
    show ?thesis
    proof (rule call_wp)
      show "tbl e3 = (tbl e)(k := None)" if "encode_native w = Inr n" "tbl e2 = tbl e1"
        "tr_call tr ''delete'' n e2 = (Inr (PInt 0, b), e3)" for n b e2 e3
        using law [OF that] by simp
      show "tbl e3 = tbl e \<or> tbl e3 = (tbl e)(k := None)" if "encode_native w = Inr n" "tbl e2 = tbl e1"
        "tr_call tr ''delete'' n e2 = (r, e3)" for n r and x :: exn and e2 e3
        using law [OF that] by auto
    qed (use w in auto)
  qed
  show ?thesis
    unfolding adapter_delete_def
  proof (rule wp_bndI [OF fetch_native])
    fix r e1 assume "tbl e1 = tbl e \<and> r = tbl e k"
    then show "wp (case r of None \<Rightarrow> ret () | Some w \<Rightarrow> bnd (adapter_call tr ''delete'' w) (\<lambda>_. ret ()))
        (\<lambda>_ e'. tbl e' = (tbl e)(k := None)) ?E e1"
      by (auto simp: wp_simps fun_eq_iff split: option.split intro!: del [THEN wp_mono] keyed)
  qed auto
qed

end

text \<open>The adapter over such a library is a flow table.\<close>

sublocale native_table \<subseteq> adapter: flow_table "adapter_backend tr commit" tbl
proof
  fix e e' k w
  show "tbl e' = tbl e" if "be_readiness (adapter_backend tr commit) e = (r, e')" for r
    using readiness_native [of e] that by (cases r) (auto simp: adapter_backend_def wp_def)
  show "tbl e' = tbl e" if "db_commit (adapter_backend tr commit) e = (r, e')" for r
    using that native_commit_frame by (simp add: adapter_backend_def)
  show "tbl e' = tbl e" if "be_fetch (adapter_backend tr commit) k e = (r, e')" for r
    using fetch_native [of k e] that by (cases r) (auto simp: adapter_backend_def wp_def)
  show "v = tbl e k" if "be_fetch (adapter_backend tr commit) k e = (Inr v, e')" for v
    using fetch_native [of k e] that by (auto simp: adapter_backend_def wp_def)
  show "tbl e' = (tbl e)(take 16 w \<mapsto> w)"
    if "tbl e (take 16 w) = None" "be_insert (adapter_backend tr commit) w e = (Inr (), e')"
    using insert_native [OF that(1)] that(2) by (auto simp: adapter_backend_def wp_def)
  show "tbl e' k = tbl e k"
    if "tbl e (take 16 w) = None" "be_insert (adapter_backend tr commit) w e = (Inl x, e')" "k \<noteq> take 16 w" for x
    using insert_native [OF that(1)] that(2,3) by (auto simp: adapter_backend_def wp_def)
  show "tbl e' = (tbl e)(k := None)" if "be_delete (adapter_backend tr commit) k e = (Inr (), e')"
    using delete_native [of k e] that by (auto simp: adapter_backend_def wp_def)
  show "tbl e' = tbl e \<or> tbl e' = (tbl e)(k := None)" if "be_delete (adapter_backend tr commit) k e = (Inl x, e')" for x
    using delete_native [of k e] that by (auto simp: adapter_backend_def wp_def)
qed

section \<open>A reference device\<close>

text \<open>
  The library's contract is satisfiable: a device whose table is a dictionary of wire
  entries, reached through the native encoding.
\<close>

record device =
  dev_table :: "(bytes \<times> bytes) list"
  dev_ready :: pyval
  dev_health :: pyval

definition dev_tbl :: "device \<Rightarrow> bytes \<Rightarrow> bytes option" where
  "dev_tbl d k = (case dict_get (dev_table d) k of
      Some w \<Rightarrow> if take 16 w = k \<and> validate_entry4 w = Inr w then Some w else None
    | None \<Rightarrow> None)"

definition dev_call :: "string \<Rightarrow> bytes \<Rightarrow> (device, pyval \<times> bytes) py" where
  "dev_call op n = (\<lambda>d. let k = native_key n in
     case decode_native n k of
       Inl x \<Rightarrow> (Inr (PInt 1, n), d)
     | Inr w \<Rightarrow>
        if op = ''fetch'' then
          (case dev_tbl d k of
             None \<Rightarrow> (Inr (PInt 3, n), d)
           | Some v \<Rightarrow> (case encode_native v of Inl x \<Rightarrow> (Inr (PInt 1, n), d) | Inr m \<Rightarrow> (Inr (PInt 0, m), d)))
        else if op = ''insert'' then
          (case entry4 k (flow_id_of w) of
             Inl x \<Rightarrow> (Inr (PInt 1, n), d)
           | Inr i \<Rightarrow> (Inr (PInt 0, n), d\<lparr>dev_table := dict_set k i (dev_table d)\<rparr>))
        else if op = ''update'' then (Inr (PInt 0, n), d\<lparr>dev_table := dict_set k w (dev_table d)\<rparr>)
        else (Inr (PInt 0, n), d\<lparr>dev_table := dict_del k (dev_table d)\<rparr>))"

definition dev_transport :: "device transport" where
  "dev_transport = \<lparr>tr_status = gets dev_ready, tr_call = dev_call, tr_health = gets dev_health\<rparr>"

lemma native_key_encode: "encode_native w = Inr n \<Longrightarrow> native_key n = take 16 w"
  using decode_encode [of w n] by (auto simp: decode_native_def res_iffs native_key_def)

lemma encode_native_valid: "encode_native w = Inr n \<Longrightarrow> validate_entry4 w = Inr w"
  by (auto simp: encode_native_def res_iffs dest: validate_entry4_same)

lemma dev_tbl_set:
  "validate_entry4 w = Inr w \<Longrightarrow> take 16 w = k \<Longrightarrow>
   dev_tbl (d\<lparr>dev_table := dict_set k w (dev_table d)\<rparr>) = (dev_tbl d)(k \<mapsto> w)"
  by (auto simp: dev_tbl_def fun_eq_iff)

lemma dev_tbl_del: "dev_tbl (d\<lparr>dev_table := dict_del k (dev_table d)\<rparr>) = (dev_tbl d)(k := None)"
  by (auto simp: dev_tbl_def fun_eq_iff)

interpretation device: native_table dev_transport "ret ()" dev_tbl
proof
  fix e e' n b w i
  show "dev_tbl e' = dev_tbl e" if "tr_status dev_transport e = (r, e')" for r
    using that by (simp add: dev_transport_def gets_def)
  show "dev_tbl e' = dev_tbl e" if "tr_health dev_transport e = (r, e')" for r
    using that by (simp add: dev_transport_def gets_def)
  show "dev_tbl e' = dev_tbl e" if "ret () e = (r, e')" for r
    using that by (simp add: ret_def)
  show "dev_tbl e' = dev_tbl e" if "tr_call dev_transport ''fetch'' n e = (r, e')" for r
    using that by (auto simp: dev_transport_def dev_call_def Let_def split: sum.splits option.splits)
  show "dev_tbl e (native_key n) = Some w"
    if a: "tr_call dev_transport ''fetch'' n e = (Inr (PInt 0, b), e')" "decode_native b (native_key n) = Inr w"
  proof -
    from a(1) obtain v where v: "dev_tbl e (native_key n) = Some v" "encode_native v = Inr b"
      by (auto simp: dev_transport_def dev_call_def Let_def split: sum.splits option.splits)
    then have "take 16 v = native_key n" by (auto simp: dev_tbl_def split: option.splits if_splits)
    with decode_encode [OF v(2)] a(2) v(1) show ?thesis by simp
  qed
  show "dev_tbl e (native_key n) = None" if "tr_call dev_transport ''fetch'' n e = (Inr (PInt 3, b), e')"
    using that by (auto simp: dev_transport_def dev_call_def Let_def split: sum.splits option.splits)
  show "take 16 w = k" if "dev_tbl e k = Some w" for k
    using that by (auto simp: dev_tbl_def split: option.splits if_splits)
  show "(case r of Inr (PInt c, _) \<Rightarrow> c = 0 | _ \<Rightarrow> False) \<and> dev_tbl e' = (dev_tbl e)(take 16 i \<mapsto> i) \<or>
        \<not> (case r of Inr (PInt c, _) \<Rightarrow> c = 0 | _ \<Rightarrow> False) \<and>
          (dev_tbl e' = dev_tbl e \<or> dev_tbl e' = (dev_tbl e)(take 16 i \<mapsto> i))"
    if a: "encode_native i = Inr n" "entry4 (take 16 i) (flow_id_of i) = Inr i"
      "tr_call dev_transport ''insert'' n e = (r, e')" for r
    using a(3) decode_encode [OF a(1)] a(2) dev_tbl_set [OF encode_native_valid [OF a(1)] refl]
    by (auto simp: dev_transport_def dev_call_def native_key_encode [OF a(1)])
  show "(case r of Inr (PInt c, _) \<Rightarrow> c = 0 | _ \<Rightarrow> False) \<and> dev_tbl e' = (dev_tbl e)(take 16 w \<mapsto> w) \<or>
        \<not> (case r of Inr (PInt c, _) \<Rightarrow> c = 0 | _ \<Rightarrow> False) \<and>
          (dev_tbl e' = dev_tbl e \<or> dev_tbl e' = (dev_tbl e)(take 16 w \<mapsto> w))"
    if a: "encode_native w = Inr n" "tr_call dev_transport ''update'' n e = (r, e')" for r
    using a(2) decode_encode [OF a(1)] dev_tbl_set [OF encode_native_valid [OF a(1)] refl]
    by (auto simp: dev_transport_def dev_call_def native_key_encode [OF a(1)])
  show "(case r of Inr (PInt c, _) \<Rightarrow> c = 0 | _ \<Rightarrow> False) \<and> dev_tbl e' = (dev_tbl e)(take 16 w := None) \<or>
        \<not> (case r of Inr (PInt c, _) \<Rightarrow> c = 0 | _ \<Rightarrow> False) \<and>
          (dev_tbl e' = dev_tbl e \<or> dev_tbl e' = (dev_tbl e)(take 16 w := None))"
    if a: "encode_native w = Inr n" "tr_call dev_transport ''delete'' n e = (r, e')" for r
    using a(2) decode_encode [OF a(1)]
    by (auto simp: dev_transport_def dev_call_def native_key_encode [OF a(1)] dev_tbl_del)
qed

text \<open>The plainest flow table, a dictionary that never fails, for concrete runs.\<close>

definition list_backend :: "(bytes \<times> bytes) list backend" where
  "list_backend =
     \<lparr>be_readiness = ret [], be_fetch = (\<lambda>k. gets (\<lambda>t. dict_get t k)),
      be_insert = (\<lambda>w. upd (dict_set (take 16 w) w)), be_delete = (\<lambda>k. upd (dict_del k)), db_commit = ret ()\<rparr>"

interpretation list_table: flow_table list_backend map_of
  by unfold_locales (auto simp: list_backend_def ret_def gets_def upd_def update_conv' delete_conv')

section \<open>Exactness of the manager over any flow table\<close>

text \<open>
  C7.  Over any backend that is a flow table, an install that returns found both keys
  free, adds exactly the two entries to the table, lists the session as installed and
  leaves the manager unfenced.
\<close>

theorem manager_install_exact:
  assumes "flow_table be tbl" and "install be ident entries revision zones s = (Inr (), s')"
  shows "\<exists>i a b. ident = PInt i \<and> entries = [a, b] \<and> take 16 a \<noteq> take 16 b \<and>
     dict_get (sessions s) i = None \<and> \<not> recovery_required s \<and> \<not> recovery_required s' \<and>
     sessions s' = dict_set i \<lparr>s_entries = [a, b], s_revision = Some revision, s_state = ''installed''\<rparr> (sessions s) \<and>
     tbl (env s) (take 16 a) = None \<and> tbl (env s) (take 16 b) = None \<and>
     tbl (env s') = (tbl (env s))(take 16 a \<mapsto> a, take 16 b \<mapsto> b)"
  using wp_returns [OF flow_table.install_exact [OF assms(1)] assms(2)] dict_get_None [of "sessions s"]
  by fastforce

text \<open>
  C8.  Over any flow table, whatever step of an install fails, keys other than the two
  requested are untouched, and either the manager is fenced, or the table and the sessions are
  exactly what they were before.  The one other end is an interrupt (which is no \<open>Exception\<close>) with
  the session still listed; every error the code can handle is rolled back or fenced.
\<close>

theorem manager_install_undone:
  assumes "flow_table be tbl" and "install be ident entries revision zones s = (Inl e, s')"
  shows "(\<forall>k. k \<notin> take 16 ` set entries \<longrightarrow> tbl (env s') k = tbl (env s) k) \<and>
     (recovery_required s' \<or> \<not> is_exception e \<and> the_int ident \<in> set (dict_keys (sessions s')) \<or>
      tbl (env s') = tbl (env s) \<and> sessions s' = sessions s)"
  using wp_raises [OF flow_table.install_exact [OF assms(1)] assms(2)]
  unfolding flow_table.undone_def [OF assms(1)] .

text \<open>
  C9.  Over any flow table, a removal that returns has emptied exactly the session's keys
  and forgotten it; one that raises leaves the manager fenced, the session listed, and
  no key other than the session's changed.
\<close>

theorem manager_remove_exact:
  assumes "flow_table be tbl" and "dict_get (sessions s) i = Some v" and "remove be i s = (r, s')"
  shows "case r of
      Inr _ \<Rightarrow> sessions s' = dict_del i (sessions s) \<and> recovery_required s' = recovery_required s \<and>
        tbl (env s') = (\<lambda>k. if k \<in> take 16 ` set (s_entries v) then None else tbl (env s) k)
    | Inl _ \<Rightarrow> recovery_required s' \<and> i \<in> set (dict_keys (sessions s')) \<and>
        (\<forall>k. tbl (env s') k = tbl (env s) k \<or> k \<in> take 16 ` set (s_entries v) \<and> tbl (env s') k = None)"
  using flow_table.remove_exact [OF assms(1,2)] assms(3)
  by (auto simp: wp_def flow_table.cleared_def [OF assms(1)] split: sum.split)

section \<open>Concrete runs\<close>

definition probe0 :: bytes where
  "probe0 = [0x40, 6, 0, 1, 0, 5, 0, 6, 10, 0, 0, 1, 10, 0, 0, 2] @ replicate 20 0 @ [0, 0, 0, 9] @ replicate 24 0"

definition probe1 :: bytes where
  "probe1 = [0x40, 6, 0, 1, 0, 6, 0, 5, 10, 0, 0, 2, 10, 0, 0, 1] @ replicate 20 0 @ [0, 0, 0, 8] @ replicate 24 0"

definition fresh :: "(bytes \<times> bytes) list mgr" where
  "fresh = \<lparr>env = [], jrows = [], sessions = [], recovery_required = False, trace = []\<rparr>"

text \<open>The same table whose insertion fails after taking effect.\<close>

definition flaky_backend :: "(bytes \<times> bytes) list backend" where
  "flaky_backend = list_backend\<lparr>be_insert := (\<lambda>w. thn (upd (dict_set (take 16 w) w)) (raise (TimeoutError ''lost reply'')))\<rparr>"

lemma flaky_table: "flow_table flaky_backend map_of"
  by unfold_locales
    (auto simp: flaky_backend_def list_backend_def ret_def gets_def upd_def thn_def bnd_def raise_def
      update_conv' delete_conv')

definition installed_probe :: "(bytes \<times> bytes) list mgr" where
  "installed_probe = snd (install list_backend (PInt 1) [probe0, probe1] (PInt 3) PNone fresh)"

definition failed_probe :: "(bytes \<times> bytes) list mgr" where
  "failed_probe = snd (install flaky_backend (PInt 1) [probe0, probe1] (PInt 3) PNone fresh)"

lemma fresh_install:
  "install list_backend (PInt 1) [probe0, probe1] (PInt 3) PNone fresh = (Inr (), installed_probe)"
proof -
  have "fst (install list_backend (PInt 1) [probe0, probe1] (PInt 3) PNone fresh) = Inr ()" by code_simp
  then show ?thesis by (metis installed_probe_def prod.collapse)
qed

lemma flaky_install:
  "install flaky_backend (PInt 1) [probe0, probe1] (PInt 3) PNone fresh = (Inl (TimeoutError ''lost reply''), failed_probe)"
  "\<not> recovery_required failed_probe" "sessions failed_probe = []"
proof -
  have "fst (install flaky_backend (PInt 1) [probe0, probe1] (PInt 3) PNone fresh) = Inl (TimeoutError ''lost reply'')"
    by code_simp
  then show "install flaky_backend (PInt 1) [probe0, probe1] (PInt 3) PNone fresh =
      (Inl (TimeoutError ''lost reply''), failed_probe)"
    by (metis failed_probe_def prod.collapse)
  show "\<not> recovery_required failed_probe" by code_simp
  show "sessions failed_probe = []" by code_simp
qed

lemma installed_listed:
  "dict_get (sessions installed_probe) 1 =
     Some \<lparr>s_entries = [probe0, probe1], s_revision = Some (PInt 3), s_state = ''installed''\<rparr>"
  by code_simp

lemma installed_remove: "remove list_backend 1 installed_probe = (Inr (), snd (remove list_backend 1 installed_probe))"
proof -
  have "fst (remove list_backend 1 installed_probe) = Inr ()" by code_simp
  then show ?thesis by (metis prod.collapse)
qed

theorem manager_install_exact_witness:
  "map_of (env installed_probe) = [take 16 probe0 \<mapsto> probe0, take 16 probe1 \<mapsto> probe1]"
  using manager_install_exact [OF list_table.flow_table_axioms fresh_install] by (auto simp: fresh_def)

theorem manager_install_undone_witness:
  "map_of (env failed_probe) = map_of (env fresh) \<and> sessions failed_probe = sessions fresh"
  using manager_install_undone [OF flaky_table flaky_install(1)] flaky_install(2,3) by simp

theorem manager_remove_exact_witness:
  "map_of (env (snd (remove list_backend 1 installed_probe))) (take 16 probe0) = None"
  using manager_remove_exact [OF list_table.flow_table_axioms installed_listed installed_remove] by simp

end
