(* ===== verification/FlowIds.thy ===== *)
theory FlowIds
  imports FlowTable Digest
begin

text \<open>
  Hardware flow ids: the durable allocator of \<open>ffn_fe100_flow_ids.py\<close> and the commissioning
  of its namespace per hardware generation, \<open>ffn_fe100_flow_namespace.py\<close>.  The tables are
  single rows of the owner's SQLite file; a transaction either commits or rolls back.
\<close>

section \<open>The allocator\<close>

text \<open>A row of \<open>hardware_flow_ids\<close>; a live \<open>FlowIds\<close> object is its pool and its fence.\<close>

record id_row =
  fr_first :: pyval
  fr_last :: pyval
  fr_domain :: pyval
  fr_next :: pyval

record 'e idst =
  ids_env :: 'e
  ids_row :: "id_row option"
  ids_txn :: bool
  ids_sync :: int
  ids_pool :: "(int \<times> int \<times> string) option"
  ids_failed :: bool

record 'e sqldb =
  sq_begin :: "('e, unit) py"
  sq_commit :: "('e, unit) py"

definition ids_io :: "('e, 'a) py \<Rightarrow> (('e, 'z) idst_scheme, 'a) py" where
  "ids_io m = zoom ids_env (\<lambda>e s. s\<lparr>ids_env := e\<rparr>) m"

definition validate_row :: "int \<times> int \<times> string \<Rightarrow> id_row option \<Rightarrow> exn + int" where
  "validate_row pool row = (case (pool, row) of
      ((first, final, domain), Some r) \<Rightarrow>
        if py_eq (fr_first r) (PInt first) \<and> py_eq (fr_last r) (PInt final) \<and> fr_domain r = PStr domain \<and>
           is_int (fr_next r) \<and> first \<le> the_int (fr_next r) \<and> the_int (fr_next r) \<le> final + 1
        then Inr (the_int (fr_next r))
        else Inl (RuntimeError ''flow-ID namespace changed or journal is corrupt'')
    | _ \<Rightarrow> Inl (RuntimeError ''flow-ID namespace changed or journal is corrupt''))"

definition flow_ids_init ::
  "'e sqldb \<Rightarrow> pyval \<Rightarrow> pyval \<Rightarrow> pyval \<Rightarrow> pyval \<Rightarrow> (('e, 'z) idst_scheme, unit) py" where
  "flow_ids_init sq first final domain initialize = (bnd (lift_res (uint_arg first 32 ''first flow ID'')) (\<lambda>f.
    bnd (lift_res (uint_arg final 32 ''last flow ID'')) (\<lambda>l.
    thn (ensure (f \<noteq> 0 \<and> 1 \<le> l - f) (ValueError ''nonzero commissioned flow-ID range required''))
    (thn (ensure (is_sha domain) (ValueError ''commissioned namespace digest required''))
    (thn (ensure (is_bool initialize) (ValueError ''invalid initialization option''))
    (bnd (gets ids_txn) (\<lambda>txn.
    thn (ensure (\<not> txn) (RuntimeError ''flow-ID reservation requires its own durable transaction''))
    (bnd (gets ids_sync) (\<lambda>sync.
    thn (ensure (2 \<le> sync) (RuntimeError ''flow-ID journal must use FULL synchronous durability''))
    (bnd (gets ids_row) (\<lambda>row.
    thn (ensure (row \<noteq> None \<or> initialize = PBool True) (RuntimeError ''flow-ID namespace has not been commissioned''))
    (thn (lift_res (case row of None \<Rightarrow> Inr 0 | Some r \<Rightarrow> validate_row (f, l, the_str domain) row))
    (thn (ids_io (sq_commit sq))
    (upd (\<lambda>s. s\<lparr>ids_row := Some (case row of
                   Some r \<Rightarrow> r
                 | None \<Rightarrow> \<lparr>fr_first = first, fr_last = final, fr_domain = domain, fr_next = first\<rparr>),
               ids_pool := Some (f, l, the_str domain), ids_failed := False\<rparr>)))))))))))))))"

text \<open>\<open>reserve_pair\<close>; any failure inside the transaction fences the allocator.\<close>

definition reserve_pair :: "'e sqldb \<Rightarrow> (('e, 'z) idst_scheme, int \<times> int) py" where
  "reserve_pair sq = (bnd (gets ids_failed) (\<lambda>failed.
    thn (ensure (\<not> failed) (RuntimeError ''flow-ID allocator is fenced''))
    (bnd (gets ids_txn) (\<lambda>txn.
    thn (ensure (\<not> txn) (RuntimeError ''flow-ID reservation cannot share an uncommitted transaction''))
    (bnd (gets (\<lambda>s. the (ids_pool s))) (\<lambda>pool.
    catch_all (thn (ids_io (sq_begin sq))
       (bnd (gets ids_row) (\<lambda>row.
       bnd (lift_res (validate_row pool row)) (\<lambda>first.
       thn (ensure (first + 1 \<le> fst (snd pool)) (RuntimeError ''commissioned flow-ID namespace exhausted''))
       (thn (ids_io (sq_commit sq))
       (thn (upd (\<lambda>s. s\<lparr>ids_row := map_option (\<lambda>r. r\<lparr>fr_next := PInt (first + 2)\<rparr>) (ids_row s)\<rparr>))
       (ret (first, first + 1))))))))
       (\<lambda>e. (thn (upd (\<lambda>s. s\<lparr>ids_failed := True\<rparr>))
         (raise e)))))))))"

definition with_flow_id :: "bytes \<Rightarrow> int \<Rightarrow> bytes" where
  "with_flow_id e ident = take 36 e @ to_be 4 (nat ident) @ drop 40 e"

definition assign_pair :: "'e sqldb \<Rightarrow> bytes list \<Rightarrow> (('e, 'z) idst_scheme, bytes list) py" where
  "assign_pair sq entries = (bnd (gets ids_pool) (\<lambda>pool.
    thn (ensure (pool \<noteq> None) (RuntimeError ''durable hardware flow-ID allocator is not commissioned''))
    (thn (ensure (length entries = 2) (ValueError ''two flow entries required''))
    (bnd (lift_res (rcollect entries validate_entry4)) (\<lambda>es.
    bnd (reserve_pair sq) (\<lambda>(a, b).
    thn (ensure (a \<noteq> b) (RuntimeError ''allocator did not return two distinct flow IDs''))
    (thn (lift_res (rfor [a, b] (\<lambda>ident. rbnd (uint_arg (PInt ident) 32 ''hardware flow ID'') (\<lambda>i.
       rcheck (i \<noteq> 0) (ValueError ''zero hardware flow ID is reserved'')))))
    (ret (map2 with_flow_id es [a, b])))))))))"

section \<open>Ids are never handed out twice\<close>

text \<open>
  Runs of one allocator: reservations, whatever they return, and restarts that reopen the
  same table (never initializing it again); the list of pairs handed out so far.
\<close>

inductive id_run :: "'e sqldb \<Rightarrow> (int \<times> int \<times> string) \<Rightarrow> ('e, 'z) idst_scheme \<Rightarrow> (int \<times> int) list \<Rightarrow> bool"
  for sq pool where
  id_start: "flow_ids_init sq (PInt (fst pool)) (PInt (fst (snd pool))) (PStr (snd (snd pool))) initialize s0
    = (Inr (), s) \<Longrightarrow> id_run sq pool s []"
| id_reserved: "id_run sq pool s ps \<Longrightarrow> reserve_pair sq s = (Inr p, s') \<Longrightarrow> id_run sq pool s' (ps @ [p])"
| id_refused: "id_run sq pool s ps \<Longrightarrow> reserve_pair sq s = (Inl e, s') \<Longrightarrow> id_run sq pool s' ps"
| id_restart: "id_run sq pool s ps \<Longrightarrow>
    flow_ids_init sq (PInt (fst pool)) (PInt (fst (snd pool))) (PStr (snd (snd pool))) (PBool False)
      (s\<lparr>ids_pool := None, ids_failed := f, ids_txn := t\<rparr>) = (r, s') \<Longrightarrow>
    ids_pool s' = Some pool \<Longrightarrow> id_run sq pool s' ps"

text \<open>What an allocator and its row promise: the next id lies in the pool, above all given out.\<close>

definition id_book_ok :: "int \<times> int \<times> string \<Rightarrow> (int \<times> int) list \<Rightarrow> ('e, 'z) idst_scheme \<Rightarrow> bool" where
  "id_book_ok pool ps s \<longleftrightarrow> ids_pool s = Some pool \<and> 1 \<le> fst pool \<and> fst (snd pool) < 2 ^ 32 \<and>
     (case validate_row pool (ids_row s) of
        Inl e \<Rightarrow> False
      | Inr n \<Rightarrow> list_all (\<lambda>(a, b). b = a + 1 \<and> fst pool \<le> a \<and> b < n \<and> b \<le> fst (snd pool)) ps) \<and>
     distinct (concat (map (\<lambda>(a, b). [a, b]) ps))"

lemma ids_io_frame:
  "wp (ids_io m) (\<lambda>_ s'. \<exists>e. s' = s\<lparr>ids_env := e\<rparr>) (\<lambda>_ s'. \<exists>e. s' = s\<lparr>ids_env := e\<rparr>) s"
  by (auto simp: wp_def ids_io_def zoom_def split: prod.split sum.split)

lemma reserve_pair_wp:
  "wp (reserve_pair sq)
     (\<lambda>p s'. \<exists>n e. validate_row (the (ids_pool s)) (ids_row s) = Inr n \<and> p = (n, n + 1) \<and>
        n + 1 \<le> fst (snd (the (ids_pool s))) \<and>
        s' = s\<lparr>ids_env := e, ids_row := map_option (\<lambda>r. r\<lparr>fr_next := PInt (n + 2)\<rparr>) (ids_row s)\<rparr>)
     (\<lambda>_ s'. \<exists>e b. s' = s\<lparr>ids_env := e, ids_failed := b\<rparr>) s"
proof -
  let ?E = "\<lambda>_ s'. \<exists>e b. s' = s\<lparr>ids_env := e, ids_failed := b\<rparr>"
  have same: "?E x s" for x by (intro exI [of _ "ids_env s"] exI [of _ "ids_failed s"]) simp
  have commit: "wp (ids_io (sq_commit sq)) Q E (s\<lparr>ids_env := e\<rparr>)"
    if "\<And>u e. Q u (s\<lparr>ids_env := e\<rparr>)" "\<And>x e. E x (s\<lparr>ids_env := e\<rparr>)" for Q E e
    by (rule wp_mono [OF ids_io_frame]) (use that in auto)
  show ?thesis
    unfolding reserve_pair_def wp_bnd wp_gets wp_thn wp_ensure wp_catch_all
    by (auto simp: same intro!: wp_mono [OF ids_io_frame])
      (auto simp: wp_simps split: sum.split intro!: commit, (intro exI, rule refl)?)
qed

lemma validate_row_next:
  "validate_row (f, l, d) row = Inr n \<Longrightarrow> n + 1 \<le> l \<Longrightarrow>
   validate_row (f, l, d) (map_option (\<lambda>r. r\<lparr>fr_next := PInt (n + 2)\<rparr>) row) = Inr (n + 2)"
  by (cases row) (auto simp: validate_row_def split: if_splits)

lemma validate_row_bounds: "validate_row (f, l, d) row = Inr n \<Longrightarrow> f \<le> n \<and> n \<le> l + 1"
  by (auto simp: validate_row_def split: option.splits if_splits)

lemma id_book_reserved:
  assumes "id_book_ok pool ps s" "reserve_pair sq s = (Inr p, s')"
  shows "id_book_ok pool (ps @ [p]) s'"
proof -
  obtain f l d where pool: "pool = (f, l, d)" by (cases pool)
  from wp_returns [OF reserve_pair_wp assms(2)] assms(1) obtain n e where
    n: "validate_row pool (ids_row s) = Inr n" "p = (n, n + 1)" "n + 1 \<le> l"
    "s' = s\<lparr>ids_env := e, ids_row := map_option (\<lambda>r. r\<lparr>fr_next := PInt (n + 2)\<rparr>) (ids_row s)\<rparr>"
    by (auto simp: id_book_ok_def pool)
  have old: "list_all (\<lambda>(a, b). b = a + 1 \<and> f \<le> a \<and> b < n \<and> b \<le> l) ps"
    using assms(1) n(1) by (simp add: id_book_ok_def pool)
  then have "n \<notin> set (concat (map (\<lambda>(a, b). [a, b]) ps))" "n + 1 \<notin> set (concat (map (\<lambda>(a, b). [a, b]) ps))"
    by (auto simp: list_all_iff)
  moreover have "list_all (\<lambda>(a, b). b = a + 1 \<and> f \<le> a \<and> b < n + 2 \<and> b \<le> l) ps"
    using old by (auto simp: list_all_iff)
  ultimately show ?thesis
    using assms(1) n validate_row_next [of f l d "ids_row s" n] validate_row_bounds [of f l d "ids_row s" n]
    by (auto simp: id_book_ok_def pool)
qed

lemma flow_ids_init_wp:
  "wp (flow_ids_init sq (PInt f) (PInt l) (PStr d) i)
     (\<lambda>_ s'. idst.more s' = idst.more s \<and> ids_pool s' = Some (f, l, d) \<and> 1 \<le> f \<and> f < l \<and> l < 2 ^ 32 \<and>
        (case ids_row s of
           None \<Rightarrow> i = PBool True \<and> validate_row (f, l, d) (ids_row s') = Inr f
         | Some r \<Rightarrow> ids_row s' = ids_row s \<and> (\<exists>n. validate_row (f, l, d) (ids_row s) = Inr n)))
     (\<lambda>_ s'. idst.more s' = idst.more s \<and> ids_row s' = ids_row s \<and> ids_pool s' = ids_pool s \<and>
        ids_failed s' = ids_failed s) s"
  unfolding flow_ids_init_def wp_bnd wp_gets wp_thn wp_ensure wp_lift_res
  by (auto simp: uint_arg_Inr_iff wp_simps validate_row_def split: sum.split option.split
      intro!: wp_mono [OF ids_io_frame])

lemma id_run_ok: "id_run sq pool s ps \<Longrightarrow> id_book_ok pool ps s"
proof (induction rule: id_run.induct)
  case (id_start i s0 s)
  obtain f l d where pool: "pool = (f, l, d)" by (cases pool)
  from wp_returns [OF flow_ids_init_wp id_start [unfolded pool, simplified]] show ?case
    by (auto simp: id_book_ok_def pool split: option.splits)
next
  case (id_reserved s ps p s')
  then show ?case by (intro id_book_reserved)
next
  case (id_refused s ps e s')
  from wp_raises [OF reserve_pair_wp id_refused(2)] id_refused(3) show ?case
    by (auto simp: id_book_ok_def)
next
  case (id_restart s ps t f r s')
  obtain g l d where pool: "pool = (g, l, d)" by (cases pool)
  have row: "ids_row s \<noteq> None"
    using id_restart(4) by (cases "ids_row s") (auto simp: id_book_ok_def validate_row_def pool)
  have "ids_row s' = ids_row s"
  proof (cases r)
    case (Inl e)
    with wp_raises [OF flow_ids_init_wp, of sq g l d "PBool False" "s\<lparr>ids_pool := None, ids_failed := f, ids_txn := t\<rparr>" e s']
      id_restart(2,3) show ?thesis by (simp add: pool)
  next
    case (Inr u)
    with wp_returns [OF flow_ids_init_wp, of sq g l d "PBool False" "s\<lparr>ids_pool := None, ids_failed := f, ids_txn := t\<rparr>" u s']
      id_restart(2) row show ?thesis by (auto simp: pool split: option.splits)
  qed
  with id_restart(3,4) show ?case by (simp add: id_book_ok_def)
qed

text \<open>
  C11.  Over any run of the allocator (reservations whose transactions fail or not, and
  restarts on the same table), every pair handed out is two consecutive ids of the
  commissioned range, all of them nonzero 32-bit numbers, and no id is ever given twice.
\<close>

theorem flow_ids_never_reused:
  assumes "id_run sq (first, final, domain) s ps"
  shows "distinct (concat (map (\<lambda>(a, b). [a, b]) ps)) \<and>
    list_all (\<lambda>(a, b). b = a + 1 \<and> 1 \<le> a \<and> first \<le> a \<and> b \<le> final \<and> final < 2 ^ 32) ps"
  using id_run_ok [OF assms] by (auto simp: id_book_ok_def list_all_iff split: sum.splits)

definition sample_sql :: "unit sqldb" where
  "sample_sql = \<lparr>sq_begin = ret (), sq_commit = ret ()\<rparr>"

definition sample_pool :: "int \<times> int \<times> string" where
  "sample_pool = (65536, 65540, replicate 64 (CHR ''a''))"

definition sample_book :: "int \<Rightarrow> unit idst" where
  "sample_book n = \<lparr>ids_env = (), ids_row = Some \<lparr>fr_first = PInt 65536, fr_last = PInt 65540,
     fr_domain = PStr (replicate 64 (CHR ''a'')), fr_next = PInt n\<rparr>, ids_txn = False, ids_sync = 2,
     ids_pool = Some sample_pool, ids_failed = False\<rparr>"

lemma sample_run: "id_run sample_sql sample_pool (sample_book 65540) [(65536, 65537), (65538, 65539)]"
proof -
  have "flow_ids_init sample_sql (PInt (fst sample_pool)) (PInt (fst (snd sample_pool))) (PStr (snd (snd sample_pool)))
      (PBool True) (sample_book 65536 \<lparr>ids_row := None, ids_pool := None\<rparr>) = (Inr (), sample_book 65536)"
    by code_simp
  then have "id_run sample_sql sample_pool (sample_book 65536) []" by (rule id_start)
  moreover have "reserve_pair sample_sql (sample_book 65536) = (Inr (65536, 65537), sample_book 65538)"
    by code_simp
  ultimately have "id_run sample_sql sample_pool (sample_book 65538) ([] @ [(65536, 65537)])"
    by (rule id_reserved)
  moreover have "reserve_pair sample_sql (sample_book 65538) = (Inr (65538, 65539), sample_book 65540)"
    by code_simp
  ultimately have "id_run sample_sql sample_pool (sample_book 65540) (([] @ [(65536, 65537)]) @ [(65538, 65539)])"
    by (rule id_reserved)
  then show ?thesis by simp
qed

theorem flow_ids_never_reused_witness: "distinct [65536, 65537, 65538, 65539 :: int]"
  using flow_ids_never_reused [OF sample_run [unfolded sample_pool_def]] by simp

section \<open>Assigning ids to a pair\<close>

lemma with_id_wire:
  "length key = 16 \<Longrightarrow> with_flow_id (wire_form key fl ov fid area) i = wire_form key fl ov (nat i) area"
  by (simp add: with_flow_id_def wire_form_def)

lemma validate_with_id:
  assumes "validate_entry4 w = Inr w'" "0 \<le> i" "i < 2 ^ 32"
  shows "validate_entry4 (with_flow_id w i) = Inr (with_flow_id w i)"
proof -
  from validate_entry4_cases [OF assms(1)] consider key f where "entry4 key f = Inr w"
    | key f hop dropping ttl where "forwarding_entry4 key f hop dropping ttl = Inr w"
    | key f hop tr ttl where "nat_entry4 key f hop tr ttl = Inr w"
    by blast
  then show ?thesis
  proof cases
    case (1 key f)
    then have "entry4 key i = Inr (with_flow_id w i)"
      using assms(2,3) by (auto simp: entry4_Inr_iff with_id_wire key_ok_length)
    then show ?thesis by (rule validate_identity)
  next
    case (2 key f hop dropping ttl)
    then have "forwarding_entry4 key i hop dropping ttl = Inr (with_flow_id w i)"
      using assms(2,3) by (auto simp: forwarding_entry4_Inr_iff with_id_wire key_ok_length split: if_splits)
    then show ?thesis by (rule validate_forwarding)
  next
    case (3 key f hop tr ttl)
    then have "nat_entry4 key i hop tr ttl = Inr (with_flow_id w i)"
      using assms(2,3) by (auto simp: nat_entry4_Inr_iff with_id_wire key_ok_length)
    then show ?thesis by (rule validate_nat)
  qed
qed

text \<open>What an assigned entry keeps of the entry it replaces.\<close>

definition reassigned :: "bytes \<Rightarrow> int \<Rightarrow> bytes \<Rightarrow> bool" where
  "reassigned e i e' \<longleftrightarrow> validate_entry4 e' = Inr e' \<and> flow_id_of e' = i \<and>
     take 36 e' = take 36 e \<and> drop 40 e' = drop 40 e"

lemma reassigned_with_id:
  assumes "validate_entry4 w = Inr w" "0 \<le> i" "i < 2 ^ 32"
  shows "reassigned w i (with_flow_id w i)"
proof -
  from assms(1) obtain key fl ov f area where w: "w = wire_form key fl ov f area" "key_ok key" "length area = 12"
    "fl < 4294967296" "f < 4294967296" "mode_of fl \<noteq> 3" "mode_of fl = 0 \<longrightarrow> area = replicate 12 0"
    by (rule validate_shape)
  note l = key_ok_length [OF w(2)]
  have e: "with_flow_id w i = wire_form key fl ov (nat i) area" by (simp add: w(1) with_id_wire l)
  have "flow_id_of (with_flow_id w i) = i" unfolding e using assms(2,3) w(3) l by simp
  moreover have "take 36 (wire_form key fl ov (nat i) area) = take 36 (wire_form key fl ov f area)"
    "drop 40 (wire_form key fl ov (nat i) area) = drop 40 (wire_form key fl ov f area)"
    using l by (simp_all add: wire_form_def)
  then have "take 36 (with_flow_id w i) = take 36 w" "drop 40 (with_flow_id w i) = drop 40 w"
    unfolding e by (simp_all add: w(1))
  ultimately show ?thesis by (simp add: reassigned_def validate_with_id [OF assms])
qed

text \<open>
  The entries \<open>assign_pair\<close> returns are valid, carry two consecutive nonzero ids of the
  commissioned pool, and differ from the given entries in the flow id only.
\<close>

theorem assign_pair_reassigns:
  assumes "assign_pair sq entries s = (Inr es, s')" and "id_book_ok pool ps s"
  shows "\<exists>x y x' y' i. entries = [x, y] \<and> es = [x', y'] \<and> reassigned x i x' \<and> reassigned y (i + 1) y' \<and>
    fst pool \<le> i \<and> i + 1 \<le> fst (snd pool) \<and> id_book_ok pool (ps @ [(i, i + 1)]) s'"
proof -
  obtain f l d where pool: "pool = (f, l, d)" by (cases pool)
  have "wp (assign_pair sq entries)
      (\<lambda>es s'. \<exists>vs p s1. length entries = 2 \<and> rcollect entries validate_entry4 = Inr vs \<and>
         reserve_pair sq s = (Inr p, s1) \<and> s' = s1 \<and> es = map2 with_flow_id vs [fst p, snd p]) (\<lambda>_ _. True) s"
    unfolding assign_pair_def wp_bnd wp_gets wp_thn wp_ensure wp_lift_res
    by (auto simp: wp_simps wp_def [of "reserve_pair sq"] split: sum.split prod.split)
  from wp_returns [OF this assms(1)] obtain vs p where vs: "length entries = 2"
    "rcollect entries validate_entry4 = Inr vs" "reserve_pair sq s = (Inr p, s')"
    "es = map2 with_flow_id vs [fst p, snd p]" by blast
  from vs(1) obtain x y where xy: "entries = [x, y]" by (auto simp: numeral_2_eq_2 length_Suc_conv)
  with vs(2) have v: "validate_entry4 x = Inr x" "validate_entry4 y = Inr y" "vs = [x, y]"
    by (auto simp: res_iffs dest: validate_entry4_same)
  from wp_returns [OF reserve_pair_wp vs(3)] obtain n where n: "p = (n, n + 1)" by blast
  have ok: "id_book_ok pool (ps @ [p]) s'" by (rule id_book_reserved [OF assms(2) vs(3)])
  then have "f \<le> n" "n + 1 \<le> l" "1 \<le> f" "l < 2 ^ 32"
    by (auto simp: id_book_ok_def pool n split: sum.splits)
  with v n vs(4) xy ok show ?thesis
    by (auto simp: pool intro!: reassigned_with_id exI [of _ n])
qed

lemma sample_book_ok: "id_book_ok sample_pool [] (sample_book 65536)"
  by (rule id_run_ok [of sample_sql], rule id_start [of _ _ "PBool True" "sample_book 65536 \<lparr>ids_row := None, ids_pool := None\<rparr>"])
    code_simp

lemma sample_assign:
  "assign_pair sample_sql [probe0, probe1] (sample_book 65536) =
     (Inr [with_flow_id probe0 65536, with_flow_id probe1 65537], sample_book 65538)"
  by code_simp

theorem assign_pair_reassigns_witness:
  "reassigned probe0 65536 (with_flow_id probe0 65536)"
proof -
  have "flow_id_of (with_flow_id probe0 65536) = 65536" by code_simp
  with assign_pair_reassigns [OF sample_assign sample_book_ok] show ?thesis
    by (auto simp: reassigned_def)
qed

end
