(* ===== verification/Policy.thy ===== *)
theory Policy
  imports FlowIds
begin

text \<open>
  Policy admission and invalidation, \<open>ffn_fe100_policy.py\<close>: \<open>PolicyOwner\<close> owns the session
  manager, the persisted generation (revision, phase, digest, attachment), the in-memory
  activation and the dependencies of admitted pairs.  The evaluator's callbacks are
  parameters: attachment bindings, the two qualifications, the durable save and the
  directional path lookup, which may read the whole state.
\<close>

record pstate =
  p_revision :: int
  p_phase :: string
  p_digest :: pyval
  p_attachment :: pyval

record 'e policy = "'e mgr" +
  pol_state :: pstate
  pol_saved :: pstate
  activated :: bool
  dependencies :: "(int \<times> pyval) list"
  pol_ids :: "unit idst"

record ('e, 's) powner =
  po_backend :: "'e backend"
  po_save :: "pstate \<Rightarrow> ('e, unit) py"
  po_bindings :: "('e, pyval) py"
  po_qualified :: "('e, pyval) py"
  po_nat_qualified :: "('e, pyval) py"
  po_sql :: "'e sqldb"
  po_paths :: "(pyval \<Rightarrow> ('s, pyval) py) option"

text \<open>The allocator's state lives in the owner; it runs on the shared environment.\<close>

definition ids_with :: "'e \<Rightarrow> ('f, 'y) idst_scheme \<Rightarrow> 'e idst" where
  "ids_with e t = \<lparr>ids_env = e, ids_row = ids_row t, ids_txn = ids_txn t, ids_sync = ids_sync t,
     ids_pool = ids_pool t, ids_failed = ids_failed t\<rparr>"

definition on_ids :: "('e idst, 'a) py \<Rightarrow> (('e, 'z) policy_scheme, 'a) py" where
  "on_ids m = zoom (\<lambda>s. ids_with (env s) (pol_ids s))
     (\<lambda>t s. s\<lparr>env := ids_env t, pol_ids := ids_with () t\<rparr>) m"

section \<open>Status, persistence, reconciliation\<close>

definition admission_enabled :: "('e, 'z) policy_scheme \<Rightarrow> bool" where
  "admission_enabled s \<longleftrightarrow> activated s \<and> p_phase (pol_state s) = ''active'' \<and> \<not> recovery_required s"

definition policy_status :: "('e, 'z) policy_scheme \<Rightarrow> pyval" where
  "policy_status s = PDict [
     (''revision'', PInt (p_revision (pol_state s))), (''phase'', PStr (p_phase (pol_state s))),
     (''digest'', p_digest (pol_state s)), (''attachment'', p_attachment (pol_state s)),
     (''sessions'', PInt (int (length (sessions s)))), (''recovery_required'', PBool (recovery_required s)),
     (''admission_enabled'', PBool (admission_enabled s))]"

definition default_state :: pstate where
  "default_state = \<lparr>p_revision = 0, p_phase = ''blocked'', p_digest = PNone, p_attachment = PNone\<rparr>"

text \<open>The persisted state, validated as the constructor does; a restart is never activated.\<close>

definition load_state :: "pyval \<Rightarrow> exn + pstate" where
  "load_state v = (if \<not> truthy v then Inr default_state else (rthn (rcheck (keys_are v [''revision'', ''phase'', ''digest'', ''attachment''] \<and>
       py_get v ''phase'' \<in> {PStr ''blocked'', PStr ''draining'', PStr ''active''})
       (ValueError ''invalid policy journal''))
    (rbnd (uint_arg (py_get v ''revision'') 64 ''policy revision'') (\<lambda>r.
    Inr \<lparr>p_revision = r, p_phase = the_str (py_get v ''phase''), p_digest = py_get v ''digest'',
          p_attachment = py_get v ''attachment''\<rparr>))))"

definition policy_init :: "pyval \<Rightarrow> unit idst \<Rightarrow> 'e mgr \<Rightarrow> exn + 'e policy" where
  "policy_init loaded ids m = (rbnd (load_state loaded) (\<lambda>st.
    Inr (mgr.extend m \<lparr>pol_state = st, pol_saved = st, activated = False, dependencies = [], pol_ids = ids\<rparr>)))"

definition persist :: "('e, ('e, 'z) policy_scheme) powner \<Rightarrow> (pstate \<Rightarrow> pstate) \<Rightarrow> (('e, 'z) policy_scheme, unit) py" where
  "persist P change = (bnd (gets (\<lambda>s. change (pol_state s))) (\<lambda>wanted.
    thn (catch_all (io (po_save P wanted)) (\<lambda>e. (thn (upd (\<lambda>s. s\<lparr>pol_state := (pol_state s)\<lparr>p_phase := ''blocked''\<rparr>\<rparr>))
       (raise e))))
    (upd (\<lambda>s. s\<lparr>pol_state := wanted, pol_saved := wanted\<rparr>))))"

definition sha_required :: "pyval \<Rightarrow> exn + unit" where
  "sha_required v = rcheck (is_sha v) (ValueError ''SHA256 generation digest required'')"

definition path_fields :: "string list" where
  "path_fields = [''ingress'', ''egress'', ''destination'', ''zone'', ''next_hop'', ''route_revision'',
     ''neighbor_revision'', ''attachment_revision'']"

text \<open>One direction of the path owner's snapshot.\<close>

definition check_direction :: "pyval \<Rightarrow> pyval \<Rightarrow> pyval \<Rightarrow> pyval \<Rightarrow> exn + unit" where
  "check_direction path ingress egress destination = (rthn (rcheck (keys_are path path_fields \<and> py_eq (py_get path ''ingress'') ingress \<and>
       py_eq (py_get path ''egress'') egress \<and> py_eq (py_get path ''destination'') destination)
       (ValueError ''directional path does not match the translated destination''))
    (rthn (uint_arg (py_get path ''zone'') 16 ''ingress lookup zone'')
    (rthn (uint_arg (py_get path ''next_hop'') 16 ''next-hop'')
    (rfor [''route_revision'', ''neighbor_revision'', ''attachment_revision''] (\<lambda>f. sha_required (py_get path f))))))"

definition check_snapshot :: "pyval \<Rightarrow> pyval \<Rightarrow> exn + pyval list" where
  "check_snapshot request snapshot = (rbnd (if keys_are snapshot [''nat_digest'', ''directions''] then digest snapshot else Inr []) (\<lambda>d.
    rbnd (py_item request ''path_digest'') (\<lambda>wanted.
    rbnd (py_item request ''nat_digest'') (\<lambda>nat.
    rthn (rcheck (keys_are snapshot [''nat_digest'', ''directions''] \<and> py_eq (py_get snapshot ''nat_digest'') nat \<and>
       PStr d = wanted) (RuntimeError ''NAT generation or directional path changed''))
    (let directions = py_get snapshot ''directions'' in
    rthn (rcheck (is_list directions \<and> length (the_list directions) = 2)
       (ValueError ''two commissioned directional paths required''))
    (rbnd (py_item request ''ingress'') (\<lambda>ingress.
    rbnd (py_item request ''egress'') (\<lambda>egress.
    rbnd (py_item request ''reply'') (\<lambda>reply.
    rbnd (py_item reply ''source'') (\<lambda>there.
    rbnd (py_item request ''original'') (\<lambda>original.
    rbnd (py_item original ''source'') (\<lambda>back.
    rthn (check_direction (the_list directions ! 0) ingress egress there)
    (rthn (check_direction (the_list directions ! 1) egress ingress back)
    (Inr (the_list directions)))))))))))))))"

definition directional_paths ::
  "('e, ('e, 'z) policy_scheme) powner \<Rightarrow> pyval \<Rightarrow> (('e, 'z) policy_scheme, pyval list) py" where
  "directional_paths P request = (case po_paths P of
      None \<Rightarrow> raise (RuntimeError ''directional path owner is not commissioned'')
    | Some paths \<Rightarrow> (bnd (paths request) (\<lambda>snapshot.
      bnd (lift_res (check_snapshot request snapshot)) (\<lambda>directions.
      bnd (lift_res (py_item request ''nat_required'')) (\<lambda>nat.
      thn (whn (truthy nat) (bnd (io (po_nat_qualified P)) (\<lambda>q.
          ensure (q = PBool True) (RuntimeError ''production NAT offload is not qualified''))))
      (ret directions))))))"

text \<open>The dependency checks of \<open>reconcile\<close> while active: whether anything went stale.\<close>

definition dependencies_stale :: "('e, ('e, 'z) policy_scheme) powner \<Rightarrow> (('e, 'z) policy_scheme, bool) py" where
  "dependencies_stale P = catch_exn (bnd (io (po_qualified P)) (\<lambda>q.
    if q \<noteq> PBool True then ret True
       else (bnd (io (po_bindings P)) (\<lambda>b.
         bnd (lift_res (digest b)) (\<lambda>d.
         bnd (gets (\<lambda>s. p_attachment (pol_state s))) (\<lambda>attached.
         if PStr d \<noteq> attached then ret True
         else (bnd (gets dependencies) (\<lambda>deps.
           thn (for_each deps (\<lambda>(ident, request). (bnd (gets sessions) (\<lambda>ss.
             if ident \<notin> set (dict_keys ss)
             then upd (\<lambda>s. s\<lparr>dependencies := dict_del ident (dependencies s)\<rparr>)
             else bnd (directional_paths P request) (\<lambda>_. ret ())))))
           (ret False)))))))))
     (\<lambda>_. ret True)"

definition drain_all :: "('e, ('e, 'z) policy_scheme) powner \<Rightarrow> (('e, 'z) policy_scheme, unit) py" where
  "drain_all P = (thn (persist P (\<lambda>st. st\<lparr>p_phase := ''draining'', p_attachment := PNone\<rparr>))
    (thn (recover (po_backend P))
    (thn (upd (\<lambda>s. s\<lparr>dependencies := []\<rparr>))
    (persist P (\<lambda>st. st\<lparr>p_phase := ''blocked''\<rparr>)))))"

definition reconcile :: "('e, ('e, 'z) policy_scheme) powner \<Rightarrow> (('e, 'z) policy_scheme, pyval) py" where
  "reconcile P = (bnd (gets (\<lambda>s. p_phase (pol_state s) \<noteq> ''active'' \<or> \<not> activated s)) (\<lambda>inactive.
    bnd (if inactive then ret True else dependencies_stale P) (\<lambda>stale.
    bnd (gets recovery_required) (\<lambda>fenced.
    thn (whn (stale \<or> fenced) (thn (upd (\<lambda>s. s\<lparr>activated := False\<rparr>))
       (bnd (gets (\<lambda>s. p_phase (pol_state s) \<noteq> ''blocked'' \<or> p_attachment (pol_state s) \<noteq> PNone \<or>
                  sessions s \<noteq> [] \<or> recovery_required s)) (\<lambda>dirty.
       whn dirty (drain_all P)))))
    (gets policy_status)))))"

section \<open>Generations\<close>

definition replace :: "('e, ('e, 'z) policy_scheme) powner \<Rightarrow> pyval \<Rightarrow> pyval \<Rightarrow> (('e, 'z) policy_scheme, pyval) py" where
  "replace P expected_revision policy_digest = (bnd (lift_res (uint_arg expected_revision 64 ''policy revision'')) (\<lambda>expected.
    bnd (gets (\<lambda>s. p_revision (pol_state s))) (\<lambda>current.
    thn (ensure (expected = current) (ValueError ''revision conflict''))
    (thn (ensure (is_sha policy_digest) (ValueError ''SHA256 policy digest required''))
    (bnd (lift_res (uint_arg (PInt (expected + 1)) 64 ''policy revision'')) (\<lambda>revision.
    thn (upd (\<lambda>s. s\<lparr>activated := False\<rparr>))
    (thn (persist P (\<lambda>st. \<lparr>p_revision = revision, p_phase = ''draining'', p_digest = policy_digest, p_attachment = PNone\<rparr>))
    (thn (recover (po_backend P))
    (thn (upd (\<lambda>s. s\<lparr>dependencies := []\<rparr>))
    (thn (persist P (\<lambda>st. st\<lparr>p_phase := ''blocked''\<rparr>))
    (gets policy_status)))))))))))"

definition activate :: "('e, ('e, 'z) policy_scheme) powner \<Rightarrow> pyval \<Rightarrow> pyval \<Rightarrow> (('e, 'z) policy_scheme, unit) py" where
  "activate P revision policy_digest = (bnd (lift_res (uint_arg revision 64 ''policy revision'')) (\<lambda>r.
    thn (ensure (r \<noteq> 0 \<and> is_sha policy_digest) (ValueError ''an applied policy generation is required''))
    (bnd (gets pol_state) (\<lambda>st.
    thn (ensure (r = p_revision st \<and> policy_digest = p_digest st) (ValueError ''stale applied policy acknowledgement''))
    (bnd (gets recovery_required) (\<lambda>fenced.
    thn (ensure (p_phase st = ''blocked'' \<and> \<not> fenced) (RuntimeError ''session recovery incomplete''))
    (bnd (io (po_qualified P)) (\<lambda>q.
    thn (ensure (q = PBool True) (RuntimeError ''front-port offload is not qualified''))
    (bnd (gets (\<lambda>s. ids_pool (pol_ids s))) (\<lambda>pool.
    thn (ensure (pool \<noteq> None) (RuntimeError ''durable hardware flow-ID allocator is not commissioned''))
    (bnd (io (po_bindings P)) (\<lambda>b.
    bnd (lift_res (digest b)) (\<lambda>d.
    thn (persist P (\<lambda>st. st\<lparr>p_phase := ''active'', p_attachment := PStr d\<rparr>))
    (upd (\<lambda>s. s\<lparr>activated := True\<rparr>)))))))))))))))"

section \<open>Admission\<close>

definition admit_fields :: "string list" where
  "admit_fields = [''session_id'', ''revision'', ''policy_digest'', ''rule_id'', ''verdict'', ''protocol'', ''src'', ''dst'',
     ''sport'', ''dport'', ''zone'', ''ingress'', ''egress'', ''inspection_required'', ''nat_required'', ''established'']"

definition pair_fields :: "string list" where
  "pair_fields = [''session_id'', ''revision'', ''policy_digest'', ''nat_digest'', ''path_digest'', ''rule_id'', ''verdict'',
     ''original'', ''reply'', ''ingress'', ''egress'', ''inspection_required'', ''nat_required'', ''established'']"

definition rule_ok :: "pyval \<Rightarrow> bool" where
  "rule_ok v \<longleftrightarrow> is_str v \<and> 1 \<le> length (the_str v) \<and> length (the_str v) \<le> 128"

definition blocked_error :: exn where
  "blocked_error = RuntimeError ''policy admission blocked''"

text \<open>Two distinct integer ports, both bound.\<close>

definition ports_ok :: "pyval \<Rightarrow> pyval \<Rightarrow> pyval \<Rightarrow> bool" where
  "ports_ok bindings ingress egress \<longleftrightarrow> is_int ingress \<and> has_key bindings (dec_int (the_int ingress)) \<and>
     is_int egress \<and> has_key bindings (dec_int (the_int egress)) \<and> ingress \<noteq> egress"

definition port_up :: "pyval \<Rightarrow> pyval \<Rightarrow> string \<Rightarrow> exn + pyval" where
  "port_up bindings port message = (rbnd (py_item bindings (dec_int (the_int port))) (\<lambda>b.
    rbnd (get_or b ''enabled'' PNone) (\<lambda>enabled.
    rthn (rcheck (enabled = PBool True \<and> py_get b ''link'' = PBool True) (RuntimeError message))
    (Inr b))))"

definition port_hop :: "pyval \<Rightarrow> pyval \<Rightarrow> exn + int" where
  "port_hop bindings port = (rbnd (port_up bindings port ''egress attachment is unavailable'') (\<lambda>b.
    rbnd (py_item b ''next_hop'') (\<lambda>hop.
    uint_arg hop 16 ''next-hop'')))"

definition current_decision :: "('e, 'z) policy_scheme \<Rightarrow> pyval \<Rightarrow> bool" where
  "current_decision s request \<longleftrightarrow> py_eq (py_get request ''revision'') (PInt (p_revision (pol_state s))) \<and>
     py_eq (py_get request ''policy_digest'') (p_digest (pol_state s))"

definition after_install :: "('e, ('e, 'z) policy_scheme) powner \<Rightarrow> (('e, 'z) policy_scheme, unit) py" where
  "after_install P = (thn (reconcile P)
    (bnd (gets admission_enabled) (\<lambda>enabled.
    ensure enabled (RuntimeError ''offload dependencies changed during installation; pair drained''))))"

text \<open>The two entries of an untranslated flow.\<close>

definition admit_entries :: "pyval \<Rightarrow> int \<Rightarrow> int list \<Rightarrow> exn + bytes list" where
  "admit_entries request sid hops = (rbnd (key4 (py_get request ''src'') (py_get request ''dst'') (py_get request ''sport'') (py_get request ''dport'')
            (py_get request ''protocol'') (py_get request ''zone'')) (\<lambda>k.
    rbnd (key4 (py_get request ''dst'') (py_get request ''src'') (py_get request ''dport'') (py_get request ''sport'')
            (py_get request ''protocol'') (py_get request ''zone'')) (\<lambda>r.
    rbnd (forwarding_entry4 k (sid * 2) (PInt (hops ! 0)) False True) (\<lambda>e0.
    rbnd (forwarding_entry4 r (sid * 2 + 1) (PInt (hops ! 1)) False True) (\<lambda>e1.
    Inr [e0, e1])))))"

definition admit_single :: "('e, ('e, 'z) policy_scheme) powner \<Rightarrow> pyval \<Rightarrow> (('e, 'z) policy_scheme, pyval) py" where
  "admit_single P request = (thn (ensure (keys_are request admit_fields) (ValueError ''invalid admission fields''))
    (thn (lift_res (uint_arg (py_get request ''revision'') 64 ''policy revision''))
    (bnd (gets admission_enabled) (\<lambda>enabled.
    thn (ensure enabled blocked_error)
    (thn (reconcile P)
    (bnd (gets admission_enabled) (\<lambda>still.
    thn (ensure still blocked_error)
    (bnd (io (po_bindings P)) (\<lambda>bindings.
    bnd (lift_res (digest bindings)) (\<lambda>d.
    bnd (gets (\<lambda>s. p_attachment (pol_state s))) (\<lambda>attached.
    bnd (if PStr d = attached then io (po_qualified P) else ret PNone) (\<lambda>q.
    thn (whn (PStr d \<noteq> attached \<or> q \<noteq> PBool True) (thn (upd (\<lambda>s. s\<lparr>activated := False\<rparr>))
       (thn (reconcile P)
       (raise (RuntimeError ''attachment or qualification changed; sessions drained'')))))
    (bnd (gets (\<lambda>s. current_decision s request)) (\<lambda>current.
    thn (ensure current (ValueError ''stale policy decision''))
    (thn (ensure (py_get request ''verdict'' = PStr ''allow'' \<and> rule_ok (py_get request ''rule_id'') \<and>
       py_get request ''inspection_required'' = PBool False \<and> py_get request ''nat_required'' = PBool False \<and>
       py_get request ''established'' = PBool True) (ValueError ''flow requires software enforcement''))
    (thn (ensure (ports_ok bindings (py_get request ''ingress'') (py_get request ''egress''))
       (ValueError ''verified distinct front-port bindings required''))
    (bnd (lift_res (port_hop bindings (py_get request ''egress''))) (\<lambda>h0.
    bnd (lift_res (port_hop bindings (py_get request ''ingress''))) (\<lambda>h1.
    bnd (lift_res (uint_arg (py_get request ''session_id'') 31 ''session ID'')) (\<lambda>sid.
    bnd (lift_res (admit_entries request sid [h0, h1])) (\<lambda>placed.
    bnd (on_ids (assign_pair (po_sql P) placed)) (\<lambda>entries.
    bnd (gets (\<lambda>s. p_revision (pol_state s))) (\<lambda>revision.
    thn (install (po_backend P) (PInt sid) entries (PInt revision) PNone)
    (thn (after_install P)
    (bnd (gets (\<lambda>s. p_revision (pol_state s))) (\<lambda>now.
    ret (PDict [(''installed'', PBool True), (''session_id'', PInt sid), (''revision'', PInt now), (''directions'', PInt 2)])))))))))))))))))))))))))))"

definition admit_pair :: "('e, ('e, 'z) policy_scheme) powner \<Rightarrow> pyval \<Rightarrow> (('e, 'z) policy_scheme, pyval) py" where
  "admit_pair P request = (thn (ensure (keys_are request pair_fields) (ValueError ''invalid paired admission fields''))
    (thn (lift_res (uint_arg (py_get request ''revision'') 64 ''policy revision''))
    (thn (lift_res (rfor [''policy_digest'', ''nat_digest'', ''path_digest''] (\<lambda>f. sha_required (py_get request f))))
    (bnd (gets admission_enabled) (\<lambda>enabled.
    thn (ensure enabled blocked_error)
    (thn (reconcile P)
    (bnd (gets admission_enabled) (\<lambda>still.
    thn (ensure still blocked_error)
    (bnd (gets (\<lambda>s. current_decision s request)) (\<lambda>current.
    thn (ensure current (ValueError ''stale policy decision''))
    (thn (ensure (py_get request ''verdict'' = PStr ''allow'' \<and> rule_ok (py_get request ''rule_id'') \<and>
       py_get request ''inspection_required'' = PBool False \<and> py_get request ''established'' = PBool True \<and>
       is_bool (py_get request ''nat_required'')) (ValueError ''flow requires software enforcement''))
    (bnd (io (po_bindings P)) (\<lambda>bindings.
    thn (ensure (ports_ok bindings (py_get request ''ingress'') (py_get request ''egress''))
       (ValueError ''verified distinct front-port bindings required''))
    (thn (lift_res (rfor [''ingress'', ''egress''] (\<lambda>p. rthn
       (port_up bindings (py_get request p) ''packet offload attachment is unavailable'') (Inr ()))))
    (bnd (lift_res (uint_arg (py_get request ''session_id'') 31 ''session ID'')) (\<lambda>sid.
    thn (lift_res (session_pair4 (PInt sid) (py_get request ''original'') (py_get request ''reply'') (PInt 0) (PList [PInt 0, PInt 0])))
    (bnd (directional_paths P request) (\<lambda>paths.
    bnd (lift_res (session_pair4 (PInt sid) (py_get request ''original'') (py_get request ''reply'')
       (PList (map (\<lambda>p. py_get p ''zone'') paths)) (PList (map (\<lambda>p. py_get p ''next_hop'') paths)))) (\<lambda>placed.
    let translated = list_ex (\<lambda>e. mode_of (entry_flags e) \<noteq> 0) placed in
    thn (ensure (PBool translated = py_get request ''nat_required'')
       (ValueError ''NAT decision does not match conntrack translation''))
    (bnd (on_ids (assign_pair (po_sql P) placed)) (\<lambda>entries.
    bnd (gets (\<lambda>s. p_revision (pol_state s))) (\<lambda>revision.
    thn (install (po_backend P) (PInt sid) entries (PInt revision) (PList (map (\<lambda>p. py_get p ''zone'') paths)))
    (thn (upd (\<lambda>s. s\<lparr>dependencies := dict_set sid request (dependencies s)\<rparr>))
    (thn (after_install P)
    (bnd (gets (\<lambda>s. p_revision (pol_state s))) (\<lambda>now.
    ret (PDict [(''installed'', PBool True), (''session_id'', PInt sid), (''revision'', PInt now), (''directions'', PInt 2),
       (''nat'', PBool translated), (''path_digest'', py_get request ''path_digest'')])))))))))))))))))))))))))))"

definition admit :: "('e, ('e, 'z) policy_scheme) powner \<Rightarrow> pyval \<Rightarrow> (('e, 'z) policy_scheme, pyval) py" where
  "admit P request =
     (if is_dict request \<and> has_key request ''original'' then admit_pair P request else admit_single P request)"

definition revoke :: "('e, ('e, 'z) policy_scheme) powner \<Rightarrow> pyval \<Rightarrow> (('e, 'z) policy_scheme, pyval) py" where
  "revoke P session_id = (bnd (lift_res (uint_arg session_id 31 ''session ID'')) (\<lambda>sid.
    bnd (gets sessions) (\<lambda>ss.
    thn (whn (sid \<in> set (dict_keys ss)) (remove (po_backend P) sid))
    (thn (upd (\<lambda>s. s\<lparr>dependencies := dict_del sid (dependencies s)\<rparr>))
    (ret (PDict [(''removed'', PBool True), (''session_id'', session_id)]))))))"


section \<open>What the manager's operations keep\<close>

text \<open>The owner's own fields, and a property of the revision of every session.\<close>

definition revisions :: "(pyval option \<Rightarrow> bool) \<Rightarrow> 'z \<Rightarrow> ('e, 'z) mgr_scheme \<Rightarrow> bool" where
  "revisions K m s \<longleftrightarrow> mgr.more s = m \<and> \<not> dict_any (\<lambda>_ v. \<not> K (s_revision v)) (sessions s)"

lemma revisions_simps [simp]:
  "revisions K m (s\<lparr>env := e\<rparr>) = revisions K m s" "revisions K m (s\<lparr>trace := t\<rparr>) = revisions K m s"
  "revisions K m (s\<lparr>recovery_required := b\<rparr>) = revisions K m s" "revisions K m (s\<lparr>jrows := j\<rparr>) = revisions K m s"
  by (simp_all add: revisions_def)

lemma revisions_set: "revisions K m s \<Longrightarrow> K (s_revision v) \<Longrightarrow>
    revisions K m (s\<lparr>sessions := dict_set i v (sessions s)\<rparr>)"
  by (auto simp: revisions_def dict_any_iff split: if_splits)

lemma revisions_del: "revisions K m s \<Longrightarrow> revisions K m (s\<lparr>sessions := dict_del i (sessions s)\<rparr>)"
  by (auto simp: revisions_def dict_any_iff split: if_splits)

lemma revisions_require [simp]: "pres (revisions K m) require_recovery"
  by (simp add: require_recovery_def pres_upd)

lemma revisions_save: "K (s_revision v) \<Longrightarrow> pres (revisions K m) (save be i v)"
  unfolding save_def journal_put_def
  by (intro pres_intros pres_fencing pres_io pres_observe pres_upd revisions_require revisions_set) auto

lemma revisions_forget: "pres (revisions K m) (forget be i)"
  unfolding forget_def journal_delete_def
  by (intro pres_intros pres_fencing pres_io pres_observe pres_upd revisions_require revisions_del) auto

lemma revisions_failed: "K (s_revision v) \<Longrightarrow> pres (revisions K m) (remove_failed be i v e)"
  unfolding remove_failed_def by (intro pres_intros revisions_require revisions_save) simp_all

lemma revisions_remove: "pres (revisions K m) (remove be i)"
proof -
  have "K (s_revision v)" if "revisions K m s" "dict_get (sessions s) i = Some v" for s :: "('a, 'b) mgr_scheme" and v
    using that by (auto simp: revisions_def dict_any_iff)
  then show ?thesis
    unfolding remove_def Let_def
    by (intro pres_gets_bnd pres_option pres_raise pres_thn pres_catch_all pres_for_each entry_frame pres_upd
        pres_fencing revisions_save revisions_failed revisions_set revisions_forget revisions_require) simp_all
qed

lemma revisions_install: "K (Some r) \<Longrightarrow> pres (revisions K m) (install be i es r z)"
proof -
  assume K: "K (Some r)"
  have "pres (revisions K m) (insert_entries be i v touched rest)" if "K (s_revision v)" for i v touched rest
    using that unfolding roll_back_def
    by (induction rest arbitrary: touched)
      (auto simp: roll_back_def intro!: pres_intros entry_frame revisions_save revisions_forget)
  then show ?thesis
    using K unfolding install_def program_pair_def
    by (intro pres_intros pres_io hw_frame revisions_save pres_fencing revisions_require) simp_all
qed

lemma save_frame:
  "wp (save be i v)
     (\<lambda>_ s'. sessions s' = dict_set i v (sessions s) \<and> mgr.more s' = mgr.more s \<and> recovery_required s' = recovery_required s)
     (\<lambda>_ s'. sessions s' = sessions s \<and> mgr.more s' = mgr.more s \<and> recovery_required s') s"
  unfolding save_def wp_thn wp_fencing journal_put_def wp_upd wp_observe by (intro wp_io) simp_all

lemma forget_frame:
  "wp (forget be i)
     (\<lambda>_ s'. sessions s' = dict_del i (sessions s) \<and> mgr.more s' = mgr.more s \<and> recovery_required s' = recovery_required s)
     (\<lambda>_ s'. sessions s' = sessions s \<and> mgr.more s' = mgr.more s \<and> recovery_required s') s"
  unfolding forget_def wp_thn wp_fencing journal_delete_def wp_upd wp_observe by (intro wp_io) simp_all

lemma remove_frame:
  fixes s :: "('e, 'z) mgr_scheme"
  shows "wp (remove be i)
    (\<lambda>_ s'. set (dict_keys (sessions s')) \<subseteq> set (dict_keys (sessions s)) - {i} \<and> mgr.more s' = mgr.more s \<and>
       recovery_required s' = recovery_required s)
    (\<lambda>_ s'. mgr.more s' = mgr.more s \<and> (s' = s \<or> recovery_required s')) s"
proof (cases "dict_get (sessions s) i")
  case None
  then show ?thesis unfolding remove_def by (simp add: wp_simps)
next
  case (Some old)
  let ?v = "with_state ''removing'' old"
  let ?F = "\<lambda>s' :: ('e, 'z) mgr_scheme. set (dict_keys (sessions s')) \<subseteq> insert i (set (dict_keys (sessions s))) \<and>
      mgr.more s' = mgr.more s"
  let ?S = "\<lambda>s' :: ('e, 'z) mgr_scheme. ?F s' \<and> recovery_required s' = recovery_required s"
  let ?E = "\<lambda>_ s' :: ('e, 'z) mgr_scheme. mgr.more s' = mgr.more s \<and> recovery_required s'"
  let ?Q = "\<lambda>_ s' :: ('e, 'z) mgr_scheme. set (dict_keys (sessions s')) \<subseteq> set (dict_keys (sessions s)) - {i} \<and>
      mgr.more s' = mgr.more s \<and> recovery_required s' = recovery_required s"
  have failed: "wp (remove_failed be i v e) (\<lambda>_ _. False) ?E s1" if "mgr.more s1 = mgr.more s" for v e s1
    unfolding remove_failed_def wp_thn wp_require
    by (rule wp_mono [OF save_frame]) (use that in \<open>auto simp: wp_simps\<close>)
  have loop: "wp (for_each (s_entries ?v) (remove_entry be)) (\<lambda>_. ?S) (\<lambda>_. ?S) s1" if "?S s1" for s1
    by (rule wp_pres [OF pres_for_each]) (rule entry_frame, use that in auto)
  have "wp (remove be i) ?Q ?E s"
    unfolding remove_def wp_bnd wp_gets Some option.case Let_def
  proof (rule wp_thnI [where P = "\<lambda>_. ?S" and E' = ?E])
    show "wp (catch_all (save be i ?v) (remove_failed be i ?v)) (\<lambda>_. ?S) ?E s"
      by (rule wp_catch_allI [OF save_frame])
        (auto simp: dom_update intro!: failed [THEN wp_mono])
  next
    fix s1 :: "('e, 'z) mgr_scheme" assume s1: "?S s1"
    show "wp (thn (catch_all (for_each (s_entries ?v) (remove_entry be)) (\<lambda>e.
           thn (upd (\<lambda>s. s\<lparr>sessions := dict_set i (with_state ''unknown'' ?v) (sessions s)\<rparr>)) (remove_failed be i ?v e)))
         (fencing (forget be i))) ?Q ?E s1"
    proof (rule wp_thnI [where P = "\<lambda>_. ?S" and E' = ?E])
      show "wp (catch_all (for_each (s_entries ?v) (remove_entry be)) (\<lambda>e.
           thn (upd (\<lambda>s. s\<lparr>sessions := dict_set i (with_state ''unknown'' ?v) (sessions s)\<rparr>)) (remove_failed be i ?v e)))
           (\<lambda>_. ?S) ?E s1"
        by (rule wp_catch_allI [OF loop [OF s1]]) (auto simp: wp_thn wp_upd intro!: failed [THEN wp_mono])
    next
      fix s2 :: "('e, 'z) mgr_scheme" assume "?S s2"
      then show "wp (fencing (forget be i)) ?Q ?E s2"
        unfolding wp_fencing by (intro wp_mono [OF forget_frame]) (auto simp: delete_keys)
    qed auto
  qed auto
  then show ?thesis by (rule wp_mono) auto
qed

lemma recover_frame:
  fixes s :: "('e, 'z) mgr_scheme"
  shows "wp (recover be)
    (\<lambda>_ s'. sessions s' = [] \<and> mgr.more s' = mgr.more s \<and> \<not> recovery_required s')
    (\<lambda>_ s'. mgr.more s' = mgr.more s \<and> recovery_required s') s"
proof -
  let ?I = "\<lambda>ids (s' :: ('e, 'z) mgr_scheme). mgr.more s' = mgr.more s \<and> recovery_required s' \<and>
      set (dict_keys (sessions s')) \<subseteq> set ids"
  let ?E = "\<lambda>_ s' :: ('e, 'z) mgr_scheme. mgr.more s' = mgr.more s \<and> recovery_required s'"
  have "wp (for_each (dict_keys (sessions s)) (remove be)) (\<lambda>_. ?I []) ?E (s\<lparr>recovery_required := True\<rparr>)"
  proof (rule wp_for_each [where I = ?I])
    fix i ids s' assume "?I (i # ids) s'"
    then show "wp (remove be i) (\<lambda>_. ?I ids) ?E s'"
      by (intro wp_mono [OF remove_frame]) auto
  qed simp
  then show ?thesis
    unfolding recover_def wp_thn wp_bnd wp_require wp_gets wp_upd
    by simp (erule wp_mono; simp)
qed

lemma install_listed:
  fixes s :: "('e, 'z) mgr_scheme"
  shows "wp (install be (PInt i) es r z)
     (\<lambda>_ s'. mgr.more s' = mgr.more s \<and> dict_get (sessions s') i =
        Some \<lparr>s_entries = es, s_revision = Some r, s_state = ''installed''\<rparr>)
     (\<lambda>_ s'. mgr.more s' = mgr.more s) s"
proof -
  let ?M = "\<lambda>s' :: ('e, 'z) mgr_scheme. mgr.more s' = mgr.more s"
  let ?v = "\<lparr>s_entries = es, s_revision = Some r, s_state = ''installing''\<rparr>"
  have M: "?M = revisions (\<lambda>_. True) (mgr.more s)" by (simp add: revisions_def dict_any_iff fun_eq_iff)
  have ins: "pres ?M (insert_entries be i v touched rest)" for i v touched rest
    unfolding M
    by (induction rest arbitrary: touched)
      (auto simp: roll_back_def intro!: pres_intros entry_frame revisions_save revisions_forget)
  have last: "wp (fencing (save be i (with_state ''installed'' ?v)))
      (\<lambda>_ s'. ?M s' \<and> dict_get (sessions s') i = Some \<lparr>s_entries = es, s_revision = Some r, s_state = ''installed''\<rparr>)
      (\<lambda>_. ?M) s1" if "?M s1" for s1
    unfolding wp_fencing by (rule wp_mono [OF save_frame]) (use that in \<open>auto simp: with_state_def\<close>)
  have "wp (program_pair be i ?v)
      (\<lambda>_ s'. ?M s' \<and> dict_get (sessions s') i = Some \<lparr>s_entries = es, s_revision = Some r, s_state = ''installed''\<rparr>)
      (\<lambda>_. ?M) s1" if "?M s1" for s1
    unfolding program_pair_def
    by (intro wp_thnI [where P = "\<lambda>_. ?M" and E' = "\<lambda>_. ?M"] wp_pres [of ?M] last ins that; simp?)
      ((intro pres_intros hw_frame | unfold M, intro revisions_save); simp)+
  then show ?thesis
    unfolding install_def wp_bnd wp_thn wp_gets wp_ensure wp_lift_res
    by (auto simp: uint_arg_Inr_iff split: sum.split intro!: wp_io)
qed


section \<open>Generation safety\<close>

text \<open>
  The path owner's lookup reads tables; it changes nothing of the owner
  (\<open>PathOwner.snapshot\<close> returns a copy).
\<close>

definition paths_readonly :: "('e, ('e, 'z) policy_scheme) powner \<Rightarrow> bool" where
  "paths_readonly P \<longleftrightarrow> (case po_paths P of None \<Rightarrow> True
     | Some f \<Rightarrow> (\<forall>request s. \<exists>e. snd (f request s) = s\<lparr>env := e\<rparr>))"

lemma directional_paths_frame:
  assumes "paths_readonly P"
  shows "wp (directional_paths P request) (\<lambda>_ s'. \<exists>e. s' = s\<lparr>env := e\<rparr>) (\<lambda>_ s'. \<exists>e. s' = s\<lparr>env := e\<rparr>) s"
proof (cases "po_paths P")
  case None
  then show ?thesis by (auto simp: directional_paths_def wp_simps intro: exI [of _ "env s"])
next
  case (Some f)
  have "wp (f request) (\<lambda>_ s'. \<exists>e. s' = s\<lparr>env := e\<rparr>) (\<lambda>_ s'. \<exists>e. s' = s\<lparr>env := e\<rparr>) s"
    using assms Some by (auto simp: paths_readonly_def wp_def split: prod.split sum.split
        dest!: spec [of _ request] spec [of _ s])
  then show ?thesis
    unfolding directional_paths_def Some option.case wp_bnd
    by (rule wp_mono) (auto simp: wp_simps split: sum.split intro!: wp_io)
qed

text \<open>Every session belongs to the current revision, or the manager is fenced.\<close>

definition of_revision :: "int \<Rightarrow> ('e, 'z) mgr_scheme \<Rightarrow> bool" where
  "of_revision r s \<longleftrightarrow> \<not> dict_any (\<lambda>_ v. s_revision v \<noteq> Some (PInt r)) (sessions s)"

definition generation_ok :: "('e, 'z) policy_scheme \<Rightarrow> bool" where
  "generation_ok s \<longleftrightarrow> recovery_required s \<or> of_revision (p_revision (pol_state s)) s"

lemma of_revision_simps [simp]:
  "of_revision r (s\<lparr>env := e\<rparr>) = of_revision r s"
  "sessions s = [] \<Longrightarrow> of_revision r s"
  by (simp_all add: of_revision_def dict_any_def)

lemma of_revision_iff: "of_revision r s \<longleftrightarrow> (\<forall>i v. dict_get (sessions s) i = Some v \<longrightarrow> s_revision v = Some (PInt r))"
  by (auto simp: of_revision_def dict_any_iff)

text \<open>The fields of the owner that the generation rests on.\<close>

lemma persist_frame:
  "wp (persist P change)
     (\<lambda>_ s'. \<exists>e. s' = s\<lparr>env := e, pol_state := change (pol_state s), pol_saved := change (pol_state s)\<rparr>)
     (\<lambda>_ s'. \<exists>e. s' = s\<lparr>env := e, pol_state := (pol_state s)\<lparr>p_phase := ''blocked''\<rparr>\<rparr>) s"
  unfolding persist_def wp_bnd wp_gets wp_thn wp_catch_all by (rule wp_io) (auto simp: wp_simps)

lemma more_policy:
  fixes s s' :: "('e, 'z) policy_scheme"
  assumes "mgr.more s' = mgr.more s"
  shows "pol_state s' = pol_state s \<and> pol_saved s' = pol_saved s \<and> activated s' = activated s \<and>
    dependencies s' = dependencies s \<and> pol_ids s' = pol_ids s"
  using assms by (cases s; cases s'; simp)

text \<open>How a drain that raises may leave the sessions.\<close>

definition left_over :: "('e, 'z) policy_scheme \<Rightarrow> ('e, 'z) policy_scheme \<Rightarrow> bool" where
  "left_over s s' \<longleftrightarrow> recovery_required s' \<or> sessions s' = [] \<or> sessions s' = sessions s \<and>
     recovery_required s' = recovery_required s \<and> p_revision (pol_state s') = p_revision (pol_state s)"

lemma drain_all_wp:
  fixes s :: "('e, 'z) policy_scheme"
  shows "wp (drain_all P)
     (\<lambda>_ s'. sessions s' = [] \<and> \<not> recovery_required s' \<and> dependencies s' = [] \<and> activated s' = activated s \<and>
        pol_state s' = (pol_state s)\<lparr>p_phase := ''blocked'', p_attachment := PNone\<rparr>)
     (\<lambda>_ s'. left_over s s' \<and> activated s' = activated s) s"
  unfolding drain_all_def
proof (rule wp_thnI [OF persist_frame], goal_cases)
  case (1 x s1)
  then obtain e w where s1: "s1 = s\<lparr>env := e, pol_state := (pol_state s)\<lparr>p_phase := ''draining'', p_attachment := PNone\<rparr>,
    pol_saved := w\<rparr>" by blast
  show ?case
    apply (rule wp_thnI [OF recover_frame])
     apply (subst wp_thn, subst wp_upd)
     apply (rule wp_mono [OF persist_frame])
      apply (auto simp: s1 left_over_def dest!: more_policy)
    done
qed (auto simp: left_over_def)

text \<open>A recovery inside an operation that has already deactivated the owner.\<close>

lemma reconcile_tail:
  fixes s :: "('e, 'z) policy_scheme"
  shows "wp (thn (upd (\<lambda>s. s\<lparr>activated := False\<rparr>))
       (bnd (gets (\<lambda>s. p_phase (pol_state s) \<noteq> ''blocked'' \<or> p_attachment (pol_state s) \<noteq> PNone \<or>
                  sessions s \<noteq> [] \<or> recovery_required s)) (\<lambda>dirty.
       whn dirty (drain_all P))))
     (\<lambda>_ s'. \<not> activated s' \<and> sessions s' = [] \<and> \<not> recovery_required s' \<and> p_phase (pol_state s') = ''blocked'' \<and>
        p_attachment (pol_state s') = PNone \<and> p_revision (pol_state s') = p_revision (pol_state s))
     (\<lambda>_ s'. \<not> activated s' \<and> left_over s s') s"
  unfolding wp_thn wp_upd wp_bnd wp_gets wp_whn
  by (auto simp: left_over_def intro!: wp_mono [OF drain_all_wp])

definition owner_view :: "('e, 'z) policy_scheme \<Rightarrow> (int \<times> session) list \<times> bool \<times> pstate \<times> bool" where
  "owner_view s = (sessions s, recovery_required s, pol_state s, activated s)"

lemma owner_view_simps [simp]:
  "owner_view (s\<lparr>env := e\<rparr>) = owner_view s" "owner_view (s\<lparr>dependencies := d\<rparr>) = owner_view s"
  "owner_view (s\<lparr>pol_ids := i\<rparr>) = owner_view s"
  by (simp_all add: owner_view_def)

lemma view_paths: "paths_readonly P \<Longrightarrow> pres (\<lambda>s. owner_view s = V) (directional_paths P request)"
  by (auto simp: pres_wp intro!: wp_mono [OF directional_paths_frame])

lemma dependencies_stale_frame:
  assumes "paths_readonly P"
  shows "wp (dependencies_stale P) (\<lambda>_ s'. owner_view s' = owner_view s)
     (\<lambda>x s'. \<not> is_exception x \<and> owner_view s' = owner_view s) s"
proof -
  let ?V = "\<lambda>s'. owner_view s' = owner_view s"
  have "pres ?V (bnd (io (po_qualified P)) (\<lambda>q.
    if q \<noteq> PBool True then ret True
       else (bnd (io (po_bindings P)) (\<lambda>b.
         bnd (lift_res (digest b)) (\<lambda>d.
         bnd (gets (\<lambda>s. p_attachment (pol_state s))) (\<lambda>attached.
         if PStr d \<noteq> attached then ret True
         else (bnd (gets dependencies) (\<lambda>deps.
           thn (for_each deps (\<lambda>(ident, request). (bnd (gets sessions) (\<lambda>ss.
             if ident \<notin> set (dict_keys ss)
             then upd (\<lambda>s. s\<lparr>dependencies := dict_del ident (dependencies s)\<rparr>)
             else bnd (directional_paths P request) (\<lambda>_. ret ())))))
           (ret False)))))))))"
    by (intro pres_intros pres_io pres_upd view_paths assms) simp_all
  then show ?thesis
    unfolding dependencies_stale_def wp_catch_exn
    by (intro wp_mono [OF wp_pres [of ?V]]) (auto simp: wp_simps)
qed

text \<open>
  What a pass of \<open>reconcile\<close> leaves: an enabled owner with its sessions untouched, or a
  drained one; when it raises, a deactivated one (\<open>KeyboardInterrupt\<close> passes through).
\<close>

definition drained :: "('e, 'z) policy_scheme \<Rightarrow> bool" where
  "drained s \<longleftrightarrow> \<not> activated s \<and> sessions s = [] \<and> \<not> recovery_required s \<and> p_phase (pol_state s) = ''blocked'' \<and>
     p_attachment (pol_state s) = PNone"

lemma reconcile_wp:
  fixes s :: "('e, 'z) policy_scheme"
  assumes "paths_readonly P"
  shows "wp (reconcile P)
    (\<lambda>_ s'. admission_enabled s' \<and> owner_view s' = owner_view s \<or>
       drained s' \<and> p_revision (pol_state s') = p_revision (pol_state s))
    (\<lambda>x s'. \<not> is_exception x \<and> owner_view s' = owner_view s \<or> \<not> activated s' \<and>
       left_over s s') s"
proof -
  have tail: "wp (thn (whn (stale \<or> fenced) (thn (upd (\<lambda>s. s\<lparr>activated := False\<rparr>))
       (bnd (gets (\<lambda>s. p_phase (pol_state s) \<noteq> ''blocked'' \<or> p_attachment (pol_state s) \<noteq> PNone \<or>
                  sessions s \<noteq> [] \<or> recovery_required s)) (\<lambda>dirty.
       whn dirty (drain_all P)))))
    (gets policy_status))
    (\<lambda>_ s'. admission_enabled s' \<and> owner_view s' = owner_view s \<or>
       drained s' \<and> p_revision (pol_state s') = p_revision (pol_state s))
    (\<lambda>x s'. \<not> activated s' \<and> left_over s s') s1"
    if "owner_view s1 = owner_view s" "fenced = recovery_required s1" "stale \<or> admission_enabled s1 \<or> fenced"
    for stale fenced and s1 :: "('e, 'z) policy_scheme"
    unfolding wp_thn [of "whn b m" for b m] wp_whn wp_gets
    using that wp_mono [OF reconcile_tail [of P s1], where Q' = "\<lambda>_ s'. drained s' \<and> p_revision (pol_state s') = p_revision (pol_state s)"
      and E' = "\<lambda>x s'. \<not> activated s' \<and> left_over s s'"]
    by (auto simp: owner_view_def drained_def left_over_def elim!: wp_mono)
  let ?first = "if p_phase (pol_state s) \<noteq> ''active'' \<or> \<not> activated s then ret True else dependencies_stale P"
  have first: "wp ?first
      (\<lambda>stale s1. owner_view s1 = owner_view s \<and> (stale \<or> admission_enabled s1 \<or> recovery_required s1))
      (\<lambda>x s1. \<not> is_exception x \<and> owner_view s1 = owner_view s) s"
    by (auto simp: wp_ret owner_view_def admission_enabled_def
        intro!: wp_mono [OF dependencies_stale_frame [OF assms]])
  show ?thesis
    unfolding reconcile_def wp_bnd [of "gets f" for f] wp_gets
  proof (rule wp_bndI [OF first], goal_cases)
    case (1 stale s1)
    then show ?case
      unfolding wp_bnd [of "gets f" for f] wp_gets by (intro wp_mono [OF tail]) auto
  qed auto
qed

text \<open>
  A pass of \<open>reconcile\<close> (with a path lookup that only reads) ends with admission
  enabled and nothing withdrawn, or with no session left, the phase blocked and no fence;
  when it raises an \<open>Exception\<close> the owner is deactivated.
\<close>

theorem reconcile_enabled_or_drained:
  assumes "paths_readonly P" and "reconcile P s = (r, s')"
  shows "case r of
      Inr status \<Rightarrow> admission_enabled s' \<and> sessions s' = sessions s \<or> drained s'
    | Inl e \<Rightarrow> is_exception e \<longrightarrow> \<not> admission_enabled s'"
  using reconcile_wp [OF assms(1), of s] assms(2)
  by (auto simp: wp_def owner_view_def admission_enabled_def split: sum.splits)

text \<open>
  \<open>replace\<close>: returning, it has advanced the revision by one, recorded the digest and
  drained every session; raising, it has changed nothing or has left the owner deactivated.
\<close>

theorem replace_drains_generation:
  "case replace P revision policy_digest s of
      (Inr status, s') \<Rightarrow> drained s' \<and> dependencies s' = [] \<and> revision = PInt (p_revision (pol_state s)) \<and>
        p_revision (pol_state s') = p_revision (pol_state s) + 1 \<and> p_digest (pol_state s') = policy_digest
    | (Inl e, s') \<Rightarrow> \<not> (s' \<noteq> s \<and> admission_enabled s')"
proof -
  have "wp (replace P revision policy_digest)
    (\<lambda>_ s'. drained s' \<and> dependencies s' = [] \<and> revision = PInt (p_revision (pol_state s)) \<and>
        p_revision (pol_state s') = p_revision (pol_state s) + 1 \<and> p_digest (pol_state s') = policy_digest)
    (\<lambda>_ s'. s' = s \<or> \<not> activated s') s"
    unfolding replace_def wp_bnd wp_lift_res wp_thn wp_gets wp_ensure wp_upd
    apply (auto simp: uint_arg_Inr_iff split: sum.split intro!: wp_mono [OF persist_frame])
     apply (rule wp_mono [OF recover_frame])
      apply (auto dest!: more_policy simp: drained_def intro!: wp_mono [OF persist_frame])
     done
  then show ?thesis by (auto simp: wp_def admission_enabled_def split: prod.split sum.split)
qed


section \<open>Every operation keeps the generation\<close>

lemma generation_view:
  "owner_view s' = owner_view s \<Longrightarrow> generation_ok s' = generation_ok s"
  by (simp add: owner_view_def generation_ok_def of_revision_def)

lemma generation_simps [simp]:
  "generation_ok (s\<lparr>env := e\<rparr>) = generation_ok s" "generation_ok (s\<lparr>dependencies := d\<rparr>) = generation_ok s"
  "generation_ok (s\<lparr>pol_ids := i\<rparr>) = generation_ok s" "generation_ok (s\<lparr>activated := a\<rparr>) = generation_ok s"
  "p_revision st = p_revision (pol_state s) \<Longrightarrow> generation_ok (s\<lparr>pol_state := st\<rparr>) = generation_ok s"
  "generation_ok (s\<lparr>pol_saved := t\<rparr>) = generation_ok s"
  by (simp_all add: generation_ok_def of_revision_def)

lemma generation_empty: "sessions s = [] \<Longrightarrow> generation_ok s"
  by (simp add: generation_ok_def)

lemma generation_persist:
  "(\<And>st. p_revision (change st) = p_revision st) \<Longrightarrow> pres generation_ok (persist P change)"
  unfolding pres_wp by (intro allI impI wp_mono [OF persist_frame]) auto

lemma generation_paths: "paths_readonly P \<Longrightarrow> pres generation_ok (directional_paths P request)"
  by (auto simp: pres_wp intro!: wp_mono [OF directional_paths_frame])

lemma generation_remove: "pres generation_ok (remove be i)"
  unfolding pres_wp
proof (intro allI impI)
  fix s :: "('a, 'b) policy_scheme" assume s: "generation_ok s"
  show "wp (remove be i) (\<lambda>_. generation_ok) (\<lambda>_. generation_ok) s"
  proof (cases "recovery_required s")
    case True
    show ?thesis by (rule wp_mono [OF remove_frame]) (use True in \<open>auto simp: generation_ok_def\<close>)
  next
    case False
    let ?K = "revisions (\<lambda>x. x = Some (PInt (p_revision (pol_state s)))) (mgr.more s)"
    have "?K s" using s False by (simp add: generation_ok_def of_revision_def revisions_def)
    then have "wp (remove be i) (\<lambda>_. ?K) (\<lambda>_. ?K) s" by (rule wp_pres [OF revisions_remove])
    then show ?thesis
      by (rule wp_mono) (auto simp: revisions_def generation_ok_def of_revision_def dest!: more_policy)
  qed
qed

lemma generation_install:
  fixes s :: "('e, 'z) policy_scheme"
  assumes "generation_ok s" "r = p_revision (pol_state s)"
  shows "wp (install be i es (PInt r) z) (\<lambda>_. generation_ok) (\<lambda>_. generation_ok) s"
proof (cases "recovery_required s")
  case True
  then show ?thesis
    unfolding install_def wp_bnd wp_thn wp_gets wp_ensure wp_lift_res
    using assms(1) by (auto split: sum.split)
next
  case False
  let ?K = "revisions (\<lambda>x. x = Some (PInt r)) (mgr.more s)"
  have "?K s" using assms False by (simp add: generation_ok_def of_revision_def revisions_def)
  then have "wp (install be i es (PInt r) z) (\<lambda>_. ?K) (\<lambda>_. ?K) s"
    by (rule wp_pres [OF revisions_install [where K = "\<lambda>x. x = Some (PInt r)"], rotated]) simp
  then show ?thesis
    by (rule wp_mono) (auto simp: revisions_def generation_ok_def of_revision_def assms(2) dest!: more_policy)
qed

lemma generation_reconcile: "paths_readonly P \<Longrightarrow> pres generation_ok (reconcile P)"
  unfolding pres_wp
proof (intro allI impI)
  fix s :: "('a, 'b) policy_scheme" assume "paths_readonly P" "generation_ok s"
  then show "wp (reconcile P) (\<lambda>_. generation_ok) (\<lambda>_. generation_ok) s"
    by (intro wp_mono [OF reconcile_wp])
      (auto simp: drained_def generation_ok_def of_revision_iff owner_view_def left_over_def)
qed

lemma generation_after_install: "paths_readonly P \<Longrightarrow> pres generation_ok (after_install P)"
  unfolding after_install_def by (intro pres_intros generation_reconcile)

lemma generation_install_step:
  assumes "pres generation_ok k"
  shows "pres generation_ok (bnd (gets (\<lambda>s. p_revision (pol_state s))) (\<lambda>revision.
    thn (install be i es (PInt revision) z) k))"
  by (rule pres_gets_wp, rule wp_thnI [OF generation_install]) (use assms in \<open>auto intro: wp_pres\<close>)

lemma generation_on_ids: "pres generation_ok (on_ids m)"
  unfolding on_ids_def by (intro pres_zoom) simp

lemma generation_admit: "paths_readonly P \<Longrightarrow> pres generation_ok (admit P request)"
  unfolding admit_def admit_single_def admit_pair_def Let_def
  by (intro pres_if generation_install_step pres_intros pres_io pres_upd generation_on_ids generation_paths
      generation_reconcile generation_after_install; simp)+

lemma generation_replace: "pres generation_ok (replace P revision policy_digest)"
  unfolding pres_wp replace_def wp_bnd wp_lift_res wp_thn wp_gets wp_ensure wp_upd
proof (clarsimp simp: uint_arg_Inr_iff split: sum.split, rule wp_mono [OF persist_frame], goal_cases)
  case (1 s x s1)
  show ?case
    by (rule wp_mono [OF recover_frame])
      (auto dest!: more_policy simp: generation_ok_def intro!: wp_mono [OF persist_frame])
qed auto

lemma generation_activate: "pres generation_ok (activate P revision policy_digest)"
  unfolding activate_def
  by (intro pres_intros pres_io pres_upd generation_persist) simp_all

lemma generation_revoke: "pres generation_ok (revoke P session_id)"
  unfolding revoke_def
  by (intro pres_intros pres_upd generation_remove) simp_all

text \<open>The life of an owner: any start on a journal, then operations in any order.\<close>

inductive policy_run :: "('e, 'e policy) powner \<Rightarrow> 'e policy \<Rightarrow> bool" for P where
  owner_start: "manager_init e rows = Inr m \<Longrightarrow> policy_init saved ids m = Inr s \<Longrightarrow> policy_run P s"
| owner_replace: "policy_run P s \<Longrightarrow> policy_run P (snd (replace P revision dig s))"
| owner_activate: "policy_run P s \<Longrightarrow> policy_run P (snd (activate P revision dig s))"
| owner_admit: "policy_run P s \<Longrightarrow> policy_run P (snd (admit P request s))"
| owner_revoke: "policy_run P s \<Longrightarrow> policy_run P (snd (revoke P session_id s))"
| owner_reconcile: "policy_run P s \<Longrightarrow> policy_run P (snd (reconcile P s))"

lemma policy_run_generation: "policy_run P s \<Longrightarrow> paths_readonly P \<Longrightarrow> generation_ok s"
proof (induction rule: policy_run.induct)
  case (owner_start e rows m saved ids s)
  then have "recovery_required s \<longleftrightarrow> sessions s \<noteq> []"
    by (auto simp: manager_init_def policy_init_def res_iffs mgr.extend_def)
  then show ?case by (cases "sessions s = []") (auto simp: generation_ok_def)
qed (intro pres_snd [OF generation_replace] pres_snd [OF generation_activate] pres_snd [OF generation_admit]
  pres_snd [OF generation_revoke] pres_snd [OF generation_reconcile]; assumption)+

text \<open>
  C1.  Generation safety.  After any start on a persisted journal and any sequence of
  replacements, activations, admissions, revocations and reconciliations, each failing
  anywhere: while admission is enabled every session carries the current policy revision.
\<close>

theorem policy_generation_safe:
  assumes "policy_run P s" and "paths_readonly P" and "admission_enabled s"
  shows "of_revision (p_revision (pol_state s)) s"
  using policy_run_generation [OF assms(1,2)] assms(3) by (simp add: generation_ok_def admission_enabled_def)

section \<open>What an admission shows\<close>

lemma after_install_view:
  assumes "paths_readonly P" "after_install P s = (Inr u, s')"
  shows "admission_enabled s' \<and> owner_view s' = owner_view s"
proof -
  from assms(2) obtain x where "reconcile P s = (Inr x, s')" "admission_enabled s'"
    by (auto simp: after_install_def runs)
  with wp_returns [OF reconcile_wp [OF assms(1)]] show ?thesis
    by (auto simp: drained_def admission_enabled_def)
qed

lemma on_ids_view: "on_ids m s = (r, s') \<Longrightarrow> owner_view s' = owner_view s"
  by (auto simp: on_ids_def zoom_def split: prod.splits)

lemma io_view: "io m s = (r, s') \<Longrightarrow> owner_view s' = owner_view s"
  by (auto simp: io_def split: prod.splits)

lemma paths_view: "paths_readonly P \<Longrightarrow> directional_paths P request s = (r, s') \<Longrightarrow> owner_view s' = owner_view s"
  using presD [OF view_paths [of P "owner_view s" request], of s r s'] by simp

lemma install_view:
  fixes s :: "('e, 'z) policy_scheme"
  assumes "install be (PInt i) es r z s = (Inr u, s')"
  shows "pol_state s' = pol_state s \<and>
    dict_get (sessions s') i = Some \<lparr>s_entries = es, s_revision = Some r, s_state = ''installed''\<rparr>"
  using wp_returns [OF install_listed assms] by (auto dest!: more_policy)

lemma current_view: "owner_view s' = owner_view s \<Longrightarrow> current_decision s' request = current_decision s request"
  by (simp add: owner_view_def current_decision_def)

text \<open>What must hold of a request and the owner once it is admitted.\<close>

definition admitted :: "pyval \<Rightarrow> ('e, 'z) policy_scheme \<Rightarrow> bool" where
  "admitted request s \<longleftrightarrow> admission_enabled s \<and> current_decision s request \<and>
     py_get request ''verdict'' = PStr ''allow'' \<and> py_get request ''inspection_required'' = PBool False \<and>
     py_get request ''established'' = PBool True \<and>
     (case dict_get (sessions s) (the_int (py_get request ''session_id'')) of None \<Rightarrow> False
      | Some v \<Rightarrow> length (s_entries v) = 2 \<and> s_state v = ''installed'' \<and>
          s_revision v = Some (PInt (p_revision (pol_state s))))"

lemma assign_pair_length: "assign_pair sq es t = (Inr es', t') \<Longrightarrow> length es' = 2"
  by (auto simp: assign_pair_def runs reserve_pair_def rcollect_Inr_iff dest!: list_all2_lengthD)

lemma on_ids_length: "on_ids (assign_pair sq es) s = (Inr es', s') \<Longrightarrow> length es' = 2"
  by (auto simp: on_ids_def zoom_def dest: assign_pair_length split: prod.splits)


text \<open>The last steps of both forms of admission: ids, installation, the final check.\<close>

lemma admission_tail:
  assumes "paths_readonly P" and "current_decision s request" and "py_get request ''session_id'' = PInt sid"
    and "on_ids (assign_pair sq placed) s = (Inr es, s1)"
    and "install be (PInt sid) es (PInt (p_revision (pol_state s1))) z s1 = (Inr u, s2)"
    and "s3 = s2 \<or> s3 = s2\<lparr>dependencies := d\<rparr>" and "after_install P s3 = (Inr w, s')"
    and "py_get request ''verdict'' = PStr ''allow''" "py_get request ''inspection_required'' = PBool False"
    "py_get request ''established'' = PBool True"
  shows "admitted request s'"
proof -
  have ids: "owner_view s1 = owner_view s" "length es = 2"
    using assms(4) by (auto dest: on_ids_view on_ids_length)
  have inst: "pol_state s2 = pol_state s1" "dict_get (sessions s2) sid =
      Some \<lparr>s_entries = es, s_revision = Some (PInt (p_revision (pol_state s1))), s_state = ''installed''\<rparr>"
    using install_view [OF assms(5)] by simp_all
  have last: "admission_enabled s'" "owner_view s' = owner_view s3"
    using after_install_view [OF assms(1,7)] by simp_all
  have "owner_view s3 = owner_view s2" using assms(6) by auto
  with last ids inst have state: "pol_state s' = pol_state s" "sessions s' = sessions s2" "pol_state s1 = pol_state s"
    by (simp_all add: owner_view_def)
  then show ?thesis
    using assms(2,3,8,9,10) ids(2) inst(2) last(1) by (simp add: admitted_def current_decision_def)
qed

lemma admit_single_shows:
  assumes "paths_readonly P" "admit_single P request s = (Inr v, s')"
  shows "admitted request s'"
  using assms(2) unfolding admit_single_def
  by (auto simp: runs uint_arg_Inr_iff intro: admission_tail [OF assms(1)] split: if_splits)

lemma current_after:
  "paths_readonly P \<Longrightarrow> current_decision s request \<Longrightarrow> io m s = (r, s1) \<Longrightarrow>
   directional_paths P q s1 = (r', s2) \<Longrightarrow> current_decision s2 request"
  using io_view [of m s r s1] paths_view [of P q s1 r' s2] current_view [of s2 s request] by simp

lemma admit_pair_shows:
  assumes "paths_readonly P" "admit_pair P request s = (Inr v, s')"
  shows "admitted request s'"
  using assms(2) unfolding admit_pair_def Let_def
  by (auto simp: runs uint_arg_Inr_iff split: if_splits)
    (rule admission_tail [OF assms(1)], (rule current_after [OF assms(1)]; assumption), (assumption | (rule disjI2, rule refl))+)

text \<open>
  C2.  An admission that returns has an explicit allow verdict for an established,
  uninspected session, decided under the revision and digest in force; its two entries are
  installed under that revision and admission is still enabled when it returns.
\<close>

theorem admit_only_explicit_allow:
  assumes "paths_readonly P" and "admit P request s = (Inr v, s')"
  shows "admitted request s'"
  using assms admit_single_shows admit_pair_shows by (auto simp: admit_def split: if_splits)


section \<open>Concrete runs\<close>

definition sample_bindings :: pyval where
  "sample_bindings = PDict
     [(''1'', PDict [(''enabled'', PBool True), (''link'', PBool True), (''next_hop'', PInt 8)]),
      (''2'', PDict [(''enabled'', PBool True), (''link'', PBool True), (''next_hop'', PInt 9)])]"

definition sample_owner :: "bool \<Rightarrow> ((bytes \<times> bytes) list, ((bytes \<times> bytes) list, unit) policy_scheme) powner" where
  "sample_owner ready = \<lparr>po_backend = list_backend, po_save = (\<lambda>_. ret ()), po_bindings = ret sample_bindings,
     po_qualified = ret (PBool ready), po_nat_qualified = ret (PBool False),
     po_sql = \<lparr>sq_begin = ret (), sq_commit = ret ()\<rparr>, po_paths = None\<rparr>"

definition policy_a :: pyval where
  "policy_a = PStr (replicate 64 (CHR ''a''))"

text \<open>An active owner of generation 3 whose attachment digest is \<open>d\<close>.\<close>

definition live :: "string \<Rightarrow> (bytes \<times> bytes) list policy" where
  "live d = mgr.extend fresh \<lparr>pol_state = \<lparr>p_revision = 3, p_phase = ''active'', p_digest = policy_a, p_attachment = PStr d\<rparr>,
     pol_saved = \<lparr>p_revision = 3, p_phase = ''active'', p_digest = policy_a, p_attachment = PStr d\<rparr>,
     activated = True, dependencies = [], pol_ids = sample_book 65536\<rparr>"

definition sample_request :: pyval where
  "sample_request = PDict [(''session_id'', PInt 1), (''revision'', PInt 3), (''policy_digest'', policy_a),
     (''rule_id'', PStr ''r1''), (''verdict'', PStr ''allow''), (''protocol'', PInt 6), (''src'', PStr ''10.0.0.1''),
     (''dst'', PStr ''10.0.0.2''), (''sport'', PInt 5), (''dport'', PInt 6), (''zone'', PInt 1), (''ingress'', PInt 1),
     (''egress'', PInt 2), (''inspection_required'', PBool False), (''nat_required'', PBool False),
     (''established'', PBool True)]"

lemma sample_readonly: "paths_readonly (sample_owner b)"
  by (simp add: paths_readonly_def sample_owner_def)

lemma sample_digest: "\<exists>d. digest sample_bindings = Inr d"
proof -
  have "json_text sample_bindings \<noteq> Inl e" for e by (cases "json_text sample_bindings") (code_simp, simp)
  then show ?thesis by (cases "json_text sample_bindings") (auto simp: digest_def)
qed

lemma sample_reconcile:
  assumes "digest sample_bindings = Inr d" "admission_enabled s" "p_attachment (pol_state s) = PStr d" "dependencies s = []"
  shows "reconcile (sample_owner True) s = (Inr (policy_status s), s)"
  using assms
  by (simp add: reconcile_def dependencies_stale_def sample_owner_def bnd_def thn_def gets_def io_def ret_def
      catch_exn_def lift_res_def whn_def admission_enabled_def)

definition sample_placed :: "bytes list" where
  "sample_placed =
     [[64, 6, 0, 1, 0, 5, 0, 6, 10, 0, 0, 1, 10, 0, 0, 2, 148, 0, 0, 0, 0, 0, 0, 9] @ replicate 15 0 @ [2] @ replicate 24 0,
      [64, 6, 0, 1, 0, 6, 0, 5, 10, 0, 0, 2, 10, 0, 0, 1, 148, 0, 0, 0, 0, 0, 0, 8] @ replicate 15 0 @ [3] @ replicate 24 0]"

text \<open>Ids and installation of the sample pair, whatever the attachment's digest.\<close>

definition sample_pair :: "bytes list" where
  "sample_pair =
     [[64, 6, 0, 1, 0, 5, 0, 6, 10, 0, 0, 1, 10, 0, 0, 2, 148, 0, 0, 0, 0, 0, 0, 9] @ replicate 13 0 @ [1, 0, 0] @ replicate 24 0,
      [64, 6, 0, 1, 0, 6, 0, 5, 10, 0, 0, 2, 10, 0, 0, 1, 148, 0, 0, 0, 0, 0, 0, 8] @ replicate 13 0 @ [1, 0, 1] @ replicate 24 0]"

lemma sample_assigned:
  "on_ids (assign_pair (po_sql (sample_owner True)) sample_placed) (live d) =
     (Inr sample_pair, (live d)\<lparr>pol_ids := sample_book 65538\<rparr>)"
  by code_simp

lemma sample_installed:
  "fst (install list_backend (PInt 1) sample_pair (PInt 3) PNone ((live d)\<lparr>pol_ids := i\<rparr>)) = Inr ()"
  by code_simp

lemma sample_unfenced:
  "\<not> recovery_required (snd (install list_backend (PInt 1) sample_pair (PInt 3) PNone ((live d)\<lparr>pol_ids := i\<rparr>)))"
  by code_simp

lemma sample_entries: "admit_entries sample_request 1 [9, 8] = Inr sample_placed"
  by code_simp

lemma sample_callbacks:
  "po_backend (sample_owner b) = list_backend" "io (po_bindings (sample_owner b)) s = (Inr sample_bindings, s)"
  "io (po_qualified (sample_owner b)) s = (Inr (PBool b), s)"
  by (simp_all add: sample_owner_def io_def ret_def)

lemma sample_admit:
  assumes d: "digest sample_bindings = Inr d"
  shows "\<exists>v s'. admit (sample_owner True) sample_request (live d) = (Inr v, s')"
proof -
  obtain es s1 s2 where run: "on_ids (assign_pair (po_sql (sample_owner True)) sample_placed) (live d) = (Inr es, s1)"
    "install list_backend (PInt 1) es (PInt (p_revision (pol_state s1))) PNone s1 = (Inr (), s2)" "\<not> recovery_required s2"
    using sample_assigned [where d = d] sample_installed [where d = d and i = "sample_book 65538"] sample_unfenced [where d = d and i = "sample_book 65538"]
    by (cases "install list_backend (PInt 1) sample_pair (PInt 3) PNone ((live d)\<lparr>pol_ids := sample_book 65538\<rparr>)")
      (auto simp: live_def mgr.extend_def)
  have live: "admission_enabled (live d)" "p_attachment (pol_state (live d)) = PStr d" "dependencies (live d) = []"
    by (simp_all add: live_def fresh_def mgr.extend_def admission_enabled_def)
  have "dependencies s1 = []" using run(1) live(3) by (auto simp: on_ids_def zoom_def split: prod.splits)
  moreover have "mgr.more s2 = mgr.more s1" using wp_returns [OF install_listed run(2)] by simp
  ultimately have "admission_enabled s2" "p_attachment (pol_state s2) = PStr d" "dependencies s2 = []"
    using on_ids_view [OF run(1)] live run(3) by (auto simp: owner_view_def admission_enabled_def dest!: more_policy)
  then have last: "after_install (sample_owner True) s2 = (Inr (), s2)"
    by (simp add: after_install_def sample_reconcile [OF d] bnd_def thn_def gets_def ensure_def)
  have hops: "port_hop sample_bindings (PInt 2) = Inr 9" "port_hop sample_bindings (PInt 1) = Inr 8"
    "ports_ok sample_bindings (PInt 1) (PInt 2)" by code_simp+
  have get: "keys_are sample_request admit_fields" "py_get sample_request ''ingress'' = PInt 1"
    "py_get sample_request ''egress'' = PInt 2" "py_get sample_request ''session_id'' = PInt 1"
    "py_get sample_request ''revision'' = PInt 3" "py_get sample_request ''verdict'' = PStr ''allow''"
    "rule_ok (py_get sample_request ''rule_id'')" "py_get sample_request ''inspection_required'' = PBool False"
    "py_get sample_request ''nat_required'' = PBool False" "py_get sample_request ''established'' = PBool True"
    "\<not> has_key sample_request ''original''"
    by code_simp+
  have "current_decision (live d) sample_request" by code_simp
  then have "admit_single (sample_owner True) sample_request (live d) = (Inr (PDict [(''installed'', PBool True),
      (''session_id'', PInt 1), (''revision'', PInt (p_revision (pol_state s2))), (''directions'', PInt 2)]), s2)"
    unfolding admit_single_def
    using d live run(1,2)
    by (simp add: runs get hops sample_reconcile [OF d live] sample_entries last uint_arg_def sample_callbacks)
  then show ?thesis using get by (simp add: admit_def)
qed


theorem admit_only_explicit_allow_witness:
  "\<exists>d s'. digest sample_bindings = Inr d \<and> s' = snd (admit (sample_owner True) sample_request (live d)) \<and>
     admitted sample_request s'"
proof -
  from sample_digest obtain d where d: "digest sample_bindings = Inr d" by blast
  from sample_admit [OF d] obtain v s' where "admit (sample_owner True) sample_request (live d) = (Inr v, s')" by blast
  with admit_only_explicit_allow [OF sample_readonly this] d show ?thesis by auto
qed

lemma unqualified_reconcile:
  "fst (reconcile (sample_owner False) (live ''d'')) =
     Inr (policy_status (snd (reconcile (sample_owner False) (live ''d''))))"
  "\<not> admission_enabled (snd (reconcile (sample_owner False) (live ''d'')))"
  by code_simp+

theorem reconcile_enabled_or_drained_witness: "drained (snd (reconcile (sample_owner False) (live ''d'')))"
  using reconcile_enabled_or_drained [OF sample_readonly surjective_pairing] unqualified_reconcile
  by (metis (no_types, lifting) sum.case(2))

definition saved_generation :: pyval where
  "saved_generation = PDict [(''revision'', PInt 3), (''phase'', PStr ''blocked''), (''digest'', policy_a), (''attachment'', PNone)]"

lemma sample_activate:
  assumes d: "digest sample_bindings = Inr d" and s: "policy_init saved_generation (sample_book 65536) fresh = Inr s"
  shows "activate (sample_owner True) (PInt 3) policy_a s = (Inr (), live d)"
proof -
  have "load_state saved_generation =
      Inr \<lparr>p_revision = 3, p_phase = ''blocked'', p_digest = policy_a, p_attachment = PNone\<rparr>"
    by code_simp
  with s have "s = mgr.extend fresh \<lparr>pol_state = \<lparr>p_revision = 3, p_phase = ''blocked'', p_digest = policy_a, p_attachment = PNone\<rparr>,
     pol_saved = \<lparr>p_revision = 3, p_phase = ''blocked'', p_digest = policy_a, p_attachment = PNone\<rparr>,
     activated = False, dependencies = [], pol_ids = sample_book 65536\<rparr>"
    by (simp add: policy_init_def)
  moreover have "is_sha policy_a" by code_simp
  ultimately show ?thesis
    using d by (simp add: activate_def live_def fresh_def mgr.extend_def runs uint_arg_def sample_callbacks persist_def
        catch_all_def sample_owner_def io_def ret_def sample_book_def sample_pool_def)
qed

lemma sample_life: "\<exists>s. policy_run (sample_owner True) s \<and> admitted sample_request s"
proof -
  from sample_digest obtain d where d: "digest sample_bindings = Inr d" by blast
  have "manager_init [] [] = Inr fresh" by (simp add: manager_init_def journal_load_def fresh_def)
  moreover have "load_state saved_generation =
      Inr \<lparr>p_revision = 3, p_phase = ''blocked'', p_digest = policy_a, p_attachment = PNone\<rparr>"
    by code_simp
  then obtain s where s: "policy_init saved_generation (sample_book 65536) fresh = Inr s"
    by (simp add: policy_init_def)
  ultimately have "policy_run (sample_owner True) s" by (rule owner_start)
  then have "policy_run (sample_owner True) (live d)"
    using owner_activate [of "sample_owner True" s "PInt 3" policy_a] by (simp add: sample_activate [OF d s])
  then have "policy_run (sample_owner True) (snd (admit (sample_owner True) sample_request (live d)))" by (rule owner_admit)
  moreover obtain v s' where "admit (sample_owner True) sample_request (live d) = (Inr v, s')" using sample_admit [OF d] by blast
  moreover from this have "admitted sample_request s'"
    by (auto simp: admit_def intro: admit_single_shows admit_pair_shows sample_readonly split: if_splits)
  ultimately show ?thesis by auto
qed

theorem policy_generation_safe_witness:
  "\<exists>s. policy_run (sample_owner True) s \<and> sessions s \<noteq> [] \<and> of_revision (p_revision (pol_state s)) s"
proof -
  from sample_life obtain s where s: "policy_run (sample_owner True) s" "admitted sample_request s" by blast
  then have "sessions s \<noteq> []" "admission_enabled s" by (auto simp: admitted_def)
  with policy_generation_safe [OF s(1) sample_readonly] s(1) show ?thesis by blast
qed

end
