(* ===== verification/FlowStats.thy ===== *)
theory FlowStats
  imports FlowTable
begin

text \<open>
  Activity sources, \<open>ffn_fe100_flowstats.py\<close>: the stream of native counter deltas that
  leases rest on, and the reference codec of 16-byte records.  A clock value is a dynamic
  value read from the environment; times are rationals (float rounding is not modelled).
\<close>

section \<open>The reference record codec\<close>

definition decode_record :: "bytes \<Rightarrow> exn + int \<times> int \<times> int" where
  "decode_record data = (rthn (rcheck (length data = 16) (ValueError ''a sessionCount record is 16 bytes''))
    (let word0 = from_be (take 8 data); word1 = from_be (drop 8 data) in
    Inr (int (word0 div 2 ^ 32), int (word0 mod 2 ^ 30), int (word1 mod 2 ^ 42))))"

fun record_chunks :: "nat \<Rightarrow> bytes \<Rightarrow> bytes list" where
  "record_chunks 0 bs = []"
| "record_chunks (Suc n) bs = take 16 bs # record_chunks n (drop 16 bs)"

definition decode_records :: "bytes \<Rightarrow> exn + (int \<times> int \<times> int) list" where
  "decode_records payload = (rthn (rcheck (length payload mod 16 = 0) (ValueError ''statistics payload is not a whole number of records''))
    (rcollect (record_chunks (length payload div 16) payload) decode_record))"

definition short_message :: exn where
  "short_message = ValueError ''message is shorter than its 32-byte header''"

definition header_length :: "bytes \<Rightarrow> exn + nat" where
  "header_length message = (rthn (rcheck (32 \<le> length message) short_message)
    (Inr 32))"

definition is_stats_message :: "bytes \<Rightarrow> exn + bool" where
  "is_stats_message message = (rthn (rcheck (32 \<le> length message) short_message)
    (Inr (message ! 3 = 0x80 \<and> message ! 23 = 5)))"

record stats_probe =
  sp_packets :: "(int \<times> int) list"
  sp_octets :: "(int \<times> int) list"
  sp_messages :: int
  sp_records :: int
  sp_ignored :: int

definition consume_payload :: "bytes \<Rightarrow> (stats_probe, int) py" where
  "consume_payload payload = (bnd (lift_res (decode_records payload)) (\<lambda>records.
    thn (for_each records (\<lambda>(flow_id, packets, octets).
      upd (\<lambda>s. s\<lparr>sp_packets := dict_set flow_id packets (sp_packets s), sp_octets := dict_set flow_id octets (sp_octets s)\<rparr>)))
    (thn (upd (\<lambda>s. s\<lparr>sp_messages := sp_messages s + 1, sp_records := sp_records s + int (length records)\<rparr>))
    (ret (int (length records))))))"

definition consume_message :: "bytes \<Rightarrow> (stats_probe, int) py" where
  "consume_message message = (bnd (lift_res (is_stats_message message)) (\<lambda>stats.
    if \<not> stats then (thn (upd (\<lambda>s. s\<lparr>sp_ignored := sp_ignored s + 1\<rparr>))
      (ret 0))
    else (bnd (lift_res (header_length message)) (\<lambda>n.
      consume_payload (drop n message)))))"

definition probe_forget :: "int \<Rightarrow> (stats_probe, unit) py" where
  "probe_forget flow_id = upd (\<lambda>s. s\<lparr>sp_packets := dict_del flow_id (sp_packets s), sp_octets := dict_del flow_id (sp_octets s)\<rparr>)"

definition probe_token :: "bytes \<Rightarrow> stats_probe \<Rightarrow> int option" where
  "probe_token entry s = dict_get (sp_packets s) (flow_id_of entry)"

section \<open>The stream of native deltas\<close>

record flow_stat =
  fs_entry :: bytes
  fs_packets :: int
  fs_octets :: int
  fs_activity :: int
  fs_observed :: bool
  fs_at :: rat
  fs_report_at :: "rat option"

record 'e counters =
  cs_env :: 'e
  cs_epoch :: string
  freshness :: rat
  max_ids :: int
  cs_sequence :: int
  elapsed_ms :: int
  cs_last_clock :: "rat option"
  available :: bool
  cs_failure :: string
  flows :: "(int \<times> flow_stat) list"
  retired :: "int list"
  ignored :: int
  receiver_timeout :: "rat option"
  receiver_at :: "rat option"
  receiver_origin :: rat

definition cs_io :: "('e, 'a) py \<Rightarrow> (('e, 'z) counters_scheme, 'a) py" where
  "cs_io m = zoom cs_env (\<lambda>e s. s\<lparr>cs_env := e\<rparr>) m"

definition counters_init :: "'e \<Rightarrow> pyval \<Rightarrow> pyval \<Rightarrow> pyval \<Rightarrow> pyval \<Rightarrow> exn + 'e counters" where
  "counters_init e epoch age ids timeout = (rthn (rcheck (is_str epoch \<and> the_str epoch \<noteq> [] \<and> length (the_str epoch) \<le> 256)
      (ValueError ''explicit hardware owner epoch required''))
    (rthn (rcheck (case finite_num age of None \<Rightarrow> False | Some q \<Rightarrow> 0 < q \<and> q \<le> 60) (ValueError ''invalid activity freshness''))
    (rthn (rcheck (int_in ids 1 1048576) (ValueError ''invalid flow ID budget''))
    (rthn (rcheck (timeout = PNone \<or> (case finite_num timeout of None \<Rightarrow> False | Some q \<Rightarrow> 1 / 2 \<le> q \<and> q \<le> 5))
      (ValueError ''invalid receiver heartbeat timeout''))
    (Inr \<lparr>cs_env = e, cs_epoch = the_str epoch, freshness = the (finite_num age), max_ids = the_int ids,
      cs_sequence = 0, elapsed_ms = 0, cs_last_clock = None, available = True, cs_failure = [], flows = [],
      retired = [], ignored = 0, receiver_timeout = finite_num timeout, receiver_at = None, receiver_origin = 0\<rparr>)))))"

definition invalidate :: "string \<Rightarrow> (('e, 'z) counters_scheme, unit) py" where
  "invalidate reason = upd (\<lambda>s. s\<lparr>available := False, cs_failure := reason\<rparr>)"

text \<open>A finite, nonnegative number not before \<open>last\<close>.\<close>

definition valid_time :: "rat option \<Rightarrow> pyval \<Rightarrow> rat option" where
  "valid_time prev v = (case finite_num v of None \<Rightarrow> None
     | Some q \<Rightarrow> if 0 \<le> q \<and> (case prev of None \<Rightarrow> True | Some l \<Rightarrow> l \<le> q) then Some q else None)"

definition cs_now :: "('e, pyval) py \<Rightarrow> (('e, 'z) counters_scheme, rat) py" where
  "cs_now clock = (bnd (cs_io clock) (\<lambda>v.
    bnd (gets cs_last_clock) (\<lambda>last.
    case valid_time last v of
      None \<Rightarrow> (thn (invalidate ''invalid or regressed counter clock'')
        (raise (ValueError ''invalid or regressed counter clock'')))
    | Some q \<Rightarrow> (thn (upd (\<lambda>s. s\<lparr>cs_last_clock := Some q\<rparr>))
      (ret q)))))"

definition check_receiver :: "('e, pyval) py \<Rightarrow> (('e, 'z) counters_scheme, unit) py" where
  "check_receiver clock = (bnd (gets available) (\<lambda>up.
    thn (ensure up (RuntimeError ''counter stream unavailable''))
    (bnd (gets (\<lambda>s. (receiver_timeout s, receiver_at s))) (\<lambda>lease.
    case lease of
      (Some timeout, Some since) \<Rightarrow> (bnd (cs_now clock) (\<lambda>now.
        whn (timeout \<le> now - since) (thn (invalidate ''native counter receiver heartbeat expired'')
          (raise (RuntimeError ''native counter receiver heartbeat expired'')))))
    | _ \<Rightarrow> raise (RuntimeError ''supervised native counter receiver required'')))))"

definition register_flow :: "bytes \<Rightarrow> (('e, 'z) counters_scheme, unit) py" where
  "register_flow entry = (bnd (lift_res (validate_entry4 entry)) (\<lambda>wire.
    let ident = flow_id_of wire in
    bnd (gets available) (\<lambda>up.
    thn (ensure up (RuntimeError ''counter stream unavailable''))
    (bnd (gets retired) (\<lambda>gone.
    thn (ensure (ident \<noteq> 0 \<and> ident \<notin> set gone) (ValueError ''flow ID cannot be reused in this hardware epoch''))
    (bnd (gets (\<lambda>s. dict_get (flows s) ident)) (\<lambda>known.
    case known of
      Some f \<Rightarrow> ensure (fs_entry f = wire) (ValueError ''flow ID already belongs to another entry'')
    | None \<Rightarrow> (bnd (gets (\<lambda>s. int (length (flows s) + length (retired s)) < max_ids s)) (\<lambda>room.
      thn (ensure room (RuntimeError ''flow ID generation budget exhausted''))
      (upd (\<lambda>s. s\<lparr>flows := dict_set ident \<lparr>fs_entry = wire, fs_packets = 0, fs_octets = 0, fs_activity = 0,
          fs_observed = False, fs_at = 0, fs_report_at = None\<rparr> (flows s)\<rparr>)))))))))))"

definition forget_flow :: "int \<Rightarrow> (('e, 'z) counters_scheme, unit) py" where
  "forget_flow ident = upd (\<lambda>s. if ident \<in> set (dict_keys (flows s))
     then s\<lparr>flows := dict_del ident (flows s), retired := List.insert ident (retired s)\<rparr> else s)"

definition check_field :: "pyval \<Rightarrow> string \<times> int \<Rightarrow> exn + unit" where
  "check_field record = (\<lambda>(key, limit). rcheck (int_in (py_get record key) 0 limit) (ValueError (''invalid '' @ key)))"

definition check_record :: "pyval \<Rightarrow> exn + unit" where
  "check_record record = (rthn (rcheck (keys_are record [''flow_id'', ''packets'', ''octets'', ''reason'']) (ValueError ''invalid native counter record''))
    (rfor [(''flow_id'', 0xffffffff), (''packets'', 255), (''octets'', 0x3fffff), (''reason'', 3)] (check_field record)))"

text \<open>The checks of one event against the stream, before anything is accumulated.\<close>

definition is_healthy :: "pyval \<Rightarrow> bool" where
  "is_healthy event \<longleftrightarrow> has_key event ''health''"

definition event_records :: "pyval \<Rightarrow> pyval list" where
  "event_records event = (if is_healthy event then [] else the_list (py_get event ''records''))"

definition check_event :: "('e, 'z) counters_scheme \<Rightarrow> string \<Rightarrow> pyval \<Rightarrow> exn + unit" where
  "check_event s epoch event = (rthn (rcheck (epoch = cs_epoch s) (ValueError ''hardware owner epoch changed''))
    (rthn (rcheck (keys_are event [''sequence'', ''elapsed_ms'', ''records''] \<or> keys_are event [''sequence'', ''elapsed_ms'', ''health''])
      (ValueError ''invalid native counter event''))
    (rthn (rcheck (is_healthy event \<longrightarrow> py_get event ''health'' = PBool True \<and> receiver_timeout s \<noteq> None)
      (ValueError ''unexpected receiver heartbeat''))
    (rthn (rcheck (int_in (py_get event ''sequence'') 0 (2 ^ 64 - 1) \<and> the_int (py_get event ''sequence'') = cs_sequence s + 1)
      (ValueError ''counter stream sequence gap or replay''))
    (rthn (rcheck (int_in (py_get event ''elapsed_ms'') 0 (2 ^ 64 - 1) \<and> elapsed_ms s \<le> the_int (py_get event ''elapsed_ms''))
      (ValueError ''invalid receiver time''))
    (rthn (rcheck (is_healthy event \<or> is_list (py_get event ''records'') \<and> 1 \<le> length (event_records event) \<and>
        length (event_records event) \<le> 125) (ValueError ''invalid counter record count''))
    (rfor (event_records event) check_record)))))))"

text \<open>The receiver's lease, renewed by an event whose relative clock agrees with ours.\<close>

definition renew_receiver :: "('e, pyval) py \<Rightarrow> bool \<Rightarrow> rat \<Rightarrow> rat \<Rightarrow> (('e, 'z) counters_scheme, unit) py" where
  "renew_receiver clock healthy now elapsed = (bnd (gets (\<lambda>s. (receiver_timeout s, receiver_at s))) (\<lambda>lease.
    case lease of
      (None, _) \<Rightarrow> ret ()
    | (Some timeout, None) \<Rightarrow> (thn (ensure healthy (ValueError ''receiver heartbeat must precede counters''))
      (upd (\<lambda>s. s\<lparr>receiver_origin := now - elapsed / 1000, receiver_at := Some now\<rparr>)))
    | (Some timeout, Some since) \<Rightarrow> (thn (check_receiver clock)
      (bnd (gets receiver_origin) (\<lambda>origin.
      thn (ensure (\<bar>now - (origin + elapsed / 1000)\<bar> < timeout)
          (ValueError ''native counter transport delayed or clock changed''))
      (upd (\<lambda>s. s\<lparr>receiver_at := Some now\<rparr>)))))))"

definition count_record :: "rat \<Rightarrow> pyval \<Rightarrow> flow_stat \<Rightarrow> flow_stat" where
  "count_record now record f =
     (let f1 = f\<lparr>fs_packets := fs_packets f + the_int (py_get record ''packets''),
                 fs_octets := fs_octets f + the_int (py_get record ''octets''), fs_report_at := Some now\<rparr> in
      if the_int (py_get record ''packets'') \<noteq> 0 \<and> the_int (py_get record ''reason'') \<noteq> 2
      then f1\<lparr>fs_activity := fs_activity f + 1, fs_observed := True, fs_at := now\<rparr> else f1)"

definition take_record :: "rat \<Rightarrow> pyval \<Rightarrow> (('e, 'z) counters_scheme, unit) py" where
  "take_record now record = (let ident = the_int (py_get record ''flow_id'') in
    bnd (gets (\<lambda>s. dict_get (flows s) ident)) (\<lambda>known.
    case known of
      None \<Rightarrow> upd (\<lambda>s. s\<lparr>ignored := ignored s + 1\<rparr>)
    | Some f \<Rightarrow> upd (\<lambda>s. s\<lparr>flows := dict_set ident (count_record now record f) (flows s)\<rparr>)))"

definition accept_event :: "('e, pyval) py \<Rightarrow> string \<Rightarrow> pyval \<Rightarrow> (('e, 'z) counters_scheme, unit) py" where
  "accept_event clock epoch event = (bnd (gets (\<lambda>s. check_event s epoch event)) (\<lambda>verdict.
    thn (lift_res verdict)
    (bnd (cs_now clock) (\<lambda>now.
    thn (renew_receiver clock (is_healthy event) now (of_int (the_int (py_get event ''elapsed_ms''))))
    (thn (for_each (event_records event) (take_record now))
    (upd (\<lambda>s. s\<lparr>cs_sequence := the_int (py_get event ''sequence''), elapsed_ms := the_int (py_get event ''elapsed_ms'')\<rparr>)))))))"

text \<open>\<open>except (ValueError, TypeError, RuntimeError)\<close>.\<close>

fun latching :: "exn \<Rightarrow> bool" where
  "latching (ValueError m) = True"
| "latching (TypeError m) = True"
| "latching (RuntimeError m) = True"
| "latching _ = False"

definition consume :: "('e, pyval) py \<Rightarrow> string \<Rightarrow> pyval \<Rightarrow> (('e, 'z) counters_scheme, unit) py" where
  "consume clock epoch event = (bnd (gets available) (\<lambda>up.
    bnd (gets cs_failure) (\<lambda>why.
    thn (ensure up (RuntimeError (''counter stream unavailable: '' @ why)))
    (catch_all (accept_event clock epoch event) (\<lambda>e. (thn (whn (latching e) (invalidate (exn_text e)))
      (raise e)))))))"

definition receiver_finished :: "pyval \<Rightarrow> (('e, 'z) counters_scheme, unit) py" where
  "receiver_finished summary = invalidate
     (if \<not> is_dict summary \<or> list_ex (\<lambda>k. truthy (py_get summary k)) [''failed'', ''malformed'', ''capture_drops'']
      then ''native counter receiver failed or lost messages'' else ''native counter receiver stopped'')"

definition stat_of :: "bytes \<Rightarrow> ('e, 'z) counters_scheme \<Rightarrow> flow_stat option" where
  "stat_of entry s = (case dict_get (flows s) (flow_id_of entry) of
     None \<Rightarrow> None | Some f \<Rightarrow> if fs_entry f = entry then Some f else None)"

definition flow_totals :: "bytes \<Rightarrow> ('e, 'z) counters_scheme \<Rightarrow> (int \<times> int) option" where
  "flow_totals entry s = map_option (\<lambda>f. (fs_packets f, fs_octets f)) (stat_of entry s)"

record accounting_row =
  ar_packets :: int
  ar_octets :: int
  ar_activity :: int
  ar_report_at :: "rat option"

definition flow_accounting :: "bytes \<Rightarrow> (('e, 'z) counters_scheme, accounting_row) py" where
  "flow_accounting entry = (bnd (gets available) (\<lambda>up.
    thn (ensure up (RuntimeError ''counter stream unavailable''))
    (bnd (gets (stat_of entry)) (\<lambda>found.
    case found of
      None \<Rightarrow> raise (ValueError ''counter entry no longer owned'')
    | Some f \<Rightarrow> ret \<lparr>ar_packets = fs_packets f, ar_octets = fs_octets f, ar_activity = fs_activity f,
                  ar_report_at = fs_report_at f\<rparr>))))"

fun is_value_error :: "exn \<Rightarrow> bool" where
  "is_value_error (ValueError m) = True"
| "is_value_error _ = False"

definition flow_token :: "('e, pyval) py \<Rightarrow> bytes \<Rightarrow> (('e, 'z) counters_scheme, int option) py" where
  "flow_token clock entry = (bnd (gets available) (\<lambda>up.
    bnd (gets (stat_of entry)) (\<lambda>found.
    case found of
      None \<Rightarrow> ret None
    | Some f \<Rightarrow> if \<not> up \<or> \<not> fs_observed f then ret None
        else (bnd (catch_all (bnd (cs_now clock) (\<lambda>now.
            ret (Some (now - fs_at f))))
            (\<lambda>e. if is_value_error e then ret None else raise e)) (\<lambda>age.
          bnd (gets freshness) (\<lambda>wanted.
          ret (case age of None \<Rightarrow> None | Some a \<Rightarrow> if a < 0 \<or> wanted < a then None else Some (fs_activity f))))))))"

section \<open>What an event changes\<close>

text \<open>The deltas a batch of records carries for one flow id.\<close>

definition delta_of :: "string \<Rightarrow> int \<Rightarrow> pyval list \<Rightarrow> int" where
  "delta_of field ident records =
     sum_list (map (\<lambda>r. if the_int (py_get r ''flow_id'') = ident then the_int (py_get r field) else 0) records)"

definition totals_map :: "('e, 'z) counters_scheme \<Rightarrow> int \<Rightarrow> (int \<times> int) option" where
  "totals_map s ident = map_option (\<lambda>f. (fs_packets f, fs_octets f)) (dict_get (flows s) ident)"

text \<open>The fields a clock reading or a lease renewal leaves alone.\<close>

definition same_counts :: "('e, 'z) counters_scheme \<Rightarrow> ('e, 'z) counters_scheme \<Rightarrow> bool" where
  "same_counts s s' \<longleftrightarrow> flows s' = flows s \<and> cs_sequence s' = cs_sequence s \<and> retired s' = retired s \<and>
     cs_epoch s' = cs_epoch s"

lemma same_counts_pres:
  "pres (same_counts s) (cs_now clock)" "pres (same_counts s) (check_receiver clock)"
  "pres (same_counts s) (renew_receiver clock h n e)" "pres (same_counts s) (invalidate r)"
proof -
  have io: "pres (same_counts s) (cs_io m)" for m :: "('a, 'c) py"
    unfolding cs_io_def by (rule pres_zoom) (simp add: same_counts_def)
  show inv: "pres (same_counts s) (invalidate r)" for r
    unfolding invalidate_def by (rule pres_upd) (simp add: same_counts_def)
  show now: "pres (same_counts s) (cs_now clock)"
    unfolding cs_now_def by (intro pres_intros io inv pres_upd) (simp_all add: same_counts_def)
  show recv: "pres (same_counts s) (check_receiver clock)"
    unfolding check_receiver_def by (intro pres_intros now inv | simp split: option.split prod.split)+
  show "pres (same_counts s) (renew_receiver clock h n e)"
    unfolding renew_receiver_def
    by (intro pres_intros recv pres_upd | simp add: same_counts_def split: option.split prod.split)+
qed


definition add_deltas :: "pyval list \<Rightarrow> int \<Rightarrow> (int \<times> int) option \<Rightarrow> (int \<times> int) option" where
  "add_deltas records ident = map_option (\<lambda>(p, q). (p + delta_of ''packets'' ident records, q + delta_of ''octets'' ident records))"

lemma take_record_totals:
  "wp (take_record now r) (\<lambda>_ s'. cs_sequence s' = cs_sequence s \<and> retired s' = retired s \<and> available s' = available s \<and>
      (\<forall>i. totals_map s' i = add_deltas [r] i (totals_map s i))) (\<lambda>_ _. False) s"
  unfolding take_record_def Let_def
  by (auto simp: wp_simps totals_map_def add_deltas_def delta_of_def count_record_def Let_def option.map_comp comp_def
      split: option.split)

lemma add_deltas_Cons: "add_deltas rs i (add_deltas [r] i t) = add_deltas (r # rs) i t"
  by (cases t) (auto simp: add_deltas_def delta_of_def)

lemma take_records_totals:
  "wp (for_each rs (take_record now)) (\<lambda>_ s'. cs_sequence s' = cs_sequence s \<and> (\<forall>i. totals_map s' i = add_deltas rs i (totals_map s i))) (\<lambda>_ _. False) s"
proof (induction rs arbitrary: s)
  case Nil
  then show ?case by (simp add: wp_simps add_deltas_def delta_of_def option.map_ident_strong split_beta)
next
  case (Cons r rs)
  show ?case
    unfolding wp_for_each_Cons
    by (rule wp_mono [OF take_record_totals]) (auto intro!: wp_mono [OF Cons.IH] simp: add_deltas_Cons)
qed

lemma check_event_sequence:
  "check_event s epoch event = Inr u \<Longrightarrow> the_int (py_get event ''sequence'') = cs_sequence s + 1"
  by (auto simp: check_event_def res_iffs)

lemma accept_event_wp:
  "wp (accept_event clock epoch event)
     (\<lambda>_ s'. check_event s epoch event = Inr () \<and> cs_sequence s' = cs_sequence s + 1 \<and>
        (\<forall>i. totals_map s' i = add_deltas (event_records event) i (totals_map s i)))
     (\<lambda>_ s'. flows s' = flows s) s"
proof (cases "check_event s epoch event")
  case (Inl e)
  then show ?thesis by (simp add: accept_event_def wp_simps)
next
  case (Inr u)
  note same = wp_pres [OF same_counts_pres(1)] wp_pres [OF same_counts_pres(3)]
  have refl: "same_counts s s" by (simp add: same_counts_def)
  have tail: "wp (thn (for_each (event_records event) (take_record now))
      (upd (\<lambda>s. s\<lparr>cs_sequence := the_int (py_get event ''sequence''), elapsed_ms := the_int (py_get event ''elapsed_ms'')\<rparr>)))
     (\<lambda>_ s'. cs_sequence s' = cs_sequence s + 1 \<and>
        (\<forall>i. totals_map s' i = add_deltas (event_records event) i (totals_map s i)))
     (\<lambda>_ s'. flows s' = flows s) s1" if "same_counts s s1" for now s1
    unfolding wp_thn wp_upd
    by (rule wp_mono [OF take_records_totals])
      (use that Inr check_event_sequence [OF Inr] in \<open>auto simp: same_counts_def totals_map_def\<close>)
  have "wp (accept_event clock epoch event)
     (\<lambda>_ s'. cs_sequence s' = cs_sequence s + 1 \<and>
        (\<forall>i. totals_map s' i = add_deltas (event_records event) i (totals_map s i)))
     (\<lambda>_ s'. flows s' = flows s) s"
    unfolding accept_event_def wp_bnd [of "gets f" for f] wp_gets Inr wp_thn [of "lift_res r" for r] wp_lift_res sum.case
    by (rule wp_bndI [OF same(1) [OF refl]], rule wp_thnI [OF same(2)], assumption, rule tail)
      (auto simp: same_counts_def)
  with Inr show ?thesis by (auto elim!: wp_mono)
qed

text \<open>
  An event of the counter stream is all or nothing: accepted, it adds to every
  registered flow exactly the packet and octet deltas its records carry and advances the
  sequence by one; refused, no total changes, and a refusal by any check (every
  \<open>ValueError\<close>, \<open>TypeError\<close> or \<open>RuntimeError\<close>) makes the stream unavailable.
\<close>

theorem consume_all_or_nothing:
  "case consume clock epoch event s of
      (Inr u, s') \<Rightarrow> available s \<and> check_event s epoch event = Inr () \<and> cs_sequence s' = cs_sequence s + 1 \<and>
        (\<forall>ident. totals_map s' ident = add_deltas (event_records event) ident (totals_map s ident))
    | (Inl e, s') \<Rightarrow> flows s' = flows s \<and> \<not> (latching e \<and> available s')"
proof -
  have "wp (consume clock epoch event)
     (\<lambda>_ s'. available s \<and> check_event s epoch event = Inr () \<and> cs_sequence s' = cs_sequence s + 1 \<and>
        (\<forall>i. totals_map s' i = add_deltas (event_records event) i (totals_map s i)))
     (\<lambda>e s'. flows s' = flows s \<and> \<not> (latching e \<and> available s')) s"
    unfolding consume_def wp_bnd [of "gets f" for f] wp_gets wp_thn [of "ensure b e" for b e] wp_ensure
    by (cases "available s"; simp; rule wp_catch_allI [OF accept_event_wp]) (auto simp: wp_simps invalidate_def)
  then show ?thesis by (auto simp: wp_def split: prod.split sum.split)
qed

section \<open>A retired id stays retired\<close>

definition ids_apart :: "('e, 'z) counters_scheme \<Rightarrow> bool" where
  "ids_apart s \<longleftrightarrow> list_all (\<lambda>i. dict_get (flows s) i = None \<and> i \<noteq> 0) (retired s) \<and> dict_get (flows s) 0 = None"

inductive counter_run :: "('e, 'z) counters_scheme \<Rightarrow> ('e, 'z) counters_scheme \<Rightarrow> bool" where
  counter_start: "counter_run s s"
| counter_register: "counter_run s s1 \<Longrightarrow> counter_run s (snd (register_flow entry s1))"
| counter_forget: "counter_run s s1 \<Longrightarrow> counter_run s (snd (forget_flow ident s1))"
| counter_consume: "counter_run s s1 \<Longrightarrow> counter_run s (snd (consume clock epoch event s1))"
| counter_check: "counter_run s s1 \<Longrightarrow> counter_run s (snd (check_receiver clock s1))"
| counter_finished: "counter_run s s1 \<Longrightarrow> counter_run s (snd (receiver_finished summary s1))"

text \<open>What a run keeps: ids stay apart, retired ids stay retired, an unavailable stream stays so.\<close>

definition latched :: "int list \<Rightarrow> bool \<Rightarrow> ('e, 'z) counters_scheme \<Rightarrow> bool" where
  "latched gone up s \<longleftrightarrow> ids_apart s \<and> set gone \<subseteq> set (retired s) \<and> (available s \<longrightarrow> up)"

lemma latched_invalidate: "pres (latched g u) (invalidate r)"
  unfolding invalidate_def by (rule pres_upd) (simp add: latched_def ids_apart_def)

lemma latched_io: "pres (latched g u) (cs_io m)"
  unfolding cs_io_def by (rule pres_zoom) (simp add: latched_def ids_apart_def)

lemma latched_now: "pres (latched g u) (cs_now clock)"
  unfolding cs_now_def
  by (intro pres_intros latched_io latched_invalidate pres_upd) (simp add: latched_def ids_apart_def)

lemma latched_check: "pres (latched g u) (check_receiver clock)"
  unfolding check_receiver_def by (intro pres_intros latched_now latched_invalidate | simp split: option.split prod.split)+

lemma latched_renew: "pres (latched g u) (renew_receiver clock h n e)"
  unfolding renew_receiver_def
  by (intro pres_intros latched_check pres_upd | simp add: latched_def ids_apart_def split: option.split prod.split)+

lemma totals_map_None: "totals_map s i = None \<longleftrightarrow> dict_get (flows s) i = None"
  by (simp add: totals_map_def)

lemma latched_take: "pres (latched g u) (take_record now r)"
proof -
  have "latched g u s'" if "latched g u s" "retired s' = retired s" "available s' = available s"
    "\<forall>i. totals_map s' i = add_deltas [r] i (totals_map s i)" for s s' :: "('a, 'b) counters_scheme"
  proof -
    have "dict_get (flows s') i = None \<longleftrightarrow> dict_get (flows s) i = None" for i
      using that(4) by (simp add: add_deltas_def flip: totals_map_None)
    then show ?thesis using that(1-3) by (simp add: latched_def ids_apart_def)
  qed
  then show ?thesis unfolding pres_wp by (intro allI impI wp_mono [OF take_record_totals]) auto
qed

lemma latched_consume: "pres (latched g u) (consume clock epoch event)"
  unfolding consume_def accept_event_def
  by (intro pres_intros latched_now latched_renew latched_take latched_invalidate pres_upd)
    (simp add: latched_def ids_apart_def)

lemma latched_register: "pres (latched g u) (register_flow entry)"
proof -
  have "wp (register_flow entry) (\<lambda>_. latched g u) (\<lambda>_. latched g u) s" if "latched g u s" for s :: "('a, 'b) counters_scheme"
    using that unfolding register_flow_def wp_bnd wp_lift_res Let_def wp_gets wp_thn wp_ensure
    by (auto simp: wp_simps latched_def ids_apart_def list_all_iff split: sum.split option.split)
  then show ?thesis by (simp add: pres_wp)
qed

lemma latched_forget: "pres (latched g u) (forget_flow ident)"
  unfolding forget_flow_def
proof (rule pres_upd)
  fix s :: "('a, 'b) counters_scheme"
  assume s: "latched g u s"
  have "ident \<in> set (dict_keys (flows s)) \<Longrightarrow> ident \<noteq> 0"
    using s dict_get_None [of "flows s" 0] unfolding latched_def ids_apart_def by blast
  with s show "latched g u (if ident \<in> set (dict_keys (flows s))
     then s\<lparr>flows := dict_del ident (flows s), retired := List.insert ident (retired s)\<rparr> else s)"
    by (auto simp: latched_def ids_apart_def list_all_iff)
qed

lemma latched_finished: "pres (latched g u) (receiver_finished summary)"
  unfolding receiver_finished_def by (rule latched_invalidate)

lemma counter_run_latched: "counter_run s s' \<Longrightarrow> latched g u s \<Longrightarrow> latched g u s'"
  by (induction rule: counter_run.induct)
    (blast intro: latched_register latched_forget latched_consume latched_check latched_finished pres_snd)+

text \<open>
  Over any run of the stream's operations from a fresh stream, an id is never both
  registered and retired, id zero is never registered, ids retired at any point stay
  retired, and once the stream is unavailable it stays unavailable.
\<close>

theorem counter_ids_never_reused:
  assumes "counters_init e epoch age ids timeout = Inr s0" and "counter_run s0 s" and "counter_run s s'"
  shows "ids_apart s' \<and> set (retired s) \<subseteq> set (retired s') \<and> (available s' \<longrightarrow> available s)"
proof -
  have "latched [] True s0" using assms(1) by (auto simp: counters_init_def res_iffs latched_def ids_apart_def)
  with assms(2) have "ids_apart s" using counter_run_latched [of s0 s "[]" True] by (simp add: latched_def)
  then have "latched (retired s) (available s) s" by (simp add: latched_def)
  with assms(3) have "latched (retired s) (available s) s'" by (rule counter_run_latched)
  then show ?thesis by (simp add: latched_def)
qed

definition fresh_stream :: "unit counters" where
  "fresh_stream = projr (counters_init () (PStr ''boot'') (PInt 5) (PInt 16) PNone)"

definition retired_stream :: "unit counters" where
  "retired_stream = snd (forget_flow 9 (snd (register_flow probe0 fresh_stream)))"

lemma fresh_stream_init: "counters_init () (PStr ''boot'') (PInt 5) (PInt 16) PNone = Inr fresh_stream"
  by (simp add: fresh_stream_def counters_init_def finite_num_def int_in_def)

theorem counter_ids_never_reused_witness: "9 \<in> set (retired (snd (register_flow probe0 retired_stream)))"
proof -
  have "counter_run fresh_stream retired_stream"
    unfolding retired_stream_def by (intro counter_forget counter_register counter_start)
  moreover have "counter_run retired_stream (snd (register_flow probe0 retired_stream))"
    by (intro counter_register counter_start)
  ultimately have "set (retired retired_stream) \<subseteq> set (retired (snd (register_flow probe0 retired_stream)))"
    using counter_ids_never_reused [OF fresh_stream_init] by blast
  moreover have "9 \<in> set (retired retired_stream)" by code_simp
  ultimately show ?thesis by blast
qed

end
