(* ===== verification/SessionStream.thy ===== *)
theory SessionStream
  imports FlowStats
begin

text \<open>
  The observation-only receiver of the dataplane's session stream,
  \<open>management/session_stream.py\<close>: message validation, the snapshot and change protocol, the
  incrementally kept counts and the compact inventory.  Framing, sockets and report files
  are I/O and not modelled; the clock is a parameter, times are rationals.
\<close>

section \<open>Row validation\<close>

definition stream_capacity :: nat where
  "stream_capacity = 8192"

definition batch_limit :: nat where
  "batch_limit = 128"

definition canonical_uuid :: "pyval \<Rightarrow> exn + unit" where
  "canonical_uuid v = rcheck (is_uuid v) (ValueError ''Canonical UUID required'')"

definition sha_identity :: "pyval \<Rightarrow> exn + unit" where
  "sha_identity v = rcheck (is_sha v) (ValueError ''SHA256 identity required'')"

text \<open>\<open>d.get(v)\<close> where \<open>v\<close> may be any value: unhashable values raise.\<close>

definition get_by :: "pyval \<Rightarrow> pyval \<Rightarrow> exn + pyval" where
  "get_by d v = (case v of
      PStr k \<Rightarrow> get_or d k PNone
    | PList _ \<Rightarrow> Inl (TypeError ''unhashable type'')
    | PDict _ \<Rightarrow> Inl (TypeError ''unhashable type'')
    | _ \<Rightarrow> Inr PNone)"

definition all_strs :: "pyval \<Rightarrow> bool" where
  "all_strs v \<longleftrightarrow> is_list v \<and> list_all is_str (the_list v)"

definition check_unicast_mac :: "pyval \<Rightarrow> exn + unit" where
  "check_unicast_mac mac = (rthn (rcheck (is_str mac \<and> length (the_str mac) = 17 \<and> list_all (\<lambda>p. length p = 2) (split_on (CHR '':'') (the_str mac)))
      (ValueError ''Invalid L3 Ethernet address''))
    (rbnd (from_hex_value (PStr (concat (split_on (CHR '':'') (the_str mac))))) (\<lambda>raw.
    rcheck (length raw = 6 \<and> list_ex (\<lambda>b. b \<noteq> 0) raw \<and> raw ! 0 AND 1 = 0) (ValueError ''Invalid L3 unicast address''))))"

definition l3_exceptions :: pyval where
  "l3_exceptions = PList [PStr ''ttl-expired'', PStr ''mtu-exceeded'', PStr ''ipv4-fragments'']"

text \<open>One direction of an L3 observation against the acknowledged binding of its interface.\<close>

definition check_l3_direction :: "pyval \<Rightarrow> pyval \<times> pyval \<times> pyval \<Rightarrow> exn + unit" where
  "check_l3_direction policy = (\<lambda>(direction, name, destination). (rbnd (py_item policy ''bindings'') (\<lambda>bindings.
    rbnd (get_by bindings name) (\<lambda>binding.
    rthn (rcheck (is_dict direction \<and> is_dict binding \<and> py_eq (py_get direction ''interface'') name \<and>
        py_eq (py_get direction ''destination'') destination \<and>
        list_all (\<lambda>k. py_eq (py_get direction k) (py_get binding k)) [''device'', ''index'', ''alias''] \<and>
        int_in (py_get direction ''mtu'') 576 9216 \<and> py_get direction ''decrement_ttl'' = PBool True \<and>
        py_eq (py_get direction ''exceptions'') l3_exceptions)
      (ValueError ''L3 next hop disagrees with acknowledged bindings''))
    (rbnd (py_item direction ''next_hop'') (\<lambda>hop.
    rthn (ipv4_of hop)
    (rthn (ipv4_of destination)
    (rthn (rcheck (py_get direction ''vlan'' = PNone \<or> int_in (py_get direction ''vlan'') 1 4094) (ValueError ''Invalid L3 VLAN''))
    (rthn (check_unicast_mac (py_get direction ''source_mac''))
    (check_unicast_mac (py_get direction ''destination_mac'')))))))))))"

text \<open>The interface pair the routes selected, or the only one the rule authorised.\<close>

definition l3_pair :: "pyval \<Rightarrow> pyval \<Rightarrow> pyval" where
  "l3_pair value pairs = (if py_get value ''pair'' = PNone \<and> is_list pairs \<and> length (the_list pairs) = 1
     then the_list pairs ! 0 else py_get value ''pair'')"

definition validate_l3 :: "pyval \<Rightarrow> pyval \<Rightarrow> exn + unit" where
  "validate_l3 row policy = (rbnd (get_or policy ''l3'' PNone) (\<lambda>context.
    if context = PNone then rcheck (\<not> has_key row ''l3'') (ValueError ''L3 row has no topology generation'')
    else (let value = py_get row ''l3'' in
      rbnd (py_item context ''snapshot_digest'') (\<lambda>wanted.
      rthn (rcheck (is_dict value \<and> py_get value ''hardware_admission'' = PBool False \<and>
          py_eq (py_get value ''snapshot_digest'') wanted \<and> is_bool (py_get value ''available'') \<and>
          all_strs (py_get value ''blockers'')) (ValueError ''Invalid L3 generation or observation''))
      (if py_get value ''available'' = PBool False
      then rcheck (truthy (py_get value ''blockers'') \<and> py_get value ''directions'' = PList [])
             (ValueError ''Invalid blocked L3 observation'')
      else (rbnd (get_or (py_or (py_get row ''rule'') (PDict [])) ''interface_pairs'' PNone) (\<lambda>pairs.
        let pair = l3_pair value pairs; ds = py_get value ''directions'' in
        rbnd (py_item row ''software_candidate'') (\<lambda>candidate.
        rthn (rcheck (truthy candidate \<and> \<not> truthy (py_get value ''blockers'') \<and> is_list pairs \<and> the_list pairs \<noteq> [] \<and>
            is_list pair \<and> length (the_list pair) = 2 \<and> list_ex (\<lambda>p. is_list p \<and> py_eq pair p) (the_list pairs) \<and>
            is_list ds \<and> length (the_list ds) = 2) (ValueError ''Invalid directional L3 observation''))
        (rbnd (py_item row ''translated'') (\<lambda>translated.
        rbnd (py_item translated ''destination'') (\<lambda>there.
        rbnd (py_item row ''original'') (\<lambda>original.
        rbnd (py_item original ''source'') (\<lambda>back.
        rfor (zip (the_list ds) (zip (rev (the_list pair)) [there, back])) (check_l3_direction policy))))))))))))))"

definition validate_limits :: "pyval \<Rightarrow> exn + unit" where
  "validate_limits v = rcheck (keys_are v [''conntrack_max'', ''stream_capacity''] \<and>
     int_in (py_get v ''conntrack_max'') 0 (2 ^ 31 - 1) \<and> int_in (py_get v ''stream_capacity'') 0 (2 ^ 31 - 1))
     (ValueError ''Invalid session table limits'')"

definition validate_session_row :: "pyval \<Rightarrow> exn + unit" where
  "validate_session_row row = (rthn (rcheck (is_dict row \<and> is_bool (py_get row ''software_candidate'') \<and> all_strs (py_get row ''blockers'') \<and>
        truthy (py_get row ''software_candidate'') = (\<not> truthy (py_get row ''blockers'')) \<and>
        is_dict (py_get row ''original'') \<and> is_dict (py_get row ''reply''))
      (ValueError ''Invalid assessed session''))
    (rbnd (py_item row ''identity'') (\<lambda>identity.
    sha_identity identity)))"

section \<open>The receiver\<close>

record 'e receiver =
  rc_env :: 'e
  rc_nonce :: string
  rc_timeout :: rat
  rc_backlog :: rat
  rc_producer :: pyval
  rc_policy :: pyval
  rc_limits :: pyval
  rc_sequence :: int
  rc_sessions :: "(string \<times> pyval) list"
  rc_since :: "(string \<times> rat) list"
  rc_candidates :: int
  rc_l3_candidates :: int
  rc_changes :: int
  rc_ready :: bool
  rc_last :: "rat option"
  rc_reason :: "string option"
  rc_messages :: int
  rc_origin :: rat
  rc_remote_origin :: rat
  rc_remote_last :: rat

definition receiver_init :: "'e \<Rightarrow> pyval \<Rightarrow> rat \<Rightarrow> rat option \<Rightarrow> exn + 'e receiver" where
  "receiver_init e nonce timeout backlog = (rthn (canonical_uuid nonce)
    (Inr \<lparr>rc_env = e, rc_nonce = the_str nonce, rc_timeout = timeout,
      rc_backlog = (case backlog of None \<Rightarrow> timeout | Some b \<Rightarrow> b), rc_producer = PNone, rc_policy = PNone, rc_limits = PNone,
      rc_sequence = 0, rc_sessions = [], rc_since = [], rc_candidates = 0, rc_l3_candidates = 0, rc_changes = 0,
      rc_ready = False, rc_last = None, rc_reason = Some ''awaiting snapshot'', rc_messages = 0, rc_origin = 0,
      rc_remote_origin = 0, rc_remote_last = 0\<rparr>))"

definition stream_fence :: "string \<Rightarrow> (('e, 'z) receiver_scheme, unit) py" where
  "stream_fence reason = upd (\<lambda>s. s\<lparr>rc_ready := False, rc_sessions := [], rc_since := [], rc_candidates := 0,
     rc_l3_candidates := 0, rc_changes := rc_changes s + 1, rc_reason := Some (take 256 reason)\<rparr>)"

definition stream_tick :: "('e, pyval) py \<Rightarrow> (('e, 'z) receiver_scheme, rat) py" where
  "stream_tick clock = (bnd (zoom rc_env (\<lambda>e s. s\<lparr>rc_env := e\<rparr>) clock) (\<lambda>v.
    bnd (gets (\<lambda>s. (rc_last s, rc_timeout s))) (\<lambda>bound.
    case (case finite_num v of None \<Rightarrow> None
          | Some now \<Rightarrow> if 0 \<le> now \<and> (case fst bound of None \<Rightarrow> True | Some l \<Rightarrow> 0 \<le> now - l \<and> now - l < snd bound)
                        then Some now else None) of
      None \<Rightarrow> (thn (stream_fence ''Session stream expired or clock changed'')
        (raise (TimeoutError ''Session stream expired or clock changed'')))
    | Some now \<Rightarrow> ret now)))"

definition is_candidate :: "pyval \<Rightarrow> bool" where
  "is_candidate row \<longleftrightarrow> truthy (py_get row ''software_candidate'')"

definition l3_available :: "pyval \<Rightarrow> bool" where
  "l3_available row \<longleftrightarrow> py_get (py_or (py_get row ''l3'') (PDict [])) ''available'' = PBool True"

definition bit :: "bool \<Rightarrow> int" where
  "bit b = (if b then 1 else 0)"

text \<open>A validated row is stored under its identity; counts follow the row it replaces.\<close>

definition store_row :: "pyval \<Rightarrow> rat \<Rightarrow> (('e, 'z) receiver_scheme, unit) py" where
  "store_row row now = (let identity = the_str (py_get row ''identity'') in
    bnd (gets (\<lambda>s. dict_get (rc_sessions s) identity)) (\<lambda>previous.
    thn (case previous of None \<Rightarrow> ret ()
     | Some p \<Rightarrow> upd (\<lambda>s. s\<lparr>rc_candidates := rc_candidates s - bit (is_candidate p),
                           rc_l3_candidates := rc_l3_candidates s - bit (l3_available p)\<rparr>))
    (thn (upd (\<lambda>s. s\<lparr>rc_sessions := dict_set identity row (rc_sessions s),
              rc_since := (if dict_get (rc_since s) identity = None then dict_set identity now (rc_since s) else rc_since s)\<rparr>))
    (upd (\<lambda>s. s\<lparr>rc_candidates := rc_candidates s + bit (is_candidate row),
              rc_l3_candidates := rc_l3_candidates s + bit (l3_available row), rc_changes := rc_changes s + 1\<rparr>)))))"

definition drop_row :: "string \<Rightarrow> (('e, 'z) receiver_scheme, unit) py" where
  "drop_row identity = (bnd (gets (\<lambda>s. dict_get (rc_sessions s) identity)) (\<lambda>previous.
    thn (upd (\<lambda>s. s\<lparr>rc_sessions := dict_del identity (rc_sessions s), rc_since := dict_del identity (rc_since s)\<rparr>))
    (case previous of None \<Rightarrow> ret ()
    | Some p \<Rightarrow> upd (\<lambda>s. s\<lparr>rc_candidates := rc_candidates s - bit (is_candidate p),
                          rc_l3_candidates := rc_l3_candidates s - bit (l3_available p), rc_changes := rc_changes s + 1\<rparr>))))"

definition upsert_row :: "pyval \<Rightarrow> rat \<Rightarrow> (('e, 'z) receiver_scheme, unit) py" where
  "upsert_row row now = (thn (lift_res (validate_session_row row))
    (bnd (gets rc_policy) (\<lambda>policy.
    thn (lift_res (validate_l3 row policy))
    (store_row row now))))"

definition close_row :: "pyval \<Rightarrow> (('e, 'z) receiver_scheme, unit) py" where
  "close_row payload = (thn (ensure (keys_are payload [''identity'']) (ValueError ''Invalid session close''))
    (thn (lift_res (sha_identity (py_get payload ''identity'')))
    (drop_row (the_str (py_get payload ''identity'')))))"

definition snapshot_row :: "rat \<Rightarrow> pyval \<Rightarrow> (('e, 'z) receiver_scheme, unit) py" where
  "snapshot_row now row = (thn (lift_res (validate_session_row row))
    (bnd (gets rc_policy) (\<lambda>policy.
    thn (lift_res (validate_l3 row policy))
    (bnd (gets (\<lambda>s. the_str (py_get row ''identity'') \<in> set (dict_keys (rc_sessions s)))) (\<lambda>known.
    thn (ensure (\<not> known) (ValueError ''Duplicate snapshot identity''))
    (store_row row now))))))"

definition change_entry :: "rat \<Rightarrow> pyval \<Rightarrow> (('e, 'z) receiver_scheme, unit) py" where
  "change_entry now entry = (thn (ensure (is_dict entry \<and> is_str (py_get entry ''op'')) (ValueError ''Invalid session change''))
    (if py_get entry ''op'' = PStr ''upsert'' then (thn (ensure (keys_are entry [''op'', ''row'']) (ValueError ''Invalid session change''))
      (upsert_row (py_get entry ''row'') now))
    else if py_get entry ''op'' = PStr ''close'' then (thn (ensure (keys_are entry [''op'', ''identity'']) (ValueError ''Invalid session change''))
      (close_row (PDict [(''identity'', py_get entry ''identity'')])))
    else raise (ValueError ''Unknown session change'')))"

section \<open>Messages\<close>

definition envelope_fields :: "string list" where
  "envelope_fields = [''schema'', ''nonce'', ''producer'', ''sequence'', ''operation'', ''payload'', ''emitted_monotonic'']"

definition check_producer :: "pyval \<Rightarrow> exn + unit" where
  "check_producer p = (rthn (rcheck (keys_are p [''boot_id'', ''pid'', ''process_start'', ''stream_id''] \<and> int_in (py_get p ''pid'') 1 (2 ^ 31 - 1) \<and>
        positive_decimal (py_get p ''process_start'')) (ValueError ''Invalid DP producer identity''))
    (rthn (canonical_uuid (py_get p ''boot_id''))
    (canonical_uuid (py_get p ''stream_id''))))"

definition context_fields :: "string list" where
  "context_fields = [''revision'', ''digest'', ''nat_digest'', ''bindings'', ''collector'']"

definition check_context :: "pyval \<Rightarrow> exn + unit" where
  "check_context payload = (rthn (rcheck (is_dict payload \<and> list_all (has_key payload) context_fields \<and>
        list_all (\<lambda>k. k \<in> set (context_fields @ [''l3'', ''limits''])) (map fst (the_dict payload)) \<and>
        int_in (py_get payload ''revision'') 0 (2 ^ 63 - 1) \<and> is_dict (py_get payload ''bindings'') \<and>
        is_dict (py_get payload ''collector'')) (ValueError ''Invalid acknowledged policy context''))
    (rthn (sha_identity (py_get payload ''digest''))
    (rthn (sha_identity (py_get payload ''nat_digest''))
    (rthn (if has_key payload ''l3'' then (rthn (rcheck (keys_are (py_get payload ''l3'') [''snapshot_digest'', ''hardware_admission''] \<and>
           py_get (py_get payload ''l3'') ''hardware_admission'' = PBool False) (ValueError ''Invalid L3 context''))
      (sha_identity (py_get (py_get payload ''l3'') ''snapshot_digest''))) else Inr ())
    ((if has_key payload ''limits'' then validate_limits (py_get payload ''limits'') else Inr ()))))))"

definition begin_stream :: "pyval \<Rightarrow> pyval \<Rightarrow> rat \<Rightarrow> rat \<Rightarrow> (('e, 'z) receiver_scheme, unit) py" where
  "begin_stream p payload now emitted = (thn (stream_fence ''receiving snapshot'')
    (thn (lift_res (check_context payload))
    (upd (\<lambda>s. s\<lparr>rc_producer := p, rc_sequence := 0,
      rc_policy := PDict (filter (\<lambda>(k, _). k \<noteq> ''limits'') (the_dict payload)), rc_limits := py_get payload ''limits'',
      rc_origin := now, rc_remote_origin := emitted, rc_remote_last := emitted\<rparr>))))"

definition check_envelope :: "('e, 'z) receiver_scheme \<Rightarrow> pyval \<Rightarrow> exn + unit" where
  "check_envelope s m = (rthn (rcheck (keys_are m envelope_fields \<and> py_get m ''schema'' = PInt 1 \<and> py_get m ''nonce'' = PStr (rc_nonce s))
      (ValueError ''Invalid session stream envelope''))
    (rthn (rcheck (case finite_num (py_get m ''emitted_monotonic'') of None \<Rightarrow> False | Some q \<Rightarrow> 0 \<le> q)
      (ValueError ''Invalid producer timestamp''))
    (rthn (check_producer (py_get m ''producer''))
    (rcheck (int_in (py_get m ''sequence'') 1 (2 ^ 63 - 1)) (ValueError ''Invalid stream sequence'')))))"

definition apply_operation :: "pyval \<Rightarrow> pyval \<Rightarrow> rat \<Rightarrow> (('e, 'z) receiver_scheme, unit) py" where
  "apply_operation op payload now = (bnd (gets rc_ready) (\<lambda>ready.
    if op = PStr ''snapshot'' then (thn (ensure (\<not> ready \<and> is_list payload \<and> the_list payload \<noteq> [] \<and> length (the_list payload) \<le> batch_limit)
        (ValueError ''Invalid snapshot chunk''))
      (for_each (the_list payload) (snapshot_row now)))
    else if op = PStr ''synchronized'' then (thn (ensure (\<not> ready \<and> payload = PDict []) (ValueError ''Invalid snapshot completion''))
      (upd (\<lambda>s. s\<lparr>rc_ready := True, rc_reason := None, rc_changes := rc_changes s + 1\<rparr>)))
    else if op \<in> {PStr ''upsert'', PStr ''close'', PStr ''heartbeat''} then (thn (ensure ready (ValueError ''Snapshot is not complete''))
      (if op = PStr ''heartbeat'' then ensure (payload = PDict []) (ValueError ''Invalid heartbeat'')
      else if op = PStr ''upsert'' then upsert_row payload now else close_row payload))
    else if op = PStr ''changes'' then (thn (ensure ready (ValueError ''Snapshot is not complete''))
      (thn (ensure (is_list payload \<and> the_list payload \<noteq> [] \<and> length (the_list payload) \<le> batch_limit)
        (ValueError ''Invalid change batch''))
      (for_each (the_list payload) (change_entry now))))
    else ensure (op = PStr ''begin'') (ValueError ''Unknown session operation'')))"

definition observed_l3 :: "('e, 'z) receiver_scheme \<Rightarrow> bool" where
  "observed_l3 s \<longleftrightarrow> rc_ready s \<and> has_key (py_or (rc_policy s) (PDict [])) ''l3''"

definition stream_status :: "('e, 'z) receiver_scheme \<Rightarrow> pyval" where
  "stream_status s = PDict [(''schema'', PInt 1), (''mode'', PStr ''observation-only''), (''hardware_admission'', PBool False),
     (''ready'', PBool (rc_ready s)), (''producer'', rc_producer s), (''policy'', rc_policy s), (''limits'', rc_limits s),
     (''sequence'', PInt (rc_sequence s)), (''messages'', PInt (rc_messages s)),
     (''sessions'', PInt (int (length (rc_sessions s)))), (''l3_observed'', PBool (observed_l3 s)),
     (''l3_candidates'', PInt (rc_l3_candidates s)), (''software_candidates'', PInt (rc_candidates s)),
     (''reason'', case rc_reason s of None \<Rightarrow> PNone | Some r \<Rightarrow> PStr r)]"

definition accept_unavailable :: "pyval \<Rightarrow> rat \<Rightarrow> (('e, 'z) receiver_scheme, pyval) py" where
  "accept_unavailable m now = (bnd (gets rc_nonce) (\<lambda>nonce.
    let why = py_get m ''unavailable'' in
    thn (ensure (py_get m ''schema'' = PInt 1 \<and> py_get m ''nonce'' = PStr nonce \<and> is_str why \<and> the_str why \<noteq> [] \<and>
        length (the_str why) \<le> 512) (ValueError ''Invalid unavailable acknowledgement''))
    (thn (stream_fence (the_str why))
    (thn (upd (\<lambda>s. s\<lparr>rc_producer := PNone, rc_policy := PNone, rc_limits := PNone, rc_sequence := 0, rc_origin := 0,
      rc_remote_origin := 0, rc_remote_last := 0, rc_last := Some now, rc_messages := rc_messages s + 1\<rparr>))
    (gets stream_status)))))"

text \<open>The producer's emission timeline neither runs backwards nor leaves the receipt timeline.\<close>

definition in_step :: "('e, 'z) receiver_scheme \<Rightarrow> rat \<Rightarrow> rat \<Rightarrow> bool" where
  "in_step s now emitted \<longleftrightarrow> rc_remote_last s \<le> emitted \<and>
     \<bar>(now - rc_origin s) - (emitted - rc_remote_origin s)\<bar> < rc_backlog s"

definition accept_message :: "pyval \<Rightarrow> rat \<Rightarrow> (('e, 'z) receiver_scheme, pyval) py" where
  "accept_message m now = (bnd (gets (\<lambda>s. check_envelope s m)) (\<lambda>verdict.
    thn (lift_res verdict)
    (let p = py_get m ''producer''; seq = the_int (py_get m ''sequence''); op = py_get m ''operation'';
        payload = py_get m ''payload''; emitted = the (finite_num (py_get m ''emitted_monotonic'')) in
    bnd (gets (\<lambda>s. py_eq p (rc_producer s))) (\<lambda>known.
    thn (if op = PStr ''begin'' then (thn (ensure (seq = 1 \<and> \<not> known) (ValueError ''Replayed snapshot start''))
      (begin_stream p payload now emitted))
     else (bnd (gets rc_sequence) (\<lambda>previous.
       ensure (known \<and> seq = previous + 1) (ValueError ''DP stream identity or sequence changed''))))
    (bnd (gets (\<lambda>s. in_step s now emitted)) (\<lambda>steady.
    thn (ensure steady (ValueError ''DP stream backlog or producer clock changed''))
    (thn (apply_operation op payload now)
    (bnd (gets (\<lambda>s. length (rc_sessions s) \<le> stream_capacity)) (\<lambda>fits.
    thn (ensure fits (ValueError ''Session inventory capacity exceeded''))
    (thn (upd (\<lambda>s. s\<lparr>rc_sequence := seq, rc_last := Some now, rc_remote_last := emitted, rc_messages := rc_messages s + 1\<rparr>))
    (gets stream_status)))))))))))"

definition stream_accept :: "('e, pyval) py \<Rightarrow> pyval \<Rightarrow> (('e, 'z) receiver_scheme, pyval) py" where
  "stream_accept clock m = catch_exn (bnd (stream_tick clock) (\<lambda>now.
    if keys_are m [''schema'', ''nonce'', ''unavailable''] then accept_unavailable m now else accept_message m now)) (\<lambda>e. (thn (stream_fence (exn_text e))
      (raise e)))"

section \<open>Reports\<close>

definition opt_field :: "pyval \<Rightarrow> string \<Rightarrow> pyval" where
  "opt_field d k = (if is_dict d then py_get d k else PNone)"

definition counter_field :: "pyval \<Rightarrow> string \<Rightarrow> string \<Rightarrow> exn + pyval" where
  "counter_field counters direction field = (rbnd (get_or counters direction PNone) (\<lambda>side.
    rbnd (get_or (py_or side (PDict [])) field PNone) (\<lambda>v.
    Inr (if is_int v then v else PNone))))"

definition listed :: "pyval \<Rightarrow> exn + pyval" where
  "listed v = (rbnd (py_iter (py_or v (PList []))) (\<lambda>xs.
    Inr (PList xs)))"

definition translated_fields :: "pyval \<Rightarrow> exn + (string \<times> pyval) list" where
  "translated_fields translated = (rbnd (get_or translated ''source'' PNone) (\<lambda>a.
    rbnd (get_or translated ''source_port'' PNone) (\<lambda>b.
    rbnd (get_or translated ''destination'' PNone) (\<lambda>c.
    rbnd (get_or translated ''destination_port'' PNone) (\<lambda>d.
    Inr [(''xsrc'', a), (''xsport'', b), (''xdst'', c), (''xdport'', d)])))))"

definition compact_l3 :: "pyval \<Rightarrow> exn + pyval" where
  "compact_l3 l3 = (if is_dict l3 then (rbnd (listed (py_get l3 ''blockers'')) (\<lambda>blockers.
    Inr (PDict [(''available'', PBool (py_get l3 ''available'' = PBool True)), (''pair'', py_get l3 ''pair''), (''blockers'', blockers)]))) else Inr PNone)"

definition compact :: "pyval \<Rightarrow> pyval \<Rightarrow> exn + pyval" where
  "compact row since = (let original = py_or (py_get row ''original'') (PDict []); translated = py_or (py_get row ''translated'') (PDict []);
        nat = py_or (py_get row ''nat'') (PDict []); counters = py_or (py_get row ''counters'') (PDict []);
        rule = py_or (py_get row ''rule'') (PDict []) in
    rbnd (py_item row ''identity'') (\<lambda>identity.
    rbnd (get_or nat ''source'' PNone) (\<lambda>source.
    rbnd (get_or nat ''destination'' PNone) (\<lambda>destination.
    rbnd (counter_field counters ''original'' ''bytes'') (\<lambda>c2s.
    rbnd (counter_field counters ''reply'' ''bytes'') (\<lambda>s2c.
    rbnd (counter_field counters ''original'' ''packets'') (\<lambda>c2sp.
    rbnd (counter_field counters ''reply'' ''packets'') (\<lambda>s2cp.
    rbnd (listed (py_get row ''blockers'')) (\<lambda>blockers.
    rbnd (compact_l3 (py_get row ''l3'')) (\<lambda>l3.
    rbnd (if source = PBool True \<or> destination = PBool True then translated_fields translated else Inr []) (\<lambda>extra.
    Inr (PDict ([(''id'', identity), (''ct'', py_get row ''conntrack_id''), (''proto'', py_get original ''protocol''),
      (''src'', py_get original ''source''), (''sport'', py_get original ''source_port''),
      (''dst'', py_get original ''destination''), (''dport'', py_get original ''destination_port''),
      (''nat'', PDict [(''source'', PBool (source = PBool True)), (''destination'', PBool (destination = PBool True))]),
      (''rule'', opt_field rule ''name''), (''vsys'', opt_field rule ''scope''), (''state'', py_get row ''tcp_state''),
      (''ttl'', py_get row ''remaining_seconds''), (''bytes'', PDict [(''c2s'', c2s), (''s2c'', s2c)]),
      (''packets'', PDict [(''c2s'', c2sp), (''s2c'', s2cp)]),
      (''candidate'', PBool (py_get row ''software_candidate'' = PBool True)), (''blockers'', blockers), (''l3'', l3),
      (''since'', since)] @ extra)))))))))))))"

definition stream_inventory :: "('e, 'z) receiver_scheme \<Rightarrow> exn + pyval list" where
  "stream_inventory s = (if \<not> rc_ready s then Inr []
     else rcollect (rc_sessions s) (\<lambda>(identity, row). compact row
       (case dict_get (rc_since s) identity of None \<Rightarrow> PNone | Some q \<Rightarrow> PFloat (Finite q))))"

definition acknowledgement :: "pyval \<Rightarrow> pyval \<Rightarrow> exn + pyval" where
  "acknowledgement nonce state = (rbnd (rcollect [''producer'', ''sequence'', ''ready'', ''sessions''] (\<lambda>k. (rbnd (py_item state k) (\<lambda>v.
      Inr (k, v))))) (\<lambda>fields.
    rbnd (get_or (py_or (py_get state ''policy'') (PDict [])) ''l3'' PNone) (\<lambda>context.
    rbnd (if context = PNone then Inr [] else (rbnd (py_item context ''snapshot_digest'') (\<lambda>snapshot.
      rbnd (py_item state ''l3_observed'') (\<lambda>observed.
      rbnd (py_item state ''l3_candidates'') (\<lambda>candidates.
      Inr [(''l3'', PDict [(''snapshot_digest'', snapshot), (''observed'', observed), (''candidates'', candidates)])]))))) (\<lambda>extra.
    Inr (PDict ([(''schema'', PInt 1), (''nonce'', nonce)] @ fields @ [(''hardware_admission'', PBool False)] @ extra))))))"

section \<open>The counts are those of the inventory\<close>

definition count_rows :: "(pyval \<Rightarrow> bool) \<Rightarrow> (string \<times> pyval) list \<Rightarrow> int" where
  "count_rows P d = int (length (filter (\<lambda>(_, row). P row) d))"

definition inventory_ok :: "('e, 'z) receiver_scheme \<Rightarrow> bool" where
  "inventory_ok s \<longleftrightarrow> dict_ok (rc_sessions s) \<and> rc_candidates s = count_rows is_candidate (rc_sessions s) \<and>
     rc_l3_candidates s = count_rows l3_available (rc_sessions s) \<and>
     set (dict_keys (rc_since s)) = set (dict_keys (rc_sessions s))"

definition old_bit :: "(pyval \<Rightarrow> bool) \<Rightarrow> pyval option \<Rightarrow> int" where
  "old_bit P p = (case p of None \<Rightarrow> 0 | Some row \<Rightarrow> bit (P row))"

lemma count_set: "count_rows P (dict_set k v d) = count_rows P d - old_bit P (dict_get d k) + bit (P v)"
  by (induction d) (auto simp: count_rows_def old_bit_def bit_def)

lemma count_del: "dict_ok d \<Longrightarrow> count_rows P (dict_del k d) = count_rows P d - old_bit P (dict_get d k)"
proof (induction d)
  case (Cons x d)
  then show ?case
    by (cases x) (auto simp: count_rows_def old_bit_def bit_def dict_ok_def delete_id split: option.splits)
qed (simp add: count_rows_def old_bit_def)

text \<open>
  The receiver's invariant: both counts are those of the stored rows, every stored row has passed
  validation under its own identity, an age is kept for exactly the stored sessions, and the
  inventory is within its capacity.
\<close>

definition rows_valid :: "('e, 'z) receiver_scheme \<Rightarrow> bool" where
  "rows_valid s \<longleftrightarrow> list_all (\<lambda>(k, row). validate_session_row row = Inr () \<and> the_str (py_get row ''identity'') = k) (rc_sessions s)"

definition stream_inv :: "('e, 'z) receiver_scheme \<Rightarrow> bool" where
  "stream_inv s \<longleftrightarrow> inventory_ok s \<and> rows_valid s"

definition within_capacity :: "('e, 'z) receiver_scheme \<Rightarrow> bool" where
  "within_capacity s \<longleftrightarrow> length (rc_sessions s) \<le> stream_capacity"

lemma pres_lift_thn: "(r = Inr () \<Longrightarrow> pres I k) \<Longrightarrow> pres I (thn (lift_res r) k)"
  by (cases r) (auto simp: pres_wp wp_simps)

lemma all_set: "list_all P d \<Longrightarrow> P (k, v) \<Longrightarrow> list_all P (dict_set k v d)"
  by (induction d) auto

lemma all_del: "list_all P d \<Longrightarrow> list_all P (dict_del k d)"
  by (auto simp: list_all_iff AList.delete_eq)

lemma set_keys_set: "fst ` set (dict_set k v d) = insert k (fst ` set d)"
  using dom_update [of k v d] by simp

lemma set_keys_del: "fst ` set (dict_del k d) = fst ` set d - {k}"
  by (auto simp: AList.delete_eq image_iff)

lemma inv_fence: "stream_inv s \<Longrightarrow> stream_inv (s\<lparr>rc_ready := False, rc_sessions := [], rc_since := [], rc_candidates := 0,
     rc_l3_candidates := 0, rc_changes := c, rc_reason := t\<rparr>)"
  by (simp add: stream_inv_def inventory_ok_def rows_valid_def count_rows_def)

lemma pres_fence [pres_intros]: "pres stream_inv (stream_fence reason)"
  by (simp add: stream_fence_def pres_wp wp_simps inv_fence)

lemma store_wp:
  fixes s :: "('e, 'z) receiver_scheme"
  assumes "stream_inv s" "validate_session_row row = Inr ()"
  shows "wp (store_row row now) (\<lambda>_. stream_inv) (\<lambda>_. stream_inv) s"
proof -
  have there: "dict_get d k = Some v \<Longrightarrow> k \<in> fst ` set d" for d :: "(string \<times> pyval) list" and k v
    using map_of_SomeD by force
  have "set (dict_keys (rc_since s)) = set (dict_keys (rc_sessions s))"
    using assms by (simp add: stream_inv_def inventory_ok_def)
  then have "dict_get (rc_since s) k = None \<longleftrightarrow> dict_get (rc_sessions s) k = None" for k
    unfolding dict_get_None by blast
  with assms show ?thesis
    by (auto simp: store_row_def Let_def wp_simps stream_inv_def inventory_ok_def rows_valid_def count_set old_bit_def
        set_keys_set all_set dest: there split: option.splits)
qed

lemma drop_wp:
  fixes s :: "('e, 'z) receiver_scheme"
  assumes "stream_inv s"
  shows "wp (drop_row identity) (\<lambda>_. stream_inv) (\<lambda>_. stream_inv) s"
  using assms
  by (auto simp: drop_row_def wp_simps stream_inv_def inventory_ok_def rows_valid_def count_del old_bit_def
      set_keys_del all_del split: option.splits)

lemma pres_store: "validate_session_row row = Inr () \<Longrightarrow> pres stream_inv (store_row row now)"
  by (simp add: pres_wp store_wp)

lemma pres_drop [pres_intros]: "pres stream_inv (drop_row identity)"
  by (simp add: pres_wp drop_wp)

lemma pres_rows [pres_intros]:
  "pres stream_inv (upsert_row row now)" "pres stream_inv (snapshot_row now row)" "pres stream_inv (close_row payload)"
  unfolding upsert_row_def snapshot_row_def close_row_def
  by (auto intro!: pres_intros pres_lift_thn pres_store)

lemma pres_change [pres_intros]: "pres stream_inv (change_entry now entry)"
  unfolding change_entry_def by (auto intro!: pres_intros)

lemma pres_apply [pres_intros]: "pres stream_inv (apply_operation op payload now)"
  unfolding apply_operation_def
  by (intro pres_intros pres_upd) (simp add: stream_inv_def inventory_ok_def rows_valid_def)

lemma pres_begin [pres_intros]: "pres stream_inv (begin_stream p payload now emitted)"
  unfolding begin_stream_def
  by (auto intro!: pres_intros pres_upd simp: stream_inv_def inventory_ok_def rows_valid_def)

lemma pres_tick [pres_intros]: "pres stream_inv (stream_tick clock)"
  unfolding stream_tick_def
  by (intro pres_intros pres_zoom) (auto simp: stream_inv_def inventory_ok_def rows_valid_def)

lemma pres_unavailable: "pres stream_inv (accept_unavailable m now)"
  unfolding accept_unavailable_def Let_def by (intro pres_intros pres_upd) (simp add: stream_inv_def inventory_ok_def rows_valid_def)

lemma pres_message: "pres stream_inv (accept_message m now)"
  unfolding accept_message_def Let_def by (intro pres_intros pres_upd) (simp add: stream_inv_def inventory_ok_def rows_valid_def)

lemma pres_accept: "pres stream_inv (stream_accept clock m)"
  unfolding stream_accept_def by (intro pres_intros pres_unavailable pres_message)

text \<open>A run of messages; what each acceptance returned or raised is its caller's.\<close>

definition stream_run :: "('e, pyval) py \<Rightarrow> pyval list \<Rightarrow> ('e, 'z) receiver_scheme \<Rightarrow> ('e, 'z) receiver_scheme" where
  "stream_run clock ms s = foldl (\<lambda>s m. snd (stream_accept clock m s)) s ms"

lemma run_inv: "stream_inv s \<Longrightarrow> stream_inv (stream_run clock ms s)"
  unfolding stream_run_def by (induction ms arbitrary: s) (simp_all add: pres_snd [OF pres_accept])

lemma init_inv: "receiver_init e nonce timeout backlog = Inr r \<Longrightarrow> stream_inv r"
  by (auto simp: receiver_init_def res_iffs stream_inv_def inventory_ok_def rows_valid_def count_rows_def)

lemma accept_returns:
  "stream_accept clock m s = (Inr status, s') \<Longrightarrow>
    length (rc_sessions s') \<le> stream_capacity \<and> status = stream_status s'"
  unfolding stream_accept_def catch_exn_def
  by (auto split: prod.splits sum.splits if_splits
      simp: runs accept_unavailable_def accept_message_def Let_def stream_fence_def raise_def thn_def bnd_def upd_def)

lemma accept_raises:
  "stream_accept clock m s = (Inl x, s') \<Longrightarrow> is_exception x \<Longrightarrow> \<not> rc_ready s' \<and> rc_sessions s' = [] \<and> rc_candidates s' = 0"
  unfolding stream_accept_def catch_exn_def
  by (auto split: prod.splits sum.splits if_splits simp: stream_fence_def raise_def thn_def bnd_def upd_def)

text \<open>
  C26.  The receiver keeps its session and L3 counts incrementally.  After any run of messages they
  are the counts of the stored rows, every stored row is valid under its own identity, and exactly
  the stored sessions have an age; an accepted message leaves at most the capacity and returns the
  status of the new state; one that raises an \<open>Exception\<close> leaves an empty inventory that is not ready.
\<close>

theorem stream_counts_exact:
  fixes clock :: "('e, pyval) py"
  assumes "receiver_init e nonce timeout backlog = Inr r"
  shows "let (result, s) = stream_accept clock m (stream_run clock ms r) in
    rc_candidates s = count_rows is_candidate (rc_sessions s) \<and>
    rc_l3_candidates s = count_rows l3_available (rc_sessions s) \<and>
    dict_ok (rc_sessions s) \<and> rows_valid s \<and> set (dict_keys (rc_since s)) = set (dict_keys (rc_sessions s)) \<and>
    (case result of
       Inr status \<Rightarrow> length (rc_sessions s) \<le> stream_capacity \<and> status = stream_status s
     | Inl x \<Rightarrow> is_exception x \<longrightarrow> \<not> rc_ready s \<and> rc_sessions s = [] \<and> stream_inventory s = Inr [])"
proof -
  obtain result s where run: "stream_accept clock m (stream_run clock ms r) = (result, s)"
    by fastforce
  have "stream_inv s"
    using presD [OF pres_accept run_inv [OF init_inv [OF assms]] run] .
  moreover have "case result of Inr status \<Rightarrow> length (rc_sessions s) \<le> stream_capacity \<and> status = stream_status s
      | Inl x \<Rightarrow> is_exception x \<longrightarrow> \<not> rc_ready s \<and> rc_sessions s = [] \<and> stream_inventory s = Inr []"
  proof (cases result)
    case (Inr status)
    with accept_returns run show ?thesis by fastforce
  next
    case (Inl x)
    with accept_raises run show ?thesis by (fastforce simp: stream_inventory_def)
  qed
  ultimately show ?thesis
    by (simp add: run stream_inv_def inventory_ok_def)
qed

section \<open>Continuity\<close>

definition peer :: "('e, 'z) receiver_scheme \<Rightarrow> pyval \<times> pyval \<times> pyval \<times> int \<times> rat" where
  "peer s = (rc_producer s, rc_policy s, rc_limits s, rc_sequence s, rc_remote_last s)"

lemma peer_rows [pres_intros]:
  "pres (\<lambda>s. peer s = v) (store_row row now)" "pres (\<lambda>s. peer s = v) (drop_row identity)"
  unfolding store_row_def drop_row_def Let_def
  by (intro pres_intros pres_upd; simp add: peer_def)+

lemma peer_apply: "pres (\<lambda>s. peer s = v) (apply_operation op payload now)"
  unfolding apply_operation_def upsert_row_def snapshot_row_def close_row_def change_entry_def
  by (intro pres_intros pres_upd; simp add: peer_def)

lemma peer_tick: "stream_tick clock s = (Inr now, s') \<Longrightarrow> peer s' = peer s"
  by (auto simp: stream_tick_def runs zoom_def peer_def split: prod.splits option.splits if_splits)

lemma accept_not_begin:
  assumes "accept_message m now s = (Inr status, s')" "py_get m ''operation'' \<noteq> PStr ''begin''"
  shows "py_eq (py_get m ''producer'') (rc_producer s) \<and> rc_producer s' = rc_producer s \<and> rc_policy s' = rc_policy s \<and>
    py_get m ''sequence'' = PInt (rc_sequence s + 1) \<and> rc_sequence s' = rc_sequence s + 1 \<and> rc_remote_last s \<le> rc_remote_last s'"
proof -
  obtain u s1 e where step: "apply_operation (py_get m ''operation'') (py_get m ''payload'') now s = (Inr u, s1)"
    and s': "s' = s1\<lparr>rc_sequence := the_int (py_get m ''sequence''), rc_last := Some now,
        rc_remote_last := the (finite_num (py_get m ''emitted_monotonic'')), rc_messages := rc_messages s1 + 1\<rparr>"
    and facts: "py_eq (py_get m ''producer'') (rc_producer s)" "the_int (py_get m ''sequence'') = rc_sequence s + 1"
      "in_step s now (the (finite_num (py_get m ''emitted_monotonic'')))" "check_envelope s m = Inr e"
    using assms(1) unfolding accept_message_def Let_def if_not_P [OF assms(2)] runs
    by (elim exE conjE) (hypsubst, rule that, assumption+)
  have "peer s1 = peer s"
    using presD [OF peer_apply [where v = "peer s"] refl step] .
  moreover have "is_int (py_get m ''sequence'')"
    using facts(4) by (simp add: check_envelope_def res_iffs int_in_def)
  then have "py_get m ''sequence'' = PInt (rc_sequence s + 1)"
    using facts(2) by (cases "py_get m ''sequence''") auto
  ultimately show ?thesis
    using facts s' by (simp add: peer_def in_step_def)
qed

lemma op_not_field: "''operation'' \<notin> set [''schema'', ''nonce'', ''unavailable'']"
  by simp

text \<open>
  No gap, replay or change of peer is accepted after a snapshot has begun: a message that is
  accepted and neither starts a snapshot nor announces unavailability comes from the recorded
  producer, carries the next sequence number, keeps the producer and its policy context, and its
  emission time does not run backwards.
\<close>

theorem stream_continuity:
  fixes clock :: "('e, pyval) py" and s s' :: "('e, 'z) receiver_scheme"
  assumes "stream_accept clock m s = (Inr status, s')"
    and "has_key m ''operation''" "py_get m ''operation'' \<noteq> PStr ''begin''"
  shows "py_eq (py_get m ''producer'') (rc_producer s) \<and> rc_producer s' = rc_producer s \<and> rc_policy s' = rc_policy s \<and>
    py_get m ''sequence'' = PInt (rc_sequence s + 1) \<and> rc_sequence s' = rc_sequence s + 1 \<and> rc_remote_last s \<le> rc_remote_last s'"
proof -
  have "\<not> keys_are m [''schema'', ''nonce'', ''unavailable'']"
    using assms(2) unfolding keys_are_def has_key_def by (metis op_not_field)
  then obtain now s1 where tick: "stream_tick clock s = (Inr now, s1)" and acc: "accept_message m now s1 = (Inr status, s')"
    using assms(1) unfolding stream_accept_def catch_exn_def
    by (auto simp: runs bnd_def thn_def upd_def stream_fence_def raise_def split: prod.splits sum.splits if_splits)
  from peer_tick [OF tick] accept_not_begin [OF acc assms(3)] show ?thesis
    by (simp add: peer_def)
qed

section \<open>A stream on concrete messages\<close>

definition sample_sha :: string where
  "sample_sha = replicate 64 (CHR ''a'')"

definition sample_uuid :: string where
  "sample_uuid = ''11111111-1111-4111-8111-111111111111''"

definition sample_message :: "int \<Rightarrow> string \<Rightarrow> pyval \<Rightarrow> pyval" where
  "sample_message n op payload = PDict [(''schema'', PInt 1), (''nonce'', PStr sample_uuid),
     (''producer'', PDict [(''boot_id'', PStr sample_uuid), (''pid'', PInt 7), (''process_start'', PStr ''42''), (''stream_id'', PStr sample_uuid)]),
     (''sequence'', PInt n), (''operation'', PStr op), (''payload'', payload), (''emitted_monotonic'', PInt 5)]"

definition sample_row :: pyval where
  "sample_row = PDict [(''identity'', PStr sample_sha), (''software_candidate'', PBool True), (''blockers'', PList []),
     (''original'', PDict []), (''reply'', PDict [])]"

definition sample_stream :: "pyval list" where
  "sample_stream = [sample_message 1 ''begin'' (PDict [(''revision'', PInt 1), (''digest'', PStr sample_sha),
       (''nat_digest'', PStr sample_sha), (''bindings'', PDict []), (''collector'', PDict [])]),
     sample_message 2 ''snapshot'' (PList [sample_row]), sample_message 3 ''synchronized'' (PDict [])]"

definition sample_receiver :: "unit receiver" where
  "sample_receiver = \<lparr>rc_env = (), rc_nonce = sample_uuid, rc_timeout = 10, rc_backlog = 10, rc_producer = PNone, rc_policy = PNone,
     rc_limits = PNone, rc_sequence = 0, rc_sessions = [], rc_since = [], rc_candidates = 0, rc_l3_candidates = 0, rc_changes = 0,
     rc_ready = False, rc_last = None, rc_reason = Some ''awaiting snapshot'', rc_messages = 0, rc_origin = 0,
     rc_remote_origin = 0, rc_remote_last = 0\<rparr>"

lemma sample_init: "receiver_init () (PStr sample_uuid) 10 None = Inr sample_receiver"
  by code_simp

lemma sample_third: "fst (stream_accept (gets (\<lambda>_. PInt 5)) (sample_message 3 ''synchronized'' (PDict []))
    (stream_run (gets (\<lambda>_. PInt 5)) (butlast sample_stream) sample_receiver)) =
  Inr (PDict [(''schema'', PInt 1), (''mode'', PStr ''observation-only''), (''hardware_admission'', PBool False),
    (''ready'', PBool True), (''producer'', py_get (sample_message 3 ''synchronized'' (PDict [])) ''producer''),
    (''policy'', PDict [(''revision'', PInt 1), (''digest'', PStr sample_sha), (''nat_digest'', PStr sample_sha),
       (''bindings'', PDict []), (''collector'', PDict [])]), (''limits'', PNone), (''sequence'', PInt 3), (''messages'', PInt 3),
    (''sessions'', PInt 1), (''l3_observed'', PBool False), (''l3_candidates'', PInt 0), (''software_candidates'', PInt 1),
    (''reason'', PNone)])"
  by code_simp

theorem stream_counts_exact_witness:
  "rc_candidates (snd (stream_accept (gets (\<lambda>_. PInt 5)) (sample_message 3 ''synchronized'' (PDict []))
     (stream_run (gets (\<lambda>_. PInt 5)) (butlast sample_stream) sample_receiver))) =
   count_rows is_candidate (rc_sessions (snd (stream_accept (gets (\<lambda>_. PInt 5)) (sample_message 3 ''synchronized'' (PDict []))
     (stream_run (gets (\<lambda>_. PInt 5)) (butlast sample_stream) sample_receiver))))"
  using stream_counts_exact [OF sample_init, of "gets (\<lambda>_. PInt 5)" "sample_message 3 ''synchronized'' (PDict [])" "butlast sample_stream"]
  by (simp add: Let_def split_beta)

theorem stream_continuity_witness:
  "rc_sequence (snd (stream_accept (gets (\<lambda>_. PInt 5)) (sample_message 3 ''synchronized'' (PDict []))
     (stream_run (gets (\<lambda>_. PInt 5)) (butlast sample_stream) sample_receiver))) =
   rc_sequence (stream_run (gets (\<lambda>_. PInt 5)) (butlast sample_stream) sample_receiver) + 1"
proof -
  have "has_key (sample_message 3 ''synchronized'' (PDict [])) ''operation''"
    "py_get (sample_message 3 ''synchronized'' (PDict [])) ''operation'' \<noteq> PStr ''begin''"
    by code_simp+
  from stream_continuity [OF _ this, of "gets (\<lambda>_. PInt 5)" "stream_run (gets (\<lambda>_. PInt 5)) (butlast sample_stream) sample_receiver"]
  show ?thesis
    using sample_third by (metis prod.collapse)
qed

end
