(* ===== verification/Observations.thy ===== *)
theory Observations
  imports Policy SessionStream
begin

text \<open>
  The observations the control-plane owner takes from the session stream,
  \<open>ffn_fe100_observations.py\<close>: reassembly of digest-checked frames, the fence that withdraws policy
  ownership, and the client that cuts a frame into fragments; with the dispatch of
  \<open>ffn_fe100_policy_control.py\<close> between them and the interface intent of
  \<open>management/fe100_attachment_config.py\<close>.  The JSON parser and printer are parameters, any functions;
  the clock returns finite times.
\<close>

section \<open>Base 64\<close>

definition b64_char :: "nat \<Rightarrow> char" where
  "b64_char n = char_of (if n < 26 then n + 65 else if n < 52 then n + 71 else if n < 62 then n - 4 else if n = 62 then 43 else 47)"

definition b64_val :: "char \<Rightarrow> nat option" where
  "b64_val c = (let n = of_char c in
     if 65 \<le> n \<and> n \<le> 90 then Some (n - 65) else if 97 \<le> n \<and> n \<le> 122 then Some (n - 71) else if 48 \<le> n \<and> n \<le> 57 then Some (n + 4)
     else if n = 43 then Some 62 else if n = 47 then Some 63 else None)"

fun b64_encode :: "bytes \<Rightarrow> string" where
  "b64_encode [] = []"
| "b64_encode [a] = [b64_char (unat a div 4), b64_char (unat a mod 4 * 16), CHR ''='', CHR ''='']"
| "b64_encode [a, b] = [b64_char (unat a div 4), b64_char (unat a mod 4 * 16 + unat b div 16), b64_char (unat b mod 16 * 4), CHR ''='']"
| "b64_encode (a # b # c # cs) = [b64_char (unat a div 4), b64_char (unat a mod 4 * 16 + unat b div 16),
     b64_char (unat b mod 16 * 4 + unat c div 64), b64_char (unat c mod 64)] @ b64_encode cs"

text \<open>\<open>base64.b64decode(s, validate=True)\<close>: whole groups of four, padding only in the last.\<close>

fun b64_decode :: "string \<Rightarrow> bytes option" where
  "b64_decode [] = Some []"
| "b64_decode (a # b # c # d # cs) = (case (b64_val a, b64_val b) of
      (Some x, Some y) \<Rightarrow>
        (if c = CHR ''='' then (if d = CHR ''='' \<and> cs = [] then Some [of_nat (x * 4 + y div 16)] else None)
         else (case b64_val c of None \<Rightarrow> None
           | Some z \<Rightarrow> if d = CHR ''='' then (if cs = [] then Some [of_nat (x * 4 + y div 16), of_nat (y mod 16 * 16 + z div 4)] else None)
               else (case b64_val d of None \<Rightarrow> None
                 | Some w \<Rightarrow> map_option (\<lambda>bs. [of_nat (x * 4 + y div 16), of_nat (y mod 16 * 16 + z div 4), of_nat (z mod 4 * 64 + w)] @ bs) (b64_decode cs))))
    | _ \<Rightarrow> None)"
| "b64_decode _ = None"

section \<open>Interface intent\<close>

definition max_interfaces :: nat where
  "max_interfaces = 1024"

definition intent_fields :: "string list" where
  "intent_fields = [''name'', ''parent'', ''kind'', ''ports'', ''vlan'', ''zone'', ''vsys'', ''enabled'']"

definition front_parent :: "string \<Rightarrow> nat option" where
  "front_parent s = find (\<lambda>n. s = ''ethernet1/'' @ dec_nat n) [1..<25]"

definition aggregate_parent :: "string \<Rightarrow> bool" where
  "aggregate_parent s \<longleftrightarrow> list_ex (\<lambda>n. s = ''ae'' @ dec_nat n) [1..<100]"

definition intent_name :: "string \<Rightarrow> string \<Rightarrow> bool" where
  "intent_name parent s \<longleftrightarrow> s = parent \<or> (let rest = drop (length parent + 1) s in
     s = parent @ ''.'' @ rest \<and> rest \<noteq> [] \<and> length rest \<le> 4 \<and> hd rest \<noteq> CHR ''0'' \<and> list_all (\<lambda>c. c \<in> set digits) rest)"

definition strictly_increasing :: "int list \<Rightarrow> bool" where
  "strictly_increasing xs \<longleftrightarrow> sorted xs \<and> distinct xs"

definition owner_text :: "pyval \<Rightarrow> bool" where
  "owner_text v \<longleftrightarrow> v = PNone \<or> is_str v \<and> the_str v \<noteq> [] \<and> length (the_str v) \<le> 128"

text \<open>One interface, given the names before it.\<close>

definition check_interface :: "string list \<Rightarrow> pyval \<Rightarrow> exn + string" where
  "check_interface seen row = (rthn (rcheck (keys_are row intent_fields) (ValueError ''Incomplete interface intent''))
    (let kind = py_get row ''kind''; parent = the_str (py_get row ''parent''); name = the_str (py_get row ''name'');
         vlan = py_get row ''vlan''; ports = py_get row ''ports'' in
    rthn (rcheck (kind \<in> {PStr ''physical'', PStr ''aggregate''}) (ValueError ''Unsupported attachment kind''))
    (rthn (rcheck (is_str (py_get row ''parent'') \<and> (if kind = PStr ''physical'' then front_parent parent \<noteq> None else aggregate_parent parent) \<and>
         is_str (py_get row ''name'') \<and> intent_name parent name \<and> name \<notin> set seen \<and> is_bool (py_get row ''enabled'') \<and>
         int_in vlan 0 4094 \<and> (name = parent) = (vlan = PInt 0)) (ValueError ''Invalid interface identity or VLAN''))
    (rthn (rcheck (is_list ports \<and> the_list ports \<noteq> [] \<and> length (the_list ports) \<le> 8 \<and> list_all (\<lambda>p. int_in p 1 24) (the_list ports) \<and>
         strictly_increasing (map the_int (the_list ports)) \<and>
         (kind = PStr ''physical'' \<longrightarrow> map the_int (the_list ports) = [int (the (front_parent parent))]))
       (ValueError ''Invalid configured member mapping''))
    (rthn (rcheck (owner_text (py_get row ''vsys'') \<and> owner_text (py_get row ''zone'')) (ValueError ''Invalid zone ownership''))
    (rthn (rcheck (\<not> (py_get row ''zone'' \<noteq> PNone \<and> py_get row ''vsys'' = PNone)) (ValueError ''Zone requires virtual system''))
    (Inr name)))))))"

primrec check_interfaces :: "string list \<Rightarrow> pyval list \<Rightarrow> exn + unit" where
  "check_interfaces seen [] = Inr ()"
| "check_interfaces seen (row # rows) = (rbnd (check_interface seen row) (\<lambda>name.
  check_interfaces (name # seen) rows))"

definition validate_intent :: "pyval \<Rightarrow> exn + pyval" where
  "validate_intent value = (rthn (rcheck (keys_are value [''schema'', ''config_digest'', ''interfaces''] \<and> py_get value ''schema'' = PInt 1 \<and> is_sha (py_get value ''config_digest'') \<and>
         is_list (py_get value ''interfaces'') \<and> length (the_list (py_get value ''interfaces'')) \<le> max_interfaces)
       (ValueError ''Invalid attachment configuration''))
    (rthn (check_interfaces [] (the_list (py_get value ''interfaces'')))
    (Inr value)))"

section \<open>The observer\<close>

definition max_frame :: nat where
  "max_frame = 524288"

definition chunk_size :: nat where
  "chunk_size = 32768"

definition inventory_bytes :: int where
  "inventory_bytes = 32 * 1024 * 1024"

definition stream_backlog :: rat where
  "stream_backlog = 90"

record partial_frame =
  pf_transfer :: pyval
  pf_total :: int
  pf_digest :: pyval
  pf_started :: rat
  pf_data :: bytes

record 'e observer =
  ob_env :: 'e
  ob_receiver :: "'e receiver option"
  ob_pending :: "partial_frame option"
  ob_sizes :: "(string \<times> int) list"
  ob_reason :: "string option"
  ob_config :: "pyval option"

record 'e observe_world =
  ow_clock :: "('e, rat) py"
  ow_withdraw :: "('e, unit) py"
  ow_expected :: "('e, pyval) py option"
  ow_loads :: "bytes \<Rightarrow> exn + pyval"
  ow_size :: "pyval \<Rightarrow> exn + int"

definition observer_init :: "'e \<Rightarrow> 'e observer" where
  "observer_init e = \<lparr>ob_env = e, ob_receiver = None, ob_pending = None, ob_sizes = [], ob_reason = Some ''awaiting MP relay'', ob_config = None\<rparr>"

definition ob_io :: "('e, 'a) py \<Rightarrow> ('e observer, 'a) py" where
  "ob_io m = zoom ob_env (\<lambda>e s. s\<lparr>ob_env := e\<rparr>) m"

text \<open>The receiver runs on the observer's environment; the copy it was stored with is never read.\<close>

definition on_receiver :: "('e receiver, 'a) py \<Rightarrow> ('e observer, 'a) py" where
  "on_receiver m = zoom (\<lambda>s. (the (ob_receiver s))\<lparr>rc_env := ob_env s\<rparr>) (\<lambda>t s. s\<lparr>ob_env := rc_env t, ob_receiver := Some t\<rparr>) m"

definition receiver_clock :: "'e observe_world \<Rightarrow> ('e, pyval) py" where
  "receiver_clock W = (bnd (ow_clock W) (\<lambda>q.
    ret (PFloat (Finite q))))"

definition observe_fence :: "'e observe_world \<Rightarrow> string \<Rightarrow> ('e observer, unit) py" where
  "observe_fence W reason = (thn (upd (\<lambda>s. s\<lparr>ob_pending := None, ob_sizes := [], ob_reason := Some (take 256 reason)\<rparr>))
    (bnd (gets (\<lambda>s. ob_receiver s \<noteq> None)) (\<lambda>synced.
    thn (whn synced (on_receiver (stream_fence reason)))
    (ob_io (ow_withdraw W)))))"

definition drop_receiver :: "('e observer, unit) py" where
  "drop_receiver = upd (\<lambda>s. s\<lparr>ob_receiver := None\<rparr>)"

definition receiver_nonce :: "'e observer \<Rightarrow> pyval" where
  "receiver_nonce s = (case ob_receiver s of None \<Rightarrow> PNone | Some r \<Rightarrow> PStr (rc_nonce r))"

definition observer_status :: "'e observer \<Rightarrow> exn + pyval" where
  "observer_status s = (let state = (case ob_receiver s of None \<Rightarrow> PDict [] | Some r \<Rightarrow> stream_status r);
       field = (\<lambda>k v. if has_key state k then py_get state k else v); policy = py_or (py_get state ''policy'') (PDict []) in (rbnd (get_or policy ''digest'' PNone) (\<lambda>digest_value.
         rbnd (get_or policy ''nat_digest'' PNone) (\<lambda>nat.
         rbnd (get_or policy ''l3'' PNone) (\<lambda>l3.
         rbnd (get_or (py_or l3 (PDict [])) ''snapshot_digest'' PNone) (\<lambda>topology.
         Inr (PDict [(''mode'', PStr ''supervised-observation-only''), (''hardware_admission'', PBool False),
       (''ready'', field ''ready'' (PBool False)), (''sequence'', field ''sequence'' (PInt 0)), (''sessions'', field ''sessions'' (PInt 0)),
       (''software_candidates'', field ''software_candidates'' (PInt 0)), (''l3_candidates'', field ''l3_candidates'' (PInt 0)),
       (''producer'', field ''producer'' PNone), (''policy_digest'', digest_value), (''nat_digest'', nat), (''topology_digest'', topology),
       (''configuration_digest'', case (ob_receiver s, ob_config s) of (Some _, Some c) \<Rightarrow> py_get c ''config_digest'' | _ \<Rightarrow> PNone),
       (''pending_bytes'', PInt (case ob_pending s of None \<Rightarrow> 0 | Some p \<Rightarrow> int (length (pf_data p)))),
       (''reason'', case ob_reason s of None \<Rightarrow> PNone | Some r \<Rightarrow> PStr r)])))))))"

definition get_status :: "('e observer, pyval) py" where
  "get_status = (bnd (gets observer_status) (\<lambda>r.
    lift_res r))"

definition start_relay :: "'e observe_world \<Rightarrow> pyval \<Rightarrow> ('e observer, pyval) py" where
  "start_relay W nonce = (thn (lift_res (canonical_uuid nonce))
    (bnd (gets (\<lambda>s. receiver_nonce s = nonce)) (\<lambda>known.
    thn (ensure (\<not> known) (ValueError ''observation relay nonce cannot be replayed''))
    (thn (observe_fence W ''new relay requires complete snapshot'')
    (thn (upd (\<lambda>s. s\<lparr>ob_config := None\<rparr>))
    (bnd (gets (\<lambda>s. receiver_init (ob_env s) nonce 10 (Some stream_backlog))) (\<lambda>made.
    bnd (lift_res made) (\<lambda>r.
    thn (upd (\<lambda>s. s\<lparr>ob_receiver := Some r\<rparr>))
    (get_status)))))))))"

definition catch_timeout :: "('s, unit) py \<Rightarrow> (string \<Rightarrow> ('s, unit) py) \<Rightarrow> ('s, unit) py" where
  "catch_timeout m h = catch_all m (\<lambda>e. case e of TimeoutError t \<Rightarrow> h t | _ \<Rightarrow> raise e)"

definition relay_tick :: "'e observe_world \<Rightarrow> ('e observer, unit) py" where
  "relay_tick W = (bnd (gets (\<lambda>s. ob_receiver s \<noteq> None)) (\<lambda>synced.
    whn synced (catch_timeout
       ((thn (on_receiver (stream_tick (receiver_clock W)))
         (bnd (gets ob_pending) (\<lambda>pending.
         (case pending of None \<Rightarrow> ret ()
             | Some p \<Rightarrow> (bnd (ob_io (ow_clock W)) (\<lambda>now.
               ensure (\<not> 5 \<le> now - pf_started p) (TimeoutError ''observation frame assembly expired''))))))))
       (\<lambda>t. (thn (observe_fence W t)
         (drop_receiver))))))"

definition close_relay :: "'e observe_world \<Rightarrow> pyval \<Rightarrow> ('e observer, pyval) py" where
  "close_relay W nonce = (thn (lift_res (canonical_uuid nonce))
    (bnd (gets (\<lambda>s. receiver_nonce s = nonce)) (\<lambda>known.
    thn (whn known ((thn (observe_fence W ''MP relay disconnected'')
       (drop_receiver))))
    (get_status))))"

section \<open>Fragments\<close>

definition fragment_fields :: "string list" where
  "fragment_fields = [''nonce'', ''transfer'', ''offset'', ''total'', ''digest'', ''data'']"

definition check_fragment :: "pyval \<Rightarrow> exn + int \<times> int \<times> bytes" where
  "check_fragment payload = (rthn (rcheck (keys_are payload fragment_fields) (ValueError ''invalid observation fragment fields''))
    (rthn (canonical_uuid (py_get payload ''transfer''))
    (rthn (sha_identity (py_get payload ''digest''))
    (let offset = the_int (py_get payload ''offset''); size_all = the_int (py_get payload ''total''); text_data = py_get payload ''data'' in
    rthn (rcheck (is_int (py_get payload ''offset'') \<and> is_int (py_get payload ''total'') \<and> 0 \<le> offset \<and> offset < size_all \<and> size_all \<le> int max_frame \<and>
         is_str text_data \<and> length (the_str text_data) \<le> 4 * ((chunk_size + 2) div 3)) (ValueError ''invalid observation fragment bounds''))
    (rbnd (case b64_decode (the_str text_data) of None \<Rightarrow> Inl (ValueError ''Invalid base64-encoded string'') | Some bs \<Rightarrow> Inr bs) (\<lambda>raw.
    rthn (rcheck (raw \<noteq> [] \<and> length raw \<le> chunk_size \<and> offset + int (length raw) \<le> size_all) (ValueError ''invalid observation fragment length''))
    (Inr (offset, size_all, raw))))))))"

text \<open>The bytes the inventory's rows take, which the observer bounds.\<close>

definition put_size :: "'e observe_world \<Rightarrow> pyval \<Rightarrow> ('e observer, unit) py" where
  "put_size W row = (bnd (lift_res (ow_size W row)) (\<lambda>n.
    bnd (lift_res (py_item row ''identity'')) (\<lambda>identity.
    upd (\<lambda>s. s\<lparr>ob_sizes := dict_set (the_str identity) n (ob_sizes s)\<rparr>))))"

definition drop_size :: "pyval \<Rightarrow> ('e observer, unit) py" where
  "drop_size identity = upd (\<lambda>s. s\<lparr>ob_sizes := dict_del (the_str identity) (ob_sizes s)\<rparr>)"

definition count_sizes :: "'e observe_world \<Rightarrow> pyval \<Rightarrow> ('e observer, unit) py" where
  "count_sizes W m = (let op = py_get m ''operation''; body = py_get m ''payload'' in
     if op = PStr ''snapshot'' then for_each (the_list body) (put_size W)
     else if op = PStr ''upsert'' then put_size W body
     else if op = PStr ''close'' then drop_size (py_get body ''identity'')
     else if op = PStr ''changes'' then for_each (the_list body) (\<lambda>entry.
       if py_get entry ''op'' = PStr ''upsert'' then put_size W (py_get entry ''row'') else drop_size (py_get entry ''identity''))
     else ret ())"

definition take_message :: "'e observe_world \<Rightarrow> pyval \<Rightarrow> ('e observer, pyval) py" where
  "take_message W m = (thn (whn (py_get m ''operation'' = PStr ''begin'' \<or> has_key m ''unavailable'') (observe_fence W ''DP policy, topology or producer changed''))
    (bnd (on_receiver (stream_accept (receiver_clock W) m)) (\<lambda>state.
    thn (count_sizes W m)
    (bnd (gets (\<lambda>s. sum_list (map snd (ob_sizes s)) \<le> inventory_bytes)) (\<lambda>fits.
    thn (ensure fits (ValueError ''observation inventory memory limit exceeded''))
    (thn (upd (\<lambda>s. s\<lparr>ob_reason := rc_reason (the (ob_receiver s))\<rparr>))
    (bnd (gets receiver_nonce) (\<lambda>nonce.
    lift_res (acknowledgement nonce state)))))))))"

definition take_intent :: "'e observe_world \<Rightarrow> pyval \<Rightarrow> ('e observer, pyval) py" where
  "take_intent W m = (bnd (gets (\<lambda>s. py_get m ''nonce'' = receiver_nonce s \<and> rc_producer (the (ob_receiver s)) = PNone \<and> ob_config s = None)) (\<lambda>first.
    thn (ensure (keys_are m [''schema'', ''nonce'', ''configuration''] \<and> py_get m ''schema'' = PInt 1 \<and> first)
       (ValueError ''Interface intent requires a new relay before the DP snapshot''))
    (bnd (lift_res (validate_intent (py_get m ''configuration''))) (\<lambda>config.
    thn (case ow_expected W of None \<Rightarrow> raise (ValueError ''Interface intent does not match the committed policy barrier'')
      | Some expected \<Rightarrow> (bnd (ob_io expected) (\<lambda>d.
        ensure (py_eq (py_get config ''config_digest'') d) (ValueError ''Interface intent does not match the committed policy barrier''))))
    (thn (upd (\<lambda>s. s\<lparr>ob_config := Some config\<rparr>))
    (bnd (lift_res (digest config)) (\<lambda>intent.
    ret (PDict [(''config_digest'', py_get config ''config_digest''), (''intent_digest'', PStr intent)]))))))))"

definition deliver_frame :: "'e observe_world \<Rightarrow> pyval \<Rightarrow> bytes \<Rightarrow> ('e observer, pyval) py" where
  "deliver_frame W wanted raw = (thn (ensure (PStr (to_hex (sha256 raw)) = wanted) (ValueError ''observation frame digest mismatch''))
    (bnd (lift_res (ow_loads W raw)) (\<lambda>m.
    thn (ensure (is_dict m) (ValueError ''observation frame must be an object''))
    ((if has_key m ''configuration'' then take_intent W m else take_message W m)))))"

definition fragment_result :: "pyval \<Rightarrow> nat \<Rightarrow> bool \<Rightarrow> (string \<times> pyval) list" where
  "fragment_result transfer n whole = [(''transfer'', transfer), (''received'', PInt (int n)), (''complete'', PBool whole)]"

definition open_frame :: "'e observe_world \<Rightarrow> pyval \<Rightarrow> int \<Rightarrow> int \<Rightarrow> ('e observer, partial_frame) py" where
  "open_frame W payload offset size_all = (bnd (gets ob_pending) (\<lambda>pending.
    (case pending of Some p \<Rightarrow> ret p
      | None \<Rightarrow> (thn (ensure (offset = 0) (ValueError ''observation fragment sequence gap''))
        (bnd (ob_io (ow_clock W)) (\<lambda>now.
        let p = \<lparr>pf_transfer = py_get payload ''transfer'', pf_total = size_all, pf_digest = py_get payload ''digest'', pf_started = now, pf_data = []\<rparr> in
        thn (upd (\<lambda>s. s\<lparr>ob_pending := Some p\<rparr>))
        (ret p)))))))"

definition take_fragment :: "'e observe_world \<Rightarrow> pyval \<Rightarrow> ('e observer, pyval) py" where
  "take_fragment W payload = (bnd (lift_res (check_fragment payload)) (\<lambda>fragment.
    (case fragment of (offset, size_all, part) \<Rightarrow> (bnd (open_frame W payload offset size_all) (\<lambda>p.
       thn (ensure (pf_transfer p = py_get payload ''transfer'' \<and> pf_total p = size_all \<and> pf_digest p = py_get payload ''digest'' \<and> offset = int (length (pf_data p)))
         (ValueError ''observation fragment replay or replacement''))
       (let raw = pf_data p @ part in
       thn (upd (\<lambda>s. s\<lparr>ob_pending := Some (p\<lparr>pf_data := raw\<rparr>)\<rparr>))
       ((if int (length raw) \<noteq> size_all then ret (PDict (fragment_result (pf_transfer p) (length raw) False))
        else (thn (upd (\<lambda>s. s\<lparr>ob_pending := None\<rparr>))
          (bnd (deliver_frame W (pf_digest p) raw) (\<lambda>ack.
          ret (PDict (fragment_result (pf_transfer p) (length raw) True @ [(''ack'', ack)])))))))))))))"

definition take_chunk :: "'e observe_world \<Rightarrow> pyval \<Rightarrow> ('e observer, pyval) py" where
  "take_chunk W payload = (thn (relay_tick W)
    (bnd (gets (\<lambda>s. ob_receiver s \<noteq> None)) (\<lambda>synced.
    thn (ensure synced (ValueError ''observation relay is not synchronized; start a new snapshot''))
    (bnd (lift_res (get_or payload ''nonce'' PNone)) (\<lambda>nonce.
    bnd (gets (\<lambda>s. nonce = receiver_nonce s)) (\<lambda>same.
    thn (ensure same (ValueError ''observation relay is not synchronized; start a new snapshot''))
    (catch_exn (take_fragment W payload) (\<lambda>e. (thn (observe_fence W (exn_text e))
       (thn drop_receiver
       (raise e)))))))))))"

section \<open>Requests and the client\<close>

text \<open>The observation operations of \<open>PolicyController.execute\<close>, of an owner with the given identity.\<close>

definition without_owner :: "pyval \<Rightarrow> pyval" where
  "without_owner payload = PDict (filter (\<lambda>(k, _). k \<noteq> ''control_owner'') (the_dict payload))"

definition observe_execute :: "'e observe_world \<Rightarrow> pyval \<Rightarrow> string \<Rightarrow> pyval \<Rightarrow> ('e observer, pyval) py" where
  "observe_execute W owner operation payload = (thn (ensure (is_dict payload) (ValueError ''observation payload must be an object''))
    ((if operation = ''observe-start'' then (thn (ensure (keys_are payload [''nonce'']) (ValueError ''invalid observation start''))
       (start_relay W (py_get payload ''nonce'')))
      else (thn (ensure (py_eq (py_get payload ''control_owner'') owner \<and> truthy (py_get payload ''control_owner'')) (ValueError ''observation control owner changed''))
        (let body = without_owner payload in
        (if operation = ''observe-chunk'' then take_chunk W body
         else if operation = ''observe-close'' \<and> keys_are body [''nonce''] then close_relay W (py_get body ''nonce'')
         else raise (ValueError ''unsupported observation operation'')))))))"

text \<open>The answer of the control service: the result with the owner's identity.\<close>

definition control_request :: "'e observe_world \<Rightarrow> pyval \<Rightarrow> string \<Rightarrow> pyval \<Rightarrow> ('e observer, pyval) py" where
  "control_request W owner operation payload = (bnd (observe_execute W owner operation payload) (\<lambda>result.
    ret (PDict (dict_set ''control_owner'' owner (the_dict result)))))"

record client =
  oc_nonce :: pyval
  oc_owner :: pyval

definition client_start :: "(string \<Rightarrow> pyval \<Rightarrow> ('s, pyval) py) \<Rightarrow> pyval \<Rightarrow> ('s, client) py" where
  "client_start rpc nonce = (thn (lift_res (canonical_uuid nonce))
    (bnd (rpc ''observe-start'' (PDict [(''nonce'', nonce)])) (\<lambda>result.
    bnd (lift_res (py_item result ''control_owner'')) (\<lambda>owner.
    thn (lift_res (canonical_uuid owner))
    (ret \<lparr>oc_nonce = nonce, oc_owner = owner\<rparr>)))))"

definition fragment_of :: "client \<Rightarrow> pyval \<Rightarrow> bytes \<Rightarrow> nat \<Rightarrow> pyval" where
  "fragment_of c transfer raw offset = PDict [(''control_owner'', oc_owner c), (''nonce'', oc_nonce c), (''transfer'', transfer), (''offset'', PInt (int offset)),
     (''total'', PInt (int (length raw))), (''digest'', PStr (to_hex (sha256 raw))), (''data'', PStr (b64_encode (take chunk_size (drop offset raw))))]"

definition check_answer :: "client \<Rightarrow> pyval \<Rightarrow> bytes \<Rightarrow> nat \<Rightarrow> pyval \<Rightarrow> exn + unit" where
  "check_answer c transfer raw offset result = (rbnd (get_or result ''control_owner'' PNone) (\<lambda>owner.
    let upto = offset + length (take chunk_size (drop offset raw)) in
    rcheck (py_eq owner (oc_owner c) \<and> py_eq (py_get result ''transfer'') transfer \<and> py_get result ''received'' = PInt (int upto) \<and>
         py_get result ''complete'' = PBool (upto = length raw)) (RuntimeError ''observation owner or fragment acknowledgement changed'')))"

primrec send_fragments :: "(string \<Rightarrow> pyval \<Rightarrow> ('s, pyval) py) \<Rightarrow> client \<Rightarrow> pyval \<Rightarrow> bytes \<Rightarrow> nat list \<Rightarrow> pyval \<Rightarrow> ('s, pyval) py" where
  "send_fragments rpc c transfer raw [] result = ret result"
| "send_fragments rpc c transfer raw (offset # offsets) result = (bnd (rpc ''observe-chunk'' (fragment_of c transfer raw offset)) (\<lambda>answer.
  thn (lift_res (check_answer c transfer raw offset answer))
  (send_fragments rpc c transfer raw offsets answer)))"

definition fragment_offsets :: "nat \<Rightarrow> nat list" where
  "fragment_offsets n = map (\<lambda>i. i * chunk_size) [0..<(n + chunk_size - 1) div chunk_size]"

definition client_send :: "(string \<Rightarrow> pyval \<Rightarrow> ('s, pyval) py) \<Rightarrow> (pyval \<Rightarrow> exn + bytes) \<Rightarrow> client \<Rightarrow> pyval \<Rightarrow> pyval \<Rightarrow> ('s, pyval) py" where
  "client_send rpc dumps c transfer m = (bnd (lift_res (dumps m)) (\<lambda>raw.
    thn (ensure (raw \<noteq> [] \<and> length raw \<le> max_frame) (ValueError ''observation frame exceeds limit''))
    (bnd (send_fragments rpc c transfer raw (fragment_offsets (length raw)) PNone) (\<lambda>result.
    lift_res (py_item result ''ack'')))))"

definition client_close :: "(string \<Rightarrow> pyval \<Rightarrow> ('s, pyval) py) \<Rightarrow> client \<Rightarrow> ('s, pyval) py" where
  "client_close rpc c = rpc ''observe-close'' (PDict [(''control_owner'', oc_owner c), (''nonce'', oc_nonce c)])"

section \<open>Over the policy owner\<close>

text \<open>\<open>withdraw\<close> of the policy controller.\<close>

definition withdraw_policy :: "('e, ('e, 'z) policy_scheme) powner \<Rightarrow> (('e, 'z) policy_scheme, unit) py" where
  "withdraw_policy P = (thn (upd (\<lambda>s. s\<lparr>activated := False\<rparr>))
    (thn (reconcile P)
    (ret ())))"

definition policy_observer :: "('e, ('e, 'z) policy_scheme) powner \<Rightarrow> ('e, rat) py \<Rightarrow> (bytes \<Rightarrow> exn + pyval) \<Rightarrow> (pyval \<Rightarrow> exn + int) \<Rightarrow>
    ('e, 'z) policy_scheme observe_world" where
  "policy_observer P clock loads size_of = \<lparr>ow_clock = io clock, ow_withdraw = withdraw_policy P,
     ow_expected = Some (gets (\<lambda>s. p_digest (pol_state s))), ow_loads = loads, ow_size = size_of\<rparr>"

section \<open>Base 64 is read back\<close>

lemma b64_val_char [simp]: "n < 64 \<Longrightarrow> b64_val (b64_char n) = Some n"
  by (auto simp: b64_val_def b64_char_def Let_def)

lemma b64_char_pad [simp]: "n < 64 \<Longrightarrow> b64_char n \<noteq> CHR ''=''"
proof
  assume "n < 64" "b64_char n = CHR ''=''"
  then have "b64_val (CHR ''='') = Some n" using b64_val_char [of n] by simp
  then show False by (simp add: b64_val_def)
qed

lemma byte_less: "unat (b :: byte) < 256"
  using unsigned_less [of b, where 'a = nat] by simp

text \<open>The six-bit pieces of bytes, and the bytes joined from them again.\<close>

lemma small_parts:
  fixes n m :: nat
  assumes "n < 256" "m < 256"
  shows "n div 4 < 64" "n mod 4 * 16 + m div 16 < 64" "n mod 16 * 4 + m div 64 < 64" "n mod 4 * 16 < 64" "n mod 16 * 4 < 64"
    and "n div 4 * 4 + (n mod 4 * 16) div 16 = n" "n div 4 * 4 + (n mod 4 * 16 + m div 16) div 16 = n"
    "(m' mod 4 * 16 + n div 16) mod 16 * 16 + (n mod 16 * 4) div 4 = n"
    "(m' mod 4 * 16 + n div 16) mod 16 * 16 + (n mod 16 * 4 + m div 64) div 4 = n"
    "(m' mod 16 * 4 + n div 64) mod 4 * 64 + n mod 64 = n"
proof -
  have q: "n div 4 < 64" "n div 16 < 16" "n div 64 < 4" "m div 16 < 16" "m div 64 < 4"
    using assms by (simp_all add: less_mult_imp_div_less)
  have r: "n mod 4 < 4" "n mod 16 < 16" by simp_all
  show "n div 4 < 64" "n mod 4 * 16 + m div 16 < 64" "n mod 16 * 4 + m div 64 < 64" "n mod 4 * 16 < 64" "n mod 16 * 4 < 64"
    using q r by linarith+
  have join: "(k * 16 + m div 16) div 16 = k" "(k * 16 + n div 16) mod 16 = n div 16" "(k * 4 + m div 64) div 4 = k" "(k * 4 + n div 64) mod 4 = n div 64" for k
    using q by simp_all
  show "n div 4 * 4 + (n mod 4 * 16) div 16 = n" "n div 4 * 4 + (n mod 4 * 16 + m div 16) div 16 = n"
    "(m' mod 4 * 16 + n div 16) mod 16 * 16 + (n mod 16 * 4) div 4 = n"
    "(m' mod 4 * 16 + n div 16) mod 16 * 16 + (n mod 16 * 4 + m div 64) div 4 = n"
    "(m' mod 16 * 4 + n div 64) mod 4 * 64 + n mod 64 = n"
    by (simp_all only: join div_mult_mod_eq nonzero_mult_div_cancel_right)
qed

lemmas byte_parts = small_parts [OF byte_less byte_less]

lemma b64_groups:
  assumes "x < 64" "y < 64"
  shows "b64_decode [b64_char x, b64_char y, CHR ''='', CHR ''=''] = Some [of_nat (x * 4 + y div 16)]"
    and "z < 64 \<Longrightarrow> b64_decode [b64_char x, b64_char y, b64_char z, CHR ''=''] = Some [of_nat (x * 4 + y div 16), of_nat (y mod 16 * 16 + z div 4)]"
    and "z < 64 \<Longrightarrow> w < 64 \<Longrightarrow> b64_decode (b64_char x # b64_char y # b64_char z # b64_char w # cs) =
      map_option (\<lambda>bs. [of_nat (x * 4 + y div 16), of_nat (y mod 16 * 16 + z div 4), of_nat (z mod 4 * 64 + w)] @ bs) (b64_decode cs)"
  using assms by simp_all (cases "b64_decode cs"; simp)

lemma b64_read_back: "b64_decode (b64_encode bs) = Some bs"
proof (induction bs rule: b64_encode.induct)
  case (4 a b c cs)
  have "unat c mod 64 < 64" by simp
  then show ?case
    by (simp only: b64_encode.simps append.simps b64_groups byte_parts 4 option.map of_nat_unat) simp
qed (simp_all only: b64_encode.simps b64_decode.simps(1) b64_groups byte_parts of_nat_unat, simp_all)

lemma b64_length: "length (b64_encode bs) = 4 * ((length bs + 2) div 3)"
proof (induction bs rule: b64_encode.induct)
  case (4 a b c cs)
  have "length (a # b # c # cs) + 2 = (length cs + 2) + 3" by simp
  then have *: "(length (a # b # c # cs) + 2) div 3 = Suc ((length cs + 2) div 3)"
    by (metis div_add_self2 Suc_eq_plus1 zero_neq_numeral)
  have "length (b64_encode (a # b # c # cs)) = 4 + length (b64_encode cs)" by simp
  then show ?case unfolding * 4 by simp
qed simp_all

section \<open>Losing the stream withdraws the policy\<close>

text \<open>Nothing half received, no admission, and no inventory in a receiver that may be left.\<close>

definition withdrawn :: "('e, 'z) policy_scheme observer \<Rightarrow> bool" where
  "withdrawn s \<longleftrightarrow> ob_pending s = None \<and> \<not> activated (ob_env s) \<and>
     (case ob_receiver s of None \<Rightarrow> True | Some r \<Rightarrow> \<not> rc_ready r \<and> rc_sessions r = [])"

lemma wp_gets_state: "wp (gets f) (\<lambda>_. Q) E = Q"
  by (rule ext) (simp add: wp_gets)

lemma withdraw_policy_wp: "wp (withdraw_policy P) (\<lambda>_ s'. \<not> activated s') (\<lambda>_ s'. \<not> activated s') s"
proof -
  have "wp (thn (upd (\<lambda>s. s\<lparr>activated := False\<rparr>))
      (bnd (gets (\<lambda>s. p_phase (pol_state s) \<noteq> ''blocked'' \<or> p_attachment (pol_state s) \<noteq> PNone \<or> sessions s \<noteq> [] \<or> recovery_required s))
        (\<lambda>dirty. whn dirty (drain_all P)))) (\<lambda>_ s'. \<not> activated s') (\<lambda>_ s'. \<not> activated s') s'" for s'
    by (rule wp_mono [OF reconcile_tail]) auto
  then have "wp (reconcile P) (\<lambda>_ s'. \<not> activated s') (\<lambda>_ s'. \<not> activated s') (s\<lparr>activated := False\<rparr>)"
    unfolding reconcile_def wp_bnd wp_gets by (simp add: wp_ret wp_bnd wp_gets wp_whn wp_thn [of _ "gets policy_status"] wp_gets_state)
  then show ?thesis
    unfolding withdraw_policy_def wp_thn wp_upd by (rule wp_mono) (simp_all add: wp_ret)
qed

lemma observe_fence_wp:
  fixes s :: "('e, 'z) policy_scheme observer"
  shows "wp (observe_fence (policy_observer P clock loads size_of) reason) (\<lambda>_. withdrawn) (\<lambda>_. withdrawn) s"
proof -
  have out: "wp (ob_io (ow_withdraw (policy_observer P clock loads size_of))) (\<lambda>_. withdrawn) (\<lambda>_. withdrawn) s'"
    if "ob_pending s' = None" "case ob_receiver s' of None \<Rightarrow> True | Some r \<Rightarrow> \<not> rc_ready r \<and> rc_sessions r = []" for s' :: "('e, 'z) policy_scheme observer"
    unfolding ob_io_def wp_zoom policy_observer_def using that
    by (simp, intro wp_mono [OF withdraw_policy_wp]) (simp_all add: withdrawn_def)
  show ?thesis
    unfolding observe_fence_def wp_thn wp_bnd wp_upd wp_gets wp_whn
    by (auto simp: on_receiver_def wp_zoom stream_fence_def wp_upd intro!: out)
qed

lemma drop_withdrawn: "pres withdrawn drop_receiver"
  unfolding drop_receiver_def by (rule pres_upd) (simp add: withdrawn_def)

lemma fence_drop_wp:
  "wp (thn (observe_fence (policy_observer P clock loads size_of) reason) drop_receiver) (\<lambda>_. withdrawn) (\<lambda>_. withdrawn) s"
  by (rule wp_thnI [OF observe_fence_wp]) (auto intro: wp_pres [OF drop_withdrawn])

lemma fence_raise_wp:
  "wp (thn (observe_fence (policy_observer P clock loads size_of) reason) (thn drop_receiver (raise e))) (\<lambda>_ _. False) (\<lambda>_. withdrawn) s"
  by (rule wp_thnI [OF observe_fence_wp], rule wp_thnI [OF wp_pres [OF drop_withdrawn]]) (auto simp: wp_raise)

text \<open>The fences of the timer; what the clock returns is any time.\<close>

definition clock_returns :: "('e, 'a) py \<Rightarrow> bool" where
  "clock_returns clock \<longleftrightarrow> (\<forall>e. \<exists>q. fst (clock e) = Inr q)"

text \<open>A timer pass leaves the same relay synchronized, or everything withdrawn.\<close>

definition ticked :: "string \<Rightarrow> ('e, 'z) policy_scheme observer \<Rightarrow> bool" where
  "ticked nonce s \<longleftrightarrow> (case ob_receiver s of None \<Rightarrow> withdrawn s | Some r \<Rightarrow> rc_nonce r = nonce)"

lemma clock_wp:
  assumes "clock_returns clock"
  shows "wp clock (\<lambda>_ _. True) (\<lambda>_ _. False) e"
proof -
  from assms obtain q where "fst (clock e) = Inr q" unfolding clock_returns_def by blast
  then show ?thesis by (cases "clock e") (simp add: wp_def)
qed

lemma clock_returns_io: "clock_returns clock \<Longrightarrow> clock_returns (io clock)"
  by (simp add: clock_returns_def io_def split_beta)

lemma clock_returns_receiver:
  assumes "clock_returns (ow_clock W)"
  shows "clock_returns (receiver_clock W)"
  unfolding clock_returns_def
proof
  fix e
  from assms obtain q where "fst (ow_clock W e) = Inr q" unfolding clock_returns_def by blast
  then show "\<exists>q. fst (receiver_clock W e) = Inr q"
    by (cases "ow_clock W e") (simp add: receiver_clock_def bnd_def ret_def)
qed

lemma stream_tick_wp:
  assumes "clock_returns clock"
  shows "wp (stream_tick clock) (\<lambda>_ s'. rc_nonce s' = rc_nonce s) (\<lambda>e _. \<exists>t. e = TimeoutError t) s"
proof -
  have "wp (zoom rc_env (\<lambda>e s. s\<lparr>rc_env := e\<rparr>) clock) (\<lambda>_ s'. rc_nonce s' = rc_nonce s) (\<lambda>e _. \<exists>t. e = TimeoutError t) s"
    unfolding wp_zoom by (rule wp_mono [OF clock_wp [OF assms]]) simp_all
  then show ?thesis
    unfolding stream_tick_def
    by (rule wp_bndI) (auto intro!: wp_getsI simp: stream_fence_def wp_simps split: option.split)
qed

lemma relay_tick_wp:
  fixes s :: "('e, 'z) policy_scheme observer"
  assumes clock: "clock_returns clock" and r: "ob_receiver s = Some r"
  shows "wp (relay_tick (policy_observer P clock loads size_of)) (\<lambda>_. ticked (rc_nonce r)) (\<lambda>_. withdrawn) s"
proof -
  let ?W = "policy_observer P clock loads size_of"
  let ?Q = "\<lambda>s' :: ('e, 'z) policy_scheme observer. \<exists>r'. ob_receiver s' = Some r' \<and> rc_nonce r' = rc_nonce r"
  have returns: "clock_returns (ow_clock ?W)" using clock_returns_io [OF clock] by (simp add: policy_observer_def)
  have tick: "wp (on_receiver (stream_tick (receiver_clock ?W))) (\<lambda>_. ?Q) (\<lambda>e _. \<exists>t. e = TimeoutError t) s"
    unfolding on_receiver_def wp_zoom
    by (rule wp_mono [OF stream_tick_wp [OF clock_returns_receiver [OF returns]]]) (use r in auto)
  have age: "wp (ob_io (ow_clock ?W)) (\<lambda>_. ?Q) (\<lambda>e _. \<exists>t. e = TimeoutError t) s'" if "?Q s'" for s'
    unfolding ob_io_def wp_zoom by (rule wp_mono [OF clock_wp [OF returns]]) (use that in auto)
  have body: "wp (thn (on_receiver (stream_tick (receiver_clock ?W))) (bnd (gets ob_pending) (\<lambda>pending.
      case pending of None \<Rightarrow> ret ()
      | Some p \<Rightarrow> bnd (ob_io (ow_clock ?W)) (\<lambda>now. ensure (\<not> 5 \<le> now - pf_started p) (TimeoutError ''observation frame assembly expired'')))))
      (\<lambda>_. ?Q) (\<lambda>e _. \<exists>t. e = TimeoutError t) s"
    by (rule wp_thnI [OF tick]) (auto simp: wp_ret wp_ensure split: option.split intro!: wp_getsI wp_bndI [OF age])
  have "wp (catch_timeout (thn (on_receiver (stream_tick (receiver_clock ?W))) (bnd (gets ob_pending) (\<lambda>pending.
      case pending of None \<Rightarrow> ret ()
      | Some p \<Rightarrow> bnd (ob_io (ow_clock ?W)) (\<lambda>now. ensure (\<not> 5 \<le> now - pf_started p) (TimeoutError ''observation frame assembly expired'')))))
      (\<lambda>t. thn (observe_fence ?W t) drop_receiver)) (\<lambda>_. ticked (rc_nonce r)) (\<lambda>_. withdrawn) s"
    unfolding catch_timeout_def
  proof (rule wp_catch_allI [OF body])
    fix e and s' :: "('e, 'z) policy_scheme observer" assume "\<exists>t. e = TimeoutError t"
    then obtain t where e: "e = TimeoutError t" ..
    have "wp (thn (observe_fence ?W t) drop_receiver) (\<lambda>_ s'. withdrawn s' \<and> ob_receiver s' = None) (\<lambda>_. withdrawn) s'"
      by (rule wp_thnI [OF observe_fence_wp]) (auto simp: drop_receiver_def wp_upd withdrawn_def)
    then show "wp (case e of TimeoutError t \<Rightarrow> thn (observe_fence ?W t) drop_receiver | _ \<Rightarrow> raise e) (\<lambda>_. ticked (rc_nonce r)) (\<lambda>_. withdrawn) s'"
      unfolding e by simp (erule wp_mono; simp add: ticked_def)
  qed (auto simp: ticked_def)
  then show ?thesis
    unfolding relay_tick_def by (intro wp_getsI) (simp add: r whn_def)
qed

lemma take_chunk_wp:
  fixes s :: "('e, 'z) policy_scheme observer"
  assumes clock: "clock_returns clock" and r: "ob_receiver s = Some r" and payload: "is_dict payload" "py_get payload ''nonce'' = PStr (rc_nonce r)"
  shows "wp (take_chunk (policy_observer P clock loads size_of) payload) (\<lambda>_ _. True) (\<lambda>e s'. is_exception e \<longrightarrow> withdrawn s') s"
proof -
  let ?W = "policy_observer P clock loads size_of"
  let ?E = "\<lambda>e (s' :: ('e, 'z) policy_scheme observer). is_exception e \<longrightarrow> withdrawn s'"
  have "has_key payload ''nonce''"
    using payload by (cases "map_of (the_dict payload) ''nonce''") (simp_all add: py_get_def has_key_def, force dest: map_of_SomeD)
  then have nonce: "get_or payload ''nonce'' PNone = Inr (PStr (rc_nonce r))" using payload by (simp add: get_or_def)
  have body: "wp (catch_exn (take_fragment ?W payload) (\<lambda>e. thn (observe_fence ?W (exn_text e)) (thn drop_receiver (raise e)))) (\<lambda>_ _. True) ?E s'" for s'
  proof -
    have "wp (take_fragment ?W payload) (\<lambda>_ _. True) (\<lambda>e s'. if is_exception e then wp (thn (observe_fence ?W (exn_text e)) (thn drop_receiver (raise e))) (\<lambda>_ _. True) ?E s' else ?E e s') s'"
      by (rule wp_mono [OF wp_True]) (auto intro: wp_mono [OF fence_raise_wp])
    then show ?thesis unfolding wp_catch_exn .
  qed
  show ?thesis
    unfolding take_chunk_def
  proof (rule wp_thnI [OF relay_tick_wp [OF clock r]])
    fix u and s' :: "('e, 'z) policy_scheme observer" assume ticked: "ticked (rc_nonce r) s'"
    show "wp (bnd (gets (\<lambda>s. ob_receiver s \<noteq> None)) (\<lambda>synced. thn (ensure synced (ValueError ''observation relay is not synchronized; start a new snapshot''))
       (bnd (lift_res (get_or payload ''nonce'' PNone)) (\<lambda>nonce. bnd (gets (\<lambda>s. nonce = receiver_nonce s)) (\<lambda>same.
         thn (ensure same (ValueError ''observation relay is not synchronized; start a new snapshot''))
         (catch_exn (take_fragment ?W payload) (\<lambda>e. thn (observe_fence ?W (exn_text e)) (thn drop_receiver (raise e))))))))) (\<lambda>_ _. True) ?E s'"
      using ticked by (intro wp_steps) (auto simp: nonce ticked_def receiver_nonce_def split: option.splits intro: body)
  qed auto
qed

text \<open>
  C27.  Whatever goes wrong with a fragment of the synchronized relay (the timer, its fields, its
  encoding, its place, the frame's digest, its message, the inventory's size), the error leaves policy
  admission withdrawn, no partial frame, and no receiver or one that is not ready and holds no rows.
\<close>

theorem lost_stream_withdraws:
  assumes "clock_returns clock" and "ob_receiver s = Some r" and "is_dict payload" "py_get payload ''nonce'' = PStr (rc_nonce r)"
    and "take_chunk (policy_observer P clock loads size_of) payload s = (Inl e, s')" and "is_exception e"
  shows "\<not> activated (ob_env s') \<and> ob_pending s' = None \<and> (\<forall>t. \<not> (ob_receiver s' = Some t \<and> (rc_ready t \<or> rc_sessions t \<noteq> [])))"
  using wp_raises [OF take_chunk_wp [OF assms(1-4)] assms(5)] assms(6) by (auto simp: withdrawn_def split: option.splits)


section \<open>A frame arrives whole\<close>

text \<open>
  A reading of the clock within the receiver's timeout; the clock read a number of times; and the
  observer once the clock has been read, whose receiver's copy of the environment is never read.
\<close>

definition in_time :: "rat \<Rightarrow> 'e receiver \<Rightarrow> bool" where
  "in_time q r \<longleftrightarrow> 0 \<le> q \<and> (case rc_last r of None \<Rightarrow> True | Some l \<Rightarrow> l \<le> q \<and> q - l < rc_timeout r)"

definition readings :: "'e observe_world \<Rightarrow> nat \<Rightarrow> ('e, rat list) py" where
  "readings W n = collect (replicate n ()) (\<lambda>_. ow_clock W)"

definition seen_at :: "'e observer \<Rightarrow> 'e receiver \<Rightarrow> 'e \<Rightarrow> 'e \<Rightarrow> partial_frame option \<Rightarrow> 'e observer" where
  "seen_at s r x e p = s\<lparr>ob_receiver := Some (r\<lparr>rc_env := x\<rparr>), ob_env := e, ob_pending := p\<rparr>"

lemma readings_twice:
  assumes "readings W (Suc (Suc n)) e = (Inr qs, e')"
  obtains q e1 q' e2 rest where "ow_clock W e = (Inr q, e1)" "ow_clock W e1 = (Inr q', e2)" "readings W n e2 = (Inr rest, e')" "qs = q # q' # rest"
  using assms by (auto simp: readings_def runs)

lemma timely_tick:
  assumes "ow_clock W (ob_env s) = (Inr q, e1)" "in_time q r" "ob_receiver s = Some (r\<lparr>rc_env := x\<rparr>)"
  shows "ob_pending s = None \<Longrightarrow> relay_tick W s = (Inr (), s\<lparr>ob_env := e1, ob_receiver := Some (r\<lparr>rc_env := e1\<rparr>)\<rparr>)"
    and "ob_pending s = Some p \<Longrightarrow> ow_clock W e1 = (Inr q', e2) \<Longrightarrow> q' < pf_started p + 5 \<Longrightarrow>
      relay_tick W s = (Inr (), s\<lparr>ob_env := e2, ob_receiver := Some (r\<lparr>rc_env := e1\<rparr>)\<rparr>)"
proof -
  let ?r = "r\<lparr>rc_env := ob_env s\<rparr>"
  have tick: "stream_tick (receiver_clock W) ?r = (Inr q, r\<lparr>rc_env := e1\<rparr>)"
    using assms(1,2) by (auto simp: stream_tick_def receiver_clock_def bnd_def ret_def zoom_def gets_def in_time_def finite_num_def split: option.splits)
  note run = relay_tick_def catch_timeout_def catch_all_def on_receiver_def ob_io_def zoom_def bnd_def thn_def gets_def ret_def ensure_def whn_def
  show "ob_pending s = None \<Longrightarrow> relay_tick W s = (Inr (), s\<lparr>ob_env := e1, ob_receiver := Some (r\<lparr>rc_env := e1\<rparr>)\<rparr>)"
    using tick by (simp add: run assms(3))
  show "ob_pending s = Some p \<Longrightarrow> ow_clock W e1 = (Inr q', e2) \<Longrightarrow> q' < pf_started p + 5 \<Longrightarrow>
      relay_tick W s = (Inr (), s\<lparr>ob_env := e2, ob_receiver := Some (r\<lparr>rc_env := e1\<rparr>)\<rparr>)"
    using tick by (simp add: run assms(3))
qed

definition part_of :: "bytes \<Rightarrow> nat \<Rightarrow> bytes" where
  "part_of raw offset = take chunk_size (drop offset raw)"

definition frame_at :: "pyval \<Rightarrow> rat \<Rightarrow> bytes \<Rightarrow> nat \<Rightarrow> partial_frame" where
  "frame_at transfer t raw n = \<lparr>pf_transfer = transfer, pf_total = int (length raw), pf_digest = PStr (to_hex (sha256 raw)), pf_started = t, pf_data = take n raw\<rparr>"

lemma fragment_checks:
  assumes "is_uuid transfer" "offset < length raw" "length raw \<le> max_frame"
  shows "check_fragment (without_owner (fragment_of c transfer raw offset)) = Inr (int offset, int (length raw), part_of raw offset)"
proof -
  have part: "part_of raw offset \<noteq> []" "length (part_of raw offset) \<le> chunk_size" "offset + length (part_of raw offset) \<le> length raw"
    using assms(2) by (auto simp: part_of_def chunk_size_def)
  then have "(length (part_of raw offset) + 2) div 3 \<le> (chunk_size + 2) div 3" by (intro div_le_mono) simp
  then have len: "length (b64_encode (part_of raw offset)) \<le> 4 * ((chunk_size + 2) div 3)" by (simp add: b64_length)
  have sha: "is_sha (PStr (to_hex (sha256 raw)))" by (simp add: is_sha_def sha_text_to_hex length_sha256)
  have fields: "without_owner (fragment_of c transfer raw offset) = PDict [(''nonce'', oc_nonce c), (''transfer'', transfer), (''offset'', PInt (int offset)),
     (''total'', PInt (int (length raw))), (''digest'', PStr (to_hex (sha256 raw))), (''data'', PStr (b64_encode (part_of raw offset)))]"
    by (simp add: without_owner_def fragment_of_def part_of_def)
  show ?thesis
    unfolding fields check_fragment_def
    using part len sha assms by (simp add: keys_are_def fragment_fields_def canonical_uuid_def sha_identity_def py_get_def b64_read_back)
qed

lemma part_joins: "take offset raw @ part_of raw offset = take (offset + chunk_size) raw"
  by (simp add: part_of_def take_add)

lemma fragment_taken:
  assumes "is_uuid transfer" "offset < length raw" "length raw \<le> max_frame"
    and "if offset = 0 then ob_pending s = None \<and> ow_clock W (ob_env s) = (Inr t, e) else ob_pending s = Some (frame_at transfer t raw offset) \<and> e = ob_env s"
  shows "take_fragment W (without_owner (fragment_of c transfer raw offset)) s =
    (if offset + chunk_size < length raw
     then (Inr (PDict (fragment_result transfer (offset + chunk_size) False)), s\<lparr>ob_env := e, ob_pending := Some (frame_at transfer t raw (offset + chunk_size))\<rparr>)
     else bnd (deliver_frame W (PStr (to_hex (sha256 raw))) raw) (\<lambda>ack. ret (PDict (fragment_result transfer (length raw) True @ [(''ack'', ack)]))) (s\<lparr>ob_env := e, ob_pending := None\<rparr>))"
proof -
  let ?p = "without_owner (fragment_of c transfer raw offset)"
  have get: "py_get (without_owner (fragment_of c transfer raw k)) ''transfer'' = transfer"
      "py_get (without_owner (fragment_of c transfer raw k)) ''digest'' = PStr (to_hex (sha256 raw))" for k
    by (simp_all add: py_get_def without_owner_def fragment_of_def)
  have opened: "open_frame W ?p (int offset) (int (length raw)) s =
      (Inr (frame_at transfer t raw offset), s\<lparr>ob_env := e, ob_pending := Some (frame_at transfer t raw offset)\<rparr>)"
    using assms(4)
    by (auto simp: open_frame_def bnd_def thn_def gets_def ret_def ensure_def upd_def ob_io_def zoom_def get frame_at_def Let_def split: if_splits)
  have joined: "(frame_at transfer t raw offset)\<lparr>pf_data := take offset raw @ part_of raw offset\<rparr> = frame_at transfer t raw (offset + chunk_size)"
    by (simp add: frame_at_def part_joins)
  have ends: "(int offset + int (length (part_of raw offset)) = int (length raw)) = (\<not> offset + chunk_size < length raw)"
    using assms(2) by (auto simp: part_of_def min_def)
  show ?thesis
    using assms(2) unfolding take_fragment_def fragment_checks [OF assms(1-3)]
    by (simp add: bnd_def [of "lift_res _"] bnd_def [of "open_frame _ _ _ _"] lift_res_def opened thn_def bnd_def ensure_def upd_def ret_def Let_def get joined frame_at_def part_joins ends)
qed

text \<open>A fragment takes two readings: the receiver's, and the frame's start or its age.\<close>

lemma fragment_accepted:
  fixes W :: "'e observe_world"
  assumes "is_uuid transfer" "offset < length raw" "length raw \<le> max_frame"
    and client: "oc_nonce c = PStr (rc_nonce r)" "oc_owner c = PStr owner" "owner \<noteq> []"
    and clock: "ow_clock W (ob_env s) = (Inr q, e1)" "ow_clock W e1 = (Inr q', e2)" "in_time q r"
    and started: "if offset = 0 then t = q' else q' < t + 5"
    and s: "ob_receiver s = Some (r\<lparr>rc_env := x\<rparr>)" "ob_pending s = (if offset = 0 then None else Some (frame_at transfer t raw offset))"
  defines "result \<equiv> control_request W (oc_owner c) ''observe-chunk'' (fragment_of c transfer raw offset) s"
  shows "offset + chunk_size < length raw \<Longrightarrow>
      result = (Inr (PDict (fragment_result transfer (offset + chunk_size) False @ [(''control_owner'', oc_owner c)])),
        seen_at s r e1 e2 (Some (frame_at transfer t raw (offset + chunk_size))))"
    and "\<not> offset + chunk_size < length raw \<Longrightarrow> deliver_frame W (PStr (to_hex (sha256 raw))) raw (seen_at s r e1 e2 None) = (Inr ack, s') \<Longrightarrow>
      result = (Inr (PDict (fragment_result transfer (length raw) True @ [(''ack'', ack), (''control_owner'', oc_owner c)])), s')"
proof -
  let ?p = "without_owner (fragment_of c transfer raw offset)"
  let ?s = "s\<lparr>ob_env := if offset = 0 then e1 else e2, ob_receiver := Some (r\<lparr>rc_env := e1\<rparr>)\<rparr>"
  have tick: "relay_tick W s = (Inr (), ?s)"
    using timely_tick [OF clock(1,3) s(1)] s(2) started clock(2) by (simp add: frame_at_def split: if_splits)
  have nonce: "get_or ?p ''nonce'' PNone = Inr (PStr (rc_nonce r))"
    by (simp add: get_or_def has_key_def py_get_def without_owner_def fragment_of_def client)
  have "if offset = 0 then ob_pending ?s = None \<and> ow_clock W (ob_env ?s) = (Inr t, e2) else ob_pending ?s = Some (frame_at transfer t raw offset) \<and> e2 = ob_env ?s"
    using s(2) clock(2) started by simp
  note taken = fragment_taken [OF assms(1-3) this, of c]
  have chunk: "take_chunk W ?p s = catch_exn (take_fragment W ?p) (\<lambda>e. thn (observe_fence W (exn_text e)) (thn drop_receiver (raise e))) ?s"
    by (simp add: take_chunk_def tick thn_def bnd_def gets_def ensure_def lift_res_def nonce receiver_nonce_def ret_def)
  have fields: "is_dict (fragment_of c transfer raw offset)" "py_get (fragment_of c transfer raw offset) ''control_owner'' = PStr owner"
    by (simp_all add: fragment_of_def py_get_def client)
  have req: "result = bnd (take_chunk W ?p) (\<lambda>v. ret (PDict (dict_set ''control_owner'' (oc_owner c) (the_dict v)))) s"
    unfolding result_def control_request_def observe_execute_def using client
    by (simp add: fields bnd_def thn_def ensure_def ret_def Let_def)
  show "offset + chunk_size < length raw \<Longrightarrow>
      result = (Inr (PDict (fragment_result transfer (offset + chunk_size) False @ [(''control_owner'', oc_owner c)])),
        seen_at s r e1 e2 (Some (frame_at transfer t raw (offset + chunk_size))))"
    unfolding req by (simp add: bnd_def [of "take_chunk _ _"] chunk catch_exn_def taken ret_def fragment_result_def seen_at_def)
  show "\<not> offset + chunk_size < length raw \<Longrightarrow> deliver_frame W (PStr (to_hex (sha256 raw))) raw (seen_at s r e1 e2 None) = (Inr ack, s') \<Longrightarrow>
      result = (Inr (PDict (fragment_result transfer (length raw) True @ [(''ack'', ack), (''control_owner'', oc_owner c)])), s')"
    unfolding req by (simp add: bnd_def [of "take_chunk _ _"] chunk catch_exn_def taken ret_def fragment_result_def seen_at_def bnd_def)
qed

lemma answer_checks:
  assumes "oc_owner c = PStr owner" "is_uuid transfer" "offset < length raw"
  shows "offset + chunk_size < length raw \<Longrightarrow>
      check_answer c transfer raw offset (PDict (fragment_result transfer (offset + chunk_size) False @ [(''control_owner'', oc_owner c)])) = Inr ()"
    and "\<not> offset + chunk_size < length raw \<Longrightarrow>
      check_answer c transfer raw offset (PDict (fragment_result transfer (length raw) True @ [(''ack'', ack), (''control_owner'', oc_owner c)])) = Inr ()"
proof -
  obtain u where u: "transfer = PStr u" using assms(2) by (cases transfer) (auto simp: is_uuid_def)
  show "offset + chunk_size < length raw \<Longrightarrow>
      check_answer c transfer raw offset (PDict (fragment_result transfer (offset + chunk_size) False @ [(''control_owner'', oc_owner c)])) = Inr ()"
    by (simp add: check_answer_def get_or_def has_key_def py_get_def fragment_result_def assms(1) u Let_def)
  show "\<not> offset + chunk_size < length raw \<Longrightarrow>
      check_answer c transfer raw offset (PDict (fragment_result transfer (length raw) True @ [(''ack'', ack), (''control_owner'', oc_owner c)])) = Inr ()"
    using assms(3) by (simp add: check_answer_def get_or_def has_key_def py_get_def fragment_result_def assms(1) u Let_def min_def)
qed

lemma offsets_below: "k < (n + chunk_size - 1) div chunk_size \<longleftrightarrow> k * chunk_size < n"
proof -
  have "0 < chunk_size" by (simp add: chunk_size_def)
  then have "k < (n + chunk_size - 1) div chunk_size \<longleftrightarrow> Suc k * chunk_size \<le> n + chunk_size - 1"
    by (simp only: less_eq_Suc_le less_eq_div_iff_mult_less_eq)
  also have "\<dots> \<longleftrightarrow> k * chunk_size < n" using \<open>0 < chunk_size\<close> by auto
  finally show ?thesis .
qed

lemma seen_at_again [simp]: "seen_at (seen_at s r x e p) r y e' q = seen_at s r y e' q"
  by (simp add: seen_at_def)

lemma fragments_sent:
  fixes W :: "'e observe_world"
  assumes world: "is_uuid transfer" "length raw \<le> max_frame"
    and client: "oc_nonce c = PStr (rc_nonce r)" "oc_owner c = PStr owner" "owner \<noteq> []"
    and delivered: "\<And>x. deliver_frame W (PStr (to_hex (sha256 raw))) raw (seen_at s r x e' None) = (Inr ack, s')"
    and k: "k < n" "n = (length raw + chunk_size - 1) div chunk_size"
    and clock: "readings W (2 * (n - k)) (ob_env s) = (Inr qs, e')" "\<forall>q\<in>set qs. in_time q r \<and> t \<le> q \<and> q < t + 5"
    and s: "ob_receiver s = Some (r\<lparr>rc_env := x\<rparr>)" "if k = 0 then ob_pending s = None else \<exists>u\<ge>t. ob_pending s = Some (frame_at transfer u raw (k * chunk_size))"
  shows "\<exists>answer. send_fragments (control_request W (oc_owner c)) c transfer raw (map (\<lambda>i. i * chunk_size) [k..<n]) res s = (Inr answer, s') \<and> py_item answer ''ack'' = Inr ack"
  using k clock s delivered
proof (induction "n - k" arbitrary: k s x qs res)
  case (Suc m)
  have offset: "k * chunk_size < length raw" using Suc.prems(1,2) offsets_below by blast
  have zero: "(k * chunk_size = 0) = (k = 0)" by (simp add: chunk_size_def)
  have "2 * (n - k) = Suc (Suc (2 * m))" "n - Suc k = m" using Suc.hyps(2) by simp_all
  with Suc.prems(3) obtain q e1 q' e2 rest where read: "ow_clock W (ob_env s) = (Inr q, e1)" "ow_clock W e1 = (Inr q', e2)"
    and more: "readings W (2 * m) e2 = (Inr rest, e')" and qs: "qs = q # q' # rest" by (metis readings_twice)
  have times: "in_time q r" "t \<le> q'" "q' < t + 5" "\<forall>q\<in>set rest. in_time q r \<and> t \<le> q \<and> q < t + 5" using Suc.prems(4) by (simp_all add: qs)
  obtain u where u: "t \<le> u" "ob_pending s = (if k = 0 then None else Some (frame_at transfer u raw (k * chunk_size)))" "if k = 0 then u = q' else q' < u + 5"
    using Suc.prems(6) times(2,3) by (cases "k = 0") auto
  note step = fragment_accepted [OF world(1) offset world(2) client read times(1), unfolded zero, OF u(3) Suc.prems(5) u(2)]
  note checks = answer_checks [OF client(2) world(1) offset]
  have split: "[k..<n] = k # [Suc k..<n]" using Suc.prems(1) by (simp add: upt_conv_Cons)
  show ?case
  proof (cases "k * chunk_size + chunk_size < length raw")
    case True
    then have next_k: "Suc k < n" using offsets_below [of "Suc k" "length raw"] Suc.prems(2) by (simp add: ac_simps)
    let ?s = "seen_at s r e1 e2 (Some (frame_at transfer u raw (k * chunk_size + chunk_size)))"
    let ?answer = "PDict (fragment_result transfer (k * chunk_size + chunk_size) False @ [(''control_owner'', oc_owner c)])"
    have at: "ob_receiver ?s = Some (r\<lparr>rc_env := e1\<rparr>)" "if Suc k = 0 then ob_pending ?s = None else \<exists>u\<ge>t. ob_pending ?s = Some (frame_at transfer u raw (Suc k * chunk_size))"
      using u(1) by (auto simp: seen_at_def ac_simps)
    have clock: "readings W (2 * (n - Suc k)) (ob_env ?s) = (Inr rest, e')" using more Suc.hyps(2) by (simp add: seen_at_def \<open>n - Suc k = m\<close>)
    have whole: "deliver_frame W (PStr (to_hex (sha256 raw))) raw (seen_at ?s r x e' None) = (Inr ack, s')" for x using Suc.prems(7) by simp
    have "m = n - Suc k" using Suc.hyps(2) by simp
    from Suc.hyps(1) [OF this next_k Suc.prems(2) clock times(4) at whole, of ?answer] obtain answer where
      "send_fragments (control_request W (oc_owner c)) c transfer raw (map (\<lambda>i. i * chunk_size) [Suc k..<n]) ?answer ?s = (Inr answer, s')" "py_item answer ''ack'' = Inr ack"
      by blast
    then show ?thesis
      unfolding split by (simp add: bnd_def thn_def lift_res_def step(1) [OF True] checks(1) [OF True])
  next
    case False
    then have last: "\<not> Suc k < n" using offsets_below [of "Suc k" "length raw"] Suc.prems(2) by (simp add: ac_simps)
    then have nil: "map (\<lambda>i. i * chunk_size) [Suc k..<n] = []" by simp
    have "m = 0" using last Suc.hyps(2) by simp
    then have "e2 = e'" using more by (simp add: readings_def ret_def)
    note whole = Suc.prems(7) [of e1, folded \<open>e2 = e'\<close>]
    have item: "py_item (PDict (fragment_result transfer (length raw) True @ [(''ack'', ack), (''control_owner'', oc_owner c)])) ''ack'' = Inr ack"
      by (simp add: py_item_def fragment_result_def)
    show ?thesis
      unfolding split list.map nil send_fragments.simps
      by (simp add: bnd_def thn_def lift_res_def ret_def step(2) [OF False whole] checks(2) [OF False] item)
  qed
qed simp

lemma on_receiver_copy:
  assumes "ob_receiver s = Some r"
  shows "on_receiver m (s\<lparr>ob_receiver := Some (r\<lparr>rc_env := x\<rparr>)\<rparr>) = on_receiver m s"
  by (simp add: on_receiver_def zoom_def assms)

lemma take_message_copy:
  assumes "ob_receiver s = Some r" "ob_pending s = None"
  shows "take_message W m (seen_at s r x e None) = take_message W m (s\<lparr>ob_env := e\<rparr>)"
proof -
  let ?t = "s\<lparr>ob_env := e\<rparr>"
  have s: "seen_at s r x e None = ?t\<lparr>ob_receiver := Some (r\<lparr>rc_env := x\<rparr>)\<rparr>" using assms(2) by (cases s) (simp add: seen_at_def)
  have t: "ob_receiver ?t = Some r" using assms(1) by simp
  let ?u = "\<lambda>s reason. s\<lparr>ob_pending := None, ob_sizes := [], ob_reason := Some (take 256 reason)\<rparr>"
  have "on_receiver k (?u (?t\<lparr>ob_receiver := Some (r\<lparr>rc_env := x\<rparr>)\<rparr>) reason) = on_receiver k (?u ?t reason)" for k :: "('a receiver, unit) py" and reason
    by (simp add: on_receiver_def zoom_def assms(1))
  then have fence: "observe_fence W reason (?t\<lparr>ob_receiver := Some (r\<lparr>rc_env := x\<rparr>)\<rparr>) = observe_fence W reason ?t" for reason
    by (simp add: observe_fence_def thn_def bnd_def upd_def gets_def whn_def assms(1))
  show ?thesis
    unfolding s take_message_def
    by (simp add: thn_def bnd_def whn_def fence ret_def on_receiver_copy [OF t])
qed

text \<open>
  C28.  A message the client sends reaches the receiver exactly as if it were handed over whole: cut
  into fragments, encoded, passed through the control service one request at a time and put together
  again, it is accepted once, and the client returns the receiver's acknowledgement.  The clock is
  read twice for each fragment and may move: its readings must lie within the receiver's timeout and
  within the five seconds a frame may take.  The parser must read back what the printer wrote.
\<close>

theorem message_arrives:
  assumes "readings W (2 * ((length raw + chunk_size - 1) div chunk_size)) (ob_env s) = (Inr qs, e')"
    and "\<forall>q\<in>set qs. in_time q r \<and> t \<le> q \<and> q < t + 5"
    and "ob_receiver s = Some r" "ob_pending s = None"
    and "oc_nonce c = PStr (rc_nonce r)" "oc_owner c = PStr owner" "owner \<noteq> []" "is_uuid transfer"
    and "dumps m = Inr raw" "raw \<noteq> []" "length raw \<le> max_frame" "ow_loads W raw = Inr m"
    and "is_dict m" "\<not> has_key m ''configuration''" and "take_message W m (s\<lparr>ob_env := e'\<rparr>) = (Inr ack, s')"
  shows "client_send (control_request W (oc_owner c)) dumps c transfer m s = (Inr ack, s')"
proof -
  let ?n = "(length raw + chunk_size - 1) div chunk_size"
  have whole: "deliver_frame W (PStr (to_hex (sha256 raw))) raw (seen_at s r x e' None) = (Inr ack, s')" for x
    by (simp add: deliver_frame_def thn_def bnd_def ensure_def lift_res_def ret_def assms take_message_copy)
  have "0 < ?n" using offsets_below [of 0 "length raw"] assms(10) by simp
  then obtain answer where
    "send_fragments (control_request W (oc_owner c)) c transfer raw (map (\<lambda>i. i * chunk_size) [0..<?n]) PNone s = (Inr answer, s')" "py_item answer ''ack'' = Inr ack"
    using fragments_sent [OF assms(8,11,5-7) whole, where k = 0 and n = ?n and x = "rc_env r" and qs = qs and t = t and res = PNone] assms(1-4) by auto
  then show ?thesis
    by (simp add: client_send_def fragment_offsets_def bnd_def thn_def lift_res_def ensure_def ret_def assms(9-11))
qed

section \<open>Concrete relays\<close>

definition fresh_relay :: "'e \<Rightarrow> 'e observer" where
  "fresh_relay e = (observer_init e)\<lparr>ob_receiver := Some \<lparr>rc_env = e, rc_nonce = sample_uuid, rc_timeout = 10, rc_backlog = stream_backlog,
     rc_producer = PNone, rc_policy = PNone, rc_limits = PNone, rc_sequence = 0, rc_sessions = [], rc_since = [], rc_candidates = 0,
     rc_l3_candidates = 0, rc_changes = 0, rc_ready = False, rc_last = None, rc_reason = Some ''awaiting snapshot'', rc_messages = 0,
     rc_origin = 0, rc_remote_origin = 0, rc_remote_last = 0\<rparr>\<rparr>"

definition sample_gone :: pyval where
  "sample_gone = PDict [(''schema'', PInt 1), (''nonce'', PStr sample_uuid), (''unavailable'', PStr ''collector stopped'')]"

text \<open>A clock that moves by a second at each reading.\<close>

definition sample_relay :: "rat observe_world" where
  "sample_relay = \<lparr>ow_clock = thn (upd (\<lambda>q. q + 1)) (gets id), ow_withdraw = ret (), ow_expected = None, ow_loads = (\<lambda>_. Inr sample_gone), ow_size = (\<lambda>_. Inr 0)\<rparr>"

definition sample_client :: client where
  "sample_client = \<lparr>oc_nonce = PStr sample_uuid, oc_owner = PStr sample_uuid\<rparr>"

definition sample_ack :: pyval where
  "sample_ack = PDict [(''schema'', PInt 1), (''nonce'', PStr sample_uuid), (''producer'', PNone), (''sequence'', PInt 0), (''ready'', PBool False),
     (''sessions'', PInt 0), (''hardware_admission'', PBool False)]"

lemma sample_taken: "fst (take_message sample_relay sample_gone ((fresh_relay 5)\<lparr>ob_env := 9\<rparr>)) = Inr sample_ack"
  by code_simp

lemma sample_ids: "is_uuid (PStr sample_uuid)"
  by code_simp

lemma sample_readings: "readings sample_relay 4 5 = (Inr [6, 7, 8, 9], 9)"
  by (simp add: readings_def sample_relay_def numeral_eq_Suc bnd_def thn_def upd_def gets_def ret_def)

text \<open>Two fragments, the frame begun at the second reading and finished two seconds later.\<close>

theorem message_arrives_witness:
  "fst (client_send (control_request sample_relay (PStr sample_uuid)) (\<lambda>_. Inr (replicate 40000 0)) sample_client (PStr sample_uuid) sample_gone (fresh_relay 5)) = Inr sample_ack"
proof -
  obtain s' where taken: "take_message sample_relay sample_gone ((fresh_relay 5)\<lparr>ob_env := 9\<rparr>) = (Inr sample_ack, s')"
    using sample_taken by (metis prod.collapse)
  let ?r = "the (ob_receiver (fresh_relay (5 :: rat)))"
  have "client_send (control_request sample_relay (oc_owner sample_client)) (\<lambda>_. Inr (replicate 40000 0)) sample_client (PStr sample_uuid) sample_gone (fresh_relay 5) = (Inr sample_ack, s')"
    by (rule message_arrives [where t = 6 and r = ?r and owner = sample_uuid and raw = "replicate 40000 0" and qs = "[6, 7, 8, 9]" and e' = 9])
      (use taken sample_ids sample_readings in \<open>simp_all add: fresh_relay_def observer_init_def in_time_def sample_client_def max_frame_def chunk_size_def sample_gone_def has_key_def sample_relay_def\<close>,
       simp_all add: sample_uuid_def)
  then show ?thesis by (simp add: sample_client_def)
qed

definition active_relay :: "((bytes \<times> bytes) list policy) observer" where
  "active_relay = fresh_relay (live [])"

definition bad_fragment :: pyval where
  "bad_fragment = PDict [(''nonce'', PStr sample_uuid)]"

abbreviation active_observer :: "(bytes \<times> bytes) list policy observe_world" where
  "active_observer \<equiv> policy_observer (sample_owner True) (gets (\<lambda>_. 5)) (\<lambda>_. Inr PNone) (\<lambda>_. Inr 0)"

lemma bad_refused: "fst (take_chunk active_observer bad_fragment active_relay) = Inl (ValueError ''invalid observation fragment fields'')"
  by code_simp

theorem lost_stream_withdraws_witness:
  "activated (ob_env active_relay) \<and> \<not> activated (ob_env (snd (take_chunk active_observer bad_fragment active_relay)))"
proof -
  have m: "take_chunk active_observer bad_fragment active_relay = (Inl (ValueError ''invalid observation fragment fields''), snd (take_chunk active_observer bad_fragment active_relay))"
    using bad_refused by (metis prod.collapse)
  have "clock_returns (gets (\<lambda>_. 5) :: ((bytes \<times> bytes) list, rat) py)" by (simp add: clock_returns_def gets_def)
  moreover obtain r where "ob_receiver active_relay = Some r" "rc_nonce r = sample_uuid"
    by (simp add: active_relay_def fresh_relay_def)
  moreover have "is_dict bad_fragment" "py_get bad_fragment ''nonce'' = PStr sample_uuid" by (simp_all add: bad_fragment_def py_get_def)
  ultimately have "\<not> activated (ob_env (snd (take_chunk active_observer bad_fragment active_relay)))"
    using lost_stream_withdraws [OF _ _ _ _ m] by auto
  then show ?thesis by (simp add: active_relay_def fresh_relay_def observer_init_def live_def mgr.defs)
qed

end
