(* ===== verification/FlowNamespace.thy ===== *)
theory FlowNamespace
  imports FlowIds
begin

text \<open>
  Commissioning the flow-id namespace for the current hardware generation,
  \<open>ffn_fe100_flow_namespace.py\<close>: the range probe on the hardware and the owner-side
  journal of generations.  The subprocess, its clock and the device are parameters; log
  lines are not modelled.
\<close>

section \<open>The range probe\<close>

record probe_report =
  pr_boot :: pyval
  pr_owner :: pyval
  pr_initialized :: bool
  pr_blockers :: pyval
  pr_proved :: bool
  pr_error :: "string option"
  pr_cleanup_error :: "string option"
  pr_cleanup :: "bool option"
  pr_operations :: "(string \<times> int \<times> int) list"

text \<open>
  The probe's state: the device and the report being filled in.  \<open>pd_open\<close> is the writable
  \<open>LiveSessions\<close> handle, \<open>pd_peek\<close> the read-only status read when it refuses.
\<close>

record 'e probing =
  pg_env :: 'e
  pg_report :: probe_report

record 'e probe_device =
  pd_open :: "('e, unit) py"
  pd_peek :: "('e, pyval) py"
  pd_status :: "('e, pyval) py"
  pd_call :: "string \<Rightarrow> bytes \<Rightarrow> ('e, int \<times> bytes) py"

definition pg_io :: "('e, 'a) py \<Rightarrow> ('e probing, 'a) py" where
  "pg_io m = zoom pg_env (\<lambda>e s. s\<lparr>pg_env := e\<rparr>) m"

definition report_set :: "(probe_report \<Rightarrow> probe_report) \<Rightarrow> ('e probing, unit) py" where
  "report_set f = upd (\<lambda>s. s\<lparr>pg_report := f (pg_report s)\<rparr>)"

definition probe_key :: "bool \<Rightarrow> exn + bytes" where
  "probe_key back = (if back
     then key4 (PStr ''198.18.2.2'') (PStr ''198.18.2.1'') (PInt 40012) (PInt 40011) (PInt 17) (PInt 4094)
     else key4 (PStr ''198.18.2.1'') (PStr ''198.18.2.2'') (PInt 40011) (PInt 40012) (PInt 17) (PInt 4094))"

text \<open>The local function \<open>call(op, wire)\<close>.\<close>

definition probe_call :: "'e probe_device \<Rightarrow> string \<Rightarrow> bytes \<Rightarrow> ('e probing, int \<times> bytes) py" where
  "probe_call pd op wire = (bnd (lift_res (encode_native wire)) (\<lambda>n.
    bnd (pg_io (pd_call pd op n)) (\<lambda>(rc, native).
    thn (report_set (\<lambda>r. r\<lparr>pr_operations := pr_operations r @ [(op, flow_id_of wire, rc)]\<rparr>))
    (ret (rc, native)))))"

definition probe_insert :: "'e probe_device \<Rightarrow> bytes \<Rightarrow> ('e probing, unit) py" where
  "probe_insert pd wire = (bnd (probe_call pd ''insert'' wire) (\<lambda>(rc, x).
    thn (ensure (rc = 0) (RuntimeError (''probe insert failed: '' @ dec_int rc)))
    (bnd (probe_call pd ''fetch'' wire) (\<lambda>(rc2, native).
    thn (ensure (rc2 = 0) (RuntimeError (''probe readback mismatch: '' @ dec_int rc2)))
    (bnd (lift_res (decode_native native (take 16 wire))) (\<lambda>w.
    ensure (w = wire) (RuntimeError (''probe readback mismatch: '' @ dec_int rc2))))))))"

text \<open>
  Cleanup of one touched entry: \<open>clean\<close> stays true when the last fetch reads it absent, or
  no error hides it.
\<close>

definition probe_cleanup :: "'e probe_device \<Rightarrow> bytes \<Rightarrow> bool \<Rightarrow> ('e probing, bool) py" where
  "probe_cleanup pd wire clean = catch_exn (bnd (probe_call pd ''fetch'' wire) (\<lambda>(rc, native).
    if rc = 0 then (bnd (lift_res (decode_native native (take 16 wire))) (\<lambda>w.
         thn (probe_call pd ''delete'' w)
         (bnd (probe_call pd ''fetch'' wire) (\<lambda>(rc2, x).
         ret (clean \<and> rc2 = 3)))))
       else ret (clean \<and> rc = 3)))
     (\<lambda>e. (thn (report_set (\<lambda>r. r\<lparr>pr_cleanup_error := Some (take 300 (exn_text e))\<rparr>))
       (ret False)))"

primrec probe_cleanups :: "'e probe_device \<Rightarrow> bytes list \<Rightarrow> bool \<Rightarrow> ('e probing, bool) py" where
  "probe_cleanups pd [] clean = ret clean"
| "probe_cleanups pd (w # ws) clean = bnd (probe_cleanup pd w clean) (probe_cleanups pd ws)"

text \<open>
  The \<open>try ... finally\<close> part: the entries touched, newest first, are cleaned up whether or
  not an insertion failed.
\<close>

primrec probe_inserts :: "'e probe_device \<Rightarrow> bytes list \<Rightarrow> bytes list \<Rightarrow> ('e probing, bytes list \<times> exn option) py" where
  "probe_inserts pd touched [] = ret (touched, None)"
| "probe_inserts pd touched (w # ws) =
     bnd (catch_all (thn (probe_insert pd w) (ret None)) (\<lambda>e. ret (Some e))) (\<lambda>failed.
     case failed of None \<Rightarrow> probe_inserts pd (w # touched) ws
     | Some e \<Rightarrow> ret (w # touched, Some e))"

definition probe_absent :: "'e probe_device \<Rightarrow> bytes \<Rightarrow> ('e probing, unit) py" where
  "probe_absent pd wire = (bnd (probe_call pd ''fetch'' wire) (\<lambda>(rc, x).
    ensure (rc = 3) (RuntimeError (''probe key is not verified absent: '' @ dec_int rc))))"

definition probe_range :: "'e probe_device \<Rightarrow> bytes list \<Rightarrow> ('e probing, unit) py" where
  "probe_range pd wires = (bnd (bnd (catch_all (thn (for_each wires (probe_absent pd)) (ret None)) (\<lambda>e. ret (Some e))) (\<lambda>failed.
        case failed of None \<Rightarrow> probe_inserts pd [] wires | Some e \<Rightarrow> ret ([], Some e))) (\<lambda>(touched, failed).
    thn (case failed of None \<Rightarrow> report_set (\<lambda>r. r\<lparr>pr_proved := True\<rparr>)
      | Some e \<Rightarrow> whn (is_exception e) (report_set (\<lambda>r. r\<lparr>pr_error := Some (take 300 (exn_text e))\<rparr>)))
    (bnd (probe_cleanups pd touched True) (\<lambda>clean.
    thn (report_set (\<lambda>r. r\<lparr>pr_cleanup := Some clean\<rparr>))
    (thn (whn (\<not> clean) (report_set (\<lambda>r. r\<lparr>pr_proved := False\<rparr>)))
    ((case failed of Some e \<Rightarrow> whn (\<not> is_exception e) (raise e) | None \<Rightarrow> ret ())))))))"

definition blank_report :: probe_report where
  "blank_report = \<lparr>pr_boot = PNone, pr_owner = PNone, pr_initialized = False, pr_blockers = PList [],
     pr_proved = False, pr_error = None, pr_cleanup_error = None, pr_cleanup = None, pr_operations = []\<rparr>"

definition flow_registers :: "string list" where
  "flow_registers = [''0x40428'', ''0x40450'']"

definition probe :: "'e probe_device \<Rightarrow> int \<Rightarrow> int \<Rightarrow> ('e probing, unit) py" where
  "probe pd first final = (thn (report_set (\<lambda>_. blank_report))
    (bnd (catch_all (thn (pg_io (pd_open pd)) (ret None))
       (\<lambda>e. if is_runtime_error e then ret (Some e) else raise e)) (\<lambda>refused.
    case refused of
       Some e \<Rightarrow> (thn (report_set (\<lambda>r. r\<lparr>pr_blockers := PList [PStr (take 300 (exn_text e))]\<rparr>))
         (catch_exn (bnd (pg_io (pd_peek pd)) (\<lambda>peek.
           bnd (lift_res (get_or peek ''blockers'' PNone)) (\<lambda>b.
           report_set (\<lambda>r. r\<lparr>pr_boot := py_get peek ''cp_boot_id'', pr_owner := py_get peek ''owner_sha256'',
               pr_blockers := py_or b (pr_blockers r)\<rparr>))))
           (\<lambda>_. ret ())))
     | None \<Rightarrow> (bnd (pg_io (pd_status pd)) (\<lambda>state.
       bnd (lift_res (get_or state ''blockers'' (PList []))) (\<lambda>blockers.
       thn (report_set (\<lambda>r. r\<lparr>pr_boot := py_get state ''cp_boot_id'', pr_owner := py_get state ''owner_sha256'',
           pr_initialized := (py_get state ''initialized'' = PBool True), pr_blockers := blockers\<rparr>))
       (whn (py_get state ''initialized'' = PBool True) (bnd (lift_res (py_item state ''registers'')) (\<lambda>registers.
           bnd (lift_res (any_of flow_registers (\<lambda>r. rbnd (get_or registers r PNone) (\<lambda>v. Inr (truthy v))))) (\<lambda>used.
           if used
           then report_set (\<lambda>r. r\<lparr>pr_blockers :=
                  PList [PStr ''hardware flow tables are not empty; the range proof needs empty tables'']\<rparr>)
           else (bnd (lift_res (probe_key False)) (\<lambda>k0.
             bnd (lift_res (entry4 k0 first)) (\<lambda>w0.
             bnd (lift_res (probe_key True)) (\<lambda>k1.
             bnd (lift_res (entry4 k1 final)) (\<lambda>w1.
             probe_range pd [w0, w1])))))))))))))))"

section \<open>The owner's generations\<close>

record generation =
  g_boot :: string
  g_owner :: string
  g_domain :: string
  g_first :: int
  g_last :: int
  g_proved :: rat

record archived =
  a_generation :: generation
  a_next :: "pyval option"
  a_retired :: rat

record 'e flow_ns = "'e idst" +
  ns_generation :: "generation option"
  ns_archive :: "archived list"
  ns_attempted :: "rat option"
  ns_reason :: "string option"
  ns_last_probe :: pyval

text \<open>
  The constructor arguments: the journal, this boot, the range, the monotonic clock, the
  wall clock \<open>time.time\<close> and the prober.
\<close>

record 'e ns_world =
  nw_sql :: "'e sqldb"
  nw_boot :: string
  nw_first :: int
  nw_last :: int
  nw_clock :: "('e, rat) py"
  nw_wall :: "('e, rat) py"
  nw_probe :: "('e, pyval) py"












definition ns_status :: "'e ns_world \<Rightarrow> ('e, 'z) flow_ns_scheme \<Rightarrow> pyval" where
  "ns_status nw s = PDict [
     (''commissioned'', PBool (ids_pool s \<noteq> None)), (''first'', PInt (nw_first nw)), (''last'', PInt (nw_last nw)),
     (''reason'', case ns_reason s of None \<Rightarrow> PNone | Some r \<Rightarrow> PStr r),
     (''cp_boot_id'', case ns_generation s of None \<Rightarrow> PNone | Some g \<Rightarrow> PStr (g_boot g)),
     (''domain'', case ns_generation s of None \<Rightarrow> PNone | Some g \<Rightarrow> PStr (take 12 (g_domain g))),
     (''next_id'', case ids_row s of None \<Rightarrow> PNone | Some r \<Rightarrow> fr_next r),
     (''remaining_pairs'', case ids_row s of None \<Rightarrow> PNone
        | Some r \<Rightarrow> PInt ((nw_last nw - the_int (fr_next r) + 1) div 2))]"

section \<open>Only a proved range is commissioned\<close>

















end
