(* ===== verification/Accounting.thy ===== *)
theory Accounting
  imports FlowStats
begin

text \<open>
  \<open>AccountedSession\<close>, \<open>ffn_fe100_accounting.py\<close>: native counter deltas handed to a kernel
  conntrack lease.  The lease and the withdrawal are parameters; ghost fields keep the
  snapshot taken at binding and the updates the lease accepted.
\<close>

type_synonym tuple4 = "bytes \<times> bytes \<times> nat \<times> nat"

definition flow_tuple :: "bytes \<Rightarrow> tuple4" where
  "flow_tuple key = (slice 8 12 key, slice 12 16 key, from_be (slice 4 6 key), from_be (slice 6 8 key))"

definition reverse_tuple :: "tuple4 \<Rightarrow> tuple4" where
  "reverse_tuple = (\<lambda>(src, dst, sport, dport). (dst, src, dport, sport))"

type_synonym lease_update = "int \<times> int list \<times> int list \<times> int"

record 'e lease =
  ls_protocol :: int
  ls_original :: tuple4
  ls_reply :: tuple4
  ls_check :: "('e, unit) py"
  ls_update :: "lease_update \<Rightarrow> ('e, unit) py"
  ls_close :: "('e, unit) py"
  ls_withdraw :: "('e, pyval) py"

record 'e account = "'e counters" +
  ac_entries :: "bytes list"
  ac_epoch :: string
  ac_previous :: "accounting_row list"
  ac_sequence :: int
  ac_failure :: "string option"
  ac_closed :: bool
  ac_base :: "accounting_row list"
  ac_reported :: "lease_update list"

definition account_checks :: "'e lease \<Rightarrow> bytes list \<Rightarrow> exn + bytes list" where
  "account_checks lease entries = (rthn (rcheck (length entries = 2) (ValueError ''both directions required''))
    (rbnd (rcollect entries validate_entry4) (\<lambda>es.
    let protocols = map (\<lambda>e. uint (e ! 1)) es in
    rthn (rcheck (set protocols \<subseteq> {6, 17}) (ValueError ''only UDP and TCP accounting are qualified''))
    (rthn (rcheck (protocols ! 0 = protocols ! 1) (ValueError ''both directions must carry one protocol''))
    (rthn (rcheck (distinct (map flow_id_of es)) (ValueError ''distinct directional flow IDs required''))
    (rthn (rcheck (ls_protocol lease \<in> set protocols \<and> map flow_tuple es = [ls_original lease, ls_reply lease] \<and>
        map (\<lambda>e. flow_tuple (output_key4 e)) es = [reverse_tuple (ls_reply lease), reverse_tuple (ls_original lease)])
      (ValueError ''hardware NAT directions do not match the bound conntrack object''))
    (Inr es)))))))"

text \<open>The constructor, binding a stream whose flows are registered and unreported.\<close>

definition account_init :: "('e, pyval) py \<Rightarrow> 'e lease \<Rightarrow> bytes list \<Rightarrow> ('e counters, 'e account) py" where
  "account_init clock lease entries = (bnd (lift_res (account_checks lease entries)) (\<lambda>es.
    thn (check_receiver clock)
    (bnd (collect es flow_accounting) (\<lambda>snapshots.
    thn (ensure (list_all (\<lambda>a. ar_report_at a = None) snapshots) (ValueError ''bind before hardware reports''))
    (gets (\<lambda>s. counters.extend s \<lparr>ac_entries = es, ac_epoch = cs_epoch s, ac_previous = snapshots, ac_sequence = 0,
      ac_failure = None, ac_closed = False, ac_base = snapshots, ac_reported = []\<rparr>))))))"

definition fence_account :: "'e lease \<Rightarrow> string \<Rightarrow> (('e, 'z) account_scheme, unit) py" where
  "fence_account lease reason = (thn (upd (\<lambda>s. s\<lparr>ac_failure := Some reason\<rparr>))
    (bnd (gets ac_closed) (\<lambda>closed.
    whn (\<not> closed) (bnd (cs_io (ls_withdraw lease)) (\<lambda>ack.
      thn (ensure (ack = PBool True) (RuntimeError ''hardware withdrawal not acknowledged''))
      (thn (cs_io (ls_close lease))
      (thn (upd (\<lambda>s. s\<lparr>ac_closed := True\<rparr>))
      (bnd (gets ac_entries) (\<lambda>es.
      for_each es (\<lambda>e. forget_flow (flow_id_of e)))))))))))"

text \<open>One direction of a synchronization: the deltas since the previous snapshot.\<close>

definition measure_direction :: "('e, pyval) py \<Rightarrow> rat \<Rightarrow> bytes \<times> accounting_row \<times> accounting_row \<Rightarrow>
    (('e, 'z) counters_scheme, int \<times> int \<times> bool) py" where
  "measure_direction clock now = (\<lambda>(entry, current, previous). (let packets = ar_packets current - ar_packets previous; octets = ar_octets current - ar_octets previous;
        activity = ar_activity current - ar_activity previous in
    thn (ensure (0 \<le> packets \<and> 0 \<le> octets \<and> 0 \<le> activity) (RuntimeError ''counter totals regressed''))
    (thn (whn (packets \<noteq> 0 \<or> octets \<noteq> 0) (bnd (gets freshness) (\<lambda>limit.
      case ar_report_at current of
        None \<Rightarrow> raise (TypeError ''unsupported operand'')
      | Some heard \<Rightarrow> ensure (0 \<le> now - heard \<and> now - heard \<le> limit) (RuntimeError ''hardware accounting arrived too late''))))
    (thn (whn (activity \<noteq> 0) (bnd (flow_token clock entry) (\<lambda>token.
      ensure (token \<noteq> None) (RuntimeError ''flow activity is stale''))))
    (ret (packets, octets, activity \<noteq> 0))))))"

definition active_bits :: "bool list \<Rightarrow> int" where
  "active_bits bs = sum_list (map2 (\<lambda>i b. if b then 2 ^ i else 0) [0..<length bs] bs)"

definition sync_body :: "('e, pyval) py \<Rightarrow> 'e lease \<Rightarrow> (('e, 'z) account_scheme, bool) py" where
  "sync_body clock lease = (bnd (gets (\<lambda>s. cs_epoch s = ac_epoch s)) (\<lambda>same.
    thn (ensure same (RuntimeError ''hardware epoch changed''))
    (thn (check_receiver clock)
    (bnd (gets ac_entries) (\<lambda>es.
    bnd (collect es flow_accounting) (\<lambda>snapshots.
    bnd (cs_now clock) (\<lambda>now.
    bnd (gets ac_previous) (\<lambda>previous.
    bnd (collect (zip es (zip snapshots previous)) (measure_direction clock now)) (\<lambda>deltas.
    let packets = map fst deltas; octets = map (\<lambda>d. fst (snd d)) deltas; active = active_bits (map (\<lambda>d. snd (snd d)) deltas) in
    if list_all (\<lambda>p. p = 0) packets \<and> list_all (\<lambda>p. p = 0) octets
    then (thn (cs_io (ls_check lease))
      (ret False))
    else (bnd (gets ac_sequence) (\<lambda>seq.
      thn (cs_io (ls_update lease (seq + 1, packets, octets, active)))
      (thn (upd (\<lambda>s. s\<lparr>ac_reported := ac_reported s @ [(seq + 1, packets, octets, active)]\<rparr>))
      (thn (upd (\<lambda>s. s\<lparr>ac_sequence := ac_sequence s + 1, ac_previous := snapshots\<rparr>))
      (ret True))))))))))))))"

definition sync_account :: "('e, pyval) py \<Rightarrow> 'e lease \<Rightarrow> (('e, 'z) account_scheme, bool) py" where
  "sync_account clock lease = (bnd (gets (\<lambda>s. ac_failure s \<noteq> None \<or> ac_closed s)) (\<lambda>gone.
    thn (ensure (\<not> gone) (RuntimeError ''accounting session fenced''))
    (catch_all (sync_body clock lease) (\<lambda>e. (thn (fence_account lease (exn_text e))
      (raise e))))))"

section \<open>The lease is told exactly what the hardware counted\<close>

text \<open>What the lease was told adds up to the difference of the two snapshots.\<close>

definition told :: "(lease_update \<Rightarrow> int list) \<Rightarrow> lease_update list \<Rightarrow> nat \<Rightarrow> int" where
  "told f reports d = sum_list (map (\<lambda>u. f u ! d) reports)"

definition report_packets :: "lease_update \<Rightarrow> int list" where
  "report_packets u = fst (snd u)"

definition report_octets :: "lease_update \<Rightarrow> int list" where
  "report_octets u = fst (snd (snd u))"

definition books_balance :: "('e, 'z) account_scheme \<Rightarrow> bool" where
  "books_balance s \<longleftrightarrow> length (ac_entries s) = 2 \<and> length (ac_base s) = 2 \<and> length (ac_previous s) = 2 \<and>
     map fst (ac_reported s) = map int [1..<Suc (length (ac_reported s))] \<and> ac_sequence s = int (length (ac_reported s)) \<and>
     list_all (\<lambda>d. ar_packets (ac_previous s ! d) = ar_packets (ac_base s ! d) + told report_packets (ac_reported s) d \<and>
       ar_octets (ac_previous s ! d) = ar_octets (ac_base s ! d) + told report_octets (ac_reported s) d) [0, 1]"

text \<open>Stream code leaves the session's own fields alone.\<close>

abbreviation own_fields :: "'z \<Rightarrow> ('e, 'z) counters_scheme \<Rightarrow> bool" where
  "own_fields m s \<equiv> counters.more s = m"

lemma own_io: "pres (own_fields m) (cs_io a)"
  unfolding cs_io_def by (rule pres_zoom) simp

lemma own_invalidate: "pres (own_fields m) (invalidate r)"
  unfolding invalidate_def by (rule pres_upd) simp

lemma own_now: "pres (own_fields m) (cs_now clock)"
  unfolding cs_now_def by (intro pres_intros own_io own_invalidate pres_upd) simp

lemma own_check: "pres (own_fields m) (check_receiver clock)"
  unfolding check_receiver_def by (intro pres_intros own_now own_invalidate | simp split: option.split prod.split)+

lemma own_forget: "pres (own_fields m) (forget_flow i)"
  unfolding forget_flow_def by (rule pres_upd) simp

lemma own_row: "pres (own_fields m) (flow_accounting e)"
  unfolding flow_accounting_def by (intro pres_intros)

lemma own_token: "pres (own_fields m) (flow_token clock e)"
  unfolding flow_token_def by (intro pres_intros own_now)

lemma own_measure: "pres (own_fields m) (measure_direction clock now x)"
  unfolding measure_direction_def Let_def
  by (intro pres_intros own_token | simp split: option.split prod.split)+

lemmas own_frames = own_io own_invalidate own_now own_check own_forget own_row own_token own_measure

lemma own_run:
  assumes "pres (own_fields (counters.more s)) m" "m s = (r, s')"
  shows "counters.more s' = counters.more s"
  using presD [OF assms(1), of s r s'] assms(2) by simp


lemma balance_frame: "counters.more s' = counters.more s \<Longrightarrow> books_balance s' = books_balance s"
  by (cases s; cases s'; simp add: books_balance_def)

lemma wp_collect:
  assumes "I s" and "\<And>x s'. x \<in> set xs \<Longrightarrow> I s' \<Longrightarrow> wp (f x) (\<lambda>y s'. I s' \<and> R x y) (\<lambda>_. I) s'"
  shows "wp (collect xs f) (\<lambda>ys s'. I s' \<and> list_all2 R xs ys) (\<lambda>_. I) s"
  using assms
proof (induction xs arbitrary: s)
  case (Cons x xs)
  show ?case
    unfolding collect.simps
  proof (rule wp_bndI [OF Cons.prems(2) [OF _ Cons.prems(1)]])
    fix y s1 assume s1: "I s1 \<and> R x y"
    then have "wp (collect xs f) (\<lambda>ys s'. I s' \<and> list_all2 R xs ys) (\<lambda>_. I) s1"
      using Cons.prems(2) by (intro Cons.IH) auto
    then show "wp (bnd (collect xs f) (\<lambda>ys. ret (y # ys))) (\<lambda>ys s'. I s' \<and> list_all2 R (x # xs) ys) (\<lambda>_. I) s1"
      unfolding wp_bnd by (rule wp_mono) (use s1 in \<open>auto simp: wp_simps\<close>)
  qed auto
qed (simp add: wp_simps)

text \<open>A measured direction reports the difference of its two snapshots.\<close>

definition measured :: "bytes \<times> accounting_row \<times> accounting_row \<Rightarrow> int \<times> int \<times> bool \<Rightarrow> bool" where
  "measured x y \<longleftrightarrow> fst y = ar_packets (fst (snd x)) - ar_packets (snd (snd x)) \<and>
     fst (snd y) = ar_octets (fst (snd x)) - ar_octets (snd (snd x))"

lemma measure_wp:
  assumes "own_fields m s"
  shows "wp (measure_direction clock now x) (\<lambda>y s'. own_fields m s' \<and> measured x y) (\<lambda>_. own_fields m) s"
proof -
  obtain e c p where x: "x = (e, c, p)" by (cases x)
  show ?thesis
    using assms unfolding x measure_direction_def Let_def prod.case wp_thn wp_ensure wp_whn wp_bnd [of "gets f" for f]
      wp_bnd [of "flow_token c e" for c e] wp_gets wp_option wp_raise wp_ret measured_def
    by (auto split: option.split intro!: wp_mono [OF wp_pres [OF own_token]])
qed

lemma told_snoc: "told f (us @ [u]) d = told f us d + f u ! d"
  by (simp add: told_def)

lemma balance_step:
  assumes "books_balance s" and "list_all2 measured (zip (ac_entries s) (zip snapshots (ac_previous s))) deltas"
    and "length snapshots = 2"
  shows "books_balance (s\<lparr>ac_reported := ac_reported s @ [(ac_sequence s + 1, map fst deltas, map (\<lambda>d. fst (snd d)) deltas, a)],
    ac_sequence := ac_sequence s + 1, ac_previous := snapshots\<rparr>)"
proof -
  obtain x0 x1 p0 p1 e0 e1 where l: "snapshots = [x0, x1]" "ac_previous s = [p0, p1]" "ac_entries s = [e0, e1]"
    using assms(1,3) by (auto simp: books_balance_def numeral_2_eq_2 length_Suc_conv)
  with assms(2) obtain d0 d1 where d: "deltas = [d0, d1]" "measured (e0, x0, p0) d0" "measured (e1, x1, p1) d1"
    by (auto simp: list_all2_Cons1)
  then show ?thesis
    using assms(1) by (auto simp: books_balance_def l told_snoc report_packets_def report_octets_def measured_def)
qed

lemma collect_rows:
  "wp (collect es flow_accounting) (\<lambda>ys s'. s' = s \<and> length ys = length es) (\<lambda>_ s'. s' = s) s"
proof -
  have "wp (collect es flow_accounting) (\<lambda>ys s'. s' = s \<and> list_all2 (\<lambda>_ _. True) es ys) (\<lambda>_ s'. s' = s) s"
    by (rule wp_collect) (auto simp: flow_accounting_def wp_simps split: option.split)
  then show ?thesis by (rule wp_mono) (auto dest: list_all2_lengthD)
qed

lemma own_wp:
  assumes "\<And>m. pres (own_fields m) c" "counters.more s1 = counters.more s"
  shows "wp c (\<lambda>_ s'. counters.more s' = counters.more s) (\<lambda>_ s'. counters.more s' = counters.more s) s1"
  using wp_pres [OF assms(1) [of "counters.more s"] assms(2)] .

lemma balance_pres: "(\<And>m. pres (own_fields m) c) \<Longrightarrow> pres books_balance c"
  unfolding pres_wp
  by (intro allI impI wp_mono [OF own_wp [OF _ refl]]) (auto simp: pres_wp dest: balance_frame)

lemma more_account:
  fixes s s' :: "('e, 'z) account_scheme"
  assumes "counters.more s' = counters.more s"
  shows "ac_entries s' = ac_entries s \<and> ac_previous s' = ac_previous s \<and> ac_sequence s' = ac_sequence s \<and>
    ac_reported s' = ac_reported s"
  using assms by (cases s; cases s'; simp)

lemma sync_balance: "pres books_balance (sync_account clock lease)"
proof -
  have report: "wp (if list_all (\<lambda>p. p = 0) packets \<and> list_all (\<lambda>p. p = 0) octets
      then thn (cs_io (ls_check lease)) (ret False)
      else bnd (gets ac_sequence) (\<lambda>seq. thn (cs_io (ls_update lease (seq + 1, packets, octets, active)))
        (thn (upd (\<lambda>s. s\<lparr>ac_reported := ac_reported s @ [(seq + 1, packets, octets, active)]\<rparr>))
        (thn (upd (\<lambda>s. s\<lparr>ac_sequence := ac_sequence s + 1, ac_previous := snapshots\<rparr>)) (ret True)))))
     (\<lambda>_. books_balance) (\<lambda>_. books_balance) s"
    if "books_balance s" "list_all2 measured (zip (ac_entries s) (zip snapshots (ac_previous s))) deltas"
      "length snapshots = 2" "packets = map fst deltas" "octets = map (\<lambda>d. fst (snd d)) deltas"
    for s :: "('a, 'b) account_scheme" and snapshots deltas packets octets active
  proof -
    have step: "books_balance (s1\<lparr>ac_reported := ac_reported s1 @ [(ac_sequence s + 1, packets, octets, active)],
        ac_sequence := ac_sequence s1 + 1, ac_previous := snapshots\<rparr>)" if "counters.more s1 = counters.more s" for s1 :: "('a, 'b) account_scheme"
      using balance_step [of s1 snapshots deltas] more_account [OF that] balance_frame [OF that] \<open>books_balance s\<close>
        \<open>list_all2 measured _ deltas\<close> \<open>length snapshots = 2\<close> \<open>packets = _\<close> \<open>octets = _\<close> by simp
    show ?thesis
      using that(1)
      by (auto simp: wp_simps intro!: wp_mono [OF own_wp [OF own_io refl]] step dest: balance_frame)
  qed
  have "wp (sync_body clock lease) (\<lambda>_. books_balance) (\<lambda>_. books_balance) s" if s: "books_balance s" for s :: "('a, 'b) account_scheme"
    unfolding sync_body_def wp_bnd [of "gets f" for f] wp_gets wp_thn [of "ensure b e" for b e] wp_ensure Let_def
  proof (simp add: s, intro impI, rule wp_thnI [OF own_wp [OF own_check refl]], goal_cases)
    case (1 u s1)
    then have same: "ac_entries s1 = ac_entries s" "ac_previous s1 = ac_previous s" "books_balance s1"
      using more_account [of s1 s] balance_frame [of s1 s] s by simp_all
    show ?case
      unfolding wp_bnd [of "gets f" for f] wp_gets
    proof (rule wp_bndI [OF collect_rows], goal_cases)
      case (1 snapshots s2)
      then have s2: "s2 = s1" "length snapshots = 2" using same s by (auto simp: books_balance_def)
      show ?case
      proof (rule wp_bndI [OF own_wp [OF own_now refl]], goal_cases)
        case (1 now s3)
        have "wp (collect (zip (ac_entries s1) (zip snapshots (ac_previous s3))) (measure_direction clock now))
            (\<lambda>ys s'. own_fields (counters.more s3) s' \<and> list_all2 measured (zip (ac_entries s1) (zip snapshots (ac_previous s3))) ys)
            (\<lambda>_. own_fields (counters.more s3)) s3"
          by (rule wp_collect [where I = "own_fields (counters.more s3)"]) (simp_all add: measure_wp)
        then show ?case
          unfolding wp_bnd [of "gets f" for f] wp_gets
        proof (rule wp_bndI, goal_cases)
          case (1 deltas s4)
          have "counters.more s4 = counters.more s2" using 1 \<open>own_fields (counters.more s2) s3\<close> by simp
          then show ?case
            using 1 s2 same more_account [of s3 s2] more_account [of s4 s2] balance_frame [of s4 s2] \<open>own_fields (counters.more s2) s3\<close>
            by (intro report [of s4 snapshots deltas]) auto
        next
          case (2 e s4)
          then show ?case using s2 same balance_frame [of s4 s2] \<open>own_fields (counters.more s2) s3\<close> by simp
        qed
      qed (use s2 same in \<open>auto dest: balance_frame\<close>)
    qed (use same in auto)
  qed (use s in \<open>auto dest: balance_frame\<close>)
  then have body: "pres (books_balance :: ('a, 'b) account_scheme \<Rightarrow> bool) (sync_body clock lease)" by (simp add: pres_wp)
  have "pres books_balance (fence_account lease r)" for r
    unfolding fence_account_def
    by (intro pres_intros balance_pres own_frames pres_upd) (simp_all add: books_balance_def)
  then show ?thesis
    unfolding sync_account_def by (intro pres_intros body)
qed


lemma fence_balance: "pres books_balance (fence_account lease r)"
  unfolding fence_account_def
  by (intro pres_intros balance_pres own_frames pres_upd) (simp_all add: books_balance_def)

text \<open>
  The life of a bound session: synchronizations and fences, with any stream operation
  (which leaves the session's fields alone) between them.
\<close>

inductive account_run :: "('e, pyval) py \<Rightarrow> 'e lease \<Rightarrow> 'e account \<Rightarrow> bool" for clock lease where
  bound: "account_init clock lease entries stream = (Inr s, stream') \<Longrightarrow> account_run clock lease s"
| synced_once: "account_run clock lease s \<Longrightarrow> account_run clock lease (snd (sync_account clock lease s))"
| fenced_once: "account_run clock lease s \<Longrightarrow> account_run clock lease (snd (fence_account lease reason s))"
| stream_step: "account_run clock lease s \<Longrightarrow> counters.more s' = counters.more s \<Longrightarrow> account_run clock lease s'"

lemma account_run_balance: "account_run clock lease s \<Longrightarrow> books_balance s"
proof (induction rule: account_run.induct)
  case (bound entries stream s stream')
  then obtain es s1 rows s2 where "account_checks lease entries = Inr es" "collect es flow_accounting s1 = (Inr rows, s2)"
    "s = counters.extend s2 \<lparr>ac_entries = es, ac_epoch = cs_epoch s2, ac_previous = rows, ac_sequence = 0,
      ac_failure = None, ac_closed = False, ac_base = rows, ac_reported = []\<rparr>"
    by (auto simp: account_init_def runs)
  moreover from this have "length es = 2" "length rows = length es"
    using wp_returns [OF collect_rows] by (auto simp: account_checks_def res_iffs Let_def rcollect_Inr_iff dest: list_all2_lengthD)
  ultimately show ?case by (simp add: books_balance_def counters.extend_def told_def)
next
  case (synced_once s)
  then show ?case by (intro pres_snd [OF sync_balance])
next
  case (fenced_once s reason)
  then show ?case by (intro pres_snd [OF fence_balance])
next
  case (stream_step s s')
  then show ?case using balance_frame by blast
qed

text \<open>
  C24.  The kernel lease is told exactly what the hardware counted: over any life of a bound
  session the updates it accepted are numbered 1, 2, 3, ... without a gap, and in each
  direction their packet and octet counts add up to the difference between the last
  acknowledged counter snapshot and the one taken at binding.
\<close>

theorem lease_told_exactly:
  assumes "account_run clock lease s"
  shows "map fst (ac_reported s) = map int [1..<Suc (length (ac_reported s))] \<and>
    list_all (\<lambda>d. ar_packets (ac_previous s ! d) - ar_packets (ac_base s ! d) = told report_packets (ac_reported s) d \<and>
       ar_octets (ac_previous s ! d) - ar_octets (ac_base s ! d) = told report_octets (ac_reported s) d) [0, 1]"
  using account_run_balance [OF assms] by (simp add: books_balance_def)

section \<open>A concrete session\<close>

definition still :: "(unit, pyval) py" where
  "still = ret (PInt 0)"

definition sample_lease :: "unit lease" where
  "sample_lease = \<lparr>ls_protocol = 6, ls_original = flow_tuple probe0, ls_reply = flow_tuple probe1, ls_check = ret (),
     ls_update = (\<lambda>_. ret ()), ls_close = ret (), ls_withdraw = ret (PBool True)\<rparr>"

definition beat :: pyval where
  "beat = PDict [(''sequence'', PInt 1), (''elapsed_ms'', PInt 0), (''health'', PBool True)]"

definition bound_stream :: "unit counters" where
  "bound_stream = snd (consume still ''boot'' beat (snd (register_flow probe1 (snd (register_flow probe0
     (projr (counters_init () (PStr ''boot'') (PInt 5) (PInt 16) (PInt 5))))))))"

definition burst :: pyval where
  "burst = PDict [(''sequence'', PInt 2), (''elapsed_ms'', PInt 0),
     (''records'', PList [PDict [(''flow_id'', PInt 9), (''packets'', PInt 2), (''octets'', PInt 300), (''reason'', PInt 0)]])]"

definition bound_account :: "unit account" where
  "bound_account = projr (fst (account_init still sample_lease [probe0, probe1] bound_stream))"

definition synced_account :: "unit account" where
  "synced_account = snd (sync_account still sample_lease (snd (consume still ''boot'' burst bound_account)))"

lemma own_consume: "pres (own_fields m) (consume clock epoch event)"
  unfolding consume_def accept_event_def renew_receiver_def take_record_def Let_def
  by (intro pres_intros own_frames pres_upd | simp split: option.split prod.split)+

lemma sample_bound: "account_run still sample_lease bound_account"
proof -
  have "\<not> (case fst (account_init still sample_lease [probe0, probe1] bound_stream) of Inl e \<Rightarrow> True | Inr s \<Rightarrow> False)"
    by code_simp
  then have "account_init still sample_lease [probe0, probe1] bound_stream =
      (Inr bound_account, snd (account_init still sample_lease [probe0, probe1] bound_stream))"
    by (cases "account_init still sample_lease [probe0, probe1] bound_stream")
      (auto simp: bound_account_def split: sum.splits)
  then show ?thesis by (rule bound)
qed

theorem lease_told_exactly_witness:
  "told report_packets (ac_reported synced_account) 0 = 2 \<and>
   ar_packets (ac_previous synced_account ! 0) - ar_packets (ac_base synced_account ! 0) = 2"
proof -
  have "counters.more (snd (consume still ''boot'' burst bound_account)) = counters.more bound_account"
    using pres_snd [OF own_consume [of "counters.more bound_account" still "''boot''" burst]] by simp
  then have "account_run still sample_lease synced_account"
    unfolding synced_account_def by (intro synced_once stream_step [OF sample_bound])
  moreover have "told report_packets (ac_reported synced_account) 0 = 2" by code_simp
  ultimately show ?thesis using lease_told_exactly by fastforce
qed

end
