(* ===== verification/Aging.thy ===== *)
theory Aging
  imports FlowTable
begin

text \<open>
  Idle expiry of offloaded sessions, \<open>SessionAging\<close> of \<open>ffn_fe100_aging.py\<close>.  The activity
  probe and the monotonic clock are parameters over the manager's environment; a token is
  any value, compared with \<open>!=\<close>, and \<open>PNone\<close> is an unreadable one.
\<close>

record 'e aging = "'e mgr" +
  ag_seen :: "(int \<times> pyval list option \<times> rat) list"

record aging_policy =
  ag_timeouts :: "(int \<times> rat) list"
  ag_max_removals :: nat

record sweep_result =
  sw_expired :: "int list"
  sw_failed :: "(int \<times> string) list"
  sw_active :: nat
  sw_unreadable :: nat
  sw_idle :: nat
  sw_deferred :: nat
  sw_skipped :: "string option"

definition default_timeouts :: "(int \<times> rat) list" where
  "default_timeouts = [(6, 3600), (17, 30)]"

definition default_max_removals :: int where
  "default_max_removals = 32"

definition aging_init :: "(int \<times> rat) list option \<Rightarrow> int \<Rightarrow> exn + aging_policy" where
  "aging_init timeouts max_removals = (rthn (rcheck (1 \<le> max_removals) (ValueError ''max_removals must be at least 1''))
    (Inr \<lparr>ag_timeouts = (case timeouts of None \<Rightarrow> default_timeouts | Some t \<Rightarrow> t), ag_max_removals = nat max_removals\<rparr>))"

definition protocol_of :: "bytes \<Rightarrow> int" where
  "protocol_of entry = uint (entry ! 1)"

definition timeout_for :: "aging_policy \<Rightarrow> session \<Rightarrow> rat option" where
  "timeout_for pol v = dict_get (ag_timeouts pol) (protocol_of (s_entries v ! 0))"

text \<open>The tokens of both directions, or \<open>None\<close> when one cannot be read.\<close>

primrec tokens :: "(bytes \<Rightarrow> ('e, pyval) py) \<Rightarrow> bytes list \<Rightarrow> (('e, 'z) mgr_scheme, pyval list option) py" where
  "tokens probe [] = ret (Some [])"
| "tokens probe (e # es) = bnd (io (probe e)) (\<lambda>token.
     if token = PNone then ret None
     else bnd (tokens probe es) (\<lambda>rest. ret (map_option ((#) token) rest)))"

datatype verdict = Skipped | Unreadable | Active | Expiring | Idle

definition py_eq_tokens :: "pyval list option \<Rightarrow> pyval list \<Rightarrow> bool" where
  "py_eq_tokens old new = (case old of None \<Rightarrow> False | Some ts \<Rightarrow> py_eq_list ts new)"

text \<open>One session of the sweep: its verdict and the new observation.\<close>

definition age_session ::
  "(bytes \<Rightarrow> ('e, pyval) py) \<Rightarrow> aging_policy \<Rightarrow> rat \<Rightarrow> int \<Rightarrow> session \<Rightarrow> (('e, 'z) aging_scheme, verdict) py" where
  "age_session probe pol now ident v =
     (if s_state v \<noteq> ''installed'' then ret Skipped
      else case timeout_for pol v of None \<Rightarrow> ret Skipped
      | Some timeout \<Rightarrow> (bnd (tokens probe (s_entries v)) (\<lambda>ts.
        case ts of
            None \<Rightarrow> (thn (upd (\<lambda>s. s\<lparr>ag_seen := dict_set ident (None, now) (ag_seen s)\<rparr>))
              (ret Unreadable))
          | Some new \<Rightarrow> (bnd (gets (\<lambda>s. dict_get (ag_seen s) ident)) (\<lambda>previous.
            if (case previous of None \<Rightarrow> True | Some (old, since) \<Rightarrow> \<not> py_eq_tokens old new)
              then (thn (upd (\<lambda>s. s\<lparr>ag_seen := dict_set ident (Some new, now) (ag_seen s)\<rparr>))
                (ret Active))
              else if timeout \<le> now - snd (the previous) then ret Expiring else ret Idle)))))"

definition age_all ::
  "(bytes \<Rightarrow> ('e, pyval) py) \<Rightarrow> aging_policy \<Rightarrow> rat \<Rightarrow> (int \<times> session) list \<Rightarrow> (('e, 'z) aging_scheme, (int \<times> verdict) list) py" where
  "age_all probe pol now ss = collect ss (\<lambda>(ident, v). (bnd (age_session probe pol now ident v) (\<lambda>r.
    ret (ident, r))))"

text \<open>The removals, stopping at the first failure.\<close>

primrec expire_all :: "'e backend \<Rightarrow> int list \<Rightarrow> sweep_result \<Rightarrow> (('e, 'z) aging_scheme, sweep_result) py" where
  "expire_all be [] res = ret res"
| "expire_all be (ident # rest) res = (bnd (catch_exn (thn (remove be ident)
      (ret None)) (\<lambda>e. ret (Some e))) (\<lambda>failed.
  case failed of
      Some e \<Rightarrow> ret (res\<lparr>sw_failed := sw_failed res @ [(ident, exn_text e)]\<rparr>)
    | None \<Rightarrow> (thn (upd (\<lambda>s. s\<lparr>ag_seen := dict_del ident (ag_seen s)\<rparr>))
      (expire_all be rest (res\<lparr>sw_expired := sw_expired res @ [ident]\<rparr>)))))"

definition blank_sweep :: sweep_result where
  "blank_sweep = \<lparr>sw_expired = [], sw_failed = [], sw_active = 0, sw_unreadable = 0, sw_idle = 0, sw_deferred = 0,
     sw_skipped = None\<rparr>"

definition tally :: "(int \<times> verdict) list \<Rightarrow> verdict \<Rightarrow> nat" where
  "tally verdicts v = length (filter (\<lambda>x. snd x = v) verdicts)"

definition sweep ::
  "'e backend \<Rightarrow> (bytes \<Rightarrow> ('e, pyval) py) \<Rightarrow> ('e, rat) py \<Rightarrow> aging_policy \<Rightarrow> (('e, 'z) aging_scheme, sweep_result) py" where
  "sweep be probe clock pol = (bnd (io clock) (\<lambda>now.
    bnd (gets recovery_required) (\<lambda>fenced.
    if fenced then ret (blank_sweep\<lparr>sw_skipped := Some ''recovery required''\<rparr>)
    else (bnd (gets sessions) (\<lambda>ss.
      thn (upd (\<lambda>s. s\<lparr>ag_seen := filter (\<lambda>(ident, _). ident \<in> set (dict_keys ss)) (ag_seen s)\<rparr>))
      (bnd (age_all probe pol now ss) (\<lambda>verdicts.
      let expiring = sort (map fst (filter (\<lambda>x. snd x = Expiring) verdicts)) in
      expire_all be (take (ag_max_removals pol) expiring)
        (blank_sweep\<lparr>sw_active := tally verdicts Active, sw_unreadable := tally verdicts Unreadable,
           sw_idle := tally verdicts Idle, sw_deferred := length expiring - ag_max_removals pol\<rparr>))))))))"

section \<open>Only idle sessions expire\<close>

text \<open>
  A session may expire when it was installed, its tokens of an earlier sweep are the ones
  just read, and at least the timeout of its protocol has passed since they were first seen.
\<close>

definition idle_tokens :: "aging_policy \<Rightarrow> rat \<Rightarrow> session \<Rightarrow> (pyval list option \<times> rat) option \<Rightarrow> pyval list \<Rightarrow> bool" where
  "idle_tokens pol now v previous new = (s_state v = ''installed'' \<and> (case (timeout_for pol v, previous) of
     (Some t, Some (old, since)) \<Rightarrow> py_eq_tokens old new \<and> t \<le> now - since
   | _ \<Rightarrow> False))"

definition reads :: "(bytes \<Rightarrow> ('e, pyval) py) \<Rightarrow> session \<Rightarrow> ('e, 'z) mgr_scheme \<Rightarrow> pyval list \<Rightarrow> bool" where
  "reads probe v s new \<longleftrightarrow> fst (tokens probe (s_entries v) s) = Inr (Some new)"

lemma tokens_frame: "wp (tokens probe es) (\<lambda>_ s'. \<exists>e. s' = s\<lparr>env := e\<rparr>) (\<lambda>_ s'. \<exists>e. s' = s\<lparr>env := e\<rparr>) s"
proof (induction es arbitrary: s)
  case Nil
  then show ?case by (auto simp: wp_simps intro: exI [of _ "env s"])
next
  case (Cons e es)
  show ?case
    unfolding tokens.simps wp_bnd
    by (intro wp_io) (auto simp: wp_simps intro!: wp_mono [OF Cons.IH])
qed

lemma tokens_run:
  "wp (tokens probe es) (\<lambda>r s'. (\<exists>e. s' = s\<lparr>env := e\<rparr>) \<and> fst (tokens probe es s) = Inr r) (\<lambda>_ s'. \<exists>e. s' = s\<lparr>env := e\<rparr>) s"
  using tokens_frame [of probe es s] by (auto simp: wp_def split: prod.splits sum.splits)

text \<open>A verdict to expire rests on the record already there, which it leaves.\<close>

lemma age_session_wp:
  "wp (age_session probe pol now i v)
     (\<lambda>r s'. sessions s' = sessions s \<and> (\<forall>j. j \<noteq> i \<longrightarrow> dict_get (ag_seen s') j = dict_get (ag_seen s) j) \<and>
        (r = Expiring \<longrightarrow> (\<exists>new. idle_tokens pol now v (dict_get (ag_seen s) i) new \<and> reads probe v s new)))
     (\<lambda>_ s'. sessions s' = sessions s) s"
  unfolding age_session_def wp_if wp_option wp_ret wp_bnd
  by (auto split: option.split intro!: wp_mono [OF tokens_run]
      simp: wp_simps py_eq_tokens_def idle_tokens_def reads_def split: option.splits prod.splits)

lemma age_all_wp:
  fixes s :: "('e, 'z) aging_scheme"
  assumes "distinct (map fst ss)"
  shows "wp (age_all probe pol now ss)
     (\<lambda>vs s'. sessions s' = sessions s \<and> map fst vs = map fst ss \<and>
        (\<forall>i. (i, Expiring) \<in> set vs \<longrightarrow> (\<exists>v new s1. (i, v) \<in> set ss \<and>
           idle_tokens pol now v (dict_get (ag_seen s) i) new \<and> reads probe v (s1 :: ('e, 'z) aging_scheme) new)))
     (\<lambda>_ s'. sessions s' = sessions s) s"
  unfolding age_all_def
  using assms
proof (induction ss arbitrary: s)
  case Nil
  then show ?case by (simp add: wp_simps)
next
  case (Cons x ss)
  obtain i v where x: "x = (i, v)" by (cases x)
  have i: "i \<notin> fst ` set ss" "distinct (map fst ss)" using Cons.prems by (auto simp: x)
  show ?case
    unfolding collect.simps x prod.case wp_bnd wp_ret
  proof (rule wp_mono [OF age_session_wp], goal_cases)
    case (1 r s1)
    note first = 1
    have later: "dict_get (ag_seen s1) j = dict_get (ag_seen s) j" if "(j, w) \<in> set ss" for j w
      using that 1 i(1) by (metis (no_types, lifting) image_eqI fst_conv)
    show ?case
    proof (rule wp_mono [OF Cons.IH [OF i(2)]], goal_cases)
      case (1 vs s2)
      then have rest: "\<exists>w new s3. (j, w) \<in> set ss \<and> idle_tokens pol now w (dict_get (ag_seen s) j) new \<and>
          reads probe w (s3 :: ('e, 'z) aging_scheme) new"
        if "(j, Expiring) \<in> set vs" for j
        using that later by metis
      have "\<exists>w new s3. (j, w) \<in> set ((i, v) # ss) \<and> idle_tokens pol now w (dict_get (ag_seen s) j) new \<and>
          reads probe w (s3 :: ('e, 'z) aging_scheme) new"
        if j: "(j, Expiring) \<in> set ((i, r) # vs)" for j
      proof (cases "(j, Expiring) \<in> set vs")
        case True
        from rest [OF this] show ?thesis by auto
      next
        case False
        with j have "j = i" "r = Expiring" by auto
        with first show ?thesis by auto
      qed
      then show ?case using 1 first by simp
    qed (use 1 in auto)
  qed auto
qed

lemma dict_get_filter: "dict_get (filter (\<lambda>(k, _). P k) d) i = (if P i then dict_get d i else None)"
  by (induction d) auto

lemma expire_all_sub:
  "wp (expire_all be ids res) (\<lambda>r s'. set (sw_expired r) \<subseteq> set (sw_expired res) \<union> set ids \<and>
      length (sw_expired r) \<le> length (sw_expired res) + length ids) (\<lambda>_ _. True) s"
proof (induction ids arbitrary: res s)
  case Nil
  then show ?case by (simp add: wp_simps)
next
  case (Cons i ids)
  show ?case
    unfolding expire_all.simps wp_bnd wp_catch_exn
    by (rule wp_mono [OF wp_True]) (auto simp: wp_simps split: option.split intro!: wp_mono [OF Cons.IH])
qed


text \<open>
  C25.  A sweep that returns has expired only idle sessions: each id it reports was a
  session of the manager, installed, whose two activity tokens read in this sweep equal
  those recorded at an earlier sweep at least its protocol's timeout ago; it expires at
  most the configured number, and nothing at all while recovery is required.
\<close>

theorem sweep_expires_idle_only:
  fixes s :: "('e, 'z) aging_scheme"
  assumes "dict_ok (sessions s)" and "sweep be probe clock pol s = (Inr r, s')"
  shows "length (sw_expired r) \<le> ag_max_removals pol \<and> (sw_expired r = [] \<or> \<not> recovery_required s) \<and>
    (\<exists>now. fst (clock (env s)) = Inr now \<and> list_all (\<lambda>i. \<exists>v new s1. dict_get (sessions s) i = Some v \<and>
       idle_tokens pol now v (dict_get (ag_seen s) i) new \<and> reads probe v (s1 :: ('e, 'z) aging_scheme) new) (sw_expired r))"
proof -
  let ?idle = "\<lambda>now i. \<exists>v new s1. dict_get (sessions s) i = Some v \<and>
       idle_tokens pol now v (dict_get (ag_seen s) i) new \<and> reads probe v (s1 :: ('e, 'z) aging_scheme) new"
  from assms(2) obtain now s1 where now: "io clock s = (Inr now, s1)" by (auto simp: sweep_def runs)
  then have s1: "fst (clock (env s)) = Inr now" "\<exists>e. s1 = s\<lparr>env := e\<rparr>" by (auto simp: io_def split: prod.splits)
  then have same: "sessions s1 = sessions s" "recovery_required s1 = recovery_required s" "ag_seen s1 = ag_seen s" by auto
  show ?thesis
  proof (cases "recovery_required s")
    case True
    with assms(2) now same have "r = blank_sweep\<lparr>sw_skipped := Some ''recovery required''\<rparr>" by (auto simp: sweep_def runs)
    then show ?thesis using s1 by (auto simp: blank_sweep_def)
  next
    case False
    let ?s2 = "s1\<lparr>ag_seen := filter (\<lambda>(ident, _). ident \<in> set (dict_keys (sessions s))) (ag_seen s)\<rparr>"
    from assms(2) now same False obtain vs s3 res where vs: "age_all probe pol now (sessions s) ?s2 = (Inr vs, s3)" and
      ex: "expire_all be (take (ag_max_removals pol) (sort (map fst (filter (\<lambda>x. snd x = Expiring) vs)))) res s3 = (Inr r, s')"
      and res: "sw_expired res = []"
      by (auto simp: sweep_def runs Let_def blank_sweep_def)
    have idle: "?idle now i" if "(i, Expiring) \<in> set vs" for i
    proof -
      have "distinct (map fst (sessions s))" using assms(1) by (simp add: dict_ok_def)
      from wp_returns [OF age_all_wp [OF this] vs] that obtain v new and s4 :: "('e, 'z) aging_scheme" where
        v: "(i, v) \<in> set (sessions s)" "idle_tokens pol now v (dict_get (ag_seen ?s2) i) new" "reads probe v s4 new"
        by blast
      then have "i \<in> set (dict_keys (sessions s))" by force
      then have "dict_get (ag_seen ?s2) i = dict_get (ag_seen s) i" by (simp add: dict_get_filter del: set_map)
      with v show ?thesis using assms(1) by (auto simp: dict_items_get)
    qed
    from wp_returns [OF expire_all_sub ex] res have
      sub: "set (sw_expired r) \<subseteq> set (take (ag_max_removals pol) (sort (map fst (filter (\<lambda>x. snd x = Expiring) vs))))"
      "length (sw_expired r) \<le> ag_max_removals pol" by auto
    have "list_all (?idle now) (sw_expired r)"
      unfolding list_all_iff
    proof (intro ballI)
      fix i assume "i \<in> set (sw_expired r)"
      with sub(1) have "(i, Expiring) \<in> set vs" by (auto dest!: subsetD in_set_takeD)
      then show "?idle now i" by (rule idle)
    qed
    with sub s1 False show ?thesis by blast
  qed
qed


text \<open>A TCP session silent for 4000 seconds.\<close>

definition quiet :: "(bytes \<times> bytes) list aging" where
  "quiet = mgr.extend installed_probe \<lparr>ag_seen = [(1, Some [PInt 0, PInt 0], 0)]\<rparr>"

definition quiet_policy :: aging_policy where
  "quiet_policy = \<lparr>ag_timeouts = default_timeouts, ag_max_removals = 32\<rparr>"

definition quiet_sweep :: "((bytes \<times> bytes) list aging, sweep_result) py" where
  "quiet_sweep = sweep list_backend (\<lambda>_. ret (PInt 0)) (ret 4000) quiet_policy"

lemma quiet_run: "fst (quiet_sweep quiet) = Inr (blank_sweep\<lparr>sw_expired := [1]\<rparr>)"
  by code_simp

theorem sweep_expires_idle_only_witness:
  "\<exists>v new. dict_get (sessions quiet) 1 = Some v \<and> idle_tokens quiet_policy 4000 v (dict_get (ag_seen quiet) 1) new"
proof -
  have ok: "dict_ok (sessions quiet)" unfolding dict_ok_def by code_simp
  have "quiet_sweep quiet = (Inr (blank_sweep\<lparr>sw_expired := [1]\<rparr>), snd (quiet_sweep quiet))"
    using quiet_run by (metis prod.collapse)
  from sweep_expires_idle_only [OF ok this [unfolded quiet_sweep_def]] show ?thesis by (auto simp: ret_def)
qed

end
