(* ===== verification/PathOwner.thy ===== *)
theory PathOwner
  imports Policy
begin

text \<open>
  Durable ownership of next-hop and source-MAC table slots, \<open>PathOwner\<close> of
  \<open>ffn_fe100_path_owner.py\<close>.  The tables, the journal's commits, the current-path resolver
  and the drain of dependent sessions are parameters; the slots held by each path and the
  journal rows are state, next to the policy owner's they are used with.
\<close>

record resource =
  rs_kind :: string
  rs_index :: int
  rs_data :: bytes

record path_rec =
  pt_boot :: pyval
  pt_state :: string
  pt_plan :: pyval
  pt_resources :: "resource list"
  pt_snapshot :: pyval

record 'e path_tables = "'e policy" +
  pw_rows :: "(string \<times> path_rec) list"
  pw_paths :: "(string \<times> path_rec) list"
  pw_recovery :: bool

record pools =
  pl_smac :: "int list"
  pl_nexthop :: "int list"

record ('e, 's) path_world =
  pw_fetch :: "string \<Rightarrow> int \<Rightarrow> ('e, bytes option) py"
  pw_insert :: "string \<Rightarrow> int \<Rightarrow> bytes \<Rightarrow> ('e, unit) py"
  pw_delete :: "string \<Rightarrow> int \<Rightarrow> ('e, unit) py"
  pw_commit :: "('e, unit) py"
  pw_boot :: pyval
  pw_current :: "string \<Rightarrow> ('e, pyval) py"
  pw_drain :: "string \<Rightarrow> ('s, pyval) py"
  pw_pools :: pools

type_synonym ('e, 'z) path_owner = "('e, ('e, 'z) path_tables_scheme) path_world"

definition pool_of :: "pools \<Rightarrow> string \<Rightarrow> int list option" where
  "pool_of p kind = (if kind = ''smac'' then Some (pl_smac p) else if kind = ''nexthop'' then Some (pl_nexthop p) else None)"

text \<open>One commissioned pool; the two of the constructor.\<close>

definition check_pool :: "string \<Rightarrow> int \<Rightarrow> pyval \<Rightarrow> exn + int list" where
  "check_pool kind limit values = (rthn (rcheck (is_list values \<and> 2 \<le> length (the_list values) \<and> length (the_list values) \<le> 4096 \<and>
        list_all (\<lambda>i. int_in i 0 (limit - 1)) (the_list values) \<and> distinct (map the_int (the_list values)))
      (ValueError (''Invalid commissioned '' @ kind @ '' pool'')))
    (Inr (map the_int (the_list values))))"

definition check_pools :: "pyval \<Rightarrow> exn + pools" where
  "check_pools pools = (rthn (rcheck (keys_are pools [''smac'', ''nexthop'']) (ValueError ''Commissioned resource pools required''))
    (rbnd (check_pool ''smac'' 1024 (py_get pools ''smac'')) (\<lambda>smac.
    rbnd (check_pool ''nexthop'' 65536 (py_get pools ''nexthop'')) (\<lambda>nexthop.
    Inr \<lparr>pl_smac = smac, pl_nexthop = nexthop\<rparr>))))"

section \<open>The journal\<close>

definition path_key :: "pyval \<Rightarrow> exn + string" where
  "path_key v = (rthn (rcheck (is_sha v) (ValueError ''SHA256 path identity required''))
    (Inr (the_str v)))"

definition resource_length :: "string \<Rightarrow> nat" where
  "resource_length kind = (if kind = ''smac'' then 8 else 16)"

definition in_pool :: "pools \<Rightarrow> pyval \<Rightarrow> pyval \<Rightarrow> bool" where
  "in_pool p kind index \<longleftrightarrow> is_str kind \<and> (is_int index \<or> is_bool index) \<and>
     (case pool_of p (the_str kind) of None \<Rightarrow> False | Some xs \<Rightarrow> the_int index \<in> set xs)"

primrec parse_resources :: "pools \<Rightarrow> (string \<times> int) list \<Rightarrow> pyval list \<Rightarrow> exn + resource list" where
  "parse_resources p seen [] = Inr []"
| "parse_resources p seen (item # rest) = (rbnd (py_item item ''kind'') (\<lambda>kind.
  rbnd (py_item item ''index'') (\<lambda>index.
  rbnd (py_item item ''data'') (\<lambda>data.
  rbnd (from_hex_value data) (\<lambda>raw.
  rthn (rcheck (in_pool p kind index \<and> (the_str kind, the_int index) \<notin> set seen \<and>
        length raw = resource_length (the_str kind)) (ValueError ''Journal outside commissioned pools''))
  (rbnd (parse_resources p ((the_str kind, the_int index) # seen) rest) (\<lambda>rs.
  Inr (\<lparr>rs_kind = the_str kind, rs_index = the_int index, rs_data = raw\<rparr> # rs))))))))"

definition path_states :: "string list" where
  "path_states = [''installing'', ''ready'', ''removing'']"

definition validate_path_record :: "pools \<Rightarrow> pyval \<Rightarrow> exn + path_rec" where
  "validate_path_record p r = (rthn (rcheck (keys_are r [''boot'', ''state'', ''plan'', ''resources'', ''snapshot''] \<and>
        is_str (py_get r ''state'') \<and> the_str (py_get r ''state'') \<in> set path_states \<and>
        is_list (py_get r ''resources'') \<and> length (the_list (py_get r ''resources'')) = 4)
      (ValueError ''Invalid resource journal; recovery required''))
    (rbnd (parse_resources p [] (the_list (py_get r ''resources''))) (\<lambda>rs.
    Inr \<lparr>pt_boot = py_get r ''boot'', pt_state = the_str (py_get r ''state''), pt_plan = py_get r ''plan'',
         pt_resources = rs, pt_snapshot = py_get r ''snapshot''\<rparr>)))"

definition path_owner_init :: "pyval \<Rightarrow> (string \<times> pyval) list \<Rightarrow> 'e policy \<Rightarrow> exn + pools \<times> 'e path_tables" where
  "path_owner_init pools rows s = (rbnd (check_pools pools) (\<lambda>p.
    rbnd (rcollect rows (\<lambda>(key, body). (rbnd (validate_path_record p body) (\<lambda>r.
      Inr (key, r))))) (\<lambda>records.
    Inr (p, policy.extend s \<lparr>pw_rows = records, pw_paths = records, pw_recovery = (records \<noteq> [])\<rparr>))))"

definition require_path_recovery :: "(('e, 'z) path_tables_scheme, unit) py" where
  "require_path_recovery = upd (\<lambda>s. s\<lparr>pw_recovery := True\<rparr>)"

definition path_fencing :: "(('e, 'z) path_tables_scheme, 'a) py \<Rightarrow> (('e, 'z) path_tables_scheme, 'a) py" where
  "path_fencing m = catch_all m (\<lambda>e. (thn require_path_recovery
    (raise e)))"

definition save_path :: "('e, 'z) path_owner \<Rightarrow> string \<Rightarrow> path_rec \<Rightarrow> (('e, 'z) path_tables_scheme, unit) py" where
  "save_path W key r = (thn (path_fencing (thn (io (pw_commit W))
      (upd (\<lambda>s. s\<lparr>pw_rows := dict_set key r (pw_rows s)\<rparr>))))
    (upd (\<lambda>s. s\<lparr>pw_paths := dict_set key r (pw_paths s)\<rparr>)))"

section \<open>Plans\<close>

definition payload :: "string \<Rightarrow> bytes \<Rightarrow> bytes" where
  "payload kind raw = (if kind = ''nexthop'' then drop 1 raw else raw)"

definition matches :: "resource \<Rightarrow> bytes option \<Rightarrow> bool" where
  "matches item actual \<longleftrightarrow> (case actual of None \<Rightarrow> False
     | Some a \<Rightarrow> payload (rs_kind item) a = payload (rs_kind item) (rs_data item))"

definition plan_fields :: "string list" where
  "plan_fields = [''ingress'', ''egress'', ''destination'', ''zone'', ''egress_lif'', ''source_mac'', ''destination_mac'',
     ''vlan'', ''mtu'', ''route_revision'', ''neighbor_revision'', ''attachment_revision'']"

definition validate_hop_plan :: "pyval \<Rightarrow> exn + unit" where
  "validate_hop_plan d = (rthn (rcheck (keys_are d plan_fields) (ValueError ''Incomplete commissioned path''))
    (rthn (rfor [''ingress'', ''egress'', ''zone'', ''egress_lif''] (\<lambda>f. rcheck (int_in (py_get d f) 0 65535) (ValueError (''Invalid '' @ f))))
    (rthn (rcheck (py_get d ''ingress'' \<noteq> py_get d ''egress'') (ValueError ''Distinct ingress/egress required''))
    (rbnd (ipv4_of (py_get d ''destination'')) (\<lambda>addr.
    rthn (rcheck (PStr (ipv4_str addr) = py_get d ''destination'' \<and> \<not> is_multicast addr \<and> \<not> is_unspecified addr)
      (ValueError ''Invalid path destination''))
    (rthn (rfor [''route_revision'', ''neighbor_revision'', ''attachment_revision''] (\<lambda>f. (rthn (path_key (py_get d f))
      (Inr ()))))
    (rthn (encode_smac (py_get d ''source_mac''))
    (rthn (rcheck (truthy (py_get d ''destination_mac'')) (ValueError ''Resolved destination MAC required''))
    (rthn (encode_front (py_get d ''egress_lif'') (py_get d ''destination_mac'') (py_get d ''mtu'') (py_get d ''vlan'') (PInt 0))
    (Inr ()))))))))))"

definition validate_plan :: "pyval \<Rightarrow> exn + unit" where
  "validate_plan plan = (rthn (rcheck (keys_are plan [''nat_digest'', ''directions'']) (ValueError ''Invalid path plan''))
    (rthn (path_key (py_get plan ''nat_digest''))
    (let ds = the_list (py_get plan ''directions'') in
    rthn (rcheck (is_list (py_get plan ''directions'') \<and> length ds = 2) (ValueError ''Two paths required''))
    (rthn (rfor ds validate_hop_plan)
    (rcheck (py_get (ds ! 0) ''ingress'' = py_get (ds ! 1) ''egress'' \<and> py_get (ds ! 0) ''egress'' = py_get (ds ! 1) ''ingress'')
      (ValueError ''Directions do not reverse attachments''))))))"

section \<open>Allocation and installation\<close>

definition indexes_used :: "string \<Rightarrow> (string \<times> path_rec) list \<Rightarrow> int list" where
  "indexes_used kind paths =
     map rs_index (filter (\<lambda>r. rs_kind r = kind) (concat (map (\<lambda>(_, p). pt_resources p) paths)))"

text \<open>The loop over a pool: the first \<open>count\<close> unused slots that read back empty.\<close>

primrec allocate_from ::
  "('e, 'z) path_owner \<Rightarrow> string \<Rightarrow> nat \<Rightarrow> int list \<Rightarrow> int list \<Rightarrow> int list \<Rightarrow> (('e, 'z) path_tables_scheme, int list) py" where
  "allocate_from W kind count used found [] = raise (RuntimeError (''No empty commissioned '' @ kind @ '' slots''))"
| "allocate_from W kind count used found (index # rest) = (if index \<in> set used then allocate_from W kind count used found rest
     else (bnd (io (pw_fetch W kind index)) (\<lambda>actual.
       if actual \<noteq> None then allocate_from W kind count used found rest
       else if length found + 1 = count then ret (found @ [index])
       else allocate_from W kind count used (found @ [index]) rest)))"

definition allocate :: "('e, 'z) path_owner \<Rightarrow> string \<Rightarrow> nat \<Rightarrow> (('e, 'z) path_tables_scheme, int list) py" where
  "allocate W kind count = (bnd (gets (\<lambda>s. indexes_used kind (pw_paths s))) (\<lambda>used.
    allocate_from W kind count used [] (the (pool_of (pw_pools W) kind))))"

definition hop_fields :: "string list" where
  "hop_fields = [''ingress'', ''egress'', ''destination'', ''zone'', ''route_revision'', ''neighbor_revision'', ''attachment_revision'']"

text \<open>The record of a new path: both source MACs before either next hop that refers to one.\<close>

definition plan_record :: "pyval \<Rightarrow> pyval \<Rightarrow> int list \<Rightarrow> int list \<Rightarrow> exn + path_rec" where
  "plan_record boot plan smacs hops = (let ds = the_list (py_get plan ''directions'') in
    rbnd (rcollect ds (\<lambda>d. encode_smac (py_get d ''source_mac''))) (\<lambda>macs.
    rbnd (rcollect (zip ds smacs) (\<lambda>(d, i).
      encode_front (py_get d ''egress_lif'') (py_get d ''destination_mac'') (py_get d ''mtu'') (py_get d ''vlan'') (PInt i))) (\<lambda>fronts.
    Inr \<lparr>pt_boot = boot, pt_state = ''installing'', pt_plan = plan,
      pt_resources = map2 (\<lambda>i raw. \<lparr>rs_kind = ''smac'', rs_index = i, rs_data = raw\<rparr>) smacs macs @
        map2 (\<lambda>i raw. \<lparr>rs_kind = ''nexthop'', rs_index = i, rs_data = raw\<rparr>) hops fronts,
      pt_snapshot = PDict [(''nat_digest'', py_get plan ''nat_digest''),
        (''directions'', PList (map2 (\<lambda>d i. PDict (map (\<lambda>k. (k, py_get d k)) hop_fields @ [(''next_hop'', PInt i)])) ds hops))]\<rparr>)))"

definition path_current :: "('e, 'z) path_owner \<Rightarrow> string \<Rightarrow> pyval \<Rightarrow> exn \<Rightarrow> (('e, 'z) path_tables_scheme, unit) py" where
  "path_current W key plan e = (bnd (io (pw_current W key)) (\<lambda>now.
    ensure (py_eq now plan) e))"

definition path_changed :: exn where
  "path_changed = RuntimeError ''Path changed during allocation''"

definition install_resource ::
  "('e, 'z) path_owner \<Rightarrow> string \<Rightarrow> pyval \<Rightarrow> resource \<Rightarrow> (('e, 'z) path_tables_scheme, unit) py" where
  "install_resource W key plan item = (thn (path_current W key plan path_changed)
    (bnd (io (pw_fetch W (rs_kind item) (rs_index item))) (\<lambda>prior.
    thn (ensure (prior = None) (RuntimeError ''Resource ownership changed''))
    (thn (io (pw_insert W (rs_kind item) (rs_index item) (rs_data item)))
    (bnd (io (pw_fetch W (rs_kind item) (rs_index item))) (\<lambda>after.
    ensure (matches item after) (RuntimeError ''Resource readback mismatch'')))))))"

definition check_resource :: "('e, 'z) path_owner \<Rightarrow> resource \<Rightarrow> (('e, 'z) path_tables_scheme, unit) py" where
  "check_resource W item = (bnd (io (pw_fetch W (rs_kind item) (rs_index item))) (\<lambda>actual.
    ensure (matches item actual) (RuntimeError ''Hardware path readback changed'')))"

definition path_recovery_error :: exn where
  "path_recovery_error = RuntimeError ''Path recovery required''"

definition path_snapshot :: "('e, 'z) path_owner \<Rightarrow> pyval \<Rightarrow> (('e, 'z) path_tables_scheme, pyval) py" where
  "path_snapshot W key = (bnd (lift_res (path_key key)) (\<lambda>k.
    bnd (gets pw_recovery) (\<lambda>fenced.
    thn (ensure (\<not> fenced) path_recovery_error)
    (bnd (gets (\<lambda>s. dict_get (pw_paths s) k)) (\<lambda>found.
    case found of None \<Rightarrow> raise (KeyError k)
    | Some r \<Rightarrow> (thn (ensure (pt_state r = ''ready'' \<and> pt_boot r = pw_boot W) (RuntimeError ''Path generation or owner changed''))
      (thn (path_current W k (pt_plan r) (RuntimeError ''Path generation or owner changed''))
      (thn (for_each (pt_resources r) (check_resource W))
      (ret (pt_snapshot r))))))))))"

definition acquire :: "('e, 'z) path_owner \<Rightarrow> pyval \<Rightarrow> pyval \<Rightarrow> (('e, 'z) path_tables_scheme, pyval) py" where
  "acquire W key plan = (bnd (lift_res (path_key key)) (\<lambda>k.
    thn (lift_res (validate_plan plan))
    (bnd (gets pw_recovery) (\<lambda>fenced.
    thn (ensure (\<not> fenced) path_recovery_error)
    (bnd (gets pw_paths) (\<lambda>paths.
    thn (ensure (k \<notin> set (dict_keys paths)) (ValueError ''Path is already owned''))
    (thn (path_current W k plan (RuntimeError ''Path generation changed before allocation''))
    (bnd (allocate W ''smac'' 2) (\<lambda>smacs.
    bnd (allocate W ''nexthop'' 2) (\<lambda>hops.
    bnd (lift_res (plan_record (pw_boot W) plan smacs hops)) (\<lambda>r.
    thn (save_path W k r)
    (path_fencing (thn (for_each (pt_resources r) (install_resource W k plan))
      (thn (path_current W k plan path_changed)
      (thn (save_path W k (r\<lparr>pt_state := ''ready''\<rparr>))
      (path_snapshot W key))))))))))))))))"

section \<open>Release and recovery\<close>

definition release_resource :: "('e, 'z) path_owner \<Rightarrow> path_rec \<Rightarrow> resource \<Rightarrow> (('e, 'z) path_tables_scheme, unit) py" where
  "release_resource W r item = (bnd (io (pw_fetch W (rs_kind item) (rs_index item))) (\<lambda>actual.
    thn (whn (actual \<noteq> None) (thn (ensure (pt_boot r = pw_boot W \<and> matches item actual) (RuntimeError ''Resource ownership conflict; manual recovery required''))
      (io (pw_delete W (rs_kind item) (rs_index item)))))
    (bnd (io (pw_fetch W (rs_kind item) (rs_index item))) (\<lambda>again.
    ensure (again = None) (RuntimeError ''Resource removal not acknowledged'')))))"

definition release_path :: "('e, 'z) path_owner \<Rightarrow> string \<Rightarrow> path_rec \<Rightarrow> (('e, 'z) path_tables_scheme, unit) py" where
  "release_path W k r = (bnd (pw_drain W k) (\<lambda>drained.
    thn (ensure (drained = PBool True) (RuntimeError ''Dependent session drain is not acknowledged''))
    (thn (save_path W k (r\<lparr>pt_state := ''removing''\<rparr>))
    (thn (for_each (rev (pt_resources r)) (release_resource W r))
    (thn (io (pw_commit W))
    (thn (upd (\<lambda>s. s\<lparr>pw_rows := dict_del k (pw_rows s)\<rparr>))
    (upd (\<lambda>s. s\<lparr>pw_paths := dict_del k (pw_paths s)\<rparr>))))))))"

definition release :: "('e, 'z) path_owner \<Rightarrow> pyval \<Rightarrow> (('e, 'z) path_tables_scheme, unit) py" where
  "release W key = (bnd (lift_res (path_key key)) (\<lambda>k.
    bnd (gets (\<lambda>s. dict_get (pw_paths s) k)) (\<lambda>found.
    case found of None \<Rightarrow> ret () | Some r \<Rightarrow> path_fencing (release_path W k r))))"

definition path_recover :: "('e, 'z) path_owner \<Rightarrow> (('e, 'z) path_tables_scheme, unit) py" where
  "path_recover W = (thn require_path_recovery
    (bnd (gets pw_paths) (\<lambda>paths.
    thn (for_each (dict_keys paths) (\<lambda>k. release W (PStr k)))
    (upd (\<lambda>s. s\<lparr>pw_recovery := False\<rparr>)))))"

definition path_reconcile :: "('e, 'z) path_owner \<Rightarrow> (('e, 'z) path_tables_scheme, unit) py" where
  "path_reconcile W = (bnd (gets pw_recovery) (\<lambda>fenced.
    if fenced then path_recover W
    else (bnd (gets pw_paths) (\<lambda>paths.
      for_each (dict_keys paths) (\<lambda>k.
        catch_exn (thn (path_snapshot W (PStr k))
          (ret ())) (\<lambda>_. release W (PStr k)))))))"


section \<open>A slot belongs to one path\<close>

definition slots_of :: "path_rec \<Rightarrow> (string \<times> int) list" where
  "slots_of r = map (\<lambda>i. (rs_kind i, rs_index i)) (pt_resources r)"

definition slots :: "(string \<times> path_rec) list \<Rightarrow> (string \<times> int) list" where
  "slots d = concat (map (\<lambda>(_, r). slots_of r) d)"

definition slot_in :: "pools \<Rightarrow> string \<times> int \<Rightarrow> bool" where
  "slot_in p x = (case pool_of p (fst x) of None \<Rightarrow> False | Some is \<Rightarrow> snd x \<in> set is)"

text \<open>
  No slot is held twice, every slot lies in its commissioned pool, and the journal holds
  what the owner holds.
\<close>

definition book_ok :: "pools \<Rightarrow> (string \<times> path_rec) list \<Rightarrow> bool" where
  "book_ok p d \<longleftrightarrow> dict_ok d \<and> distinct (slots d) \<and> list_all (slot_in p) (slots d)"

definition slots_exclusive :: "pools \<Rightarrow> ('e, 'z) path_tables_scheme \<Rightarrow> bool" where
  "slots_exclusive p s \<longleftrightarrow> pw_rows s = pw_paths s \<and> book_ok p (pw_paths s)"

definition pools_ok :: "pools \<Rightarrow> bool" where
  "pools_ok p \<longleftrightarrow> distinct (pl_smac p) \<and> distinct (pl_nexthop p)"

lemma slots_Cons [simp]: "slots ((k, r) # d) = slots_of r @ slots d"
  by (simp add: slots_def)

lemma slots_Nil [simp]: "slots [] = []"
  by (simp add: slots_def)

lemma slots_new: "k \<notin> set (dict_keys d) \<Longrightarrow> slots (dict_set k r d) = slots d @ slots_of r"
  by (induction d) auto

lemma slots_same: "dict_get d k = Some r0 \<Longrightarrow> slots_of r = slots_of r0 \<Longrightarrow> slots (dict_set k r d) = slots d"
  by (induction d) (auto split: if_splits)

lemma slots_del_sub: "set (slots (dict_del k d)) \<subseteq> set (slots d)"
  by (induction d) auto

lemma slots_del_distinct: "distinct (slots d) \<Longrightarrow> distinct (slots (dict_del k d))"
  using slots_del_sub [of k] by (induction d) (auto, blast+)

lemma book_new:
  assumes "book_ok p d" "k \<notin> set (dict_keys d)" "distinct (slots_of r)" "list_all (slot_in p) (slots_of r)"
    "set (slots_of r) \<inter> set (slots d) = {}"
  shows "book_ok p (dict_set k r d)"
  using assms by (auto simp: book_ok_def slots_new)

lemma book_same: "book_ok p d \<Longrightarrow> dict_get d k = Some r0 \<Longrightarrow> slots_of r = slots_of r0 \<Longrightarrow> book_ok p (dict_set k r d)"
  by (simp add: book_ok_def slots_same)

lemma book_del: "book_ok p d \<Longrightarrow> book_ok p (dict_del k d)"
  using slots_del_sub [of k d] by (auto simp: book_ok_def slots_del_distinct list_all_iff)

text \<open>Code that only reads and writes the tables leaves the owner's fields alone.\<close>

abbreviation held :: "'z \<Rightarrow> ('e, 'z) policy_scheme \<Rightarrow> bool" where
  "held m s \<equiv> policy.more s = m"

lemma held_io: "pres (held m) (io a)"
  by (rule pres_io) simp

lemma held_tables:
  "pres (held m) (path_current W k plan e)" "pres (held m) (install_resource W k plan item)"
  "pres (held m) (check_resource W item)" "pres (held m) (release_resource W r item)"
  "pres (held m) (path_snapshot W key)" "pres (held m) (allocate_from W kind n used found pool)"
proof -
  show now: "pres (held m) (path_current W k plan e)" for k plan e
    unfolding path_current_def by (intro pres_intros held_io)
  show "pres (held m) (install_resource W k plan item)"
    unfolding install_resource_def by (intro pres_intros held_io now)
  show check: "pres (held m) (check_resource W item)" for item
    unfolding check_resource_def by (intro pres_intros held_io)
  show "pres (held m) (release_resource W r item)"
    unfolding release_resource_def by (intro pres_intros held_io)
  show "pres (held m) (path_snapshot W key)"
    unfolding path_snapshot_def by (intro pres_intros now check)
  show "pres (held m) (allocate_from W kind n used found pool)"
    by (induction pool arbitrary: found) (auto intro!: pres_intros held_io)
qed

lemma held_fields:
  fixes s s' :: "('e, 'z) path_tables_scheme"
  assumes "policy.more s' = policy.more s"
  shows "pw_paths s' = pw_paths s \<and> pw_rows s' = pw_rows s \<and> pw_recovery s' = pw_recovery s"
  using assms by (cases s; cases s'; simp)

text \<open>Allocation: unused slots of the pool, without repetition.\<close>

lemma allocate_from_wp:
  assumes "distinct (found @ pool)" "length found < n" "set found \<inter> set used = {}"
  shows "wp (allocate_from W kind n used found pool)
     (\<lambda>xs s'. length xs = n \<and> distinct xs \<and> set xs \<inter> set used = {} \<and> set xs \<subseteq> set (found @ pool)) (\<lambda>_ _. True) s"
  using assms
proof (induction pool arbitrary: found s)
  case (Cons i pool)
  have ih: "wp (allocate_from W kind n used found pool)
     (\<lambda>xs s'. length xs = n \<and> distinct xs \<and> set xs \<inter> set used = {} \<and> set xs \<subseteq> set (found @ i # pool)) (\<lambda>_ _. True) s1" for s1
    by (rule wp_mono [OF Cons.IH]) (use Cons.prems in auto)
  have onward: "wp (allocate_from W kind n used (found @ [i]) pool)
     (\<lambda>xs s'. length xs = n \<and> distinct xs \<and> set xs \<inter> set used = {} \<and> set xs \<subseteq> set (found @ i # pool)) (\<lambda>_ _. True) s1"
    if "i \<notin> set used" "length found + 1 \<noteq> n" for s1
    by (rule wp_mono [OF Cons.IH]) (use Cons.prems that in auto)
  show ?case
    using ih onward Cons.prems
    by (auto simp: wp_bnd wp_if wp_ret intro!: wp_io)
qed (simp add: wp_simps)

lemma allocate_wp:
  fixes s :: "('e, 'z) path_tables_scheme"
  assumes "pools_ok (pw_pools W)" "kind = ''smac'' \<or> kind = ''nexthop''" "0 < n"
  shows "wp (allocate W kind n)
     (\<lambda>xs s'. policy.more s' = policy.more s \<and> length xs = n \<and> distinct xs \<and>
        list_all (\<lambda>i. slot_in (pw_pools W) (kind, i) \<and> (kind, i) \<notin> set (slots (pw_paths s))) xs)
     (\<lambda>_ s'. policy.more s' = policy.more s) s"
proof -
  let ?pool = "the (pool_of (pw_pools W) kind)"
  have used: "(kind, i) \<in> set (slots d) \<longleftrightarrow> i \<in> set (indexes_used kind d)" for i d
  proof (induction d)
    case (Cons x d)
    obtain k r where x: "x = (k, r)" by (cases x)
    have "indexes_used kind (x # d) = map rs_index (filter (\<lambda>i. rs_kind i = kind) (pt_resources r)) @ indexes_used kind d"
      by (simp add: indexes_used_def x)
    with Cons show ?case by (auto simp: x slots_of_def)
  qed (simp add: indexes_used_def)
  have pool: "distinct ?pool" "slot_in (pw_pools W) (kind, i) \<longleftrightarrow> i \<in> set ?pool" for i
    using assms(1,2) by (auto simp: pools_ok_def pool_of_def slot_in_def)
  have "wp (allocate_from W kind n used [] ?pool)
     (\<lambda>xs s'. length xs = n \<and> distinct xs \<and> set xs \<inter> set used = {} \<and> set xs \<subseteq> set ([] @ ?pool)) (\<lambda>_ _. True) s" for used
    by (rule allocate_from_wp) (use pool(1) assms(3) in auto)
  moreover have "wp (allocate_from W kind n used [] ?pool) (\<lambda>_. held (policy.more s)) (\<lambda>_. held (policy.more s)) s" for used
    by (rule wp_pres [OF held_tables(6)]) simp
  ultimately have both: "wp (allocate_from W kind n used [] ?pool)
     (\<lambda>xs s'. (length xs = n \<and> distinct xs \<and> set xs \<inter> set used = {} \<and> set xs \<subseteq> set ([] @ ?pool)) \<and> held (policy.more s) s')
     (\<lambda>_ s'. True \<and> held (policy.more s) s') s" for used
    by (simp only: wp_conj)
  show ?thesis
    unfolding allocate_def wp_bnd wp_gets
    by (rule wp_mono [OF both]) (auto simp: list_all_iff used pool(2))
qed

lemma plan_record_slots:
  assumes "plan_record boot plan smacs hops = Inr r" "validate_plan plan = Inr u" "length smacs = 2" "length hops = 2"
  shows "slots_of r = map (Pair ''smac'') smacs @ map (Pair ''nexthop'') hops"
proof -
  from assms(2) have "length (the_list (py_get plan ''directions'')) = 2"
    by (auto simp: validate_plan_def res_iffs Let_def)
  with assms show ?thesis
    by (auto simp: plan_record_def res_iffs Let_def slots_of_def rcollect_Inr_iff numeral_2_eq_2 length_Suc_conv
        list_all2_Cons1)
qed

lemma save_path_wp:
  fixes s :: "('e, 'z) path_tables_scheme"
  shows "wp (save_path W k r)
     (\<lambda>_ s'. pw_rows s' = dict_set k r (pw_rows s) \<and> pw_paths s' = dict_set k r (pw_paths s))
     (\<lambda>_ s'. pw_rows s' = pw_rows s \<and> pw_paths s' = pw_paths s) s"
  unfolding save_path_def path_fencing_def require_path_recovery_def wp_thn wp_catch_all
  by (rule wp_io) (simp_all add: wp_simps)

text \<open>The drain of dependent sessions does not touch the path owner's books.\<close>

definition drain_keeps :: "('e, 'z) path_owner \<Rightarrow> bool" where
  "drain_keeps W \<longleftrightarrow> (\<forall>k s. pw_paths (snd (pw_drain W k s)) = pw_paths s \<and> pw_rows (snd (pw_drain W k s)) = pw_rows s)"

lemma exclusive_pres_held:
  assumes "\<And>m. pres (held m) c"
  shows "pres (slots_exclusive p) (c :: (('e, 'z) path_tables_scheme, 'a) py)"
  unfolding pres_wp
proof (intro allI impI)
  fix s :: "('e, 'z) path_tables_scheme" assume "slots_exclusive p s"
  then show "wp c (\<lambda>_. slots_exclusive p) (\<lambda>_. slots_exclusive p) s"
    by (intro wp_mono [OF wp_pres [OF assms [of "policy.more s"] refl]]) (auto simp: slots_exclusive_def dest!: held_fields)
qed

lemma exclusive_fencing: "pres (slots_exclusive p) c \<Longrightarrow> pres (slots_exclusive p) (path_fencing c)"
  unfolding path_fencing_def require_path_recovery_def
  by (intro pres_intros pres_upd) (simp_all add: slots_exclusive_def)

lemma exclusive_save:
  assumes "book_ok p (dict_set k r (pw_paths s))" "slots_exclusive p s"
  shows "wp (save_path W k r) (\<lambda>_. slots_exclusive p) (\<lambda>_. slots_exclusive p) s"
  by (rule wp_mono [OF save_path_wp]) (use assms in \<open>auto simp: slots_exclusive_def\<close>)

lemma wp_fencing_path:
  assumes "wp c Q E s" "\<And>e s'. E e s' \<Longrightarrow> E e (s'\<lparr>pw_recovery := True\<rparr>)"
  shows "wp (path_fencing c) Q E s"
  unfolding path_fencing_def require_path_recovery_def
  by (rule wp_catch_allI [OF assms(1)]) (use assms(2) in \<open>auto simp: wp_simps\<close>)

lemma exclusive_flag [simp]: "slots_exclusive p (s\<lparr>pw_recovery := b\<rparr>) = slots_exclusive p s"
  by (simp add: slots_exclusive_def)

lemma exclusive_release:
  fixes W :: "('e, 'z) path_owner"
  assumes "drain_keeps W"
  shows "pres (slots_exclusive p) (release W key)"
proof -
  have body: "wp (release_path W k r) (\<lambda>_. slots_exclusive p) (\<lambda>_. slots_exclusive p) s"
    if s: "slots_exclusive p s" "dict_get (pw_paths s) k = Some r" for s :: "('e, 'z) path_tables_scheme" and k r
  proof -
    have "wp (pw_drain W k) (\<lambda>_ s'. pw_paths s' = pw_paths s \<and> pw_rows s' = pw_rows s)
        (\<lambda>_ s'. pw_paths s' = pw_paths s \<and> pw_rows s' = pw_rows s) s"
      using assms by (auto simp: drain_keeps_def wp_def split: prod.split sum.split dest!: spec [of _ k] spec [of _ s])
    then show ?thesis
      unfolding release_path_def
    proof (rule wp_bndI, goal_cases)
      case (1 ack s1)
      have upds: "pres (slots_exclusive p) (thn (upd (\<lambda>s :: ('e, 'z) path_tables_scheme. s\<lparr>pw_rows := dict_del k (pw_rows s)\<rparr>))
          (upd (\<lambda>s. s\<lparr>pw_paths := dict_del k (pw_paths s)\<rparr>)))"
        by (auto simp: pres_wp wp_simps slots_exclusive_def book_del)
      have rest: "pres (slots_exclusive p) (thn (for_each (rev (pt_resources r)) (release_resource W r))
          (thn (io (pw_commit W)) (thn (upd (\<lambda>s. s\<lparr>pw_rows := dict_del k (pw_rows s)\<rparr>))
            (upd (\<lambda>s. s\<lparr>pw_paths := dict_del k (pw_paths s)\<rparr>)))))"
        by (intro pres_thn [OF _ pres_thn [OF _ upds]] pres_for_each exclusive_pres_held held_io held_tables)
      have ok: "slots_exclusive p s1" "dict_get (pw_paths s1) k = Some r" using 1 s by (auto simp: slots_exclusive_def)
      then have "book_ok p (dict_set k (r\<lparr>pt_state := ''removing''\<rparr>) (pw_paths s1))"
        by (auto simp: slots_exclusive_def slots_of_def intro: book_same)
      with ok(1) show ?case
        unfolding wp_thn [of "ensure b e" for b e] wp_ensure
        using wp_thnI [OF exclusive_save wp_pres [OF rest]] by auto
    qed (use s in \<open>auto simp: slots_exclusive_def\<close>)
  qed
  have "wp (release W key) (\<lambda>_. slots_exclusive p) (\<lambda>_. slots_exclusive p) s"
    if "slots_exclusive p s" for s :: "('e, 'z) path_tables_scheme"
    using that unfolding release_def wp_bnd wp_lift_res wp_gets wp_option wp_ret
    by (auto split: sum.split option.split intro!: wp_fencing_path body)
  then show ?thesis by (simp add: pres_wp)
qed


lemma exclusive_current: "pres (slots_exclusive p) (path_current W k plan e)"
  by (intro exclusive_pres_held held_tables)

lemma exclusive_acquire:
  fixes W :: "('e, 'z) path_owner"
  assumes "pools_ok (pw_pools W)"
  shows "pres (slots_exclusive (pw_pools W)) (acquire W key plan)"
proof -
  let ?p = "pw_pools W"
  have finish: "wp (thn (save_path W k r) (path_fencing
      (thn (for_each (pt_resources r) (install_resource W k plan))
      (thn (path_current W k plan path_changed)
      (thn (save_path W k (r\<lparr>pt_state := ''ready''\<rparr>)) (path_snapshot W key))))))
      (\<lambda>_. slots_exclusive ?p) (\<lambda>_. slots_exclusive ?p) s"
    if new: "slots_exclusive ?p s" "book_ok ?p (dict_set k r (pw_paths s))" for s :: "('e, 'z) path_tables_scheme" and k r
  proof (rule wp_thnI [where E' = "\<lambda>_. slots_exclusive ?p" and
        P = "\<lambda>_ s'. slots_exclusive ?p s' \<and> dict_get (pw_paths s') k = Some r"])
    show "wp (save_path W k r) (\<lambda>_ s'. slots_exclusive ?p s' \<and> dict_get (pw_paths s') k = Some r) (\<lambda>_. slots_exclusive ?p) s"
      by (rule wp_mono [OF save_path_wp]) (use new in \<open>auto simp: slots_exclusive_def\<close>)
  next
    fix s1 :: "('e, 'z) path_tables_scheme"
    assume s1: "slots_exclusive ?p s1 \<and> dict_get (pw_paths s1) k = Some r"
    let ?I = "\<lambda>s' :: ('e, 'z) path_tables_scheme. slots_exclusive ?p s' \<and> dict_get (pw_paths s') k = Some r"
    have keep: "pres ?I c" if "\<And>m. pres (held m) c" for c :: "(('e, 'z) path_tables_scheme, 'a) py"
      unfolding pres_wp
      by (intro allI impI wp_mono [OF wp_pres [OF that refl]]) (auto simp: slots_exclusive_def dest!: held_fields)
    have ready: "wp (thn (save_path W k (r\<lparr>pt_state := ''ready''\<rparr>)) (path_snapshot W key))
        (\<lambda>_. slots_exclusive ?p) (\<lambda>_. slots_exclusive ?p) s2" if "?I s2" for s2
      by (rule wp_thnI [OF exclusive_save])
        (use that in \<open>auto simp: slots_exclusive_def slots_of_def intro: book_same
          intro!: wp_mono [OF wp_pres [OF exclusive_pres_held [OF held_tables(5)], of ?p]]\<close>)
    have "wp (thn (for_each (pt_resources r) (install_resource W k plan))
        (thn (path_current W k plan path_changed)
        (thn (save_path W k (r\<lparr>pt_state := ''ready''\<rparr>)) (path_snapshot W key))))
        (\<lambda>_. slots_exclusive ?p) (\<lambda>_. slots_exclusive ?p) s1"
    proof (rule wp_thnI [where P = "\<lambda>_. ?I" and E' = "\<lambda>_. ?I"])
      show "wp (for_each (pt_resources r) (install_resource W k plan)) (\<lambda>_. ?I) (\<lambda>_. ?I) s1"
        by (rule wp_pres [OF pres_for_each [OF keep [OF held_tables(2)]] s1])
      fix s2 :: "('e, 'z) path_tables_scheme" assume "?I s2"
      then show "wp (thn (path_current W k plan path_changed)
          (thn (save_path W k (r\<lparr>pt_state := ''ready''\<rparr>)) (path_snapshot W key)))
          (\<lambda>_. slots_exclusive ?p) (\<lambda>_. slots_exclusive ?p) s2"
        by (intro wp_thnI [OF wp_pres [OF keep [OF held_tables(1)]]] ready) auto
    qed auto
    then show "wp (path_fencing (thn (for_each (pt_resources r) (install_resource W k plan))
        (thn (path_current W k plan path_changed)
        (thn (save_path W k (r\<lparr>pt_state := ''ready''\<rparr>)) (path_snapshot W key)))))
        (\<lambda>_. slots_exclusive ?p) (\<lambda>_. slots_exclusive ?p) s1"
      by (rule wp_fencing_path) simp
  qed auto
  have alloc: "wp (bnd (allocate W ''smac'' 2) (\<lambda>smacs. bnd (allocate W ''nexthop'' 2) (\<lambda>hops.
      bnd (lift_res (plan_record (pw_boot W) plan smacs hops)) (\<lambda>r. thn (save_path W k r) (path_fencing
      (thn (for_each (pt_resources r) (install_resource W k plan))
      (thn (path_current W k plan path_changed)
      (thn (save_path W k (r\<lparr>pt_state := ''ready''\<rparr>)) (path_snapshot W key)))))))))
      (\<lambda>_. slots_exclusive ?p) (\<lambda>_. slots_exclusive ?p) s"
    if s: "slots_exclusive ?p s" "k \<notin> set (dict_keys (pw_paths s))" "validate_plan plan = Inr ()"
    for s :: "('e, 'z) path_tables_scheme" and k
  proof (rule wp_bndI [OF allocate_wp [OF assms]], simp, simp, goal_cases)
    case (1 smacs s1)
    show ?case
    proof (rule wp_bndI [OF allocate_wp [OF assms]], simp, simp, goal_cases)
      case (1 hops s2)
      have same: "policy.more s2 = policy.more s" using 1 \<open>policy.more s1 = policy.more s \<and> _\<close> by simp
      then have s2: "slots_exclusive ?p s2" "pw_paths s2 = pw_paths s" "pw_paths s1 = pw_paths s"
        using s(1) \<open>policy.more s1 = policy.more s \<and> _\<close> by (auto simp: slots_exclusive_def dest!: held_fields)
      have "book_ok ?p (dict_set k r (pw_paths s2))" if "plan_record (pw_boot W) plan smacs hops = Inr r" for r
      proof (rule book_new)
        have "slots_of r = map (Pair ''smac'') smacs @ map (Pair ''nexthop'') hops"
          using that s(3) 1 \<open>policy.more s1 = policy.more s \<and> _\<close> by (intro plan_record_slots) auto
        then show "distinct (slots_of r)" "list_all (slot_in ?p) (slots_of r)" "set (slots_of r) \<inter> set (slots (pw_paths s2)) = {}"
          using 1 \<open>policy.more s1 = policy.more s \<and> _\<close> s2 by (auto simp: distinct_map inj_on_def list_all_iff)
      qed (use s2 s in \<open>auto simp: slots_exclusive_def\<close>)
      then show ?case
        unfolding wp_bnd [of "lift_res r" for r] wp_lift_res
        using s2(1) by (auto split: sum.split intro!: finish)
    qed (use 1 s(1) in \<open>auto simp: slots_exclusive_def dest!: held_fields\<close>)
  qed (use s(1) in \<open>auto simp: slots_exclusive_def dest!: held_fields\<close>)
  have "wp (acquire W key plan) (\<lambda>_. slots_exclusive ?p) (\<lambda>_. slots_exclusive ?p) s" if s: "slots_exclusive ?p s"
    for s :: "('e, 'z) path_tables_scheme"
  proof -
    have "wp (thn (path_current W k plan (RuntimeError ''Path generation changed before allocation''))
      (bnd (allocate W ''smac'' 2) (\<lambda>smacs. bnd (allocate W ''nexthop'' 2) (\<lambda>hops.
      bnd (lift_res (plan_record (pw_boot W) plan smacs hops)) (\<lambda>r. thn (save_path W k r) (path_fencing
      (thn (for_each (pt_resources r) (install_resource W k plan))
      (thn (path_current W k plan path_changed)
      (thn (save_path W k (r\<lparr>pt_state := ''ready''\<rparr>)) (path_snapshot W key)))))))))) 
      (\<lambda>_. slots_exclusive ?p) (\<lambda>_. slots_exclusive ?p) s"
      if "k \<notin> set (dict_keys (pw_paths s))" "validate_plan plan = Inr ()" for k
      by (rule wp_thnI [OF wp_pres [OF held_tables(1) refl]], rule alloc)
        (use that s in \<open>auto simp: slots_exclusive_def dest!: held_fields\<close>)
    then show ?thesis
      unfolding acquire_def wp_bnd [of "lift_res r" for r] wp_bnd [of "gets f" for f] wp_thn [of "lift_res r" for r]
        wp_thn [of "ensure b e" for b e] wp_lift_res wp_gets wp_ensure
      using s by (auto split: sum.split)
  qed
  then show ?thesis by (simp add: pres_wp)
qed


lemma exclusive_recover:
  "drain_keeps W \<Longrightarrow> pres (slots_exclusive p) (path_recover W)"
  unfolding path_recover_def require_path_recovery_def
  by (intro pres_intros pres_upd exclusive_release) simp_all

lemma exclusive_reconcile:
  "drain_keeps W \<Longrightarrow> pres (slots_exclusive p) (path_reconcile W)"
  unfolding path_reconcile_def
  by (intro pres_intros exclusive_recover exclusive_release exclusive_pres_held held_tables)

text \<open>
  The life of a path owner: a start on a journal whose records do not overlap, operations
  in any order, steps of the other components, and restarts that reload the journal.
\<close>

inductive path_run :: "('e, unit) path_owner \<Rightarrow> 'e path_tables \<Rightarrow> bool" for W where
  path_start: "path_owner_init pools rows pol = Inr (pw_pools W, s) \<Longrightarrow> book_ok (pw_pools W) (pw_rows s) \<Longrightarrow> path_run W s"
| path_acquire: "path_run W s \<Longrightarrow> path_run W (snd (acquire W key plan s))"
| path_release: "path_run W s \<Longrightarrow> path_run W (snd (release W key s))"
| path_recovers: "path_run W s \<Longrightarrow> path_run W (snd (path_recover W s))"
| path_reconciles: "path_run W s \<Longrightarrow> path_run W (snd (path_reconcile W s))"
| path_other: "path_run W s \<Longrightarrow> policy.more s' = policy.more s \<Longrightarrow> path_run W s'"
| path_restart: "path_run W s \<Longrightarrow> path_run W (s\<lparr>pw_paths := pw_rows s, pw_recovery := (pw_rows s \<noteq> [])\<rparr>)"

lemma check_pools_ok: "check_pools pools = Inr p \<Longrightarrow> pools_ok p"
  by (auto simp: check_pools_def check_pool_def res_iffs pools_ok_def)

lemma path_run_exclusive:
  "path_run W s \<Longrightarrow> drain_keeps W \<Longrightarrow> pools_ok (pw_pools W) \<and> slots_exclusive (pw_pools W) s"
proof (induction rule: path_run.induct)
  case (path_start pools rows pol s)
  then show ?case by (auto simp: path_owner_init_def res_iffs slots_exclusive_def policy.extend_def intro: check_pools_ok)
next
  case (path_other s s')
  then show ?case by (auto simp: slots_exclusive_def dest!: held_fields)
next
  case (path_restart s)
  then show ?case by (simp add: slots_exclusive_def)
qed (auto intro: pres_snd [OF exclusive_acquire] pres_snd [OF exclusive_release] pres_snd [OF exclusive_recover]
  pres_snd [OF exclusive_reconcile])

text \<open>
  C14.  Over any life of the path owner (acquisitions, releases, recoveries, reconciliations,
  failing anywhere, and restarts), every hardware slot it holds belongs to exactly one path,
  lies in its commissioned pool, and is held by the durable journal as well.
\<close>

theorem path_slots_exclusive:
  assumes "path_run W s" and "drain_keeps W"
  shows "distinct (slots (pw_paths s)) \<and> list_all (slot_in (pw_pools W)) (slots (pw_paths s)) \<and> pw_rows s = pw_paths s"
  using path_run_exclusive [OF assms] by (simp add: slots_exclusive_def book_ok_def)

section \<open>A concrete owner\<close>

type_synonym slot_table = "((string \<times> int) \<times> bytes) list"

definition sample_hop :: "int \<Rightarrow> int \<Rightarrow> string \<Rightarrow> pyval" where
  "sample_hop a b destination = PDict [(''ingress'', PInt a), (''egress'', PInt b), (''destination'', PStr destination),
     (''zone'', PInt 1), (''egress_lif'', PInt b), (''source_mac'', PStr ''02:00:00:00:00:01''),
     (''destination_mac'', PStr ''02:00:00:00:00:02''), (''vlan'', PNone), (''mtu'', PInt 1500),
     (''route_revision'', policy_a), (''neighbor_revision'', policy_a), (''attachment_revision'', policy_a)]"

definition sample_plan :: pyval where
  "sample_plan = PDict [(''nat_digest'', policy_a), (''directions'', PList [sample_hop 1 2 ''10.0.0.2'', sample_hop 2 1 ''10.0.0.1''])]"

definition sample_paths :: "(slot_table, unit) path_owner" where
  "sample_paths = \<lparr>pw_fetch = (\<lambda>k i. gets (\<lambda>t. map_of t (k, i))), pw_insert = (\<lambda>k i b. upd (dict_set (k, i) b)),
     pw_delete = (\<lambda>k i. upd (dict_del (k, i))), pw_commit = ret (), pw_boot = PStr ''boot'', pw_current = (\<lambda>_. ret sample_plan),
     pw_drain = (\<lambda>_. ret (PBool True)), pw_pools = \<lparr>pl_smac = [4, 5, 6], pl_nexthop = [8, 9, 10]\<rparr>\<rparr>"

definition empty_policy :: "slot_table policy" where
  "empty_policy = mgr.extend \<lparr>env = [], jrows = [], sessions = [], recovery_required = False, trace = []\<rparr>
     \<lparr>pol_state = default_state, pol_saved = default_state, activated = False, dependencies = [], pol_ids = sample_book 65536\<rparr>"

definition sample_tables :: "slot_table path_tables" where
  "sample_tables = policy.extend empty_policy \<lparr>pw_rows = [], pw_paths = [], pw_recovery = False\<rparr>"

lemma sample_acquired:
  "slots (pw_paths (snd (acquire sample_paths policy_a sample_plan sample_tables))) =
     [(''smac'', 4), (''smac'', 5), (''nexthop'', 8), (''nexthop'', 9)]"
  by code_simp

theorem path_slots_exclusive_witness:
  "distinct [(''smac'', 4), (''smac'', 5), (''nexthop'', 8), (''nexthop'', 9 :: int)]"
proof -
  have "path_owner_init (PDict [(''smac'', PList [PInt 4, PInt 5, PInt 6]), (''nexthop'', PList [PInt 8, PInt 9, PInt 10])]) []
      empty_policy = Inr (pw_pools sample_paths, sample_tables)"
    by (simp add: path_owner_init_def check_pools_def check_pool_def keys_are_def py_get_def int_in_def sample_paths_def
        sample_tables_def insert_commute)
  moreover have "book_ok (pw_pools sample_paths) (pw_rows sample_tables)"
    by (simp add: book_ok_def sample_tables_def policy.extend_def)
  ultimately have "path_run sample_paths (snd (acquire sample_paths policy_a sample_plan sample_tables))"
    by (intro path_acquire path_start)
  moreover have "drain_keeps sample_paths" by (simp add: drain_keeps_def sample_paths_def ret_def)
  ultimately show ?thesis using path_slots_exclusive sample_acquired by fastforce
qed

end
