(* ===== verification/PathSessions.thy ===== *)
theory PathSessions
  imports PathOwner
begin

text \<open>
  \<open>PathSessions\<close> of \<open>ffn_fe100_path_sessions.py\<close>: the policy owner's path lookup is the path
  owner's snapshot, and the path owner drains its sessions through the policy owner.
\<close>

definition path_id :: "pyval \<Rightarrow> exn + string" where
  "path_id request = (rbnd (py_item request ''session_id'') (\<lambda>sid.
    rthn (uint_arg sid 31 ''session ID'')
    (rbnd (py_item request ''revision'') (\<lambda>revision.
    rthn (uint_arg revision 64 ''revision'')
    (rbnd (py_item request ''policy_digest'') (\<lambda>policy.
    digest (PDict [(''session_id'', sid), (''revision'', revision), (''policy_digest'', policy)])))))))"

definition path_lookup :: "('e, 'z) path_owner \<Rightarrow> pyval \<Rightarrow> (('e, 'z) path_tables_scheme, pyval) py" where
  "path_lookup W request = (bnd (lift_res (path_id request)) (\<lambda>k.
    path_snapshot W (PStr k)))"

type_synonym ('e, 'z) path_policy = "('e, ('e, 'z) path_tables_scheme) powner"

definition deactivate :: "(('e, 'z) policy_scheme, unit) py" where
  "deactivate = upd (\<lambda>s. s\<lparr>activated := False\<rparr>)"

text \<open>Some dependency of the policy owner refers to the path \<open>k\<close>.\<close>

definition refers :: "string \<Rightarrow> pyval \<Rightarrow> exn + bool" where
  "refers k request = (rbnd (path_id request) (\<lambda>own.
    Inr (own = k)))"

definition drain_path :: "('e, ('e, 'z) policy_scheme) powner \<Rightarrow> string \<Rightarrow> (('e, 'z) policy_scheme, pyval) py" where
  "drain_path P k = (bnd (gets (\<lambda>s. recovery_required s \<or> \<not> set (dict_keys (sessions s)) \<subseteq> set (dict_keys (dependencies s)))) (\<lambda>unknown.
    thn (whn unknown (thn deactivate
      (thn (reconcile P)
      (ret ()))))
    (bnd (gets dependencies) (\<lambda>deps.
    thn (for_each deps (\<lambda>(sid, request). (bnd (lift_res (refers k request)) (\<lambda>mine.
      whn mine (thn (revoke P (PInt sid))
        (ret ()))))))
    (bnd (gets recovery_required) (\<lambda>fenced.
    if fenced then ret (PBool False)
    else (bnd (gets dependencies) (\<lambda>left.
      bnd (lift_res (rcollect left (\<lambda>(sid, request). refers k request))) (\<lambda>found.
      ret (PBool (list_all Not found)))))))))))"

text \<open>The two owners wired together: \<open>policy.paths = self.lookup; resources.drain = self.drain\<close>.\<close>

definition wired_policy :: "('e, 'z) path_owner \<Rightarrow> ('e, 'z) path_policy \<Rightarrow> ('e, 'z) path_policy" where
  "wired_policy W P = P\<lparr>po_paths := Some (path_lookup W)\<rparr>"

definition wired_paths :: "('e, 'z) path_owner \<Rightarrow> ('e, 'z) path_policy \<Rightarrow> ('e, 'z) path_owner" where
  "wired_paths W P = W\<lparr>pw_drain := drain_path (wired_policy W P)\<rparr>"

definition path_decision :: "('e, 'z) policy_scheme \<Rightarrow> pyval \<Rightarrow> bool" where
  "path_decision s request \<longleftrightarrow> py_eq (py_get request ''revision'') (PInt (p_revision (pol_state s))) \<and>
     py_eq (py_get request ''policy_digest'') (p_digest (pol_state s)) \<and> py_get request ''verdict'' = PStr ''allow'' \<and>
     py_get request ''inspection_required'' = PBool False \<and> py_get request ''established'' = PBool True \<and>
     is_bool (py_get request ''nat_required'')"

definition with_field :: "pyval \<Rightarrow> string \<Rightarrow> pyval \<Rightarrow> pyval" where
  "with_field d k v = PDict (dict_set k v (the_dict d))"

definition path_admit :: "('e, 'z) path_owner \<Rightarrow> ('e, 'z) path_policy \<Rightarrow> pyval \<Rightarrow> pyval \<Rightarrow> (('e, 'z) path_tables_scheme, pyval) py" where
  "path_admit W P request plan = (thn (ensure (is_dict request \<and> \<not> has_key request ''path_digest'') (ValueError ''Path digest is assigned by the resource owner''))
    (bnd (lift_res (path_id request)) (\<lambda>k.
    thn (reconcile P)
    (bnd (gets admission_enabled) (\<lambda>enabled.
    thn (ensure enabled (RuntimeError ''Policy admission blocked''))
    (bnd (gets (\<lambda>s. the_int (py_get request ''session_id'') \<in> set (dict_keys (sessions s)))) (\<lambda>owned.
    thn (ensure (\<not> owned) (ValueError ''Session already owned''))
    (bnd (gets (\<lambda>s. path_decision s request)) (\<lambda>current.
    thn (ensure current (ValueError ''Current explicit software decision required''))
    (thn (whn (truthy (py_get request ''nat_required'')) (bnd (io (po_nat_qualified P)) (\<lambda>q.
      ensure (q = PBool True) (RuntimeError ''NAT qualification required''))))
    (catch_all (bnd (acquire W (PStr k) plan) (\<lambda>snapshot.
      bnd (lift_res (digest snapshot)) (\<lambda>d.
      admit P (with_field request ''path_digest'' (PStr d))))) (\<lambda>e. (thn deactivate
      (thn (reconcile P)
      (thn (release W (PStr k))
      (raise e))))))))))))))))"

text \<open>A failure of either owner deactivates admission.\<close>

definition deactivating :: "(('e, 'z) policy_scheme, 'a) py \<Rightarrow> (('e, 'z) policy_scheme, 'a) py" where
  "deactivating m = catch_all m (\<lambda>e. (thn deactivate
    (raise e)))"

definition path_revoke :: "('e, 'z) path_owner \<Rightarrow> ('e, 'z) path_policy \<Rightarrow> pyval \<Rightarrow> (('e, 'z) path_tables_scheme, unit) py" where
  "path_revoke W P session_id = (bnd (gets (\<lambda>s. if is_int session_id then dict_get (dependencies s) (the_int session_id) else None)) (\<lambda>request.
    deactivating (thn (revoke P session_id)
      (case request of None \<Rightarrow> ret ()
      | Some r \<Rightarrow> (bnd (lift_res (path_id r)) (\<lambda>k.
        release W (PStr k)))))))"

definition path_status :: "('e, 'z) path_tables_scheme \<Rightarrow> pyval" where
  "path_status s = PDict [(''policy'', policy_status s), (''paths'', PInt (int (length (pw_paths s)))),
     (''path_recovery_required'', PBool (pw_recovery s))]"

definition paths_reconcile :: "('e, 'z) path_owner \<Rightarrow> ('e, 'z) path_policy \<Rightarrow> (('e, 'z) path_tables_scheme, pyval) py" where
  "paths_reconcile W P = (thn (deactivating (bnd (gets pw_recovery) (\<lambda>fenced.
      thn (whn fenced deactivate)
      (thn (reconcile P)
      (thn (path_reconcile W)
      (bnd (gets dependencies) (\<lambda>deps.
      bnd (lift_res (rcollect deps (\<lambda>(sid, r). path_id r))) (\<lambda>live.
      bnd (gets pw_paths) (\<lambda>paths.
      for_each (dict_keys paths) (\<lambda>k. whn (k \<notin> set live) (release W (PStr k))))))))))))
    (gets path_status))"

definition paths_recover :: "('e, 'z) path_owner \<Rightarrow> ('e, 'z) path_policy \<Rightarrow> (('e, 'z) path_tables_scheme, unit) py" where
  "paths_recover W P = (thn deactivate
    (thn (reconcile P)
    (path_recover W)))"

section \<open>The wiring meets the contracts of both owners\<close>

text \<open>A path lookup reads the tables only.\<close>

definition env_only :: "('e, 'z) mgr_scheme \<Rightarrow> ('e, 'z) mgr_scheme \<Rightarrow> bool" where
  "env_only s s' \<longleftrightarrow> s' = s\<lparr>env := env s'\<rparr>"

lemma env_only_pres:
  "pres (env_only s) (io a)" "pres (env_only s) (path_current W k plan e)" "pres (env_only s) (check_resource W item)"
  "pres (env_only s) (path_snapshot W key)" "pres (env_only s) (path_lookup W request)"
proof -
  show io: "pres (env_only s) (io a)" for a
    by (rule pres_io) (metis env_only_def mgr.surjective mgr.update_convs(1))
  show now: "pres (env_only s) (path_current W k plan e)" for k plan e
    unfolding path_current_def by (intro pres_intros io)
  show check: "pres (env_only s) (check_resource W item)" for item
    unfolding check_resource_def by (intro pres_intros io)
  show snap: "pres (env_only s) (path_snapshot W key)" for key
    unfolding path_snapshot_def by (intro pres_intros now check)
  show "pres (env_only s) (path_lookup W request)"
    unfolding path_lookup_def by (intro pres_intros snap)
qed

lemma wired_readonly: "paths_readonly (wired_policy W P)"
proof -
  have "\<exists>e. snd (path_lookup W request s) = s\<lparr>env := e\<rparr>" for request s
    using pres_snd [OF env_only_pres(5) [of s W request], of s] by (auto simp: env_only_def)
  then show ?thesis by (simp add: paths_readonly_def wired_policy_def)
qed


lemma held_manager:
  fixes c :: "(('a, 'b) policy_scheme, 'c) py"
  shows "(\<And>n. pres (revisions (\<lambda>_. True) n) c) \<Longrightarrow> pres (held m) c"
  unfolding pres_wp
proof (intro allI impI)
  fix s :: "('a, 'b) policy_scheme"
  assume c: "\<And>n. \<forall>s. revisions (\<lambda>_. True) n s \<longrightarrow> wp c (\<lambda>_. revisions (\<lambda>_. True) n) (\<lambda>_. revisions (\<lambda>_. True) n) s"
    and m: "held m s"
  have r: "revisions (\<lambda>_. True) n s1 \<longleftrightarrow> mgr.more s1 = n" for n and s1 :: "('a, 'b) policy_scheme"
    by (simp add: revisions_def dict_any_iff)
  have "policy.more s1 = policy.more s" if "mgr.more s1 = mgr.more s" for s1 :: "('a, 'b) policy_scheme"
    using that by (cases s; cases s1; simp)
  note same = this
  have "wp c (\<lambda>_. revisions (\<lambda>_. True) (mgr.more s)) (\<lambda>_. revisions (\<lambda>_. True) (mgr.more s)) s"
    using c [of "mgr.more s"] by (simp add: r)
  then show "wp c (\<lambda>_. held m) (\<lambda>_. held m) s"
    by (rule wp_mono) (unfold r, (drule same, simp add: m)+)
qed

lemma held_remove: "pres (held m) (remove be i)"
  by (rule held_manager) (rule revisions_remove)

lemma held_recover: "pres (held m) (recover be)"
  unfolding recover_def require_recovery_def by (intro pres_intros held_remove pres_upd) simp_all

lemma held_persist: "pres (held m) (persist P change)"
  unfolding persist_def by (intro pres_intros held_io pres_upd) simp_all

lemma held_directional: "paths_readonly P \<Longrightarrow> pres (held m) (directional_paths P request)"
  unfolding pres_wp by (intro allI impI wp_mono [OF directional_paths_frame]) auto

lemma held_policy:
  assumes "paths_readonly P"
  shows "pres (held m) (reconcile P)" "pres (held m) (revoke P sid)" "pres (held m) (drain_path P k)"
proof -
  show rec: "pres (held m) (reconcile P)"
    unfolding reconcile_def dependencies_stale_def drain_all_def
    by (intro pres_intros held_io held_persist held_recover held_directional assms pres_upd) simp_all
  show rev: "pres (held m) (revoke P sid)" for sid
    unfolding revoke_def by (intro pres_intros held_remove pres_upd) simp_all
  show "pres (held m) (drain_path P k)"
    unfolding drain_path_def deactivate_def by (intro pres_intros rec rev pres_upd) simp_all
qed

text \<open>
  C15.  The drain the policy owner offers meets the path owner's contract (it leaves the
  path books alone), so over any life of the two wired owners each hardware slot belongs
  to one path of the durable journal.
\<close>

theorem wired_slots_exclusive:
  assumes "path_run (wired_paths W P) s"
  shows "distinct (slots (pw_paths s)) \<and> list_all (slot_in (pw_pools W)) (slots (pw_paths s)) \<and> pw_rows s = pw_paths s"
proof -
  have "pw_paths (snd (drain_path (wired_policy W P) k s)) = pw_paths s \<and>
      pw_rows (snd (drain_path (wired_policy W P) k s)) = pw_rows s" for k s
    using pres_snd [OF held_policy(3) [OF wired_readonly, of "policy.more s" W P k], of s]
    by (auto dest!: held_fields)
  then have "drain_keeps (wired_paths W P)" by (simp add: drain_keeps_def wired_paths_def)
  from path_slots_exclusive [OF assms this] show ?thesis by (simp add: wired_paths_def)
qed

section \<open>An acknowledged drain leaves no reference\<close>

definition indexed :: "('e, 'z) policy_scheme \<Rightarrow> bool" where
  "indexed s \<longleftrightarrow> set (dict_keys (sessions s)) \<subseteq> set (dict_keys (dependencies s))"

lemma indexed_revoke:
  assumes "indexed s"
  shows "wp (revoke P (PInt sid)) (\<lambda>_. indexed) (\<lambda>_ _. True) s"
proof -
  have del: "indexed (s1\<lparr>dependencies := dict_del sid (dependencies s1)\<rparr>)"
    if "set (dict_keys (sessions s1)) \<subseteq> set (dict_keys (sessions s)) - {sid}" "dependencies s1 = dependencies s" for s1 :: "('a, 'b) policy_scheme"
    using that assms by (auto simp: indexed_def delete_keys simp del: set_map)
  show ?thesis
  proof (cases "sid \<in> set (dict_keys (sessions s))")
    case True
    then show ?thesis
      unfolding revoke_def wp_bnd wp_lift_res wp_gets wp_thn wp_whn wp_upd wp_ret
      by (auto split: sum.split simp: uint_arg_Inr_iff simp del: set_map dest!: more_policy intro!: wp_mono [OF remove_frame] del)
  next
    case False
    then show ?thesis
      unfolding revoke_def wp_bnd wp_lift_res wp_gets wp_thn wp_whn wp_upd wp_ret
      by (auto split: sum.split simp: uint_arg_Inr_iff simp del: set_map intro!: del)
  qed
qed

lemma reconcile_indexed:
  assumes "paths_readonly P"
  shows "wp (thn deactivate (thn (reconcile P) (ret ()))) (\<lambda>_. indexed) (\<lambda>_ _. True) s"
  unfolding wp_thn deactivate_def wp_upd wp_ret
  by (rule wp_mono [OF reconcile_wp [OF assms]])
    (auto simp: indexed_def drained_def admission_enabled_def owner_view_def)

text \<open>
  C13.  When the drain of a path is acknowledged, no session is fenced or unaccounted for:
  every installed session has a known dependency, and none of those dependencies belongs to
  the path about to be reclaimed.
\<close>

theorem drain_leaves_no_reference:
  fixes s :: "('e, 'z) policy_scheme"
  assumes "paths_readonly P" and "drain_path P k s = (Inr (PBool True), s')"
  shows "\<not> recovery_required s' \<and> indexed s' \<and> list_all (\<lambda>(sid, request). path_id request \<noteq> Inr k) (dependencies s')"
proof -
  let ?done = "\<lambda>s' :: ('e, 'z) policy_scheme. \<not> recovery_required s' \<and> indexed s' \<and>
      list_all (\<lambda>(sid, request). path_id request \<noteq> Inr k) (dependencies s')"
  have loop: "wp (for_each deps (\<lambda>(sid, request). bnd (lift_res (refers k request)) (\<lambda>mine.
      whn mine (thn (revoke P (PInt sid)) (ret ()))))) (\<lambda>_. indexed) (\<lambda>_ _. True) s1" if "indexed s1" for deps s1
    using that by (rule wp_for_each_const) (auto simp: wp_simps split: sum.split intro: wp_mono [OF indexed_revoke])
  have free: "list_all (\<lambda>(sid, request). path_id request \<noteq> Inr k) deps"
    if "rcollect deps (\<lambda>(sid, request). refers k request) = Inr found" "list_all Not found" for deps found
    using that unfolding rcollect_Inr_iff
    by (induction deps arbitrary: found) (auto simp: list_all2_Cons1 refers_def res_iffs)
  have "wp (drain_path P k) (\<lambda>r s'. r = PBool True \<longrightarrow> ?done s') (\<lambda>_ _. True) s"
    unfolding drain_path_def wp_bnd [of "gets f" for f] wp_gets
  proof (rule wp_thnI [where P = "\<lambda>_. indexed" and E' = "\<lambda>_ _. True"], goal_cases)
    case 1
    show ?case
      using reconcile_indexed [OF assms(1), of s] by (auto simp: wp_whn indexed_def)
  next
    case (2 x s1)
    then show ?case
      unfolding wp_bnd [of "gets f" for f] wp_gets
      by (intro wp_thnI [OF loop]) (auto simp: wp_simps split: sum.split intro: free)
  qed simp
  from wp_returns [OF this assms(2)] show ?thesis by simp
qed


section \<open>Concrete runs\<close>

theorem wired_slots_exclusive_witness:
  "\<forall>P :: (slot_table, unit) path_policy. distinct (slots (pw_paths (snd (acquire (wired_paths sample_paths P) policy_a sample_plan sample_tables))))"
proof
  fix P :: "(slot_table, unit) path_policy"
  have "path_owner_init (PDict [(''smac'', PList [PInt 4, PInt 5, PInt 6]), (''nexthop'', PList [PInt 8, PInt 9, PInt 10])]) []
      empty_policy = Inr (pw_pools (wired_paths sample_paths P), sample_tables)"
    by (simp add: path_owner_init_def check_pools_def check_pool_def keys_are_def py_get_def int_in_def sample_paths_def
        sample_tables_def insert_commute wired_paths_def)
  moreover have "book_ok (pw_pools (wired_paths sample_paths P)) (pw_rows sample_tables)"
    by (simp add: book_ok_def sample_tables_def policy.extend_def)
  ultimately have "path_run (wired_paths sample_paths P) (snd (acquire (wired_paths sample_paths P) policy_a sample_plan sample_tables))"
    by (intro path_acquire path_start)
  from wired_slots_exclusive [OF this] show "distinct (slots (pw_paths (snd (acquire (wired_paths sample_paths P) policy_a sample_plan sample_tables))))" by blast
qed

definition path_request :: pyval where
  "path_request = PDict [(''session_id'', PInt 1), (''revision'', PInt 3), (''policy_digest'', policy_a)]"

definition path_name :: string where
  "path_name = projr (path_id path_request)"

definition served :: "(bytes \<times> bytes) list policy" where
  "served = mgr.extend \<lparr>env = [(take 16 probe0, probe0), (take 16 probe1, probe1)], jrows = [],
     sessions = [(1, \<lparr>s_entries = [probe0, probe1], s_revision = Some (PInt 3), s_state = ''installed''\<rparr>)],
     recovery_required = False, trace = []\<rparr>
     \<lparr>pol_state = default_state, pol_saved = default_state, activated = False,
      dependencies = [(1, path_request)], pol_ids = sample_book 65536\<rparr>"

lemma dependent_removed: "fst (remove list_backend 1 served) = Inr ()"
  by code_simp

lemma path_request_id: "path_id path_request = Inr path_name"
proof -
  have "json_text path_request \<noteq> Inl e" for e by (cases "json_text path_request") (code_simp, simp)
  then obtain d where "digest path_request = Inr d" by (cases "json_text path_request") (auto simp: digest_def)
  then have "path_id path_request = Inr d"
    by (simp add: path_id_def path_request_def py_item_def uint_arg_def)
  then show ?thesis by (simp add: path_name_def)
qed

lemma dependent_drained:
  "drain_path (sample_owner True) path_name served =
     (Inr (PBool True), (snd (remove list_backend 1 served))\<lparr>dependencies := []\<rparr>)"
proof -
  obtain s where s: "remove list_backend 1 served = (Inr (), s)"
    using dependent_removed by (cases "remove list_backend 1 served") auto
  have start: "\<exists>v. sessions served = [(1, v)]" "\<not> recovery_required served" "dependencies served = [(1, path_request)]"
    by (simp_all add: served_def mgr.extend_def)
  have after: "\<not> recovery_required s" "dependencies s = [(1, path_request)]"
    using wp_returns [OF remove_frame s] start by (auto dest!: more_policy)
  show ?thesis
    using s start after path_request_id
    by (auto simp: drain_path_def bnd_def thn_def gets_def whn_def lift_res_def ret_def upd_def ensure_def
        refers_def revoke_def uint_arg_def sample_callbacks)
qed

theorem drain_leaves_no_reference_witness:
  "indexed ((snd (remove list_backend 1 served))\<lparr>dependencies := []\<rparr>)"
  using drain_leaves_no_reference [OF sample_readonly dependent_drained] by blast

end
