(* ===== verification/SessionLifecycle.thy ===== *)
theory SessionLifecycle
  imports PathSessions
begin

text \<open>
  Session leases of a trusted producer, \<open>SessionLifecycle\<close> of \<open>fe100/ffn_fe100_lifecycle.py\<close>.
  The owner it drives (the policy owner alone, or wired to the path owner) is a record of the
  operations the code calls; the clock and the generation reader act on the owner's environment.
\<close>

section \<open>The owner\<close>

record 's lease_owner =
  lo_reconcile :: "('s, unit) py"
  lo_revoke :: "pyval \<Rightarrow> ('s, unit) py"
  lo_activate :: "pyval \<Rightarrow> pyval \<Rightarrow> ('s, unit) py"
  lo_deactivate :: "('s, unit) py"
  lo_admit :: "pyval \<Rightarrow> ('s, unit) py"
  lo_enabled :: "'s \<Rightarrow> bool"
  lo_policy_status :: "'s \<Rightarrow> pyval"
  lo_path_status :: "('s \<Rightarrow> pyval) option"
  lo_clock :: "('s, pyval) py"
  lo_generation :: "('s, pyval) py option"

definition policy_leases :: "('e, ('e, 'z) policy_scheme) powner \<Rightarrow> ('e, pyval) py \<Rightarrow> ('e, pyval) py option \<Rightarrow>
    ('e, 'z) policy_scheme lease_owner" where
  "policy_leases P clock generation = \<lparr>
     lo_reconcile = (thn (reconcile P)
       (ret ())),
     lo_revoke = (\<lambda>ident. (thn (revoke P ident)
       (ret ()))),
     lo_activate = activate P,
     lo_deactivate = deactivate,
     lo_admit = (\<lambda>request. (thn (admit P request)
       (ret ()))),
     lo_enabled = admission_enabled,
     lo_policy_status = policy_status,
     lo_path_status = None,
     lo_clock = io clock,
     lo_generation = map_option io generation\<rparr>"

text \<open>With paths, the plan of an opened session is resolved locally.\<close>

definition path_leases :: "('e, 'z) path_owner \<Rightarrow> ('e, 'z) path_policy \<Rightarrow> ('e, pyval) py \<Rightarrow> ('e, pyval) py option \<Rightarrow>
    ('e, 'z) path_tables_scheme lease_owner" where
  "path_leases W P clock generation = \<lparr>
     lo_reconcile = (thn (paths_reconcile W P)
       (ret ())),
     lo_revoke = path_revoke W P,
     lo_activate = activate P,
     lo_deactivate = deactivate,
     lo_admit = (\<lambda>request. (bnd (lift_res (path_id request)) (\<lambda>k.
       bnd (io (pw_current W k)) (\<lambda>plan.
       thn (path_admit W P request plan)
       (ret ()))))),
     lo_enabled = admission_enabled,
     lo_policy_status = policy_status,
     lo_path_status = Some path_status,
     lo_clock = io clock,
     lo_generation = map_option io generation\<rparr>"

section \<open>State and construction\<close>

record lease =
  ls_decision :: pyval
  ls_expires :: rat
  ls_deadline :: rat

record lease_settings =
  lt_heartbeat :: rat
  lt_idle :: rat
  lt_lifetime :: rat
  lt_capacity :: int

record 's lifecycle =
  lc_owner :: 's
  lc_producer :: "pyval option"
  lc_sequence :: int
  lc_heartbeat :: "rat option"
  lc_leases :: "(int \<times> lease) list"
  lc_clock :: "rat option"
  lc_reason :: "string option"
  lc_generation :: pyval

definition lease_timeout :: "pyval \<Rightarrow> exn + rat" where
  "lease_timeout v = (case finite_num v of
      Some q \<Rightarrow> if 0 < q then Inr q else Inl (ValueError ''positive finite lifecycle timeouts required'')
    | None \<Rightarrow> Inl (ValueError ''positive finite lifecycle timeouts required''))"

definition lifecycle_init :: "'s lease_owner \<Rightarrow> pyval \<Rightarrow> pyval \<Rightarrow> pyval \<Rightarrow> pyval \<Rightarrow> 's \<Rightarrow> exn + lease_settings \<times> 's lifecycle" where
  "lifecycle_init L heartbeat_timeout idle_timeout maximum_lifetime capacity owner = (rbnd (lease_timeout heartbeat_timeout) (\<lambda>h.
    rbnd (lease_timeout idle_timeout) (\<lambda>i.
    rbnd (lease_timeout maximum_lifetime) (\<lambda>m.
    rthn (rcheck (int_in capacity 1 1000000) (ValueError ''invalid session capacity''))
    (rthn (rcheck (\<not> (lo_path_status L \<noteq> None \<and> lo_generation L = None))
       (ValueError ''Path lifecycle requires the same policy owner and a trusted generation reader''))
    (Inr (\<lparr>lt_heartbeat = h, lt_idle = i, lt_lifetime = m, lt_capacity = the_int capacity\<rparr>,
       \<lparr>lc_owner = owner, lc_producer = None, lc_sequence = 0, lc_heartbeat = None, lc_leases = [], lc_clock = None,
        lc_reason = Some ''producer not synchronized'', lc_generation = PNone\<rparr>)))))))"

definition on_owner :: "('s, 'a) py \<Rightarrow> ('s lifecycle, 'a) py" where
  "on_owner = zoom lc_owner (\<lambda>t s. s\<lparr>lc_owner := t\<rparr>)"

definition lifecycle_status :: "'s lease_owner \<Rightarrow> 's lifecycle \<Rightarrow> pyval" where
  "lifecycle_status L s = PDict [
     (''producer_boot_id'', case lc_producer s of None \<Rightarrow> PNone | Some p \<Rightarrow> py_get p ''boot_id''),
     (''producer'', case lc_producer s of None \<Rightarrow> PNone | Some p \<Rightarrow> p),
     (''sequence'', PInt (lc_sequence s)), (''leases'', PInt (int (length (lc_leases s)))),
     (''synchronized'', PBool (lc_producer s \<noteq> None)),
     (''reason'', case lc_reason s of None \<Rightarrow> PNone | Some r \<Rightarrow> PStr r),
     (''generation_digest'', lc_generation s),
     (''paths'', case lo_path_status L of None \<Rightarrow> PNone | Some f \<Rightarrow> f (lc_owner s)),
     (''policy'', lo_policy_status L (lc_owner s))]"

section \<open>Fencing, generations, identities, time\<close>

text \<open>Activation is revoked before the hardware is touched.\<close>

definition fence :: "'s lease_owner \<Rightarrow> string \<Rightarrow> ('s lifecycle, unit) py" where
  "fence L reason = (thn (upd (\<lambda>s. s\<lparr>lc_producer := None, lc_heartbeat := None, lc_reason := Some reason, lc_generation := PNone\<rparr>))
    (thn (on_owner (lo_deactivate L))
    (thn (on_owner (lo_reconcile L))
    (upd (\<lambda>s. s\<lparr>lc_leases := []\<rparr>)))))"

definition current_generation :: "'s lease_owner \<Rightarrow> ('s lifecycle, pyval) py" where
  "current_generation L = (case lo_generation L of None \<Rightarrow> ret PNone
     | Some reader \<Rightarrow> (bnd (on_owner reader) (\<lambda>v.
       thn (ensure (is_sha v) (RuntimeError ''Current applied topology/policy generation unavailable''))
       (ret v))))"

definition producer_identity :: "pyval \<Rightarrow> exn + pyval" where
  "producer_identity p = (rthn (rcheck (keys_are p [''boot_id'', ''pid'', ''process_start'', ''stream_id'']) (ValueError ''complete authenticated producer identity required''))
    (rthn (rcheck (is_uuid (py_get p ''boot_id'') \<and> is_uuid (py_get p ''stream_id'')) (ValueError ''canonical producer UUID required''))
    (rthn (rcheck (int_in (py_get p ''pid'') 1 (2 ^ 31 - 1) \<and> positive_decimal (py_get p ''process_start''))
       (ValueError ''producer PID and process start required''))
    (Inr p))))"

definition clock_advances :: "rat option \<Rightarrow> rat \<Rightarrow> bool" where
  "clock_advances last_clock q \<longleftrightarrow> 0 \<le> q \<and> (case last_clock of None \<Rightarrow> True | Some t \<Rightarrow> t \<le> q)"

definition lease_now :: "'s lease_owner \<Rightarrow> ('s lifecycle, rat) py" where
  "lease_now L = (bnd (on_owner (lo_clock L)) (\<lambda>v.
    bnd (gets lc_clock) (\<lambda>earlier.
    (case finite_num v of
        None \<Rightarrow> raise (RuntimeError ''invalid or regressed monotonic clock'')
      | Some q \<Rightarrow> (thn (ensure (clock_advances earlier q) (RuntimeError ''invalid or regressed monotonic clock''))
        (thn (upd (\<lambda>s. s\<lparr>lc_clock := Some q\<rparr>))
        (ret q)))))))"

section \<open>The timer\<close>

definition generation_lost :: exn where
  "generation_lost = RuntimeError ''Generation or producer lease changed during event''"

text \<open>
  The checks of a synchronized producer: \<open>None\<close> when it has been fenced, else the time at
  which its reconciliation ended.
\<close>

definition lease_checks :: "'s lease_owner \<Rightarrow> lease_settings \<Rightarrow> rat \<Rightarrow> ('s lifecycle, rat option) py" where
  "lease_checks L c heartbeat = (bnd (current_generation L) (\<lambda>g.
    bnd (gets lc_generation) (\<lambda>expected.
    (if g \<noteq> expected then (thn (fence L ''applied topology or policy generation changed'')
       (ret None))
      else (thn (on_owner (lo_reconcile L))
        (bnd (lease_now L) (\<lambda>later.
        bnd (current_generation L) (\<lambda>g2.
        bnd (gets lc_generation) (\<lambda>expected2.
        (if g2 \<noteq> expected2 then (thn (fence L ''generation changed during reconciliation'')
          (ret None))
         else if lt_heartbeat c \<le> later - heartbeat then (thn (fence L ''producer heartbeat expired during reconciliation'')
           (ret None))
         else ret (Some later)))))))))))"

definition lease_unacknowledged :: "'s lease_owner \<Rightarrow> exn \<Rightarrow> ('s lifecycle, 'a) py" where
  "lease_unacknowledged L e = (thn (upd (\<lambda>s. s\<lparr>lc_producer := None, lc_heartbeat := None, lc_reason := Some ''dependency recovery not acknowledged'', lc_generation := PNone\<rparr>))
    (thn (on_owner (lo_deactivate L))
    (thn (on_owner (lo_reconcile L))
    (raise e))))"

definition lease_expired :: "rat \<Rightarrow> lease \<Rightarrow> bool" where
  "lease_expired now l \<longleftrightarrow> ls_expires l \<le> now \<or> ls_deadline l \<le> now"

definition expire_lease :: "'s lease_owner \<Rightarrow> rat \<Rightarrow> int \<times> lease \<Rightarrow> ('s lifecycle, unit) py" where
  "expire_lease L now = (\<lambda>(ident, l). whn (lease_expired now l) ((thn (on_owner (lo_revoke L (PInt ident)))
    (upd (\<lambda>s. s\<lparr>lc_leases := dict_del ident (lc_leases s)\<rparr>)))))"

definition refence :: "'s lease_owner \<Rightarrow> string \<Rightarrow> exn \<Rightarrow> ('s lifecycle, 'a) py" where
  "refence L reason e = (thn (fence L reason)
    (raise e))"

definition expire_leases :: "'s lease_owner \<Rightarrow> rat \<Rightarrow> ('s lifecycle, unit) py" where
  "expire_leases L now = catch_exn ((bnd (gets lc_leases) (\<lambda>leases.
    for_each leases (expire_lease L now))))
     (refence L ''session removal not acknowledged'')"

definition synchronized_tick :: "'s lease_owner \<Rightarrow> lease_settings \<Rightarrow> rat \<Rightarrow> rat \<Rightarrow> ('s lifecycle, unit) py" where
  "synchronized_tick L c now heartbeat =
     (if now < heartbeat \<or> lt_heartbeat c \<le> now - heartbeat then fence L ''producer heartbeat expired''
      else (bnd (catch_exn (lease_checks L c heartbeat) (lease_unacknowledged L)) (\<lambda>checked.
        (case checked of None \<Rightarrow> ret ()
         | Some later \<Rightarrow> (bnd (gets (\<lambda>s. lo_enabled L (lc_owner s))) (\<lambda>enabled.
           (if \<not> enabled then fence L ''policy, attachment or qualification changed''
              else expire_leases L later)))))))"

definition lease_tick :: "'s lease_owner \<Rightarrow> lease_settings \<Rightarrow> ('s lifecycle, unit) py" where
  "lease_tick L c = (bnd (catch_exn (lease_now L) (refence L ''invalid producer lease clock'')) (\<lambda>now.
    bnd (gets lc_producer) (\<lambda>producer.
    bnd (gets lc_heartbeat) (\<lambda>heartbeat.
    (case producer of None \<Rightarrow> on_owner (lo_reconcile L)
      | Some p \<Rightarrow> (case heartbeat of None \<Rightarrow> raise (TypeError ''unorderable types'')
        | Some h \<Rightarrow> synchronized_tick L c now h))))))"

definition lifecycle_tick :: "'s lease_owner \<Rightarrow> lease_settings \<Rightarrow> ('s lifecycle, pyval) py" where
  "lifecycle_tick L c = (thn (lease_tick L c)
    (gets (lifecycle_status L)))"

section \<open>Synchronization\<close>

definition lifecycle_start :: "'s lease_owner \<Rightarrow> lease_settings \<Rightarrow> pyval \<Rightarrow> pyval \<Rightarrow> pyval \<Rightarrow> ('s lifecycle, pyval) py" where
  "lifecycle_start L c candidate revision policy_digest = (thn (fence L ''producer synchronization'')
    (bnd (lift_res (producer_identity candidate)) (\<lambda>p.
    bnd (lease_now L) (\<lambda>now.
    bnd (catch_exn ((bnd (current_generation L) (\<lambda>g.
       thn (on_owner (lo_activate L revision policy_digest))
       (bnd (current_generation L) (\<lambda>again.
       thn (ensure (again = g) (RuntimeError ''Generation changed during activation''))
       (ret g))))))
       (refence L ''generation activation failed'')) (\<lambda>g.
    thn (upd (\<lambda>s. s\<lparr>lc_generation := g, lc_producer := Some p, lc_sequence := 0, lc_heartbeat := Some now, lc_reason := None\<rparr>))
    (bnd (lifecycle_tick L c) (\<lambda>result.
    bnd (gets lc_producer) (\<lambda>kept.
    thn (ensure (kept \<noteq> None) (RuntimeError ''Producer lease expired during activation''))
    (ret result)))))))))"

section \<open>Events\<close>

text \<open>\<open>payload.get('session_id') in self.leases\<close>, where equal numbers are equal keys.\<close>

definition lease_known :: "pyval \<Rightarrow> (int \<times> lease) list \<Rightarrow> exn + bool" where
  "lease_known v leases = (if is_list v \<or> is_dict v then Inl (TypeError ''unhashable type'')
     else Inr (list_ex (\<lambda>k. py_eq (PInt k) v) (dict_keys leases)))"

definition open_lease :: "'s lease_owner \<Rightarrow> lease_settings \<Rightarrow> pyval \<Rightarrow> ('s lifecycle, unit) py" where
  "open_lease L c request = (bnd (gets lc_leases) (\<lambda>leases.
    thn (ensure (int (length leases) < lt_capacity c) (ValueError ''offload session capacity reached''))
    (bnd (lift_res (lease_known (py_get request ''session_id'') leases)) (\<lambda>known.
    thn (ensure (\<not> known) (ValueError ''session already leased''))
    (thn (on_owner (lo_admit L request))
    (bnd (lease_now L) (\<lambda>now.
    bnd (lift_res (digest request)) (\<lambda>decision.
    bnd (lift_res (py_item request ''session_id'')) (\<lambda>ident.
    upd (\<lambda>s. s\<lparr>lc_leases := dict_set (the_int ident)
       \<lparr>ls_decision = PStr decision, ls_expires = now + lt_idle c, ls_deadline = now + lt_lifetime c\<rparr> (lc_leases s)\<rparr>))))))))))"

definition refresh_lease :: "'s lease_owner \<Rightarrow> lease_settings \<Rightarrow> pyval \<Rightarrow> ('s lifecycle, unit) py" where
  "refresh_lease L c request = (thn (ensure (keys_are request [''session_id'', ''decision_digest'']) (ValueError ''invalid refresh''))
    (bnd (lift_res (uint_arg (py_get request ''session_id'') 31 ''session ID'')) (\<lambda>ident.
    bnd (gets (\<lambda>s. dict_get (lc_leases s) ident)) (\<lambda>found.
    (case found of None \<Rightarrow> raise (ValueError ''session decision must be reevaluated'')
      | Some l \<Rightarrow> (thn (ensure (py_get request ''decision_digest'' = ls_decision l) (ValueError ''session decision must be reevaluated''))
        (bnd (lease_now L) (\<lambda>now.
        upd (\<lambda>s. s\<lparr>lc_leases := dict_set ident (l\<lparr>ls_expires := min (now + lt_idle c) (ls_deadline l)\<rparr>) (lc_leases s)\<rparr>)))))))))"

definition close_lease :: "'s lease_owner \<Rightarrow> pyval \<Rightarrow> ('s lifecycle, unit) py" where
  "close_lease L request = (thn (ensure (keys_are request [''session_id'']) (ValueError ''invalid close''))
    (bnd (lift_res (uint_arg (py_get request ''session_id'') 31 ''session ID'')) (\<lambda>ident.
    thn (on_owner (lo_revoke L (PInt ident)))
    (upd (\<lambda>s. s\<lparr>lc_leases := dict_del ident (lc_leases s)\<rparr>)))))"

definition heartbeat_lease :: "'s lease_owner \<Rightarrow> pyval \<Rightarrow> ('s lifecycle, unit) py" where
  "heartbeat_lease L request = (thn (ensure (the_dict request = []) (ValueError ''heartbeat has no payload''))
    (bnd (lease_now L) (\<lambda>now.
    upd (\<lambda>s. s\<lparr>lc_heartbeat := Some now\<rparr>))))"

definition apply_event :: "'s lease_owner \<Rightarrow> lease_settings \<Rightarrow> pyval \<Rightarrow> pyval \<Rightarrow> ('s lifecycle, unit) py" where
  "apply_event L c operation request = (if operation = PStr ''heartbeat'' then heartbeat_lease L request
     else if operation = PStr ''open'' then open_lease L c request
     else if operation = PStr ''refresh'' then refresh_lease L c request
     else close_lease L request)"

definition event_operations :: "pyval list" where
  "event_operations = [PStr ''heartbeat'', PStr ''open'', PStr ''refresh'', PStr ''close'']"

definition event_body :: "'s lease_owner \<Rightarrow> lease_settings \<Rightarrow> pyval \<Rightarrow> pyval \<Rightarrow> pyval \<Rightarrow> pyval \<Rightarrow> ('s lifecycle, unit) py" where
  "event_body L c candidate sequence operation request = (bnd (lift_res (producer_identity candidate)) (\<lambda>p.
    bnd (lift_res (uint_arg sequence 64 ''producer sequence'')) (\<lambda>n.
    bnd (gets lc_producer) (\<lambda>current.
    bnd (gets lc_sequence) (\<lambda>last_sequence.
    thn (ensure (\<not> (\<not> py_eq p (the current) \<or> n \<noteq> last_sequence + 1)) (RuntimeError ''session stream lost continuity; resynchronize''))
    (thn (ensure (operation \<in> set event_operations \<and> is_dict request) (ValueError ''invalid session event''))
    (thn (apply_event L c operation request)
    (thn (lifecycle_tick L c)
    (bnd (gets lc_producer) (\<lambda>kept.
    thn (ensure (kept \<noteq> None) generation_lost)
    (upd (\<lambda>s. s\<lparr>lc_sequence := n\<rparr>))))))))))))"

definition lifecycle_event :: "'s lease_owner \<Rightarrow> lease_settings \<Rightarrow> pyval \<Rightarrow> pyval \<Rightarrow> pyval \<Rightarrow> pyval \<Rightarrow> ('s lifecycle, pyval) py" where
  "lifecycle_event L c candidate sequence operation request = (thn (lifecycle_tick L c)
    (bnd (gets lc_producer) (\<lambda>p.
    thn (ensure (p \<noteq> None) (RuntimeError ''session producer is not synchronized''))
    (thn (catch_exn (event_body L c candidate sequence operation request) (refence L ''session event failed; reevaluation required''))
    (gets (lifecycle_status L))))))"

section \<open>What a lifecycle keeps\<close>

text \<open>
  While no producer is synchronized the owner is quiet; the leases are a dictionary within the
  capacity.  A state is timely when the producer's heartbeat and every lease are current.
\<close>

definition lease_book :: "lease_settings \<Rightarrow> (int \<times> lease) list \<Rightarrow> bool" where
  "lease_book c d \<longleftrightarrow> dict_ok d \<and> int (length d) \<le> lt_capacity c"

definition lease_state :: "('s \<Rightarrow> bool) \<Rightarrow> lease_settings \<Rightarrow> 's lifecycle \<Rightarrow> bool" where
  "lease_state quiet c s \<longleftrightarrow> lease_book c (lc_leases s) \<and>
     (case lc_producer s of None \<Rightarrow> quiet (lc_owner s) | Some _ \<Rightarrow> lc_heartbeat s \<noteq> None)"

definition timely :: "lease_settings \<Rightarrow> 's lifecycle \<Rightarrow> bool" where
  "timely c s \<longleftrightarrow> (case (lc_heartbeat s, lc_clock s) of
      (Some h, Some t) \<Rightarrow> t - h < lt_heartbeat c \<and> list_all (\<lambda>(_, l). \<not> lease_expired t l) (lc_leases s)
    | _ \<Rightarrow> False)"

lemma dict_set_length: "length (dict_set k v d) \<le> Suc (length d)"
  by (induction d) auto

lemma dict_set_length_known: "dict_get d k \<noteq> None \<Longrightarrow> length (dict_set k v d) = length d"
  by (induction d) auto

lemma book_set: "lease_book c d \<Longrightarrow> int (length d) < lt_capacity c \<Longrightarrow> lease_book c (dict_set k v d)"
  using dict_set_length [of k v d] by (simp add: lease_book_def)

lemma book_reset: "lease_book c d \<Longrightarrow> dict_get d k \<noteq> None \<Longrightarrow> lease_book c (dict_set k v d)"
  by (simp add: lease_book_def dict_set_length_known)

lemma book_del_lease: "lease_book c d \<Longrightarrow> lease_book c (dict_del k d)"
  using length_delete_le [of k d] by (simp add: lease_book_def)

lemma book_Nil: "0 \<le> lt_capacity c \<Longrightarrow> lease_book c []"
  by (simp add: lease_book_def)

text \<open>A pass keeps the synchronized producer and the book.\<close>

definition kept_by :: "lease_settings \<Rightarrow> 's lifecycle \<Rightarrow> 's lifecycle \<Rightarrow> bool" where
  "kept_by c s s' \<longleftrightarrow> lc_producer s' = lc_producer s \<and> lc_sequence s' = lc_sequence s \<and> lc_heartbeat s' = lc_heartbeat s \<and>
     lease_book c (lc_leases s')"

text \<open>What an acknowledged event shows.\<close>

definition acknowledged :: "lease_settings \<Rightarrow> pyval \<Rightarrow> pyval \<Rightarrow> pyval \<Rightarrow> 's lifecycle \<Rightarrow> 's lifecycle \<Rightarrow> bool" where
  "acknowledged c candidate sequence operation s s' \<longleftrightarrow> timely c s' \<and> sequence = PInt (lc_sequence s + 1) \<and>
     lc_sequence s' = lc_sequence s + 1 \<and> lc_producer s' = lc_producer s \<and>
     (case lc_producer s of None \<Rightarrow> False | Some p \<Rightarrow> py_eq candidate p) \<and> operation \<in> set event_operations"

text \<open>The contract of an owner: reconciling and reading the clock never activate it.\<close>

locale lease_contract =
  fixes L :: "'s lease_owner" and quiet :: "'s \<Rightarrow> bool"
  assumes reconcile_quiet: "pres quiet (lo_reconcile L)"
    and clock_quiet: "pres quiet (lo_clock L)"
    and deactivate_quiet: "fst (lo_deactivate L t) = Inr () \<and> quiet (snd (lo_deactivate L t))"
begin

lemma wp_deactivate: "(\<And>u. quiet u \<Longrightarrow> Q () u) \<Longrightarrow> wp (lo_deactivate L) Q E t"
  using deactivate_quiet [of t] by (auto simp: wp_def split: prod.splits)

lemma wp_quiet: "pres quiet m \<Longrightarrow> quiet t \<Longrightarrow> (\<And>x u. quiet u \<Longrightarrow> Q x u) \<Longrightarrow> (\<And>e u. quiet u \<Longrightarrow> E e u) \<Longrightarrow> wp m Q E t"
  by (rule wp_mono [OF wp_pres])

text \<open>A fence, whether its reconciliation succeeds or raises.\<close>

lemma fence_wp:
  "wp (fence L reason)
     (\<lambda>_ s'. lc_producer s' = None \<and> quiet (lc_owner s') \<and> lc_leases s' = [] \<and> lc_sequence s' = lc_sequence s)
     (\<lambda>_ s'. lc_producer s' = None \<and> quiet (lc_owner s') \<and> lc_leases s' = lc_leases s \<and> lc_sequence s' = lc_sequence s) s"
  unfolding fence_def on_owner_def wp_thn wp_upd wp_zoom
  by (rule wp_deactivate, rule wp_quiet [OF reconcile_quiet]) simp_all

lemma refence_wp:
  assumes "0 \<le> lt_capacity c" and "lease_book c (lc_leases s)"
  shows "wp (refence L reason e) (\<lambda>_ _. False) (\<lambda>_ s'. lease_state quiet c s' \<and> lc_producer s' = None) s"
  unfolding refence_def wp_thn wp_raise
  by (rule wp_mono [OF fence_wp]) (use assms in \<open>auto simp: lease_state_def book_Nil\<close>)

lemma fenced_wp:
  assumes "0 \<le> lt_capacity c" and "lease_book c (lc_leases s)"
  shows "wp (fence L reason) (\<lambda>_ s'. lease_state quiet c s' \<and> lc_producer s' = None \<and> lc_sequence s' = lc_sequence s)
    (\<lambda>_ s'. lease_state quiet c s' \<and> lc_producer s' = None) s"
  by (rule wp_mono [OF fence_wp]) (use assms in \<open>auto simp: lease_state_def book_Nil\<close>)

lemma unacknowledged_wp:
  assumes "lease_book c (lc_leases s)"
  shows "wp (lease_unacknowledged L e) (\<lambda>_ _. False) (\<lambda>_ s'. lease_state quiet c s' \<and> lc_producer s' = None) s"
  unfolding lease_unacknowledged_def on_owner_def wp_thn wp_upd wp_zoom wp_raise
  by (rule wp_deactivate, rule wp_quiet [OF reconcile_quiet]) (simp_all add: lease_state_def assms)

text \<open>Readings change the owner's environment and the clock only.\<close>

lemma now_wp:
  "wp (lease_now L)
     (\<lambda>q s'. \<exists>t. s' = s\<lparr>lc_owner := t, lc_clock := Some q\<rparr> \<and> \<not> (quiet (lc_owner s) \<and> \<not> quiet t))
     (\<lambda>_ s'. \<exists>t. s' = s\<lparr>lc_owner := t\<rparr> \<and> \<not> (quiet (lc_owner s) \<and> \<not> quiet t)) s"
proof -
  have "wp (lo_clock L) (\<lambda>_ t. \<not> (quiet (lc_owner s) \<and> \<not> quiet t)) (\<lambda>_ t. \<not> (quiet (lc_owner s) \<and> \<not> quiet t)) (lc_owner s)"
    using wp_pres [OF clock_quiet, of "lc_owner s"] by (cases "quiet (lc_owner s)") (auto elim!: wp_mono intro: wp_mono [OF wp_True])
  then show ?thesis
    unfolding lease_now_def on_owner_def wp_bnd wp_zoom
    by (rule wp_mono) (auto simp: wp_simps split: option.split)
qed

lemma owner_wp: "wp (on_owner m) (\<lambda>_ s'. \<exists>t. s' = s\<lparr>lc_owner := t\<rparr>) (\<lambda>_ s'. \<exists>t. s' = s\<lparr>lc_owner := t\<rparr>) s"
  unfolding on_owner_def wp_zoom by (rule wp_mono [OF wp_True]) auto
lemma now_frame:
  "wp (lease_now L) (\<lambda>q s'. \<exists>t. s' = s\<lparr>lc_owner := t, lc_clock := Some q\<rparr>) (\<lambda>_ s'. \<exists>t. s' = s\<lparr>lc_owner := t\<rparr>) s"
  by (rule wp_mono [OF now_wp]) auto

lemma generation_wp:
  "wp (current_generation L) (\<lambda>_ s'. \<exists>t. s' = s\<lparr>lc_owner := t\<rparr>) (\<lambda>_ s'. \<exists>t. s' = s\<lparr>lc_owner := t\<rparr>) s"
proof (cases "lo_generation L")
  case None
  then show ?thesis by (auto simp: current_generation_def wp_simps intro: exI [of _ "lc_owner s"])
next
  case (Some reader)
  then show ?thesis
    unfolding current_generation_def by (auto simp: wp_simps intro!: wp_mono [OF owner_wp])
qed

text \<open>The pass over a synchronized producer.\<close>

lemma checks_wp:
  assumes "0 \<le> lt_capacity c" and "lease_book c (lc_leases s)"
  shows "wp (lease_checks L c h)
    (\<lambda>r s'. case r of None \<Rightarrow> lease_state quiet c s' \<and> lc_producer s' = None \<and> lc_sequence s' = lc_sequence s
      | Some later \<Rightarrow> kept_by c s s' \<and> lc_clock s' = Some later \<and> later - h < lt_heartbeat c \<and> lc_leases s' = lc_leases s)
    (\<lambda>_ s'. lease_book c (lc_leases s')) s"
proof -
  have lost: "wp (thn (fence L reason) (ret None))
      (\<lambda>r s'. case r of None \<Rightarrow> lease_state quiet c s' \<and> lc_producer s' = None \<and> lc_sequence s' = lc_sequence s
        | Some later \<Rightarrow> kept_by c s s' \<and> lc_clock s' = Some later \<and> later - h < lt_heartbeat c \<and> lc_leases s' = lc_leases s)
      (\<lambda>_ s'. lease_book c (lc_leases s')) s1"
    if "lease_book c (lc_leases s1)" "lc_sequence s1 = lc_sequence s" for reason s1
    by (rule wp_thnI [OF fenced_wp [OF assms(1) that(1)]]) (auto simp: wp_ret that(2) lease_state_def)
  have rest: "wp (bnd (lease_now L) (\<lambda>later. bnd (current_generation L) (\<lambda>g2. bnd (gets lc_generation) (\<lambda>expected2.
        if g2 \<noteq> expected2 then thn (fence L ''generation changed during reconciliation'') (ret None)
        else if lt_heartbeat c \<le> later - h then thn (fence L ''producer heartbeat expired during reconciliation'') (ret None)
        else ret (Some later)))))
      (\<lambda>r s'. case r of None \<Rightarrow> lease_state quiet c s' \<and> lc_producer s' = None \<and> lc_sequence s' = lc_sequence s
        | Some later \<Rightarrow> kept_by c s s' \<and> lc_clock s' = Some later \<and> later - h < lt_heartbeat c \<and> lc_leases s' = lc_leases s)
      (\<lambda>_ s'. lease_book c (lc_leases s')) (s\<lparr>lc_owner := t\<rparr>)" for t
    apply (rule wp_bndI [OF now_wp])
     apply (elim exE conjE, hypsubst, rule wp_bndI [OF generation_wp])
      apply (elim exE, hypsubst, unfold wp_bnd wp_gets wp_if wp_ret)
      apply (auto simp: assms(2) kept_by_def intro: lost)
    done
  show ?thesis
    unfolding lease_checks_def
    apply (rule wp_bndI [OF generation_wp])
     apply (elim exE, hypsubst, unfold wp_bnd [of "gets f" for f] wp_gets wp_if)
     apply (auto simp: assms(2) intro: lost intro!: wp_thnI [OF owner_wp] rest [simplified])
    done
qed

lemma expire_lease_wp:
  assumes "lease_book c (lc_leases s)"
  shows "wp (expire_lease L now kl)
    (\<lambda>_ s'. kept_by c s s' \<and> lc_clock s' = lc_clock s \<and>
       lc_leases s' = (if lease_expired now (snd kl) then dict_del (fst kl) (lc_leases s) else lc_leases s))
    (\<lambda>_ s'. lease_book c (lc_leases s')) s"
  unfolding expire_lease_def using assms
  by (auto simp: wp_simps kept_by_def split_beta intro!: wp_mono [OF owner_wp] book_del_lease)

lemma expire_wp:
  assumes "0 \<le> lt_capacity c" and "lease_book c (lc_leases s)"
  shows "wp (expire_leases L now)
    (\<lambda>_ s'. kept_by c s s' \<and> lc_clock s' = lc_clock s \<and> list_all (\<lambda>(_, l). \<not> lease_expired now l) (lc_leases s'))
    (\<lambda>e s'. is_exception e \<longrightarrow> lease_state quiet c s' \<and> lc_producer s' = None) s"
proof -
  let ?I = "\<lambda>rest s'. kept_by c s s' \<and> lc_clock s' = lc_clock s \<and>
      \<not> (\<exists>k l. dict_get (lc_leases s') k = Some l \<and> (k, l) \<notin> set rest \<and> lease_expired now l)"
  have "wp (for_each (lc_leases s) (expire_lease L now)) (\<lambda>_. ?I []) (\<lambda>_ s'. lease_book c (lc_leases s')) s"
  proof (rule wp_for_each)
    show "?I (lc_leases s) s" using assms(2) map_of_SomeD by (fastforce simp: kept_by_def)
  next
    fix kl rest s1
    assume I: "?I (kl # rest) s1"
    then have "lease_book c (lc_leases s1)" by (simp add: kept_by_def)
    from expire_lease_wp [OF this, of now kl]
    show "wp (expire_lease L now kl) (\<lambda>_. ?I rest) (\<lambda>_ s'. lease_book c (lc_leases s')) s1"
    proof (rule wp_mono, goal_cases)
      case (1 u s2)
      then show ?case using I by (cases kl) (auto simp: kept_by_def split: if_splits)
    qed
  qed
  then show ?thesis
    unfolding expire_leases_def wp_catch_exn wp_bnd wp_gets
    apply (rule wp_mono)
     apply (auto simp: list_all_iff lease_book_def kept_by_def dict_items_get)[1]
    apply (auto intro!: wp_mono [OF refence_wp [OF assms(1)]])
    done
qed

text \<open>A pass of the timer: the producer is lost and the owner quiet, or all leases are current.\<close>

lemma tick_wp:
  assumes "0 \<le> lt_capacity c" and "lease_state quiet c s"
  shows "wp (lease_tick L c)
    (\<lambda>_ s'. lease_state quiet c s' \<and> lc_sequence s' = lc_sequence s \<and>
       (lc_producer s' = None \<or> lc_producer s' = lc_producer s \<and> lc_heartbeat s' = lc_heartbeat s \<and> timely c s'))
    (\<lambda>e s'. is_exception e \<longrightarrow> lease_state quiet c s' \<and> lc_producer s' = None) s"
    (is "wp _ ?Q ?E s")
proof -
  note book = assms(2) [unfolded lease_state_def, THEN conjunct1]
  have idle: "wp (on_owner (lo_reconcile L)) ?Q ?E (s\<lparr>lc_owner := t, lc_clock := q\<rparr>)"
    if "lc_producer s = None" "quiet t" for t q
    unfolding on_owner_def wp_zoom
    by (rule wp_quiet [OF reconcile_quiet]) (use that book in \<open>auto simp: lease_state_def\<close>)
  have pass: "wp (synchronized_tick L c now h) ?Q ?E s1"
    if s1: "lc_producer s1 = lc_producer s" "lc_heartbeat s1 = lc_heartbeat s" "lc_sequence s1 = lc_sequence s"
      "lease_book c (lc_leases s1)" "lc_heartbeat s = Some h" "lc_producer s \<noteq> None" for s1 now h
  proof -
    note fence1 = wp_mono [OF fenced_wp [OF assms(1) s1(4)]]
    have checked: "wp (catch_exn (lease_checks L c h) (lease_unacknowledged L))
      (\<lambda>r s'. case r of None \<Rightarrow> lease_state quiet c s' \<and> lc_producer s' = None \<and> lc_sequence s' = lc_sequence s1
        | Some later \<Rightarrow> kept_by c s1 s' \<and> lc_clock s' = Some later \<and> later - h < lt_heartbeat c \<and> lc_leases s' = lc_leases s1)
      ?E s1"
      unfolding wp_catch_exn
      by (rule wp_mono [OF checks_wp [OF assms(1) s1(4)]]) (auto intro!: wp_mono [OF unacknowledged_wp])
    show ?thesis
      unfolding synchronized_tick_def wp_if
    proof (auto, goal_cases)
      case 3
      show ?case
      proof (rule wp_bndI [OF checked], goal_cases)
        case (1 r s2)
        show ?case
        proof (cases r)
          case None
          then show ?thesis using 1 s1 by (simp add: wp_ret)
        next
          case (Some later)
          then have s2: "kept_by c s1 s2" "lc_clock s2 = Some later" "later - h < lt_heartbeat c" "lease_book c (lc_leases s2)"
            using 1 by (auto simp: kept_by_def)
          show ?thesis
            unfolding Some option.case wp_bnd wp_gets wp_if
            using s2 s1
            by (auto intro!: wp_mono [OF fenced_wp [OF assms(1) s2(4)]] wp_mono [OF expire_wp [OF assms(1) s2(4)]]
                simp: kept_by_def lease_state_def timely_def split: option.splits)
        qed
      qed
    qed (auto intro!: fence1 simp: s1)
  qed
  show ?thesis
    unfolding lease_tick_def
  proof (rule wp_bndI [where P = "\<lambda>q s'. \<exists>t. s' = s\<lparr>lc_owner := t, lc_clock := Some q\<rparr> \<and> \<not> (quiet (lc_owner s) \<and> \<not> quiet t)" and E' = ?E],
      goal_cases)
    case 1
    then show ?case
      unfolding wp_catch_exn
      by (rule wp_mono [OF now_wp]) (auto intro!: wp_mono [OF refence_wp [OF assms(1)]] simp: book)
  next
    case (2 q s1)
    then obtain t where s1: "s1 = s\<lparr>lc_owner := t, lc_clock := Some q\<rparr>" and t: "\<not> (quiet (lc_owner s) \<and> \<not> quiet t)" by blast
    show ?case
    proof (cases "lc_producer s")
      case None
      with assms(2) t have "quiet t" by (simp add: lease_state_def)
      from idle [OF None this, of "Some q"] show ?thesis by (simp add: wp_bnd wp_gets s1 None)
    next
      case (Some p)
      with assms(2) obtain h where h: "lc_heartbeat s = Some h" by (auto simp: lease_state_def)
      with Some show ?thesis by (simp add: wp_bnd wp_gets s1 pass [simplified Some h] book)
    qed
  qed
qed

section \<open>Synchronization and events\<close>

lemma start_wp:
  assumes "0 \<le> lt_capacity c" and "lease_book c (lc_leases s)"
  shows "wp (lifecycle_start L c candidate revision policy_digest)
    (\<lambda>_ s'. lease_state quiet c s' \<and> timely c s' \<and> lc_producer s' = Some candidate \<and> lc_sequence s' = 0)
    (\<lambda>e s'. is_exception e \<longrightarrow> lease_state quiet c s' \<and> lc_producer s' = None) s"
    (is "wp _ ?Q ?E s")
proof -
  let ?off = "\<lambda>s'. lease_state quiet c s' \<and> lc_producer s' = None"
  have begin_wp: "wp (catch_exn (bnd (current_generation L) (\<lambda>g. thn (on_owner (lo_activate L revision policy_digest))
      (bnd (current_generation L) (\<lambda>again. thn (ensure (again = g) (RuntimeError ''Generation changed during activation'')) (ret g)))))
      (refence L ''generation activation failed'')) (\<lambda>_ s'. lease_book c (lc_leases s')) ?E s1"
    if "lease_book c (lc_leases s1)" for s1
    unfolding wp_catch_exn
    apply (rule wp_bndI [OF generation_wp])
     apply (elim exE, hypsubst, rule wp_thnI [OF owner_wp], elim exE, hypsubst)
      apply (rule wp_bndI [OF generation_wp])
       apply (auto simp: wp_simps that intro!: wp_mono [OF refence_wp [OF assms(1)]])
    done
  have finish: "wp (thn (upd (\<lambda>s. s\<lparr>lc_generation := g, lc_producer := Some candidate, lc_sequence := 0, lc_heartbeat := Some now, lc_reason := None\<rparr>))
      (bnd (lifecycle_tick L c) (\<lambda>result. bnd (gets lc_producer) (\<lambda>kept.
        thn (ensure (kept \<noteq> None) (RuntimeError ''Producer lease expired during activation'')) (ret result))))) ?Q ?E s1"
    if "lease_book c (lc_leases s1)" for s1 g now
    unfolding lifecycle_tick_def
    by (auto simp: wp_simps that lease_state_def intro!: wp_mono [OF tick_wp [OF assms(1)]])
  show ?thesis
    unfolding lifecycle_start_def
  proof (rule wp_thnI [OF fenced_wp [OF assms]], goal_cases)
    case (1 u s1)
    show ?case
    proof (cases "producer_identity candidate")
      case (Inl e)
      then show ?thesis using 1 by (simp add: wp_raise)
    next
      case (Inr p)
      then have p: "p = candidate" by (auto simp: producer_identity_def rbnd_def rthn_def rcheck_def split: if_splits)
      show ?thesis
        unfolding Inr bnd_lift_res p
        apply (rule wp_bndI [OF now_wp])
         apply (elim exE conjE, hypsubst, rule wp_bndI [OF begin_wp])
           apply (use 1 in \<open>simp add: lease_state_def\<close>)
          apply (erule finish)
         apply assumption
        apply (use 1 in \<open>auto simp: lease_state_def\<close>)
        done
    qed
  qed auto
qed

lemma apply_wp:
  assumes "lease_book c (lc_leases s)" and "lc_heartbeat s \<noteq> None"
  shows "wp (apply_event L c operation request)
    (\<lambda>_ s'. lc_producer s' = lc_producer s \<and> lc_sequence s' = lc_sequence s \<and> lc_heartbeat s' \<noteq> None \<and> lease_book c (lc_leases s'))
    (\<lambda>_ s'. lease_book c (lc_leases s')) s"
proof -
  let ?Q = "\<lambda>_ s'. lc_producer s' = lc_producer s \<and> lc_sequence s' = lc_sequence s \<and> lc_heartbeat s' \<noteq> None \<and> lease_book c (lc_leases s')"
  let ?E = "\<lambda>_ s'. lease_book c (lc_leases s')"
  have beat: "wp (heartbeat_lease L request) ?Q ?E s"
    unfolding heartbeat_lease_def by (auto simp: wp_simps assms intro!: wp_mono [OF now_frame])
  have shut: "wp (close_lease L request) ?Q ?E s"
    unfolding close_lease_def using assms(2)
    by (auto simp: wp_simps assms(1) intro!: wp_mono [OF owner_wp] book_del_lease split: sum.split)
  have refresh: "wp (refresh_lease L c request) ?Q ?E s"
    unfolding refresh_lease_def using assms(2) by (auto simp: wp_simps assms(1) intro!: wp_mono [OF now_frame] book_reset split: sum.split option.split)
  have opened: "wp (open_lease L c request) ?Q ?E s"
    unfolding open_lease_def using assms(2)
    by (auto simp: wp_simps assms(1) split: sum.split option.split intro!: wp_mono [OF owner_wp] wp_mono [OF now_frame] book_set)
  show ?thesis
    unfolding apply_event_def using beat shut refresh opened by simp
qed

lemma event_wp:
  assumes "0 \<le> lt_capacity c" and "lease_state quiet c s"
  shows "wp (lifecycle_event L c candidate sequence operation request)
    (\<lambda>_ s'. lease_state quiet c s' \<and> acknowledged c candidate sequence operation s s')
    (\<lambda>e s'. is_exception e \<longrightarrow> lease_state quiet c s' \<and> lc_producer s' = None) s"
    (is "wp _ (\<lambda>_. ?Q) ?E s")
proof -
  let ?E' = "\<lambda>e s'. is_exception e \<longrightarrow> lease_book c (lc_leases s')"
  let ?same = "\<lambda>s'. lease_state quiet c s' \<and> lc_sequence s' = lc_sequence s \<and> lc_producer s' = lc_producer s \<and> lc_producer s \<noteq> None"
  have body: "wp (event_body L c candidate sequence operation request) (\<lambda>_. ?Q) ?E' s1" if s1: "?same s1" for s1
  proof (cases "producer_identity candidate")
    case (Inl e)
    then show ?thesis using s1 by (simp add: event_body_def wp_simps lease_state_def)
  next
    case (Inr q)
    then have q: "q = candidate" by (auto simp: producer_identity_def rbnd_def rthn_def rcheck_def split: if_splits)
    have book: "lease_book c (lc_leases s1)" and beat: "lc_heartbeat s1 \<noteq> None" using s1 by (auto simp: lease_state_def split: option.splits)
    have tail: "wp (thn (lifecycle_tick L c) (bnd (gets lc_producer) (\<lambda>kept. thn (ensure (kept \<noteq> None) generation_lost)
        (upd (\<lambda>s. s\<lparr>lc_sequence := lc_sequence s0 + 1\<rparr>)))))
        (\<lambda>_ s'. lease_state quiet c s' \<and> acknowledged c candidate (PInt (lc_sequence s0 + 1)) operation s s') ?E' s2"
      if "lc_producer s2 = lc_producer s1" "lc_sequence s2 = lc_sequence s1" "lc_heartbeat s2 \<noteq> None" "lease_book c (lc_leases s2)"
        "lc_sequence s0 = lc_sequence s" "py_eq candidate (the (lc_producer s))" "operation \<in> set event_operations" for s0 s2
    proof -
      have "lease_state quiet c s2" using that s1 by (auto simp: lease_state_def)
      from tick_wp [OF assms(1) this] show ?thesis
        unfolding lifecycle_tick_def wp_thn wp_gets wp_bnd wp_ensure wp_upd
        by (rule wp_mono) (use that s1 in \<open>auto simp: acknowledged_def lease_state_def timely_def split: option.splits\<close>)
    qed
    show ?thesis
      unfolding event_body_def Inr bnd_lift_res q wp_bnd [of "lift_res r" for r] wp_lift_res
      apply (cases "uint_arg sequence 64 ''producer sequence''")
       apply (simp add: book)
      apply (frule uint_arg_Inr_iff [THEN iffD1])
      apply (simp add: wp_bnd [of "gets f" for f] wp_gets wp_thn [of "ensure b e" for b e] wp_ensure book del: not_None_eq)
      apply (auto simp: s1 book simp del: not_None_eq intro!: wp_thnI [OF apply_wp [OF book beat]] tail [of _ s])
      done
  qed
  have caught: "wp (thn (catch_exn (event_body L c candidate sequence operation request) (refence L ''session event failed; reevaluation required''))
      (gets (lifecycle_status L))) (\<lambda>_. ?Q) ?E s1" if "?same s1" for s1
    unfolding wp_thn wp_catch_exn wp_gets
    by (rule wp_mono [OF body [OF that]]) (auto intro!: wp_mono [OF refence_wp [OF assms(1)]])
  show ?thesis
    unfolding lifecycle_event_def lifecycle_tick_def wp_thn wp_gets
  proof (rule wp_mono [OF tick_wp [OF assms]], goal_cases)
    case (1 u s1)
    then show ?case
      unfolding wp_bnd wp_gets wp_thn [of "ensure b e" for b e] wp_ensure
      by (cases "lc_producer s1") (auto intro!: caught)
  qed
qed

end

section \<open>The owners meet the contract\<close>

text \<open>Nothing but an activation activates the policy owner.\<close>

lemma inactive_manager:
  fixes m :: "(('e, 'z) policy_scheme, 'a) py"
  assumes "\<And>n. pres (revisions (\<lambda>_. True) n) m"
  shows "pres (\<lambda>s. \<not> activated s) m"
proof (rule presI)
  fix s :: "('e, 'z) policy_scheme"
  assume "\<not> activated s"
  have "revisions (\<lambda>_. True) (mgr.more s) s" by (simp add: revisions_def dict_any_iff)
  from pres_snd [OF assms this] have "mgr.more (snd (m s)) = mgr.more s" by (simp add: revisions_def)
  from more_policy [OF this] \<open>\<not> activated s\<close> show "\<not> activated (snd (m s))" by simp
qed

lemma inactive_reconcile: "paths_readonly P \<Longrightarrow> pres (\<lambda>s. \<not> activated s) (reconcile P)"
  unfolding pres_wp
  by (intro allI impI wp_mono [OF reconcile_wp]) (auto simp: owner_view_def admission_enabled_def drained_def)

lemma inactive_io: "pres (\<lambda>s. \<not> activated s) (io a)"
  by (rule pres_io) simp

lemma inactive_revoke: "pres (\<lambda>s. \<not> activated s) (revoke P sid)"
  unfolding revoke_def by (intro pres_intros inactive_manager revisions_remove pres_upd) simp_all

lemma inactive_drain: "paths_readonly P \<Longrightarrow> pres (\<lambda>s. \<not> activated s) (drain_path P k)"
  unfolding drain_path_def deactivate_def
  by (intro pres_intros inactive_reconcile inactive_revoke pres_upd) simp_all

lemma inactive_release: "pres (\<lambda>s. \<not> activated s) (release (wired_paths W P) key)"
proof -
  have drain: "pres (\<lambda>s. \<not> activated s) (pw_drain (wired_paths W P) k)" for k
    using inactive_drain [OF wired_readonly] by (simp add: wired_paths_def)
  show ?thesis
    unfolding release_def path_fencing_def release_path_def save_path_def release_resource_def require_path_recovery_def
    by (intro pres_intros inactive_io drain pres_upd) simp_all
qed

lemma inactive_paths: "pres (\<lambda>s. \<not> activated s) (paths_reconcile (wired_paths W P) (wired_policy W P))"
  unfolding paths_reconcile_def deactivating_def deactivate_def path_reconcile_def path_recover_def require_path_recovery_def
    path_snapshot_def path_current_def check_resource_def
  by (intro pres_intros inactive_reconcile wired_readonly inactive_release inactive_io pres_upd) simp_all

interpretation path_contract: lease_contract "path_leases (wired_paths W P) (wired_policy W P) clock generation" "\<lambda>s. \<not> activated s"
proof
  show "pres (\<lambda>s. \<not> activated s) (lo_reconcile (path_leases (wired_paths W P) (wired_policy W P) clock generation))"
    by (simp add: path_leases_def) (intro pres_intros inactive_paths)
  show "pres (\<lambda>s. \<not> activated s) (lo_clock (path_leases (wired_paths W P) (wired_policy W P) clock generation))"
    by (simp add: path_leases_def inactive_io)
qed (simp add: path_leases_def deactivate_def upd_def)

text \<open>Without a path owner the policy owner has no path lookup.\<close>

definition sole_policy :: "('e, 's) powner \<Rightarrow> ('e, 's) powner" where
  "sole_policy P = P\<lparr>po_paths := None\<rparr>"

lemma sole_readonly: "paths_readonly (sole_policy P)"
  by (simp add: paths_readonly_def sole_policy_def)

interpretation policy_contract: lease_contract "policy_leases (sole_policy P) clock generation" "\<lambda>s. \<not> activated s"
proof
  show "pres (\<lambda>s. \<not> activated s) (lo_reconcile (policy_leases (sole_policy P) clock generation))"
    by (simp add: policy_leases_def) (intro pres_intros inactive_reconcile sole_readonly)
  show "pres (\<lambda>s. \<not> activated s) (lo_clock (policy_leases (sole_policy P) clock generation))"
    by (simp add: policy_leases_def inactive_io)
qed (simp add: policy_leases_def deactivate_def upd_def)

section \<open>The life of a lifecycle\<close>

text \<open>An outcome other than a \<open>KeyboardInterrupt\<close>.\<close>

fun handled :: "exn + 'a \<Rightarrow> bool" where
  "handled (Inl e) = is_exception e"
| "handled (Inr _) = True"

inductive lifecycle_run :: "'s lease_owner \<Rightarrow> ('s \<Rightarrow> bool) \<Rightarrow> lease_settings \<Rightarrow> 's lifecycle \<Rightarrow> bool"
  for L :: "'s lease_owner" and off :: "'s \<Rightarrow> bool" where
  life_init: "lifecycle_init L heartbeat_timeout idle_timeout maximum_lifetime capacity t = Inr (c, s) \<Longrightarrow> off t \<Longrightarrow> lifecycle_run L off c s"
| life_start: "lifecycle_run L off c s \<Longrightarrow> lifecycle_start L c candidate revision policy_digest s = (r, s') \<Longrightarrow> handled r \<Longrightarrow>
    lifecycle_run L off c s'"
| life_tick: "lifecycle_run L off c s \<Longrightarrow> lifecycle_tick L c s = (r, s') \<Longrightarrow> handled r \<Longrightarrow> lifecycle_run L off c s'"
| life_event: "lifecycle_run L off c s \<Longrightarrow> lifecycle_event L c candidate sequence operation request s = (r, s') \<Longrightarrow> handled r \<Longrightarrow>
    lifecycle_run L off c s'"

lemma handled_wp: "wp m (\<lambda>_. I) (\<lambda>e s'. is_exception e \<longrightarrow> I s' \<and> J s') s \<Longrightarrow> m s = (r, s') \<Longrightarrow> handled r \<Longrightarrow> I s'"
  by (cases r) (auto simp: wp_def)

context lease_contract
begin

lemma run_state: "lifecycle_run L quiet c s \<Longrightarrow> 0 \<le> lt_capacity c \<and> lease_state quiet c s"
proof (induction rule: lifecycle_run.induct)
  case (life_init h i m cap t c s)
  then show ?case
    by (auto simp: lifecycle_init_def rbnd_def rthn_def rcheck_def lease_state_def book_Nil int_in_def split: sum.splits if_splits)
next
  case (life_start c s candidate revision d r s')
  then have "lease_book c (lc_leases s)" and cap: "0 \<le> lt_capacity c" by (auto simp: lease_state_def)
  from start_wp [OF cap this(1), of candidate revision d]
  have "wp (lifecycle_start L c candidate revision d) (\<lambda>_. lease_state quiet c)
      (\<lambda>e s'. is_exception e \<longrightarrow> lease_state quiet c s' \<and> lc_producer s' = None) s"
    by (rule wp_mono) auto
  from handled_wp [OF this life_start.hyps(2,3)] cap show ?case by blast
next
  case (life_tick c s r s')
  then have cap: "0 \<le> lt_capacity c" by blast
  have "wp (lifecycle_tick L c) (\<lambda>_. lease_state quiet c)
      (\<lambda>e s'. is_exception e \<longrightarrow> lease_state quiet c s' \<and> lc_producer s' = None) s"
    unfolding lifecycle_tick_def wp_thn wp_gets
    by (rule wp_mono [OF tick_wp]) (use life_tick.IH in auto)
  from handled_wp [OF this life_tick.hyps(2,3)] cap show ?case by blast
next
  case (life_event c s candidate sequence operation request r s')
  then have cap: "0 \<le> lt_capacity c" by blast
  have "wp (lifecycle_event L c candidate sequence operation request) (\<lambda>_. lease_state quiet c)
      (\<lambda>e s'. is_exception e \<longrightarrow> lease_state quiet c s' \<and> lc_producer s' = None) s"
    by (rule wp_mono [OF event_wp]) (use life_event.IH in auto)
  from handled_wp [OF this life_event.hyps(2,3)] cap show ?case by blast
qed

lemma run_event:
  assumes "lifecycle_run L quiet c s"
  shows "case lifecycle_event L c candidate sequence operation request s of
      (Inr status, s') \<Rightarrow> acknowledged c candidate sequence operation s s'
    | (Inl e, s') \<Rightarrow> \<not> (is_exception e \<and> \<not> (lc_producer s' = None \<and> quiet (lc_owner s')))"
  using event_wp [of c s candidate sequence operation request] run_state [OF assms]
  by (auto simp: wp_def lease_state_def split: prod.splits sum.splits option.splits)

lemma run_tick:
  assumes "lifecycle_run L quiet c s"
  shows "case lifecycle_tick L c s of
      (Inr status, s') \<Rightarrow> lc_producer s' = lc_producer s \<and> timely c s' \<or> lc_producer s' = None \<and> quiet (lc_owner s')
    | (Inl e, s') \<Rightarrow> \<not> (is_exception e \<and> \<not> (lc_producer s' = None \<and> quiet (lc_owner s')))"
proof -
  have "wp (lifecycle_tick L c)
      (\<lambda>_ s'. lc_producer s' = lc_producer s \<and> timely c s' \<or> lc_producer s' = None \<and> quiet (lc_owner s'))
      (\<lambda>e s'. \<not> (is_exception e \<and> \<not> (lc_producer s' = None \<and> quiet (lc_owner s')))) s"
    unfolding lifecycle_tick_def wp_thn wp_gets
    by (rule wp_mono [OF tick_wp]) (use run_state [OF assms] in \<open>auto simp: lease_state_def split: option.splits\<close>)
  then show ?thesis by (auto simp: wp_def split: prod.splits sum.splits)
qed

end

text \<open>
  C34.  Over any life of a lease lifecycle on the wired owners, admission is enabled only while a
  producer is synchronized, and the leases are a dictionary within the configured capacity: a
  failed start, timer pass or event never leaves admission on.
\<close>

theorem lifecycle_fails_closed:
  assumes "lifecycle_run (path_leases (wired_paths W P) (wired_policy W P) clock generation) (\<lambda>t. \<not> activated t) c s"
  shows "\<not> (lc_producer s = None \<and> admission_enabled (lc_owner s)) \<and> dict_ok (lc_leases s) \<and>
    int (length (lc_leases s)) \<le> lt_capacity c"
  using path_contract.run_state [OF assms] by (auto simp: lease_state_def lease_book_def admission_enabled_def split: option.splits)

text \<open>
  C35.  An acknowledged event came from the synchronized producer with the next sequence number and
  a known operation, and was followed by a pass that found its heartbeat and every lease current;
  an event that raises an \<open>Exception\<close> leaves no producer and admission disabled.
\<close>

theorem lifecycle_event_acknowledged:
  assumes "lifecycle_run (path_leases (wired_paths W P) (wired_policy W P) clock generation) (\<lambda>t. \<not> activated t) c s"
  shows "case lifecycle_event (path_leases (wired_paths W P) (wired_policy W P) clock generation) c candidate sequence operation request s of
      (Inr status, s') \<Rightarrow> acknowledged c candidate sequence operation s s'
    | (Inl e, s') \<Rightarrow> \<not> (is_exception e \<and> \<not> (lc_producer s' = None \<and> \<not> activated (lc_owner s')))"
  using path_contract.run_event [OF assms, of candidate sequence operation request] by simp

text \<open>
  A pass of the timer over the policy owner alone keeps the producer only with a current
  heartbeat and current leases; any other pass, returning or raising an \<open>Exception\<close>, ends with no
  producer and the owner deactivated.
\<close>

theorem lifecycle_tick_expires:
  assumes "lifecycle_run (policy_leases (sole_policy P) clock generation) (\<lambda>t. \<not> activated t) c s"
  shows "case lifecycle_tick (policy_leases (sole_policy P) clock generation) c s of
      (Inr status, s') \<Rightarrow> lc_producer s' = lc_producer s \<and> timely c s' \<or> lc_producer s' = None \<and> \<not> activated (lc_owner s')
    | (Inl e, s') \<Rightarrow> \<not> (is_exception e \<and> \<not> (lc_producer s' = None \<and> \<not> activated (lc_owner s')))"
  by (rule policy_contract.run_tick [OF assms])

section \<open>Concrete lives\<close>

definition sample_producer :: pyval where
  "sample_producer = PDict [(''boot_id'', PStr ''00000000-0000-0000-0000-000000000001''), (''pid'', PInt 7),
     (''process_start'', PStr ''9''), (''stream_id'', PStr ''00000000-0000-0000-0000-000000000002'')]"

definition sample_settings :: lease_settings where
  "sample_settings = \<lparr>lt_heartbeat = 15, lt_idle = 60, lt_lifetime = 300, lt_capacity = 4096\<rparr>"

definition sample_initial :: "'s \<Rightarrow> 's lifecycle" where
  "sample_initial t = \<lparr>lc_owner = t, lc_producer = None, lc_sequence = 0, lc_heartbeat = None, lc_leases = [], lc_clock = None,
     lc_reason = Some ''producer not synchronized'', lc_generation = PNone\<rparr>"

definition sample_running :: "pyval \<Rightarrow> int \<Rightarrow> 's \<Rightarrow> 's lifecycle" where
  "sample_running g n t = \<lparr>lc_owner = t, lc_producer = Some sample_producer, lc_sequence = n, lc_heartbeat = Some 5, lc_leases = [],
     lc_clock = Some 5, lc_reason = None, lc_generation = g\<rparr>"

text \<open>An owner that reconciles without a change, before and after its activation.\<close>

definition steady_owner :: "'s lease_owner \<Rightarrow> pyval \<Rightarrow> 's \<Rightarrow> 's \<Rightarrow> bool" where
  "steady_owner L g t0 t1 \<longleftrightarrow> lo_deactivate L t0 = (Inr (), t0) \<and> lo_reconcile L t0 = (Inr (), t0) \<and>
     lo_activate L (PInt 3) policy_a t0 = (Inr (), t1) \<and> lo_reconcile L t1 = (Inr (), t1) \<and> lo_enabled L t1 \<and>
     (\<forall>t. lo_clock L t = (Inr (PInt 5), t)) \<and> (\<forall>s. current_generation L s = (Inr g, s))"

lemma sample_identity: "producer_identity sample_producer = Inr sample_producer" "py_eq sample_producer sample_producer"
  by code_simp+

lemma steady_init:
  "\<not> (lo_path_status L \<noteq> None \<and> lo_generation L = None) \<Longrightarrow>
   lifecycle_init L (PInt 15) (PInt 60) (PInt 300) (PInt 4096) t = Inr (sample_settings, sample_initial t)"
  by (simp add: lifecycle_init_def lease_timeout_def finite_num_def rbnd_def rthn_def rcheck_def int_in_def sample_settings_def
      sample_initial_def)

lemma steady_tick:
  assumes "steady_owner L g t0 t1"
  shows "lifecycle_tick L sample_settings (sample_running g n t1) =
    (Inr (lifecycle_status L (sample_running g n t1)), sample_running g n t1)"
  using assms
  by (simp add: steady_owner_def lifecycle_tick_def lease_tick_def synchronized_tick_def lease_checks_def expire_leases_def
      lease_now_def on_owner_def zoom_def sample_running_def sample_settings_def finite_num_def clock_advances_def
      bnd_def thn_def gets_def upd_def ret_def ensure_def catch_exn_def)

lemma steady_start:
  assumes "steady_owner L g t0 t1"
  shows "lifecycle_start L sample_settings sample_producer (PInt 3) policy_a (sample_initial t0) =
    (Inr (lifecycle_status L (sample_running g 0 t1)), sample_running g 0 t1)"
proof -
  note tick = steady_tick [OF assms, of 0]
  show ?thesis
    using assms tick
    by (simp add: steady_owner_def lifecycle_start_def fence_def lease_now_def on_owner_def zoom_def sample_initial_def
        finite_num_def clock_advances_def sample_identity lift_res_def sample_running_def
        bnd_def thn_def gets_def upd_def ret_def ensure_def catch_exn_def)
qed

lemma steady_event:
  assumes "steady_owner L g t0 t1"
  shows "lifecycle_event L sample_settings sample_producer (PInt 1) (PStr ''heartbeat'') (PDict []) (sample_running g 0 t1) =
    (Inr (lifecycle_status L (sample_running g 1 t1)), sample_running g 1 t1)"
proof -
  note tick = steady_tick [OF assms, of 0]
  show ?thesis
    using assms tick
    by (simp add: steady_owner_def lifecycle_event_def event_body_def apply_event_def heartbeat_lease_def lease_now_def on_owner_def
        zoom_def event_operations_def finite_num_def clock_advances_def sample_identity lift_res_def sample_running_def uint_arg_def
        bnd_def thn_def gets_def upd_def ret_def ensure_def catch_exn_def)
qed

lemma steady_life:
  assumes "steady_owner L g t0 t1" and "off t0" and "\<not> (lo_path_status L \<noteq> None \<and> lo_generation L = None)"
  shows "lifecycle_run L off sample_settings (sample_running g 0 t1)"
proof -
  from steady_init [OF assms(3), of t0] assms(2) have "lifecycle_run L off sample_settings (sample_initial t0)" by (rule life_init)
  from life_start [OF this steady_start [OF assms(1)]] show ?thesis by simp
qed

definition idle_state :: pstate where
  "idle_state = \<lparr>p_revision = 3, p_phase = ''blocked'', p_digest = policy_a, p_attachment = PNone\<rparr>"

definition idle_policy :: "'e \<Rightarrow> 'e policy" where
  "idle_policy e = mgr.extend \<lparr>env = e, jrows = [], sessions = [], recovery_required = False, trace = []\<rparr>
     \<lparr>pol_state = idle_state, pol_saved = idle_state, activated = False, dependencies = [], pol_ids = sample_book 65536\<rparr>"

definition active_state :: "string \<Rightarrow> pstate" where
  "active_state d = idle_state\<lparr>p_phase := ''active'', p_attachment := PStr d\<rparr>"

definition active_policy :: "string \<Rightarrow> ('e, 'z) policy_scheme \<Rightarrow> ('e, 'z) policy_scheme" where
  "active_policy d t = t\<lparr>pol_state := active_state d, pol_saved := active_state d, activated := True\<rparr>"

text \<open>A policy owner over an idle backend, with bindings that do not change.\<close>

definition steady_policy :: "('e, ('e, 'z) policy_scheme) powner" where
  "steady_policy = \<lparr>po_backend = \<lparr>be_readiness = ret [], be_fetch = (\<lambda>_. ret None), be_insert = (\<lambda>_. ret ()), be_delete = (\<lambda>_. ret ()),
       db_commit = ret ()\<rparr>,
     po_save = (\<lambda>_. ret ()), po_bindings = ret sample_bindings, po_qualified = ret (PBool True), po_nat_qualified = ret (PBool False),
     po_sql = \<lparr>sq_begin = ret (), sq_commit = ret ()\<rparr>, po_paths = None\<rparr>"

lemma stays_inactive: "\<not> activated t \<Longrightarrow> t\<lparr>activated := False\<rparr> = t" for t :: "('e, 'z) policy_scheme"
  by (cases t) simp

lemma idle_reconcile:
  "\<not> activated t \<Longrightarrow> sessions t = [] \<Longrightarrow> \<not> recovery_required t \<Longrightarrow> pol_state t = idle_state \<Longrightarrow>
   reconcile P t = (Inr (policy_status t), t)"
  by (simp add: reconcile_def bnd_def thn_def gets_def ret_def whn_def upd_def idle_state_def stays_inactive)

lemma active_reconcile:
  assumes "digest sample_bindings = Inr d" "activated t" "\<not> recovery_required t" "pol_state t = active_state d" "dependencies t = []"
    "po_qualified P = ret (PBool True)" "po_bindings P = ret sample_bindings"
  shows "reconcile P t = (Inr (policy_status t), t)"
  using assms
  by (simp add: reconcile_def dependencies_stale_def active_state_def bnd_def thn_def gets_def io_def ret_def
      catch_exn_def lift_res_def whn_def)

lemma steady_activate:
  assumes "digest sample_bindings = Inr d" "\<not> recovery_required t" "pol_state t = idle_state" "ids_pool (pol_ids t) \<noteq> None"
    "po_qualified P = ret (PBool True)" "po_bindings P = ret sample_bindings" "po_save P = (\<lambda>_. ret ())"
  shows "activate P (PInt 3) policy_a t = (Inr (), active_policy d t)"
proof -
  have "is_sha policy_a" by code_simp
  with assms show ?thesis
    by (simp add: activate_def active_policy_def active_state_def idle_state_def runs uint_arg_def persist_def
        catch_all_def io_def ret_def)
qed

lemma steady_policy_owner:
  assumes d: "digest sample_bindings = Inr d"
  shows "steady_owner (policy_leases (sole_policy steady_policy) (ret (PInt 5)) None) PNone (idle_policy e) (active_policy d (idle_policy e))"
proof -
  have t0: "\<not> activated (idle_policy e)" "sessions (idle_policy e) = []" "\<not> recovery_required (idle_policy e)"
    "pol_state (idle_policy e) = idle_state" "dependencies (idle_policy e) = []" "ids_pool (pol_ids (idle_policy e)) \<noteq> None"
    by (simp_all add: idle_policy_def mgr.extend_def sample_book_def sample_pool_def)
  have P: "po_qualified (sole_policy steady_policy) = ret (PBool True)" "po_bindings (sole_policy steady_policy) = ret sample_bindings"
    "po_save (sole_policy steady_policy) = (\<lambda>_. ret ())"
    by (simp_all add: sole_policy_def steady_policy_def)
  have "reconcile (sole_policy steady_policy) (active_policy d (idle_policy e)) =
      (Inr (policy_status (active_policy d (idle_policy e))), active_policy d (idle_policy e))"
    by (rule active_reconcile [OF d]) (simp_all add: active_policy_def t0 P)
  moreover have "lo_enabled (policy_leases (sole_policy steady_policy) (ret (PInt 5)) None) (active_policy d (idle_policy e))"
    by (simp add: policy_leases_def admission_enabled_def active_policy_def active_state_def t0)
  ultimately show ?thesis
    using idle_reconcile [OF t0(1-4), of "sole_policy steady_policy"] steady_activate [OF d t0(3,4,6) P]
    by (simp add: steady_owner_def policy_leases_def deactivate_def upd_def thn_def bnd_def ret_def io_def stays_inactive [OF t0(1)]
        current_generation_def)
qed

text \<open>The same policy owner wired to the path owner, with no path in use.\<close>

definition idle_paths :: "slot_table path_tables" where
  "idle_paths = policy.extend (idle_policy []) \<lparr>pw_rows = [], pw_paths = [], pw_recovery = False\<rparr>"

abbreviation sample_leases :: "slot_table path_tables lease_owner" where
  "sample_leases \<equiv> path_leases (wired_paths sample_paths steady_policy) (wired_policy sample_paths steady_policy)
     (ret (PInt 5)) (Some (ret policy_a))"

lemma steady_path_owner:
  assumes d: "digest sample_bindings = Inr d"
  shows "steady_owner sample_leases policy_a idle_paths (active_policy d idle_paths)"
proof -
  let ?W = "wired_paths sample_paths steady_policy" and ?P = "wired_policy sample_paths steady_policy"
  have t0: "\<not> activated idle_paths" "sessions idle_paths = []" "\<not> recovery_required idle_paths" "pol_state idle_paths = idle_state"
    "dependencies idle_paths = []" "ids_pool (pol_ids idle_paths) \<noteq> None" "pw_paths idle_paths = []" "\<not> pw_recovery idle_paths"
    by (simp_all add: idle_paths_def idle_policy_def mgr.extend_def policy.extend_def sample_book_def sample_pool_def)
  have P: "po_qualified ?P = ret (PBool True)" "po_bindings ?P = ret sample_bindings" "po_save ?P = (\<lambda>_. ret ())"
    by (simp_all add: wired_policy_def steady_policy_def)
  have quiet: "paths_reconcile ?W ?P t = (Inr (path_status t), t)"
    if "reconcile ?P t = (Inr (policy_status t), t)" "pw_paths t = []" "\<not> pw_recovery t" "dependencies t = []" for t
    using that by (simp add: paths_reconcile_def deactivating_def path_reconcile_def catch_all_def bnd_def thn_def gets_def whn_def
        lift_res_def ret_def)
  have "reconcile ?P (active_policy d idle_paths) = (Inr (policy_status (active_policy d idle_paths)), active_policy d idle_paths)"
    by (rule active_reconcile [OF d]) (simp_all add: active_policy_def t0 P)
  then have "paths_reconcile ?W ?P (active_policy d idle_paths) = (Inr (path_status (active_policy d idle_paths)), active_policy d idle_paths)"
    by (rule quiet) (simp_all add: active_policy_def t0)
  moreover have "paths_reconcile ?W ?P idle_paths = (Inr (path_status idle_paths), idle_paths)"
    by (rule quiet [OF idle_reconcile [OF t0(1-4)] t0(7,8,5)])
  moreover have "lo_enabled sample_leases (active_policy d idle_paths)"
    by (simp add: path_leases_def admission_enabled_def active_policy_def active_state_def t0)
  moreover have "is_sha policy_a" by code_simp
  ultimately show ?thesis
    using steady_activate [OF d t0(3,4,6) P]
    by (simp add: steady_owner_def path_leases_def deactivate_def upd_def thn_def bnd_def ret_def io_def stays_inactive [OF t0(1)]
        current_generation_def on_owner_def zoom_def ensure_def)
qed

lemma sample_path_life:
  assumes "digest sample_bindings = Inr d"
  shows "lifecycle_run sample_leases (\<lambda>t. \<not> activated t) sample_settings (sample_running policy_a 0 (active_policy d idle_paths))"
  by (rule steady_life [OF steady_path_owner [OF assms]])
    (simp_all add: path_leases_def idle_paths_def idle_policy_def mgr.extend_def policy.extend_def)

theorem lifecycle_fails_closed_witness:
  "\<exists>d. admission_enabled (active_policy d idle_paths) \<and> lc_producer (sample_running policy_a 0 (active_policy d idle_paths)) \<noteq> None"
proof -
  from sample_digest obtain d where d: "digest sample_bindings = Inr d" by blast
  have "admission_enabled (active_policy d idle_paths)"
    by (simp add: admission_enabled_def active_policy_def active_state_def idle_paths_def idle_policy_def mgr.extend_def policy.extend_def)
  with lifecycle_fails_closed [OF sample_path_life [OF d]] show ?thesis by (auto simp: sample_running_def)
qed

theorem lifecycle_event_acknowledged_witness:
  "\<exists>d. acknowledged sample_settings sample_producer (PInt 1) (PStr ''heartbeat'')
     (sample_running policy_a 0 (active_policy d idle_paths)) (sample_running policy_a 1 (active_policy d idle_paths))"
proof -
  from sample_digest obtain d where d: "digest sample_bindings = Inr d" by blast
  from lifecycle_event_acknowledged [OF sample_path_life [OF d], of sample_producer "PInt 1" "PStr ''heartbeat''" "PDict []"]
  show ?thesis by (auto simp: steady_event [OF steady_path_owner [OF d]])
qed

theorem lifecycle_tick_expires_witness:
  "\<exists>d. timely sample_settings (sample_running PNone 0 (active_policy d (idle_policy ())))"
proof -
  from sample_digest obtain d where d: "digest sample_bindings = Inr d" by blast
  have run: "lifecycle_run (policy_leases (sole_policy steady_policy) (ret (PInt 5)) None) (\<lambda>t. \<not> activated t) sample_settings
      (sample_running PNone 0 (active_policy d (idle_policy ())))"
    by (rule steady_life [OF steady_policy_owner [OF d]]) (simp_all add: policy_leases_def idle_policy_def mgr.extend_def)
  have "lc_producer (sample_running PNone 0 (active_policy d (idle_policy ()))) \<noteq> None"
    by (simp add: sample_running_def)
  with lifecycle_tick_expires [OF run] show ?thesis
    by (auto simp: steady_tick [OF steady_policy_owner [OF d]])
qed

end
