(* ===== verification/LacpPackets.thy ===== *)
theory LacpPackets
  imports Octets
begin

text \<open>
  LACP frames: strict decoding and the expiring observations of
  \<open>octeon/debian/ffn_lacp_packets.py\<close>, and the encoder of \<open>octeon/debian/ffn_lacp_engine.py\<close>.
  A frame is a list of octets; port numbers and states are unbounded integers, as in Python.
\<close>

section \<open>Hardware addresses\<close>

text \<open>
  \<open>int(p, 16)\<close> for a piece of two characters: a sign or white space may stand in for a digit.
\<close>

definition int_space :: "char \<Rightarrow> bool" where
  "int_space c \<longleftrightarrow> (of_char c :: nat) \<in> {9, 10, 11, 12, 13, 32, 133, 160}"

definition hex_piece :: "string \<Rightarrow> int option" where
  "hex_piece p = (case p of
      [c, d] \<Rightarrow> (case (hex_val c, hex_val d) of
          (Some a, Some b) \<Rightarrow> Some (int (16 * a + b))
        | (None, Some b) \<Rightarrow> if int_space c \<or> c = CHR ''+'' then Some (int b)
                            else if c = CHR ''-'' then Some (- int b) else None
        | (Some a, None) \<Rightarrow> if int_space d then Some (int a) else None
        | _ \<Rightarrow> None)
    | _ \<Rightarrow> None)"

definition byte_piece :: "string \<Rightarrow> byte option" where
  "byte_piece p = (case hex_piece p of
      Some i \<Rightarrow> if 0 \<le> i \<and> i < 256 then Some (of_int i) else None
    | None \<Rightarrow> None)"

definition all_some :: "'a option list \<Rightarrow> 'a list option" where
  "all_some xs = (if list_all (\<lambda>x. x \<noteq> None) xs then Some (map the xs) else None)"

definition mac_bytes :: "pyval \<Rightarrow> exn + bytes" where
  "mac_bytes v = (rthn (rcheck (is_str v \<and> length (the_str v) = 17) (ValueError ''MAC must have six colon-separated octets''))
    ((case all_some (map byte_piece (split_on (CHR '':'') (the_str v))) of
        None \<Rightarrow> Inl (ValueError ''Invalid MAC'')
      | Some raw \<Rightarrow> if length raw = 6 then Inr raw else Inl (ValueError ''Invalid MAC''))))"

text \<open>\<open>':'.join('%02x' % b for b in raw)\<close>.\<close>

definition mac_text :: "bytes \<Rightarrow> string" where
  "mac_text raw = join '':'' (map byte_hex raw)"

definition group_mac :: "bytes \<Rightarrow> bool" where
  "group_mac raw \<longleftrightarrow> odd (unat (hd raw)) \<or> list_all (\<lambda>b. b = 0) raw"

section \<open>Wire format\<close>

record lacp_info =
  li_priority :: int
  li_system :: string
  li_key :: int
  li_port_priority :: int
  li_port :: int
  li_state :: int

definition flag_names :: "string list" where
  "flag_names = [''activity'', ''short_timeout'', ''aggregation'', ''synchronization'', ''collecting'',
     ''distributing'', ''defaulted'', ''expired'']"

definition state_bit :: "int \<Rightarrow> nat \<Rightarrow> bool" where
  "state_bit s n \<longleftrightarrow> odd (s div 2 ^ n)"

record lacp_pdu =
  lp_source :: string
  lp_actor :: lacp_info
  lp_partner :: lacp_info
  lp_actor_flags :: "(string \<times> bool) list"
  lp_partner_flags :: "(string \<times> bool) list"
  lp_delay :: int

definition lacp_destination :: bytes where
  "lacp_destination = [0x01, 0x80, 0xc2, 0x00, 0x00, 0x02]"

definition info_flags :: "lacp_info \<Rightarrow> (string \<times> bool) list" where
  "info_flags i = zip flag_names (map (state_bit (li_state i)) [0..<8])"

text \<open>One information TLV: its two-octet header, then \<open>!H6sHHHB\<close>; three reserved octets are ignored.\<close>

definition decode_info :: "bytes \<Rightarrow> nat \<Rightarrow> byte \<Rightarrow> exn + lacp_info" where
  "decode_info frame offset kind = (rthn (rcheck (slice offset (offset + 2) frame = [kind, 20]) (ValueError ''invalid LACP information TLV''))
    (Inr \<lparr>li_priority = int (from_be (slice (offset + 2) (offset + 4) frame)),
       li_system = mac_text (slice (offset + 4) (offset + 10) frame),
       li_key = int (from_be (slice (offset + 10) (offset + 12) frame)),
       li_port_priority = int (from_be (slice (offset + 12) (offset + 14) frame)),
       li_port = int (from_be (slice (offset + 14) (offset + 16) frame)),
       li_state = int (from_be (slice (offset + 16) (offset + 17) frame))\<rparr>))"

definition zero_system :: string where
  "zero_system = ''00:00:00:00:00:00''"

definition lacp_decode :: "bytes \<Rightarrow> exn + lacp_pdu" where
  "lacp_decode frame = (rthn (rcheck (124 \<le> length frame) (ValueError ''truncated LACP frame''))
    (rthn (rcheck (slice 0 6 frame = lacp_destination \<and> slice 12 16 frame = [0x88, 0x09, 0x01, 0x01])
       (ValueError ''not an untagged LACP version 1 frame''))
    (rthn (rcheck (\<not> odd (unat (frame ! 6)) \<and> slice 6 12 frame \<noteq> replicate 6 0) (ValueError ''invalid source MAC''))
    (rbnd (decode_info frame 16 1) (\<lambda>actor.
    rbnd (decode_info frame 36 2) (\<lambda>partner.
    rthn (rcheck (slice 56 58 frame = [0x03, 0x10] \<and> slice 72 74 frame = [0, 0]) (ValueError ''invalid collector or terminator TLV''))
    (rthn (rcheck (li_system actor \<noteq> zero_system \<and> \<not> odd (the (hex_piece (take 2 (li_system actor)))) \<and> li_port actor \<noteq> 0)
       (ValueError ''invalid actor identity''))
    (Inr \<lparr>lp_source = mac_text (slice 6 12 frame), lp_actor = actor, lp_partner = partner,
       lp_actor_flags = info_flags actor, lp_partner_flags = info_flags partner,
       lp_delay = int (from_be (slice 58 60 frame))\<rparr>))))))))"

text \<open>\<open>struct.pack\<close> refuses a field that does not fit.\<close>

definition pack_field :: "nat \<Rightarrow> int \<Rightarrow> exn + bytes" where
  "pack_field n v = (if 0 \<le> v \<and> v < 256 ^ n then Inr (to_be n (nat v)) else Inl (OtherError ''struct.error''))"

definition encode_info :: "byte \<Rightarrow> lacp_info \<Rightarrow> exn + bytes" where
  "encode_info kind p = (rbnd (mac_bytes (PStr (li_system p))) (\<lambda>system.
    rbnd (pack_field 2 (li_priority p)) (\<lambda>priority.
    rbnd (pack_field 2 (li_key p)) (\<lambda>key.
    rbnd (pack_field 2 (li_port_priority p)) (\<lambda>port_priority.
    rbnd (pack_field 2 (li_port p)) (\<lambda>port.
    rbnd (pack_field 1 (li_state p)) (\<lambda>state.
    Inr ([kind, 20] @ priority @ system @ key @ port_priority @ port @ state @ [0, 0, 0]))))))))"

definition lacp_encode :: "lacp_info \<Rightarrow> lacp_info \<Rightarrow> string \<Rightarrow> exn + bytes" where
  "lacp_encode actor partner source = (rbnd (mac_bytes (PStr source)) (\<lambda>raw.
    rthn (rcheck (\<not> group_mac raw) (ValueError ''Unicast source MAC required''))
    (rbnd (encode_info 1 actor) (\<lambda>first.
    rbnd (encode_info 2 partner) (\<lambda>second.
    Inr (lacp_destination @ raw @ [0x88, 0x09, 0x01, 0x01] @ first @ second @ [0x03, 0x10] @ replicate 66 0))))))"

section \<open>Observations\<close>

record seen_pdu =
  se_pdu :: lacp_pdu
  se_received :: int
  se_last :: rat

record observations =
  ob_ports :: "(int \<times> seen_pdu) list"
  ob_invalid :: int
  ob_received :: int

definition no_observations :: observations where
  "no_observations = \<lparr>ob_ports = [], ob_invalid = 0, ob_received = 0\<rparr>"

definition observe_frame :: "pyval \<Rightarrow> bytes \<Rightarrow> rat \<Rightarrow> (observations, bool) py" where
  "observe_frame port frame now = (thn (ensure (int_in port 1 24) (ValueError ''invalid faceplate port''))
    ((case lacp_decode frame of
        Inl _ \<Rightarrow> (thn (upd (\<lambda>s. s\<lparr>ob_invalid := ob_invalid s + 1\<rparr>))
          (ret False))
      | Inr pdu \<Rightarrow> (bnd (gets (\<lambda>s. case dict_get (ob_ports s) (the_int port) of None \<Rightarrow> 0 | Some p \<Rightarrow> se_received p)) (\<lambda>prior.
        thn (upd (\<lambda>s. s\<lparr>ob_received := ob_received s + 1,
            ob_ports := dict_set (the_int port) \<lparr>se_pdu = pdu, se_received = prior + 1, se_last = now\<rparr> (ob_ports s)\<rparr>))
        (ret True))))))"

record observed_row =
  or_port :: int
  or_received :: int
  or_age :: rat
  or_expired :: bool
  or_timeout :: rat
  or_source :: string
  or_actor :: lacp_info
  or_partner :: lacp_info
  or_negotiated :: bool
  or_forwarding :: bool

definition observed_row :: "rat \<Rightarrow> int \<times> seen_pdu \<Rightarrow> observed_row" where
  "observed_row now = (\<lambda>(port, p).
     let age = now - se_last p;
         timeout = (if dict_get (lp_partner_flags (se_pdu p)) ''short_timeout'' = Some True then 3 else 90) in
     \<lparr>or_port = port, or_received = se_received p, or_age = max 0 age, or_expired = (\<not> (0 \<le> age \<and> age < timeout)),
      or_timeout = timeout, or_source = lp_source (se_pdu p), or_actor = lp_actor (se_pdu p),
      or_partner = lp_partner (se_pdu p), or_negotiated = False, or_forwarding = False\<rparr>)"

definition observed_snapshot :: "rat \<Rightarrow> observations \<Rightarrow> observed_row list \<times> int \<times> int" where
  "observed_snapshot now s = (map (observed_row now) (sort_key fst (ob_ports s)), ob_received s, ob_invalid s)"

section \<open>A decoded advertisement is the one encoded\<close>

lemma length_byte_hex: "length (byte_hex b) = 2"
  by (simp add: byte_hex_def)

lemma hex_not_colon: "n < 16 \<Longrightarrow> hex_char n \<noteq> CHR '':''"
  using hex_char_digit [of n] by (auto simp: hexdigits_def)

lemma colon_free: "CHR '':'' \<notin> set (byte_hex b)"
proof -
  have "unat b div 16 < 16" "unat b mod 16 < 16" using unat_byte_less [of b] by auto
  then show ?thesis unfolding byte_hex_def using hex_not_colon by (metis empty_iff empty_set insert_iff list.set(2))
qed

lemma hex_piece_byte: "hex_piece (byte_hex b) = Some (int (unat b))"
proof -
  have "unat b div 16 < 16" "unat b mod 16 < 16" using unat_byte_less [of b] by auto
  then show ?thesis
    by (simp add: hex_piece_def byte_hex_def hex_char_val)
qed

lemma split_join: "ps \<noteq> [] \<Longrightarrow> list_all (\<lambda>p. c \<notin> set p) ps \<Longrightarrow> split_on c (join [c] ps) = ps"
  by (induction "[c]" ps rule: join.induct) (simp_all add: split_on_single split_on_append)

lemma split_mac: "raw \<noteq> [] \<Longrightarrow> split_on (CHR '':'') (mac_text raw) = map byte_hex raw"
  unfolding mac_text_def by (rule split_join) (simp_all add: list_all_iff colon_free)

lemma length_join: "ps \<noteq> [] \<Longrightarrow> length (join [c] ps) = sum_list (map length ps) + (length ps - 1)"
  by (induction "[c]" ps rule: join.induct) simp_all

lemma length_mac_text: "length raw = 6 \<Longrightarrow> length (mac_text raw) = 17"
  unfolding mac_text_def by (subst length_join) (auto simp: length_byte_hex comp_def sum_list_triv)

lemma byte_piece_hex: "byte_piece (byte_hex b) = Some b"
proof -
  have "uint b < 2 ^ LENGTH(8)" by (rule unsigned_less)
  then show ?thesis by (simp add: byte_piece_def hex_piece_byte)
qed

lemma all_some_map: "all_some (map Some xs) = Some xs"
  by (simp add: all_some_def list_all_iff comp_def)

lemma mac_bytes_text: "length raw = 6 \<Longrightarrow> mac_bytes (PStr (mac_text raw)) = Inr raw"
proof -
  assume "length raw = 6"
  then have "map byte_piece (split_on (CHR '':'') (mac_text raw)) = map Some raw"
    by (subst split_mac) (auto simp: byte_piece_hex)
  with \<open>length raw = 6\<close> show ?thesis
    by (simp add: mac_bytes_def length_mac_text all_some_map)
qed

lemma take_mac_text: "length raw = 6 \<Longrightarrow> take 2 (mac_text raw) = byte_hex (hd raw)"
  by (cases raw; cases "tl raw") (auto simp: mac_text_def byte_hex_def)

lemma mac_text_inject: "length raw = 6 \<Longrightarrow> length raw' = 6 \<Longrightarrow> mac_text raw = mac_text raw' \<longleftrightarrow> raw = raw'"
  using mac_bytes_text by (metis sum.inject(2))

lemma zero_system_text: "zero_system = mac_text (replicate 6 0)"
  by code_simp

definition info_fits :: "lacp_info \<Rightarrow> bool" where
  "info_fits i \<longleftrightarrow> (\<exists>raw. length raw = 6 \<and> li_system i = mac_text raw) \<and>
     0 \<le> li_priority i \<and> li_priority i < 2 ^ 16 \<and> 0 \<le> li_key i \<and> li_key i < 2 ^ 16 \<and>
     0 \<le> li_port_priority i \<and> li_port_priority i < 2 ^ 16 \<and> 0 \<le> li_port i \<and> li_port i < 2 ^ 16 \<and>
     0 \<le> li_state i \<and> li_state i < 2 ^ 8"

definition info_body :: "bytes \<Rightarrow> lacp_info \<Rightarrow> bytes" where
  "info_body raw i = to_be 2 (nat (li_priority i)) @ raw @ to_be 2 (nat (li_key i)) @
     to_be 2 (nat (li_port_priority i)) @ to_be 2 (nat (li_port i)) @ [of_nat (nat (li_state i))] @ [0, 0, 0]"

lemma pack_fits:
  "0 \<le> v \<Longrightarrow> v < 65536 \<Longrightarrow> pack_field 2 v = Inr (to_be 2 (nat v))"
  "0 \<le> v \<Longrightarrow> v < 256 \<Longrightarrow> pack_field (Suc 0) v = Inr [of_nat (nat v)]"
  by (simp_all add: pack_field_def nat_less_iff)

lemma encode_info_fits:
  "info_fits i \<Longrightarrow> length raw = 6 \<Longrightarrow> li_system i = mac_text raw \<Longrightarrow> encode_info kind i = Inr ([kind, 20] @ info_body raw i)"
  by (simp add: encode_info_def info_fits_def mac_bytes_text pack_fits info_body_def)

lemma length_info_body: "length raw = 6 \<Longrightarrow> length (info_body raw i) = 18"
  by (simp add: info_body_def)

lemma slice_append: "slice (length a + m) (length a + n) (a @ b) = slice m n b"
  by (simp add: slice_def)

lemma slice_pre: "n \<le> length a \<Longrightarrow> slice m n (a @ b) = slice m n a"
  by (simp add: slice_def)

lemma wire16: "0 \<le> v \<Longrightarrow> v < 65536 \<Longrightarrow> int (from_be (to_be 2 (nat v))) = v"
  using from_be_to_be [of "nat v" 2] by (simp add: nat_less_iff)

lemma wire8: "0 \<le> v \<Longrightarrow> v < 256 \<Longrightarrow> int (from_be [word_of_int v]) = v"
  using from_be_snoc [of "[]" "word_of_int v"] by (simp add: take_bit_int_eq_self unsigned_of_int)

lemma decode_info_body:
  assumes "info_fits i" "length raw = 6" "li_system i = mac_text raw"
  shows "decode_info (pre @ kind # 20 # info_body raw i @ post) (length pre) kind = Inr i"
proof -
  let ?b = "kind # 20 # info_body raw i @ post"
  have sl: "slice (length pre + m) (length pre + n) (pre @ ?b) = slice m n ?b" for m n
    by (rule slice_append)
  have parts: "slice 2 4 ?b = to_be 2 (nat (li_priority i))" "slice 4 10 ?b = raw" "slice 10 12 ?b = to_be 2 (nat (li_key i))"
    "slice 12 14 ?b = to_be 2 (nat (li_port_priority i))" "slice 14 16 ?b = to_be 2 (nat (li_port i))"
    "slice 16 17 ?b = [of_nat (nat (li_state i))]" "slice 0 2 ?b = [kind, 20]"
    using assms(2) by (simp_all add: slice_def info_body_def)
  show ?thesis
    unfolding decode_info_def using sl [of 0 2] sl [of 2 4] sl [of 4 10] sl [of 10 12] sl [of 12 14] sl [of 14 16] sl [of 16 17]
    using assms by (auto simp: parts wire16 wire8 info_fits_def intro!: lacp_info.equality)
qed

lemma even_uint: "even (uint (b :: byte)) \<longleftrightarrow> even (unat b)"
proof -
  have "uint b = int (unat b)" by simp
  then show ?thesis by (simp only: even_of_nat)
qed

text \<open>
  C30.  A LACP advertisement survives the wire: for information records whose fields fit their
  wire width and unicast source and actor addresses, the encoder produces a 124-octet frame, and
  the strict decoder of the receiving side returns the source and both records unchanged.
\<close>

theorem lacp_round_trip:
  assumes "info_fits actor" "info_fits partner" "li_port actor \<noteq> 0"
    and "li_system actor = mac_text system" "length system = 6" "\<not> group_mac system"
    and "length raw = 6" "\<not> group_mac raw"
  shows "\<exists>frame. lacp_encode actor partner (mac_text raw) = Inr frame \<and> length frame = 124 \<and>
    lacp_decode frame = Inr \<lparr>lp_source = mac_text raw, lp_actor = actor, lp_partner = partner,
      lp_actor_flags = info_flags actor, lp_partner_flags = info_flags partner, lp_delay = 0\<rparr>"
proof -
  obtain other where other: "length other = 6" "li_system partner = mac_text other"
    using assms(2) by (auto simp: info_fits_def)
  define pre where "pre = lacp_destination @ raw @ [0x88, 0x09, 0x01, 0x01]"
  define a where "a = info_body system actor"
  define p where "p = info_body other partner"
  define post where "post = [0x03, 0x10] @ replicate 66 (0 :: byte)"
  let ?frame = "pre @ 1 # 20 # a @ 2 # 20 # p @ post"
  have lens: "length pre = 16" "length a = 18" "length p = 18" "length post = 68"
    using assms(5,7) other(1) by (simp_all add: pre_def a_def p_def post_def length_info_body lacp_destination_def)
  have enc: "lacp_encode actor partner (mac_text raw) = Inr ?frame"
    using assms other by (simp add: lacp_encode_def mac_bytes_text encode_info_fits pre_def a_def p_def post_def)
  have one: "decode_info ?frame 16 1 = Inr actor"
    using decode_info_body [OF assms(1,5,4), of pre 1 "2 # 20 # p @ post"] lens by (simp add: a_def)
  have two: "decode_info ?frame 36 2 = Inr partner"
    using decode_info_body [OF assms(2) other, of "pre @ 1 # 20 # a" 2 post] lens by (simp add: p_def)
  have tail: "slice 56 58 ?frame = [0x03, 0x10]" "slice 72 74 ?frame = [0, 0]" "slice 58 60 ?frame = [0, 0]"
    using lens by (simp_all add: slice_def post_def eval_nat_numeral)
  have head: "slice 0 6 ?frame = lacp_destination" "slice 12 16 ?frame = [0x88, 0x09, 0x01, 0x01]" "slice 6 12 ?frame = raw"
      "?frame ! 6 = hd raw"
    using assms(7) by (cases raw; simp add: slice_def pre_def lacp_destination_def nth_append)+
  have nonzero: "list_all (\<lambda>b. b = 0) r \<longleftrightarrow> r = replicate (length r) (0 :: byte)" for r
    by (induction r) auto
  have "lacp_decode ?frame = Inr \<lparr>lp_source = mac_text raw, lp_actor = actor, lp_partner = partner,
      lp_actor_flags = info_flags actor, lp_partner_flags = info_flags partner, lp_delay = 0\<rparr>"
    using assms lens
    by (simp add: lacp_decode_def one two tail head group_mac_def zero_system_text mac_text_inject take_mac_text hex_piece_byte
        nonzero even_uint from_be_def)
  with enc lens show ?thesis by auto
qed

definition sample_info :: "int \<Rightarrow> lacp_info" where
  "sample_info port = \<lparr>li_priority = 32768, li_system = mac_text [2, 0, 0, 0, 0, 1], li_key = 7, li_port_priority = 128,
     li_port = port, li_state = 0x3d\<rparr>"

theorem lacp_round_trip_witness:
  "\<exists>frame. lacp_encode (sample_info 3) (sample_info 4) (mac_text [2, 0, 0, 0, 0, 9]) = Inr frame \<and> length frame = 124 \<and>
    lacp_decode frame = Inr \<lparr>lp_source = mac_text [2, 0, 0, 0, 0, 9], lp_actor = sample_info 3, lp_partner = sample_info 4,
      lp_actor_flags = info_flags (sample_info 3), lp_partner_flags = info_flags (sample_info 4), lp_delay = 0\<rparr>"
proof (rule lacp_round_trip [where system = "[2, 0, 0, 0, 0, 1]"])
  show "info_fits (sample_info 3)" "info_fits (sample_info 4)"
    unfolding info_fits_def by (auto simp: sample_info_def intro!: exI [of _ "[2, 0, 0, 0, 0, 1]"])
qed (simp_all add: sample_info_def group_mac_def)

end
