(* ===== verification/LacpEngine.thy ===== *)
theory LacpEngine
  imports LacpPackets
begin

text \<open>
  The LACP negotiation engine of \<open>octeon/debian/ffn_lacp_engine.py\<close>: per-member receive machines,
  the choice of one aggregator, and collection/distribution gates that a driver must acknowledge.
  The driver is a parameter over a state of its own; times are rationals.  A recorded peer keeps the
  numbers of its information record; the \<open>flags\<close> dictionary derived from its state is not kept.
\<close>

section \<open>State\<close>

datatype rx_state = Disabled | Expired | Defaulted | Current

record member =
  mb_source :: pyval
  mb_link :: bool
  mb_speed :: int
  mb_lease :: rat
  mb_peer :: "lacp_info option"
  mb_echo :: "lacp_info option"
  mb_rx :: rx_state
  mb_deadline :: rat
  mb_selected :: bool
  mb_since :: rat
  mb_matched :: bool
  mb_sync :: bool
  mb_last_tx :: "rat option"
  mb_last_pdu :: "bytes option"
  mb_dirty :: bool
  mb_tx :: int
  mb_rx_count :: int
  mb_invalid :: int

record gate =
  ga_collect :: bool
  ga_distribute :: bool

type_synonym gates = "(int \<times> gate) list"
type_synonym bucket = "int \<times> string \<times> int \<times> int"

record 'd engine =
  en_driver :: 'd
  en_collecting :: bool
  en_system :: string
  en_key :: int
  en_priority :: int
  en_active :: bool
  en_fast :: bool
  en_min_links :: int
  en_members :: "(int \<times> member) list"
  en_bucket :: "bucket option"
  en_now :: "rat option"
  en_fault :: "string option"
  en_applied :: "gates option"

abbreviation "ACTIVITY \<equiv> 0 :: nat"
abbreviation "TIMEOUT \<equiv> 1 :: nat"
abbreviation "AGGREGATION \<equiv> 2 :: nat"
abbreviation "SYNC \<equiv> 3 :: nat"
abbreviation "COLLECTING \<equiv> 4 :: nat"
abbreviation "DISTRIBUTING \<equiv> 5 :: nat"

definition state_of :: "bool list \<Rightarrow> int" where
  "state_of bs = foldr (\<lambda>b s. (if b then 1 else 0) + 2 * s) bs 0"

definition set_state :: "int \<Rightarrow> nat \<Rightarrow> bool \<Rightarrow> int" where
  "set_state s n b = s + (if state_bit s n then 0 else if b then 2 ^ n else 0) - (if state_bit s n \<and> \<not> b then 2 ^ n else 0)"

definition identity :: "lacp_info \<Rightarrow> int \<times> string \<times> int \<times> int \<times> int" where
  "identity i = (li_priority i, li_system i, li_key i, li_port_priority i, li_port i)"

definition zero_info :: lacp_info where
  "zero_info = \<lparr>li_priority = 0, li_system = zero_system, li_key = 0, li_port_priority = 0, li_port = 0, li_state = 0\<rparr>"

text \<open>Equality of two dictionaries.\<close>

definition same_dict :: "('k \<times> 'v) list \<Rightarrow> ('k \<times> 'v) list \<Rightarrow> bool" where
  "same_dict a b \<longleftrightarrow> list_all (\<lambda>(k, v). dict_get b k = Some v) a \<and> list_all (\<lambda>(k, v). dict_get a k = Some v) b"

definition shut :: gate where
  "shut = \<lparr>ga_collect = False, ga_distribute = False\<rparr>"

definition closed :: "('d, 'z) engine_scheme \<Rightarrow> gates" where
  "closed s = map (\<lambda>(p, _). (p, shut)) (en_members s)"

section \<open>Gates\<close>

definition drive :: "('d, 'a) py \<Rightarrow> (('d, 'z) engine_scheme, 'a) py" where
  "drive = zoom en_driver (\<lambda>d s. s\<lparr>en_driver := d\<rparr>)"

fun exn_name :: "exn \<Rightarrow> string" where
  "exn_name (ValueError _) = ''ValueError''"
| "exn_name (RuntimeError _) = ''RuntimeError''"
| "exn_name (KeyError _) = ''KeyError''"
| "exn_name (TypeError _) = ''TypeError''"
| "exn_name (TimeoutError _) = ''TimeoutError''"
| "exn_name (OSError _) = ''OSError''"
| "exn_name (SubprocessError _) = ''SubprocessError''"
| "exn_name (OtherError _) = ''Exception''"
| "exn_name (Interrupt _) = ''KeyboardInterrupt''"

definition fault_text :: "exn \<Rightarrow> string" where
  "fault_text e = (if exn_text e = [] then exn_name e else exn_text e)"

text \<open>The withdrawal: closed gates count only when the driver reads them back.\<close>

definition withdraw_gates :: "(gates \<Rightarrow> ('d, gates) py) \<Rightarrow> (('d, 'z) engine_scheme, unit) py" where
  "withdraw_gates drv = catch_exn
     ((bnd (gets closed) (\<lambda>off.
       bnd (drive (drv off)) (\<lambda>result.
       whn (same_dict result off) (upd (\<lambda>s. s\<lparr>en_applied := Some off\<rparr>))))))
     (\<lambda>_. ret ())"

definition apply_gates :: "(gates \<Rightarrow> ('d, gates) py) \<Rightarrow> gates \<Rightarrow> (('d, 'z) engine_scheme, unit) py" where
  "apply_gates drv desired = (bnd (gets (\<lambda>s. en_fault s \<noteq> None \<or> (case en_applied s of None \<Rightarrow> False | Some a \<Rightarrow> same_dict desired a))) (\<lambda>settled.
    whn (\<not> settled) (catch_exn
       ((bnd (drive (drv desired)) (\<lambda>result.
         thn (ensure (same_dict result desired) (RuntimeError ''Member gate readback mismatch''))
         (upd (\<lambda>s. s\<lparr>en_applied := Some result\<rparr>)))))
       (\<lambda>e. (thn (upd (\<lambda>s. s\<lparr>en_fault := Some (fault_text e), en_applied := None\<rparr>))
         (withdraw_gates drv))))))"

section \<open>Construction\<close>

definition lower_char :: "char \<Rightarrow> char" where
  "lower_char c = (let n = of_char c :: nat in if 65 \<le> n \<and> n \<le> 90 then char_of (n + 32) else c)"

definition unicast_bytes :: "pyval \<Rightarrow> string \<Rightarrow> exn + bytes" where
  "unicast_bytes v message = (rbnd (mac_bytes v) (\<lambda>raw.
    rthn (rcheck (\<not> group_mac raw) (ValueError message))
    (Inr raw)))"

definition new_member :: "pyval \<Rightarrow> member" where
  "new_member source = \<lparr>mb_source = source, mb_link = False, mb_speed = 0, mb_lease = 0, mb_peer = None, mb_echo = None,
     mb_rx = Disabled, mb_deadline = 0, mb_selected = False, mb_since = 0, mb_matched = False, mb_sync = False,
     mb_last_tx = None, mb_last_pdu = None, mb_dirty = True, mb_tx = 0, mb_rx_count = 0, mb_invalid = 0\<rparr>"

record lacp_config =
  lc_system :: pyval
  lc_key :: pyval
  lc_members :: "(int \<times> pyval) list"
  lc_activity :: pyval
  lc_rate :: pyval
  lc_priority :: pyval
  lc_min_links :: pyval
  lc_collecting :: pyval

definition check_config :: "lacp_config \<Rightarrow> exn + unit" where
  "check_config c = (rthn (unicast_bytes (lc_system c) ''Unicast system MAC required'')
    (rthn (rcheck (int_in (lc_key c) 1 65535) (ValueError ''Invalid actor key''))
    (rthn (rcheck (int_in (lc_priority c) 1 65535) (ValueError ''Invalid system priority''))
    (rthn (rcheck (1 \<le> length (lc_members c) \<and> length (lc_members c) \<le> 8 \<and> list_all (\<lambda>(p, _). 1 \<le> p \<and> p \<le> 65535) (lc_members c))
       (ValueError ''Invalid members''))
    (rthn (rcheck (int_in (lc_min_links c) 1 (int (length (lc_members c)))) (ValueError ''Invalid minimum links''))
    (rthn (rcheck (lc_activity c \<in> {PStr ''active'', PStr ''passive''} \<and> lc_rate c \<in> {PStr ''fast'', PStr ''slow''})
       (ValueError ''Invalid LACP mode''))
    (rthn (rcheck (is_bool (lc_collecting c)) (ValueError ''Invalid collection permission''))
    (rfor (lc_members c) (\<lambda>(_, source). (rthn (unicast_bytes source ''Unicast member MAC required'')
       (Inr ())))))))))))"

definition engine_start :: "lacp_config \<Rightarrow> 'd \<Rightarrow> 'd engine" where
  "engine_start c d = \<lparr>en_driver = d, en_collecting = truthy (lc_collecting c), en_system = map lower_char (the_str (lc_system c)),
     en_key = the_int (lc_key c), en_priority = the_int (lc_priority c), en_active = (lc_activity c = PStr ''active''),
     en_fast = (lc_rate c = PStr ''fast''), en_min_links = the_int (lc_min_links c),
     en_members = map (\<lambda>(p, source). (p, new_member source)) (lc_members c),
     en_bucket = None, en_now = None, en_fault = None, en_applied = None\<rparr>"

text \<open>Every gate is closed before anything is advertised.\<close>

definition engine_init :: "(gates \<Rightarrow> ('d, gates) py) \<Rightarrow> lacp_config \<Rightarrow> 'd \<Rightarrow> exn + 'd engine" where
  "engine_init drv c d = (rthn (check_config c)
    ((let start = engine_start c d in
      case apply_gates drv (closed start) start of (Inl e, _) \<Rightarrow> Inl e | (Inr _, s) \<Rightarrow> Inr s)))"

section \<open>Time and members\<close>

definition engine_time :: "pyval \<Rightarrow> (('d, 'z) engine_scheme, rat) py" where
  "engine_time now = (case num_of now of
      Some (Finite q) \<Rightarrow> if q < 0 then raise (ValueError ''Invalid monotonic time'') else (bnd (gets en_now) (\<lambda>earlier.
        thn (ensure (case earlier of None \<Rightarrow> True | Some e \<Rightarrow> e \<le> q) (ValueError ''Monotonic clock moved backward''))
        (thn (upd (\<lambda>s. s\<lparr>en_now := Some q\<rparr>))
        (ret q))))
    | _ \<Rightarrow> raise (ValueError ''Invalid monotonic time''))"

definition map_members :: "(int \<Rightarrow> member \<Rightarrow> member) \<Rightarrow> (('d, 'z) engine_scheme, unit) py" where
  "map_members f = upd (\<lambda>s. s\<lparr>en_members := map (\<lambda>(p, m). (p, f p m)) (en_members s)\<rparr>)"

definition set_member :: "int \<Rightarrow> (member \<Rightarrow> member) \<Rightarrow> (('d, 'z) engine_scheme, unit) py" where
  "set_member port f = map_members (\<lambda>p m. if p = port then f m else m)"

definition get_member :: "int \<Rightarrow> (('d, 'z) engine_scheme, member) py" where
  "get_member port = (bnd (gets (\<lambda>s. dict_get (en_members s) port)) (\<lambda>found.
    (case found of None \<Rightarrow> raise (KeyError (dec_int port)) | Some m \<Rightarrow> ret m)))"

text \<open>The receive machine: current to expired to defaulted; a lost or unleased link disables it.\<close>

definition peer_lost :: "member \<Rightarrow> member" where
  "peer_lost m = m\<lparr>mb_peer := None, mb_echo := None, mb_matched := False\<rparr>"

definition expire_member :: "rat \<Rightarrow> member \<Rightarrow> member" where
  "expire_member now m =
     (let m1 = (if \<not> mb_link m \<or> mb_lease m \<le> now then peer_lost (m\<lparr>mb_link := False, mb_rx := Disabled\<rparr>)
        else if mb_rx m = Current \<and> mb_deadline m \<le> now then
          m\<lparr>mb_rx := Expired, mb_matched := False, mb_deadline := mb_deadline m + 3, mb_dirty := True,
            mb_peer := map_option (\<lambda>p. p\<lparr>li_state := set_state (set_state (li_state p) SYNC False) TIMEOUT True\<rparr>) (mb_peer m)\<rparr>
        else m) in
      if mb_rx m1 = Expired \<and> mb_deadline m1 \<le> now then peer_lost (m1\<lparr>mb_rx := Defaulted, mb_dirty := True\<rparr>) else m1)"

section \<open>Selection\<close>

definition current_peer :: "member \<Rightarrow> (string \<times> int) option" where
  "current_peer m = (if mb_rx m = Current then map_option (\<lambda>p. (li_system p, li_port p)) (mb_peer m) else None)"

definition aggregable :: "(int \<times> member) list \<Rightarrow> member \<Rightarrow> bool" where
  "aggregable ms m \<longleftrightarrow> mb_rx m = Current \<and> (case mb_peer m of None \<Rightarrow> False
     | Some p \<Rightarrow> state_bit (li_state p) AGGREGATION \<and>
         length (filter (\<lambda>(_, n). current_peer n = Some (li_system p, li_port p)) ms) = 1)"

definition bucket_of :: "member \<Rightarrow> bucket" where
  "bucket_of m = (case mb_peer m of None \<Rightarrow> (0, [], 0, mb_speed m)
     | Some p \<Rightarrow> (li_priority p, li_system p, li_key p, mb_speed m))"

text \<open>\<open>buckets.setdefault(group, []).append(port)\<close>.\<close>

definition add_bucket :: "bucket \<Rightarrow> int \<Rightarrow> (bucket \<times> int list) list \<Rightarrow> (bucket \<times> int list) list" where
  "add_bucket g p bs = dict_set g ((case dict_get bs g of None \<Rightarrow> [] | Some ps \<Rightarrow> ps) @ [p]) bs"

definition buckets_of :: "(int \<times> member) list \<Rightarrow> (bucket \<times> int list) list" where
  "buckets_of ms = foldl (\<lambda>bs (p, m). if aggregable ms m then add_bucket (bucket_of m) p bs else bs) [] ms"

fun str_less :: "string \<Rightarrow> string \<Rightarrow> bool" where
  "str_less _ [] = False"
| "str_less [] (_ # _) = True"
| "str_less (a # as) (b # bs) = ((of_char a :: nat) < of_char b \<or> a = b \<and> str_less as bs)"

definition bucket_less :: "int \<times> bucket \<Rightarrow> int \<times> bucket \<Rightarrow> bool" where
  "bucket_less = (\<lambda>(w, p, s, k, v) (w', p', s', k', v'). w < w' \<or> w = w' \<and> (p < p' \<or> p = p' \<and>
     (str_less s s' \<or> s = s' \<and> (k < k' \<or> k = k' \<and> v < v'))))"

definition weigh :: "bucket \<times> int list \<Rightarrow> int \<times> bucket" where
  "weigh = (\<lambda>(g, ps). (- int (length ps) * snd (snd (snd g)), g))"

text \<open>\<open>min(buckets, key=lambda g: (-len(buckets[g]) * g[3], g))\<close>.\<close>

definition best_bucket :: "(bucket \<times> int list) list \<Rightarrow> bucket option" where
  "best_bucket bs = (case bs of [] \<Rightarrow> None
     | b # rest \<Rightarrow> Some (fst (foldl (\<lambda>best c. if bucket_less (weigh c) (weigh best) then c else best) b rest)))"

definition choose_bucket :: "(bucket \<times> int list) list \<Rightarrow> bucket option \<Rightarrow> bucket option" where
  "choose_bucket bs old = (case old of None \<Rightarrow> best_bucket bs
     | Some g \<Rightarrow> if dict_get bs g = None then best_bucket bs else old)"

definition selected_ports :: "(bucket \<times> int list) list \<Rightarrow> bucket option \<Rightarrow> int list" where
  "selected_ports bs g = (case g of None \<Rightarrow> [] | Some k \<Rightarrow> (case dict_get bs k of None \<Rightarrow> [] | Some ps \<Rightarrow> ps))"

definition select_member :: "rat \<Rightarrow> bool \<Rightarrow> bool \<Rightarrow> member \<Rightarrow> member" where
  "select_member now faulty chosen m =
     (let since = (if chosen \<and> \<not> mb_selected m then now else mb_since m);
          synced = (chosen \<and> 2 \<le> now - since \<and> \<not> faulty) in
      m\<lparr>mb_since := since, mb_selected := chosen, mb_sync := synced, mb_dirty := mb_dirty m \<or> mb_sync m \<noteq> synced\<rparr>)"

definition peer_bit :: "member \<Rightarrow> nat \<Rightarrow> bool" where
  "peer_bit m n = (case mb_peer m of None \<Rightarrow> False | Some p \<Rightarrow> state_bit (li_state p) n)"

definition may_collect :: "bool \<Rightarrow> member \<Rightarrow> bool" where
  "may_collect permitted m \<longleftrightarrow> permitted \<and> mb_sync m \<and> mb_matched m \<and> peer_bit m SYNC"

definition eligible :: "bool \<Rightarrow> member \<Rightarrow> bool" where
  "eligible permitted m \<longleftrightarrow> may_collect permitted m \<and> peer_bit m COLLECTING"

definition desired_gates :: "bool \<Rightarrow> int \<Rightarrow> (int \<times> member) list \<Rightarrow> gates" where
  "desired_gates permitted min_links ms =
     (let enough = min_links \<le> int (length (filter (\<lambda>(_, m). eligible permitted m) ms)) in
      map (\<lambda>(p, m). (p, \<lparr>ga_collect = may_collect permitted m, ga_distribute = enough \<and> eligible permitted m\<rparr>)) ms)"

definition engine_tick :: "(gates \<Rightarrow> ('d, gates) py) \<Rightarrow> pyval \<Rightarrow> (('d, 'z) engine_scheme, unit) py" where
  "engine_tick drv clock = (bnd (engine_time clock) (\<lambda>now.
    thn (map_members (\<lambda>_. expire_member now))
    (bnd (gets (\<lambda>s. buckets_of (en_members s))) (\<lambda>buckets.
    thn (upd (\<lambda>s. s\<lparr>en_bucket := choose_bucket buckets (en_bucket s)\<rparr>))
    (bnd (gets (\<lambda>s. selected_ports buckets (en_bucket s))) (\<lambda>chosen.
    bnd (gets (\<lambda>s. en_fault s \<noteq> None)) (\<lambda>faulty.
    thn (map_members (\<lambda>p. select_member now faulty (p \<in> set chosen)))
    (bnd (gets (\<lambda>s. desired_gates (en_collecting s) (en_min_links s) (en_members s))) (\<lambda>desired.
    apply_gates drv desired)))))))))"

section \<open>Operations\<close>

definition lease_value :: "pyval \<Rightarrow> rat option" where
  "lease_value v = (case num_of v of Some (Finite q) \<Rightarrow> if 0 < q \<and> q \<le> 30 then Some q else None | _ \<Rightarrow> None)"

definition engine_link :: "(gates \<Rightarrow> ('d, gates) py) \<Rightarrow> int \<Rightarrow> pyval \<Rightarrow> pyval \<Rightarrow> pyval \<Rightarrow> pyval \<Rightarrow> (('d, 'z) engine_scheme, unit) py" where
  "engine_link drv port up speed clock lease_seconds = (bnd (engine_time clock) (\<lambda>now.
    bnd (get_member port) (\<lambda>m.
    thn (ensure (is_bool up \<and> is_int speed \<and> 0 \<le> the_int speed \<and> \<not> (truthy up \<and> the_int speed = 0)) (ValueError ''Invalid carrier/speed''))
    ((case lease_value lease_seconds of
        None \<Rightarrow> raise (ValueError ''Carrier lease must be 0..30 seconds'')
      | Some seconds \<Rightarrow> (thn (whn (mb_link m \<noteq> truthy up \<or> mb_speed m \<noteq> the_int speed) (set_member port (\<lambda>m. (peer_lost m)\<lparr>
            mb_selected := False, mb_sync := False, mb_rx := if truthy up then Expired else Disabled,
            mb_deadline := now + 3, mb_dirty := True\<rparr>)))
        (thn (set_member port (\<lambda>m. m\<lparr>mb_link := truthy up, mb_speed := the_int speed, mb_lease := now + seconds\<rparr>))
        (engine_tick drv clock))))))))"

definition gate_of :: "('d, 'z) engine_scheme \<Rightarrow> int \<Rightarrow> gate" where
  "gate_of s port = (case en_applied s of None \<Rightarrow> shut | Some a \<Rightarrow> (case dict_get a port of None \<Rightarrow> shut | Some g \<Rightarrow> g))"

text \<open>The advertisement: activity, timeout, aggregation, sync, collecting, distributing, defaulted, expired.\<close>

definition actor_of :: "('d, 'z) engine_scheme \<Rightarrow> int \<Rightarrow> member \<Rightarrow> lacp_info" where
  "actor_of s port m = (let sound = (en_fault s = None) in
     \<lparr>li_priority = en_priority s, li_system = en_system s, li_key = en_key s, li_port_priority = 32768, li_port = port,
      li_state = state_of [en_active s, en_fast s, True, mb_sync m \<and> sound, ga_collect (gate_of s port) \<and> sound,
        ga_distribute (gate_of s port) \<and> sound, mb_rx m = Defaulted, mb_rx m = Expired]\<rparr>)"

definition count_invalid :: "int \<Rightarrow> (('d, 'z) engine_scheme, bool) py" where
  "count_invalid port = (thn (set_member port (\<lambda>m. m\<lparr>mb_invalid := mb_invalid m + 1\<rparr>))
    (ret False))"

definition same_peer :: "member \<Rightarrow> lacp_info \<Rightarrow> bool" where
  "same_peer m peer = (case mb_peer m of None \<Rightarrow> False | Some p \<Rightarrow> identity p = identity peer)"

definition take_pdu :: "int \<Rightarrow> lacp_info \<Rightarrow> lacp_info \<Rightarrow> rat \<Rightarrow> (('d, 'z) engine_scheme, unit) py" where
  "take_pdu port peer echo now = (bnd (get_member port) (\<lambda>prior.
    thn (whn (\<not> same_peer prior peer \<or> peer_bit prior AGGREGATION \<noteq> state_bit (li_state peer) AGGREGATION)
       (set_member port (\<lambda>m. m\<lparr>mb_selected := False, mb_sync := False, mb_dirty := True\<rparr>)))
    (bnd (get_member port) (\<lambda>m.
    bnd (gets (\<lambda>s. actor_of s port m)) (\<lambda>actor.
    bnd (gets en_active) (\<lambda>active.
    bnd (gets en_fast) (\<lambda>fast.
    let matched = (identity echo = identity actor \<and> state_bit (li_state echo) AGGREGATION \<and>
           (state_bit (li_state peer) ACTIVITY \<or> active \<and> state_bit (li_state echo) ACTIVITY));
         stale = (\<not> same_peer m peer \<or> map_option li_state (mb_peer m) \<noteq> Some (li_state peer) \<or> identity echo \<noteq> identity actor \<or>
           list_ex (\<lambda>n. state_bit (li_state echo) n \<noteq> state_bit (li_state actor) n)
             [ACTIVITY, TIMEOUT, AGGREGATION, SYNC, COLLECTING, DISTRIBUTING]) in
    set_member port (\<lambda>m. m\<lparr>mb_dirty := mb_dirty m \<or> stale, mb_peer := Some peer, mb_echo := Some echo, mb_matched := matched,
       mb_rx := Current, mb_deadline := now + (if fast then 3 else 90), mb_rx_count := mb_rx_count m + 1\<rparr>))))))))"

definition engine_receive :: "(gates \<Rightarrow> ('d, gates) py) \<Rightarrow> int \<Rightarrow> bytes \<Rightarrow> pyval \<Rightarrow> (('d, 'z) engine_scheme, bool) py" where
  "engine_receive drv port frame clock = (bnd (engine_time clock) (\<lambda>now.
    thn (engine_tick drv clock)
    (bnd (get_member port) (\<lambda>m.
    bnd (gets (\<lambda>s. en_fault s \<noteq> None)) (\<lambda>faulty.
    bnd (gets en_system) (\<lambda>own.
    (if \<not> mb_link m \<or> mb_lease m \<le> now \<or> faulty then ret False
      else case lacp_decode frame of
        Inl e \<Rightarrow> count_invalid port
      | Inr pdu \<Rightarrow> if li_system (lp_actor pdu) = own then count_invalid port
          else (thn (take_pdu port (lp_actor pdu) (lp_partner pdu) now)
            (thn (engine_tick drv clock)
            (ret True))))))))))"

text \<open>One member's turn to transmit; attempts are limited to three a second.\<close>

definition since_tx :: "rat \<Rightarrow> member \<Rightarrow> rat \<Rightarrow> bool" where
  "since_tx now m d = (case mb_last_tx m of None \<Rightarrow> True | Some t \<Rightarrow> d \<le> now - t)"

definition transmit_member :: "rat \<Rightarrow> int \<Rightarrow> (('d, 'z) engine_scheme, (int \<times> bytes) list) py" where
  "transmit_member now port = (bnd (get_member port) (\<lambda>m.
    bnd (gets (\<lambda>s. en_fault s \<noteq> None)) (\<lambda>faulty.
    bnd (gets en_active) (\<lambda>active.
    bnd (gets (\<lambda>s. actor_of s port m)) (\<lambda>actor.
    let peer = (case mb_peer m of None \<Rightarrow> zero_info | Some p \<Rightarrow> p) in
    (if \<not> mb_link m \<or> faulty \<or> \<not> (active \<or> state_bit (li_state peer) ACTIVITY) then ret []
      else (bnd (lift_res (lacp_encode actor peer (the_str (mb_source m)))) (\<lambda>frame.
        let interval = (if mb_peer m = None \<or> state_bit (li_state peer) TIMEOUT then 1 else 30) in
        (if since_tx now m (1 / 3) \<and> (mb_dirty m \<or> mb_last_pdu m \<noteq> Some frame \<or> since_tx now m interval)
         then (thn (set_member port (\<lambda>m. m\<lparr>mb_last_tx := Some now, mb_dirty := False, mb_last_pdu := Some frame, mb_tx := mb_tx m + 1\<rparr>))
           (ret [(port, frame)]))
         else ret [])))))))))"

definition engine_transmissions :: "(gates \<Rightarrow> ('d, gates) py) \<Rightarrow> pyval \<Rightarrow> (('d, 'z) engine_scheme, (int \<times> bytes) list) py" where
  "engine_transmissions drv clock = (thn (engine_tick drv clock)
    (bnd (gets (\<lambda>s. the (en_now s))) (\<lambda>now.
    bnd (gets (\<lambda>s. dict_keys (en_members s))) (\<lambda>ports.
    bnd (collect ports (transmit_member now)) (\<lambda>sent.
    ret (concat sent))))))"

definition engine_stop :: "(gates \<Rightarrow> ('d, gates) py) \<Rightarrow> pyval \<Rightarrow> (('d, 'z) engine_scheme, unit) py" where
  "engine_stop drv clock = (thn (engine_time clock)
    (thn (map_members (\<lambda>_ m. m\<lparr>mb_link := False, mb_rx := Disabled, mb_peer := None, mb_echo := None, mb_sync := False, mb_selected := False\<rparr>))
    (bnd (gets en_fault) (\<lambda>fault.
    bnd (gets closed) (\<lambda>off.
    (if fault \<noteq> None then (thn (upd (\<lambda>s. s\<lparr>en_applied := None\<rparr>))
       (withdraw_gates drv)) else apply_gates drv off))))))"

definition engine_abort :: "(gates \<Rightarrow> ('d, gates) py) \<Rightarrow> string \<Rightarrow> pyval \<Rightarrow> (('d, 'z) engine_scheme, unit) py" where
  "engine_abort drv reason clock = (thn (engine_time clock)
    (thn (upd (\<lambda>s. s\<lparr>en_fault := Some (case en_fault s of Some f \<Rightarrow> f | None \<Rightarrow> if reason = [] then ''LACP owner failed'' else reason)\<rparr>))
    (engine_stop drv clock)))"

record member_status =
  ms_rx :: rx_state
  ms_selected :: bool
  ms_matched :: bool
  ms_actor :: lacp_info
  ms_peer :: "lacp_info option"
  ms_tx_attempts :: int
  ms_received :: int
  ms_invalid :: int
  ms_gates :: "gate option"

record engine_status =
  es_fault :: "string option"
  es_gates_verified :: bool
  es_distributing :: "int list"
  es_members :: "(int \<times> member_status) list"

definition member_status_of :: "('d, 'z) engine_scheme \<Rightarrow> int \<Rightarrow> member \<Rightarrow> member_status" where
  "member_status_of s p m = \<lparr>ms_rx = mb_rx m, ms_selected = mb_selected m, ms_matched = mb_matched m, ms_actor = actor_of s p m,
     ms_peer = mb_peer m, ms_tx_attempts = mb_tx m, ms_received = mb_rx_count m, ms_invalid = mb_invalid m,
     ms_gates = (case en_applied s of None \<Rightarrow> None | Some a \<Rightarrow> dict_get a p)\<rparr>"

definition distributing_ports :: "('d, 'z) engine_scheme \<Rightarrow> int list" where
  "distributing_ports s = map fst (filter (\<lambda>(_, g). ga_distribute g \<and> en_fault s = None)
     (case en_applied s of None \<Rightarrow> [] | Some a \<Rightarrow> a))"

definition engine_status :: "(gates \<Rightarrow> ('d, gates) py) \<Rightarrow> pyval \<Rightarrow> (('d, 'z) engine_scheme, engine_status) py" where
  "engine_status drv clock = (thn (engine_tick drv clock)
    (gets (\<lambda>s. \<lparr>es_fault = en_fault s, es_gates_verified = (en_applied s \<noteq> None), es_distributing = distributing_ports s,
       es_members = map (\<lambda>(p, m). (p, member_status_of s p m)) (en_members s)\<rparr>)))"

section \<open>Runs\<close>

datatype lacp_event =
    LinkEvent int pyval pyval pyval pyval
  | ReceiveEvent int bytes pyval
  | TickEvent pyval
  | TransmitEvent pyval
  | StopEvent pyval
  | AbortEvent string pyval

definition lacp_step :: "(gates \<Rightarrow> ('d, gates) py) \<Rightarrow> lacp_event \<Rightarrow> 'd engine \<Rightarrow> 'd engine" where
  "lacp_step drv event s = (case event of
      LinkEvent port up speed clock seconds \<Rightarrow> snd (engine_link drv port up speed clock seconds s)
    | ReceiveEvent port frame clock \<Rightarrow> snd (engine_receive drv port frame clock s)
    | TickEvent clock \<Rightarrow> snd (engine_tick drv clock s)
    | TransmitEvent clock \<Rightarrow> snd (engine_transmissions drv clock s)
    | StopEvent clock \<Rightarrow> snd (engine_stop drv clock s)
    | AbortEvent reason clock \<Rightarrow> snd (engine_abort drv reason clock s))"

definition lacp_run :: "(gates \<Rightarrow> ('d, gates) py) \<Rightarrow> lacp_event list \<Rightarrow> 'd engine \<Rightarrow> 'd engine" where
  "lacp_run drv events s = foldl (\<lambda>s event. lacp_step drv event s) s events"

section \<open>The fault latch\<close>

lemma same_dict_get: "same_dict a b \<Longrightarrow> dict_get a k = dict_get b k"
  unfolding same_dict_def list_all_iff
  by (cases "dict_get a k"; cases "dict_get b k") (fastforce dest: map_of_SomeD)+

lemma same_dict_sym: "same_dict a b \<longleftrightarrow> same_dict b a"
  by (auto simp: same_dict_def)

lemma closed_get: "dict_get (closed s) p = map_option (\<lambda>_. shut) (dict_get (en_members s) p)"
  by (simp add: closed_def map_of_map comp_def split_beta)

definition gates_shut :: "('d, 'z) engine_scheme \<Rightarrow> bool" where
  "gates_shut s \<longleftrightarrow> (\<forall>p. gate_of s p = shut)"

definition fault_shut :: "('d, 'z) engine_scheme \<Rightarrow> bool" where
  "fault_shut s \<longleftrightarrow> (en_fault s \<noteq> None \<longrightarrow> gates_shut s)"

definition latch :: "string option \<Rightarrow> ('d, 'z) engine_scheme \<Rightarrow> bool" where
  "latch f s \<longleftrightarrow> (f \<noteq> None \<longrightarrow> en_fault s = f) \<and> fault_shut s"

lemma latch_frame: "en_fault s' = en_fault s \<Longrightarrow> en_applied s' = en_applied s \<Longrightarrow> latch f s' = latch f s"
  by (simp add: latch_def fault_shut_def gates_shut_def gate_of_def)

lemma latch_drive [pres_intros]: "pres (latch f) (drive m)"
  unfolding drive_def by (rule pres_zoom) (simp add: latch_def fault_shut_def gates_shut_def gate_of_def)

lemma latch_off: "latch f s \<Longrightarrow> latch f (s\<lparr>en_applied := Some (closed t)\<rparr>)"
  by (auto simp: latch_def fault_shut_def gates_shut_def gate_of_def closed_get split: option.split)

lemma latch_withdraw [pres_intros]: "pres (latch f) (withdraw_gates drv)"
  unfolding withdraw_gates_def
  by (intro pres_catch_exn pres_gets_bnd pres_bnd pres_whn pres_upd latch_drive pres_ret) (simp add: latch_off)

lemma latch_apply [pres_intros]:
  fixes drv :: "gates \<Rightarrow> ('d, gates) py"
  shows "pres (latch f) (apply_gates drv desired :: (('d, 'z) engine_scheme, unit) py)"
proof (rule presI)
  fix s :: "('d, 'z) engine_scheme"
  assume s: "latch f s"
  show "latch f (snd (apply_gates drv desired s))"
  proof (cases "en_fault s = None")
    case True
    then have f: "f = None" using s by (auto simp: latch_def)
    obtain r d where run: "drv desired (en_driver s) = (r, d)" by fastforce
    have "latch f (s\<lparr>en_driver := d, en_applied := a\<rparr>)" for a
      using f True by (simp add: latch_def fault_shut_def)
    moreover have "latch f (s\<lparr>en_driver := d\<rparr>)"
      using f True by (simp add: latch_def fault_shut_def)
    moreover have "latch f (s\<lparr>en_driver := d, en_fault := t, en_applied := None\<rparr>)" for t
      using f by (simp add: latch_def fault_shut_def gates_shut_def gate_of_def)
    ultimately show ?thesis
      using s pres_snd [OF latch_withdraw [of f drv]]
      by (auto simp: apply_gates_def bnd_def gets_def whn_def ret_def catch_exn_def drive_def zoom_def run ensure_def thn_def upd_def
          split: sum.split)
  qed (use s in \<open>auto simp: apply_gates_def bnd_def gets_def whn_def ret_def\<close>)
qed

lemma latch_time [pres_intros]: "pres (latch f) (engine_time clock)"
  unfolding engine_time_def
  by (auto intro!: pres_intros pres_upd simp: latch_def fault_shut_def gates_shut_def gate_of_def split: option.split pyfloat.split)

lemma latch_members [pres_intros]: "pres (latch f) (map_members g)" "pres (latch f) (set_member port h)"
  unfolding map_members_def set_member_def
  by (intro pres_upd; simp add: latch_def fault_shut_def gates_shut_def gate_of_def)+

lemma latch_get [pres_intros]: "pres (latch f) (get_member port)"
  unfolding get_member_def by (intro pres_intros)

lemma latch_tick [pres_intros]: "pres (latch f) (engine_tick drv clock)"
  unfolding engine_tick_def
  by (intro pres_intros pres_upd) (simp add: latch_def fault_shut_def gates_shut_def gate_of_def)

lemma latch_transmit [pres_intros]: "pres (latch f) (transmit_member now port)"
  unfolding transmit_member_def Let_def by (intro pres_intros)

lemma latch_take [pres_intros]: "pres (latch f) (take_pdu port peer echo now)"
  unfolding take_pdu_def Let_def by (intro pres_intros)

lemma latch_stop [pres_intros]: "pres (latch f) (engine_stop drv clock)"
  unfolding engine_stop_def
  by (intro pres_intros pres_upd) (auto simp: latch_def fault_shut_def gates_shut_def gate_of_def)

lemma time_again:
  "engine_time clock s = (Inr q, s1) \<Longrightarrow> en_now t = Some q \<Longrightarrow> engine_time clock t = (Inr q, t)"
  by (auto simp: engine_time_def runs bnd_def gets_def thn_def ensure_def upd_def ret_def split: option.splits pyfloat.splits if_splits)

lemma time_sets: "engine_time clock s = (Inr q, s1) \<Longrightarrow> s1 = s\<lparr>en_now := Some q\<rparr>"
  by (auto simp: engine_time_def runs split: option.splits pyfloat.splits if_splits)

lemma stop_faulty:
  assumes "en_fault s \<noteq> None" "f \<noteq> None \<longrightarrow> en_fault s = f" "engine_time clock s = (Inr q, s1)"
  shows "latch f (snd (engine_stop drv clock s))"
proof -
  have "latch f (s\<lparr>en_now := n, en_members := ms, en_applied := None\<rparr>)" for n ms
    using assms(2) by (simp add: latch_def fault_shut_def gates_shut_def gate_of_def)
  from pres_snd [OF latch_withdraw this] show ?thesis
    using assms(1) time_sets [OF assms(3)]
    by (auto simp: engine_stop_def thn_def bnd_def assms(3) map_members_def upd_def gets_def)
qed

lemma latch_abort [pres_intros]:
  fixes drv :: "gates \<Rightarrow> ('d, gates) py"
  shows "pres (latch f) (engine_abort drv reason clock :: (('d, 'z) engine_scheme, unit) py)"
proof (rule presI)
  fix s :: "('d, 'z) engine_scheme"
  assume s: "latch f s"
  obtain r s1 where run: "engine_time clock s = (r, s1)" by fastforce
  show "latch f (snd (engine_abort drv reason clock s))"
  proof (cases r)
    case (Inl e)
    then show ?thesis
      using presD [OF latch_time s run] by (simp add: engine_abort_def thn_def bnd_def run)
  next
    case (Inr q)
    let ?t = "s1\<lparr>en_fault := Some (case en_fault s1 of Some f \<Rightarrow> f | None \<Rightarrow> if reason = [] then ''LACP owner failed'' else reason)\<rparr>"
    have "latch f s1" using presD [OF latch_time s run] .
    then have "latch f (snd (engine_stop drv clock ?t))"
      using time_again [OF run [unfolded Inr], of ?t] time_sets [OF run [unfolded Inr]]
      by (intro stop_faulty) (auto simp: latch_def)
    then show ?thesis
      by (simp add: engine_abort_def thn_def bnd_def run Inr upd_def)
  qed
qed

lemma pres_sum [pres_intros]:
  "(\<And>e. x = Inl e \<Longrightarrow> pres I (m e)) \<Longrightarrow> (\<And>y. x = Inr y \<Longrightarrow> pres I (k y)) \<Longrightarrow> pres I (case x of Inl e \<Rightarrow> m e | Inr y \<Rightarrow> k y)"
  by (simp split: sum.split)

lemma latch_ops:
  "pres (latch f) (engine_link drv port up speed clock seconds)"
  "pres (latch f) (engine_receive drv port frame clock)"
  "pres (latch f) (engine_transmissions drv clock)"
  unfolding engine_link_def engine_receive_def engine_transmissions_def count_invalid_def
  by (intro pres_intros)+

lemma latch_step: "latch f s \<Longrightarrow> latch f (lacp_step drv event s)"
  unfolding lacp_step_def
  by (cases event) (simp_all add: pres_snd [OF latch_ops(1)] pres_snd [OF latch_ops(2)] pres_snd [OF latch_ops(3)]
      pres_snd [OF latch_tick] pres_snd [OF latch_stop] pres_snd [OF latch_abort])

lemma latch_run: "latch f s \<Longrightarrow> latch f (lacp_run drv events s)"
  unfolding lacp_run_def by (induction events arbitrary: s) (simp_all add: latch_step)

lemma latch_init: "engine_init drv c d = Inr e \<Longrightarrow> latch None e"
proof -
  assume "engine_init drv c d = Inr e"
  then have "apply_gates drv (closed (engine_start c d)) (engine_start c d) = (Inr (), e)"
    by (auto simp: engine_init_def res_iffs Let_def split: sum.splits prod.splits)
  moreover have "latch None (engine_start c d)"
    by (simp add: latch_def fault_shut_def engine_start_def)
  ultimately show ?thesis
    using presD [OF latch_apply] by blast
qed

text \<open>
  A fault is latched.  Once the engine has recorded a fault, whatever links, frames, ticks,
  transmissions, stops or aborts follow: the same fault stays, no member's gate is recorded as open,
  and no advertisement claims synchronization, collection or distribution.
\<close>

theorem lacp_fault_latched:
  fixes drv :: "gates \<Rightarrow> ('d, gates) py" and d :: 'd
  assumes "engine_init drv c d = Inr e" and "en_fault (lacp_run drv before e) = Some fault"
  shows "let s = lacp_run drv (before @ later) e in en_fault s = Some fault \<and> (\<forall>p. gate_of s p = shut) \<and>
    distributing_ports s = [] \<and>
    (\<forall>p m n. \<not> (n \<in> {SYNC, COLLECTING, DISTRIBUTING} \<and> state_bit (li_state (actor_of s p m)) n))"
proof -
  have "latch (Some fault) (lacp_run drv before e)"
    using latch_run [OF latch_init [OF assms(1)]] assms(2) by (auto simp: latch_def)
  from latch_run [OF this, of drv later]
  have "latch (Some fault) (lacp_run drv (before @ later) e)"
    by (simp add: lacp_run_def)
  then show ?thesis
    by (auto simp: Let_def latch_def fault_shut_def gates_shut_def distributing_ports_def actor_of_def state_bit_def state_of_def)
qed

section \<open>The members never change\<close>

definition keyed :: "int list \<Rightarrow> ('d, 'z) engine_scheme \<Rightarrow> bool" where
  "keyed ks s \<longleftrightarrow> dict_keys (en_members s) = ks"

lemma keyed_upd [pres_intros]:
  "pres (keyed ks) (drive m)" "pres (keyed ks) (map_members g)" "pres (keyed ks) (set_member port h)"
  unfolding drive_def map_members_def set_member_def
  by (auto intro!: pres_zoom pres_upd simp: keyed_def)

lemma keyed_gates [pres_intros]: "pres (keyed ks) (withdraw_gates drv)" "pres (keyed ks) (apply_gates drv desired)"
  unfolding withdraw_gates_def apply_gates_def
  by (intro pres_intros pres_upd; simp add: keyed_def)+

lemma keyed_time [pres_intros]: "pres (keyed ks) (engine_time clock)" "pres (keyed ks) (get_member port)"
  unfolding engine_time_def get_member_def
  by (auto intro!: pres_intros pres_upd simp: keyed_def split: option.split pyfloat.split)

lemma keyed_tick [pres_intros]: "pres (keyed ks) (engine_tick drv clock)"
  unfolding engine_tick_def by (intro pres_intros pres_upd; simp add: keyed_def)

lemma keyed_stop [pres_intros]: "pres (keyed ks) (engine_stop drv clock)"
  unfolding engine_stop_def by (intro pres_intros pres_upd; simp add: keyed_def)

lemma keyed_abort: "pres (keyed ks) (engine_abort drv reason clock)"
  unfolding engine_abort_def by (intro pres_intros pres_upd; simp add: keyed_def)

lemma keyed_ops:
  "pres (keyed ks) (engine_link drv port up speed clock seconds)"
  "pres (keyed ks) (engine_receive drv port frame clock)"
  "pres (keyed ks) (engine_transmissions drv clock)"
  unfolding engine_link_def engine_receive_def engine_transmissions_def count_invalid_def take_pdu_def transmit_member_def Let_def
  by (intro pres_intros)+

lemma keyed_step: "keyed ks s \<Longrightarrow> keyed ks (lacp_step drv event s)"
  unfolding lacp_step_def
  by (cases event) (simp_all add: pres_snd [OF keyed_ops(1)] pres_snd [OF keyed_ops(2)] pres_snd [OF keyed_ops(3)]
      pres_snd [OF keyed_tick] pres_snd [OF keyed_stop] pres_snd [OF keyed_abort])

lemma keyed_run: "keyed ks s \<Longrightarrow> keyed ks (lacp_run drv events s)"
  unfolding lacp_run_def by (induction events arbitrary: s) (simp_all add: keyed_step)

lemma keyed_init: "engine_init drv c d = Inr e \<Longrightarrow> keyed (dict_keys (lc_members c)) e"
proof -
  assume "engine_init drv c d = Inr e"
  then have "apply_gates drv (closed (engine_start c d)) (engine_start c d) = (Inr (), e)"
    by (auto simp: engine_init_def res_iffs Let_def split: sum.splits prod.splits)
  moreover have "keyed (dict_keys (lc_members c)) (engine_start c d)"
    by (simp add: keyed_def engine_start_def split_beta)
  ultimately show ?thesis
    using presD [OF keyed_gates(2)] by blast
qed

section \<open>Selection picks one aggregator\<close>

lemma buckets_members:
  "dict_get (foldl (\<lambda>bs (p, m). if aggregable all m then add_bucket (bucket_of m) p bs else bs) [] ms) g = Some ps \<Longrightarrow>
    p \<in> set ps \<Longrightarrow> \<exists>m. (p, m) \<in> set ms \<and> aggregable all m \<and> bucket_of m = g"
proof (induction ms arbitrary: ps rule: rev_induct)
  case (snoc x ms)
  then show ?case
    by (cases x) (auto simp: add_bucket_def split: if_splits option.splits, blast+)
qed simp

lemma chosen_member:
  "p \<in> set (selected_ports (buckets_of ms) g) \<Longrightarrow>
    \<exists>m k. g = Some k \<and> (p, m) \<in> set ms \<and> aggregable ms m \<and> bucket_of m = k"
proof (cases g)
  case (Some k)
  assume "p \<in> set (selected_ports (buckets_of ms) g)"
  then obtain ps where "dict_get (buckets_of ms) k = Some ps" "p \<in> set ps"
    using Some by (cases "dict_get (buckets_of ms) k") (simp_all add: selected_ports_def)
  then show ?thesis
    using buckets_members [of ms ms k ps p] Some by (simp add: buckets_of_def)
qed (simp add: selected_ports_def)

lemma expire_current: "mb_rx (expire_member now m) = Current \<Longrightarrow>
    mb_link (expire_member now m) \<and> now < mb_lease (expire_member now m)"
  by (auto simp: expire_member_def peer_lost_def Let_def split: if_splits)

lemma apply_choice: "pres (\<lambda>s. en_bucket s = v \<and> en_now s = w) (apply_gates drv desired)"
  unfolding apply_gates_def withdraw_gates_def drive_def
  by (intro pres_intros pres_upd pres_zoom; simp)

lemma apply_returns:
  fixes s s' :: "('d, 'z) engine_scheme"
  assumes "apply_gates drv desired s = (Inr u, s')" "fault_shut s"
  shows "en_members s' = en_members s \<and> en_min_links s' = en_min_links s \<and>
    (if en_fault s' = None then \<forall>p. gate_of s' p = (case dict_get desired p of None \<Rightarrow> shut | Some g \<Rightarrow> g) else gates_shut s')"
proof -
  have frame: "pres (\<lambda>s :: ('d, 'z) engine_scheme. en_members s = v \<and> en_min_links s = w) (apply_gates drv desired)" for v w
    unfolding apply_gates_def withdraw_gates_def drive_def
    by (intro pres_intros pres_upd pres_zoom; simp)
  have "fault_shut s'"
    using presD [OF latch_apply [of None] _ assms(1)] assms(2) by (simp add: latch_def)
  moreover have "gate_of s' p = (case dict_get desired p of None \<Rightarrow> shut | Some g \<Rightarrow> g)" if "en_fault s' = None" for p
  proof -
    have "\<exists>a. en_applied s' = Some a \<and> same_dict desired a"
    proof (cases "en_fault s = None")
      case True
      show ?thesis
        using assms(1) that True
        unfolding apply_gates_def catch_exn_def
        by (auto simp: runs drive_def zoom_def same_dict_sym bnd_def thn_def upd_def ensure_def gets_def whn_def ret_def
            withdraw_gates_def catch_exn_def split: prod.splits sum.splits if_splits option.splits)
    next
      case False
      then show ?thesis
        using assms(1) that by (auto simp: apply_gates_def runs)
    qed
    then show ?thesis
      by (auto simp: gate_of_def same_dict_get)
  qed
  ultimately show ?thesis
    using presD [OF frame _ assms(1)] by (auto simp: fault_shut_def)
qed

lemma get_map: "dict_get (map (\<lambda>(p, m). (p, f p m)) d) k = map_option (f k) (dict_get d k)"
  by (induction d) auto

text \<open>The state a returning tick leaves behind, before the driver is asked.\<close>

definition ticked :: "rat \<Rightarrow> ('d, 'z) engine_scheme \<Rightarrow> ('d, 'z) engine_scheme" where
  "ticked now s = (let ms = map (\<lambda>(p, m). (p, expire_member now m)) (en_members s);
      g = choose_bucket (buckets_of ms) (en_bucket s) in
    s\<lparr>en_now := Some now, en_bucket := g, en_members :=
       map (\<lambda>(p, m). (p, select_member now (en_fault s \<noteq> None) (p \<in> set (selected_ports (buckets_of ms) g)) m)) ms\<rparr>)"

lemma tick_returns:
  "engine_tick drv clock s = (Inr u, s') \<Longrightarrow>
    \<exists>now. apply_gates drv (desired_gates (en_collecting s) (en_min_links s) (en_members (ticked now s))) (ticked now s) = (Inr (), s')"
  unfolding engine_tick_def
  by (auto simp: runs map_members_def ticked_def Let_def dest!: time_sets)

lemma select_keeps:
  "bucket_of (select_member now faulty chosen m) = bucket_of m" "mb_link (select_member now faulty chosen m) = mb_link m"
  "mb_lease (select_member now faulty chosen m) = mb_lease m" "mb_rx (select_member now faulty chosen m) = mb_rx m"
  by (simp_all add: select_member_def bucket_of_def Let_def split: option.split)

lemma ticked_member:
  assumes "dict_ok (en_members s)" "dict_get (en_members (ticked now s)) p = Some m" "eligible b m"
  shows "en_bucket (ticked now s) = Some (bucket_of m) \<and> mb_link m \<and> now < mb_lease m \<and> mb_rx m = Current \<and>
    mb_selected m \<and> 2 \<le> now - mb_since m"
proof -
  let ?ms = "map (\<lambda>(p, m). (p, expire_member now m)) (en_members s)"
  let ?g = "choose_bucket (buckets_of ?ms) (en_bucket s)"
  obtain m0 where m0: "dict_get (en_members s) p = Some m0"
    and m: "m = select_member now (en_fault s \<noteq> None) (p \<in> set (selected_ports (buckets_of ?ms) ?g)) (expire_member now m0)"
    using assms(2) by (auto simp: ticked_def Let_def get_map simp del: map_map)
  have "mb_sync m" using assms(3) by (simp add: eligible_def may_collect_def)
  then have chosen: "p \<in> set (selected_ports (buckets_of ?ms) ?g)" and age: "mb_selected m" "2 \<le> now - mb_since m"
    unfolding m by (auto simp: select_member_def Let_def split: if_splits)
  obtain m1 k where k: "?g = Some k" "(p, m1) \<in> set ?ms" "aggregable ?ms m1" "bucket_of m1 = k"
    using chosen_member [OF chosen] by blast
  have "dict_ok ?ms" using assms(1) by (simp add: dict_ok_def comp_def split_beta)
  then have "m1 = expire_member now m0"
    using dict_items_get [of ?ms p m1] k(2) m0 by (simp add: get_map)
  moreover have "mb_rx m1 = Current" using k(3) by (simp add: aggregable_def)
  ultimately show ?thesis
    using expire_current [of now m0] k m age
    by (simp add: select_keeps ticked_def Let_def)
qed

lemma eligible_card:
  assumes "dict_ok ms" "min_links \<le> int (length (filter (\<lambda>(_, m). eligible b m) ms))"
  shows "min_links \<le> int (card {p. \<exists>m. dict_get ms p = Some m \<and> eligible b m})"
proof -
  let ?fs = "filter (\<lambda>(_, m). eligible b m) ms"
  have "distinct (map fst ?fs)" using assms(1) by (simp add: dict_ok_def distinct_map_filter)
  then have "card (set (map fst ?fs)) = length ?fs" using distinct_card by fastforce
  moreover have "set (map fst ?fs) = {p. \<exists>m. dict_get ms p = Some m \<and> eligible b m}"
    using assms(1) by (force simp: dict_items_get [symmetric] split_beta)
  ultimately show ?thesis using assms(2) by simp
qed

text \<open>
  C29.  Traffic is distributed only through one negotiated aggregator.  When a tick returns, every
  member whose gate distributes is also collecting, has carrier and an unexpired lease, is in the
  current receive state, matched, selected for two seconds or more, with a partner that reports
  synchronization and collection; all such members share one partner system, key and speed, at
  least the configured minimum of them distribute, and no fault is recorded.
\<close>

theorem lacp_distribution_safe:
  fixes drv :: "gates \<Rightarrow> ('d, gates) py"
  assumes "engine_init drv c d = Inr e" "dict_ok (lc_members c)"
    and "engine_tick drv clock (lacp_run drv events e) = (Inr u, s)"
    and "ga_distribute (gate_of s p)"
  shows "en_fault s = None \<and> ga_collect (gate_of s p) \<and> en_min_links s \<le> int (card {q. ga_distribute (gate_of s q)}) \<and>
    (\<exists>now m. en_now s = Some now \<and> dict_get (en_members s) p = Some m \<and> mb_link m \<and> now < mb_lease m \<and>
       mb_rx m = Current \<and> mb_matched m \<and> mb_selected m \<and> 2 \<le> now - mb_since m \<and>
       peer_bit m SYNC \<and> peer_bit m COLLECTING \<and> en_bucket s = Some (bucket_of m))"
proof -
  let ?s0 = "lacp_run drv events e"
  obtain now where app: "apply_gates drv (desired_gates (en_collecting ?s0) (en_min_links ?s0) (en_members (ticked now ?s0)))
      (ticked now ?s0) = (Inr (), s)"
    using tick_returns [OF assms(3)] by blast
  let ?t = "ticked now ?s0"
  have "fault_shut ?t"
    using latch_run [OF latch_init [OF assms(1)], of drv events]
    by (simp add: latch_def fault_shut_def gates_shut_def gate_of_def ticked_def Let_def)
  note applied = apply_returns [OF app this]
  have keys: "dict_ok (en_members ?s0)" "dict_ok (en_members ?t)"
    using keyed_run [OF keyed_init [OF assms(1)], of drv events] assms(2)
    by (simp_all add: keyed_def dict_ok_def ticked_def Let_def comp_def split_beta)
  let ?enough = "en_min_links ?s0 \<le> int (length (filter (\<lambda>(_, m). eligible (en_collecting ?s0) m) (en_members ?t)))"
  have sound: "en_fault s = None"
    using applied assms(4) by (cases "en_fault s = None") (simp_all add: gates_shut_def shut_def)
  have gate: "gate_of s q = (case dict_get (en_members ?t) q of None \<Rightarrow> shut
      | Some m \<Rightarrow> \<lparr>ga_collect = may_collect (en_collecting ?s0) m, ga_distribute = ?enough \<and> eligible (en_collecting ?s0) m\<rparr>)" for q
    using applied sound by (simp add: desired_gates_def Let_def get_map split: option.split)
  obtain m where m: "dict_get (en_members ?t) p = Some m" "eligible (en_collecting ?s0) m" "ga_collect (gate_of s p)" and enough: ?enough
    using assms(4) by (auto simp: gate eligible_def shut_def split: option.splits)
  have "{q. ga_distribute (gate_of s q)} = {q. \<exists>m. dict_get (en_members ?t) q = Some m \<and> eligible (en_collecting ?s0) m}"
    using enough by (auto simp: gate shut_def split: option.splits)
  then have "en_min_links ?s0 \<le> int (card {q. ga_distribute (gate_of s q)})"
    using eligible_card [OF keys(2) enough] by simp
  moreover have "en_min_links s = en_min_links ?s0" "en_members s = en_members ?t"
    using applied by (simp_all add: ticked_def Let_def)
  moreover have "en_bucket s = en_bucket ?t" "en_now s = Some now"
    using presD [OF apply_choice [where v = "en_bucket ?t" and w = "en_now ?t"] _ app] by (simp_all add: ticked_def Let_def)
  ultimately show ?thesis
    using sound m ticked_member [OF keys(1) m(1,2)]
    by (auto simp: eligible_def may_collect_def)
qed

section \<open>An engine on concrete frames\<close>

definition sample_lacp :: lacp_config where
  "sample_lacp = \<lparr>lc_system = PStr ''02:00:00:00:00:01'', lc_key = PInt 7, lc_members = [(1, PStr ''02:00:00:00:00:11'')],
     lc_activity = PStr ''active'', lc_rate = PStr ''fast'', lc_priority = PInt 32768, lc_min_links = PInt 1, lc_collecting = PBool True\<rparr>"

text \<open>A driver that acknowledges what it is asked.\<close>

definition echo_driver :: "gates \<Rightarrow> (unit, gates) py" where
  "echo_driver g = ret g"

definition sample_peer :: "int \<Rightarrow> lacp_info" where
  "sample_peer state = \<lparr>li_priority = 1, li_system = ''02:00:00:00:00:aa'', li_key = 9, li_port_priority = 1, li_port = 3, li_state = state\<rparr>"

definition sample_echo :: lacp_info where
  "sample_echo = \<lparr>li_priority = 32768, li_system = ''02:00:00:00:00:01'', li_key = 7, li_port_priority = 32768, li_port = 1, li_state = 7\<rparr>"

definition sample_frame :: bytes where
  "sample_frame = [1, 128, 194, 0, 0, 2, 2, 0, 0, 0, 0, 187, 136, 9, 1, 1, 1, 20, 0, 1, 2, 0, 0, 0, 0, 170, 0, 9, 0, 1, 0, 3, 63, 0, 0, 0,
     2, 20, 128, 0, 2, 0, 0, 0, 0, 1, 0, 7, 128, 0, 0, 1, 7, 0, 0, 0, 3, 16] @ replicate 66 0"

definition sample_state :: "bucket option \<Rightarrow> rat option \<Rightarrow> member \<Rightarrow> gate \<Rightarrow> unit engine" where
  "sample_state g now m gate = \<lparr>en_driver = (), en_collecting = True, en_system = ''02:00:00:00:00:01'', en_key = 7,
     en_priority = 32768, en_active = True, en_fast = True, en_min_links = 1, en_members = [(1, m)], en_bucket = g, en_now = now,
     en_fault = None, en_applied = Some [(1, gate)]\<rparr>"

definition sample_bucket :: bucket where
  "sample_bucket = (1, ''02:00:00:00:00:aa'', 9, 1000)"

definition sample_m0 :: member where
  "sample_m0 = new_member (PStr ''02:00:00:00:00:11'')"

definition sample_m1 :: member where
  "sample_m1 = sample_m0\<lparr>mb_link := True, mb_speed := 1000, mb_lease := 15, mb_rx := Expired, mb_deadline := 13\<rparr>"

definition sample_m2 :: member where
  "sample_m2 = sample_m1\<lparr>mb_rx := Current, mb_deadline := 13, mb_peer := Some (sample_peer 0x3f), mb_echo := Some sample_echo,
     mb_selected := True, mb_since := 10, mb_matched := True, mb_rx_count := 1\<rparr>"

definition open_gate :: gate where
  "open_gate = \<lparr>ga_collect = True, ga_distribute = True\<rparr>"

definition sample_events :: "lacp_event list" where
  "sample_events = [LinkEvent 1 (PBool True) (PInt 1000) (PInt 10) (PInt 5), ReceiveEvent 1 sample_frame (PInt 10)]"

lemmas run_defs = bnd_def thn_def gets_def upd_def ret_def whn_def ensure_def lift_res_def raise_def catch_exn_def zoom_def

lemmas engine_defs = run_defs lacp_step_def engine_link_def engine_time_def get_member_def set_member_def map_members_def
  engine_tick_def expire_member_def peer_lost_def buckets_of_def aggregable_def choose_bucket_def best_bucket_def
  selected_ports_def select_member_def desired_gates_def may_collect_def eligible_def peer_bit_def apply_gates_def drive_def
  echo_driver_def lease_value_def same_dict_def Let_def new_member_def shut_def current_peer_def bucket_of_def add_bucket_def

lemma sample_engine_init: "engine_init echo_driver sample_lacp () = Inr (sample_state None None sample_m0 shut)"
  by code_simp

lemma sample_link: "lacp_step echo_driver (LinkEvent 1 (PBool True) (PInt 1000) (PInt 10) (PInt 5)) (sample_state None None sample_m0 shut) =
    sample_state None (Some 10) sample_m1 shut"
  by (simp add: engine_defs sample_m0_def sample_m1_def sample_state_def)

lemma sample_decode:
  "map_sum id (\<lambda>p. (lp_actor p, lp_partner p)) (lacp_decode sample_frame) = Inr (sample_peer 0x3f, sample_echo)"
  by code_simp

definition sample_heard :: member where
  "sample_heard = sample_m1\<lparr>mb_rx := Current, mb_deadline := 13, mb_peer := Some (sample_peer 0x3f), mb_echo := Some sample_echo,
     mb_matched := True, mb_rx_count := 1\<rparr>"

lemmas sample_defs = sample_m0_def sample_m1_def sample_m2_def sample_bucket_def sample_peer_def

lemma sample_expire:
  "expire_member 10 sample_m1 = sample_m1" "expire_member 10 sample_heard = sample_heard" "expire_member 12 sample_m2 = sample_m2"
  by (simp_all add: engine_defs sample_m0_def sample_m1_def sample_m2_def sample_heard_def)

lemma sample_buckets:
  "buckets_of [(1, sample_m1)] = []" "buckets_of [(1, sample_heard)] = [(sample_bucket, [1])]"
  "buckets_of [(1, sample_m2)] = [(sample_bucket, [1])]"
  by (simp_all add: engine_defs sample_defs sample_heard_def state_bit_def)

lemma sample_choose: "choose_bucket [(sample_bucket, [1])] (Some sample_bucket) = Some sample_bucket"
  "choose_bucket [(sample_bucket, [1])] None = Some sample_bucket" "choose_bucket [] None = None"
  by (simp_all add: choose_bucket_def best_bucket_def)

lemma sample_select: "select_member 12 False True sample_m2 = sample_m2\<lparr>mb_sync := True, mb_dirty := True\<rparr>"
  "select_member 10 False True sample_heard = sample_m2" "select_member 10 False False sample_m1 = sample_m1"
  by (simp_all add: engine_defs sample_m0_def sample_m1_def sample_m2_def sample_heard_def)

lemma sample_desired:
  "desired_gates True 1 [(1, sample_m2\<lparr>mb_sync := True, mb_dirty := True\<rparr>)] = [(1, open_gate)]"
  "desired_gates True 1 [(1, sample_m2)] = [(1, shut)]" "desired_gates True 1 [(1, sample_m1)] = [(1, shut)]"
  by (simp_all add: desired_gates_def may_collect_def eligible_def peer_bit_def sample_defs state_bit_def open_gate_def shut_def new_member_def)

lemma sample_selected: "selected_ports [(sample_bucket, [1])] (Some sample_bucket) = [1]" "selected_ports [] None = []"
  by code_simp+

lemmas sample_parts = sample_expire sample_buckets sample_choose sample_select sample_desired sample_selected

lemmas tick_defs = run_defs engine_tick_def engine_time_def map_members_def sample_state_def apply_gates_def drive_def echo_driver_def same_dict_def

lemma sample_ticks:
  "engine_tick echo_driver (PInt 10) (sample_state None (Some 10) sample_m1 shut) = (Inr (), sample_state None (Some 10) sample_m1 shut)"
  "engine_tick echo_driver (PInt 10) (sample_state None (Some 10) sample_heard shut) =
    (Inr (), sample_state (Some sample_bucket) (Some 10) sample_m2 shut)"
  by (simp_all add: tick_defs sample_parts)

lemma sample_take: "take_pdu 1 (sample_peer 0x3f) sample_echo 10 (sample_state None (Some 10) sample_m1 shut) =
    (Inr (), sample_state None (Some 10) sample_heard shut)"
  by (simp add: run_defs take_pdu_def get_member_def set_member_def map_members_def same_peer_def peer_bit_def actor_of_def state_of_def
      gate_of_def identity_def sample_peer_def sample_echo_def state_bit_def sample_state_def sample_m0_def sample_m1_def
      sample_heard_def new_member_def shut_def Let_def)

lemma sample_receive: "lacp_step echo_driver (ReceiveEvent 1 sample_frame (PInt 10)) (sample_state None (Some 10) sample_m1 shut) =
    sample_state (Some sample_bucket) (Some 10) sample_m2 shut"
proof -
  let ?s = "sample_state None (Some 10) sample_m1 shut"
  obtain pdu where pdu: "lacp_decode sample_frame = Inr pdu" "lp_actor pdu = sample_peer 0x3f" "lp_partner pdu = sample_echo"
    using sample_decode by (cases "lacp_decode sample_frame") auto
  have "engine_time (PInt 10) ?s = (Inr 10, ?s)" "get_member 1 ?s = (Inr sample_m1, ?s)" "en_fault ?s = None"
    "en_system ?s = ''02:00:00:00:00:01''" "li_system (sample_peer 0x3f) = ''02:00:00:00:00:aa''" "mb_link sample_m1" "mb_lease sample_m1 = 15"
    by (simp_all add: run_defs engine_time_def get_member_def sample_state_def sample_peer_def sample_m1_def)
  then show ?thesis
    by (simp add: lacp_step_def engine_receive_def run_defs sample_ticks sample_take pdu)
qed

lemma sample_tick: "engine_tick echo_driver (PInt 12) (lacp_run echo_driver sample_events (sample_state None None sample_m0 shut)) =
    (Inr (), sample_state (Some sample_bucket) (Some 12) (sample_m2\<lparr>mb_sync := True, mb_dirty := True\<rparr>) open_gate)"
proof -
  have "lacp_run echo_driver sample_events (sample_state None None sample_m0 shut) = sample_state (Some sample_bucket) (Some 10) sample_m2 shut"
    by (simp add: lacp_run_def sample_events_def sample_link sample_receive)
  then show ?thesis
    by (simp add: tick_defs sample_parts shut_def open_gate_def)
qed

theorem lacp_distribution_safe_witness:
  "1 \<le> int (card {q. ga_distribute (gate_of (sample_state (Some sample_bucket) (Some 12)
      (sample_m2\<lparr>mb_sync := True, mb_dirty := True\<rparr>) open_gate) q)})"
proof -
  have "dict_ok (lc_members sample_lacp)" by (simp add: sample_lacp_def dict_ok_def)
  moreover have "ga_distribute (gate_of (sample_state (Some sample_bucket) (Some 12) (sample_m2\<lparr>mb_sync := True, mb_dirty := True\<rparr>) open_gate) 1)"
    by (simp add: gate_of_def sample_state_def open_gate_def)
  ultimately show ?thesis
    using lacp_distribution_safe [OF sample_engine_init _ sample_tick] by (simp add: sample_state_def)
qed

theorem lacp_fault_latched_witness:
  "en_fault (lacp_run echo_driver ([AbortEvent ''owner'' (PInt 3)] @ [StopEvent (PInt 4)]) (sample_state None None sample_m0 shut)) =
   Some ''owner''"
proof -
  have "en_fault (lacp_run echo_driver [AbortEvent ''owner'' (PInt 3)] (sample_state None None sample_m0 shut)) = Some ''owner''"
    by (simp add: engine_defs lacp_run_def engine_abort_def engine_stop_def withdraw_gates_def closed_def sample_state_def)
  from lacp_fault_latched [OF sample_engine_init this] show ?thesis by (simp add: Let_def)
qed

end
