(* ===== verification/BcmPorts.thy ===== *)
theory BcmPorts
  imports PyText "HOL-Library.Char_ord" "HOL-Library.List_Lexorder"
begin

text \<open>
  The switch port table and faceplate map of \<open>ffn_bcmports.py\<close>: which logical port serves which
  connector, under which interface name.  The notes of the port table are documentation and left out.
\<close>

section \<open>Tables\<close>

record port_row =
  pr_name :: string
  pr_core :: int
  pr_channel :: int
  pr_in :: string
  pr_out :: string
  pr_role :: string

definition PORTS :: "(int \<times> port_row) list" where
  "PORTS = [
     (0, \<lparr>pr_name = ''CPU'', pr_core = 0, pr_channel = 0, pr_in = ''RAW'', pr_out = ''RAW'', pr_role = ''cpu''\<rparr>),
     (1, \<lparr>pr_name = ''XE24'', pr_core = 0, pr_channel = 1, pr_in = ''RAW'', pr_out = ''RAW_DSA'', pr_role = ''front''\<rparr>),
     (2, \<lparr>pr_name = ''XLGE11'', pr_core = 0, pr_channel = 2, pr_in = ''RAW'', pr_out = ''RAW_DSA'', pr_role = ''loopback''\<rparr>),
     (3, \<lparr>pr_name = ''CGE0'', pr_core = 1, pr_channel = 3, pr_in = ''ETH'', pr_out = ''DSA_RAW'', pr_role = ''fe100''\<rparr>),
     (4, \<lparr>pr_name = ''XE36'', pr_core = 0, pr_channel = 4, pr_in = ''TM'', pr_out = ''TM'', pr_role = ''cp''\<rparr>),
     (5, \<lparr>pr_name = ''XE37'', pr_core = 0, pr_channel = 5, pr_in = ''TM'', pr_out = ''TM'', pr_role = ''cp''\<rparr>),
     (6, \<lparr>pr_name = ''XE29'', pr_core = 0, pr_channel = 6, pr_in = ''RAW'', pr_out = ''RAW_DSA'', pr_role = ''front''\<rparr>),
     (7, \<lparr>pr_name = ''XE64'', pr_core = 0, pr_channel = 7, pr_in = ''RAW'', pr_out = ''RAW_DSA'', pr_role = ''front''\<rparr>),
     (8, \<lparr>pr_name = ''XE38'', pr_core = 0, pr_channel = 8, pr_in = ''TM'', pr_out = ''RAW'', pr_role = ''mp''\<rparr>),
     (9, \<lparr>pr_name = ''XE39'', pr_core = 0, pr_channel = 9, pr_in = ''TM'', pr_out = ''RAW'', pr_role = ''mp''\<rparr>),
     (10, \<lparr>pr_name = ''XE57'', pr_core = 0, pr_channel = 10, pr_in = ''RAW'', pr_out = ''RAW_DSA'', pr_role = ''front''\<rparr>),
     (11, \<lparr>pr_name = ''XE65'', pr_core = 0, pr_channel = 11, pr_in = ''RAW'', pr_out = ''RAW_DSA'', pr_role = ''front''\<rparr>),
     (12, \<lparr>pr_name = ''CGE1'', pr_core = 0, pr_channel = 12, pr_in = ''TM'', pr_out = ''RAW'', pr_role = ''front''\<rparr>),
     (13, \<lparr>pr_name = ''XE33'', pr_core = 1, pr_channel = 13, pr_in = ''RAW'', pr_out = ''RAW_DSA'', pr_role = ''front''\<rparr>),
     (14, \<lparr>pr_name = ''XE34'', pr_core = 1, pr_channel = 14, pr_in = ''RAW'', pr_out = ''RAW_DSA'', pr_role = ''front''\<rparr>),
     (15, \<lparr>pr_name = ''XE35'', pr_core = 1, pr_channel = 15, pr_in = ''RAW'', pr_out = ''RAW_DSA'', pr_role = ''front''\<rparr>),
     (16, \<lparr>pr_name = ''XE25'', pr_core = 0, pr_channel = 16, pr_in = ''RAW'', pr_out = ''RAW_DSA'', pr_role = ''front''\<rparr>),
     (17, \<lparr>pr_name = ''RCY'', pr_core = 0, pr_channel = 17, pr_in = ''TM'', pr_out = ''RAW'', pr_role = ''recycle''\<rparr>),
     (18, \<lparr>pr_name = ''XE26'', pr_core = 0, pr_channel = 18, pr_in = ''RAW'', pr_out = ''RAW_DSA'', pr_role = ''front''\<rparr>),
     (19, \<lparr>pr_name = ''XE27'', pr_core = 0, pr_channel = 19, pr_in = ''RAW'', pr_out = ''RAW_DSA'', pr_role = ''front''\<rparr>),
     (20, \<lparr>pr_name = ''ILKN4'', pr_core = 0, pr_channel = 20, pr_in = ''TM'', pr_out = ''TM'', pr_role = ''fe100''\<rparr>),
     (21, \<lparr>pr_name = ''XE31'', pr_core = 0, pr_channel = 21, pr_in = ''RAW'', pr_out = ''RAW_DSA'', pr_role = ''front''\<rparr>),
     (22, \<lparr>pr_name = ''XE30'', pr_core = 0, pr_channel = 22, pr_in = ''RAW'', pr_out = ''RAW_DSA'', pr_role = ''front''\<rparr>),
     (23, \<lparr>pr_name = ''XE28'', pr_core = 0, pr_channel = 23, pr_in = ''RAW'', pr_out = ''RAW_DSA'', pr_role = ''front''\<rparr>),
     (24, \<lparr>pr_name = ''XLGE17'', pr_core = 0, pr_channel = 24, pr_in = ''TM'', pr_out = ''RAW'', pr_role = ''dp''\<rparr>),
     (25, \<lparr>pr_name = ''XLGE13'', pr_core = 0, pr_channel = 25, pr_in = ''TM'', pr_out = ''RAW'', pr_role = ''dp''\<rparr>),
     (26, \<lparr>pr_name = ''XLGE10'', pr_core = 0, pr_channel = 26, pr_in = ''TM'', pr_out = ''RAW'', pr_role = ''dp''\<rparr>),
     (27, \<lparr>pr_name = ''XE67'', pr_core = 0, pr_channel = 27, pr_in = ''RAW'', pr_out = ''RAW_DSA'', pr_role = ''front''\<rparr>),
     (28, \<lparr>pr_name = ''XE32'', pr_core = 1, pr_channel = 28, pr_in = ''RAW'', pr_out = ''RAW_DSA'', pr_role = ''front''\<rparr>),
     (29, \<lparr>pr_name = ''XE56'', pr_core = 0, pr_channel = 29, pr_in = ''RAW'', pr_out = ''RAW_DSA'', pr_role = ''front''\<rparr>),
     (30, \<lparr>pr_name = ''XE59'', pr_core = 0, pr_channel = 30, pr_in = ''RAW'', pr_out = ''RAW_DSA'', pr_role = ''front''\<rparr>),
     (31, \<lparr>pr_name = ''XE58'', pr_core = 0, pr_channel = 31, pr_in = ''RAW'', pr_out = ''RAW_DSA'', pr_role = ''front''\<rparr>),
     (32, \<lparr>pr_name = ''CGE3'', pr_core = 1, pr_channel = 32, pr_in = ''RAW'', pr_out = ''RAW_DSA'', pr_role = ''front''\<rparr>),
     (33, \<lparr>pr_name = ''CGE5'', pr_core = 1, pr_channel = 33, pr_in = ''RAW'', pr_out = ''RAW_DSA'', pr_role = ''front''\<rparr>),
     (34, \<lparr>pr_name = ''CGE4'', pr_core = 1, pr_channel = 34, pr_in = ''RAW'', pr_out = ''RAW_DSA'', pr_role = ''front''\<rparr>),
     (35, \<lparr>pr_name = ''CGE2'', pr_core = 1, pr_channel = 35, pr_in = ''RAW'', pr_out = ''RAW_DSA'', pr_role = ''front''\<rparr>),
     (36, \<lparr>pr_name = ''XE66'', pr_core = 0, pr_channel = 36, pr_in = ''RAW'', pr_out = ''RAW_DSA'', pr_role = ''front''\<rparr>)]"

definition VENDOR_FRONT_PANEL :: "int list" where
  "VENDOR_FRONT_PANEL = [28, 13, 14, 15, 16, 1, 18, 19, 6, 21, 22, 23, 7, 11, 36, 27, 10, 29, 30, 31, 32, 33, 34, 35, 12]"

text \<open>Label, connector type, nominal gigabits and plane of each connector on the front of the chassis.\<close>

definition FACEPLATE :: "(int \<times> string \<times> string \<times> int \<times> string) list" where
  "FACEPLATE = [
     (28, (''1'', ''RJ45'', 10, ''data'')),
     (13, (''2'', ''RJ45'', 10, ''data'')),
     (14, (''3'', ''RJ45'', 10, ''data'')),
     (15, (''4'', ''RJ45'', 10, ''data'')),
     (16, (''5'', ''SFP+'', 10, ''data'')),
     (1, (''6'', ''SFP+'', 10, ''data'')),
     (18, (''7'', ''SFP+'', 10, ''data'')),
     (19, (''8'', ''SFP+'', 10, ''data'')),
     (21, (''9'', ''SFP+'', 10, ''data'')),
     (6, (''10'', ''SFP+'', 10, ''data'')),
     (23, (''11'', ''SFP+'', 10, ''data'')),
     (22, (''12'', ''SFP+'', 10, ''data'')),
     (7, (''13'', ''SFP+'', 10, ''data'')),
     (11, (''14'', ''SFP+'', 10, ''data'')),
     (36, (''15'', ''SFP+'', 10, ''data'')),
     (27, (''16'', ''SFP+'', 10, ''data'')),
     (10, (''17'', ''SFP+'', 10, ''data'')),
     (29, (''18'', ''SFP+'', 10, ''data'')),
     (30, (''19'', ''SFP+'', 10, ''data'')),
     (31, (''20'', ''SFP+'', 10, ''data'')),
     (32, (''21'', ''QSFP28'', 100, ''data'')),
     (33, (''22'', ''QSFP28'', 100, ''data'')),
     (34, (''23'', ''QSFP28'', 100, ''data'')),
     (35, (''24'', ''QSFP28'', 100, ''data'')),
     (12, (''hsci'', ''QSFP28'', 100, ''management''))]"

definition QSFP_CONFLICT :: "(int \<times> string) list" where
  "QSFP_CONFLICT = [(32, ''22''), (33, ''21''), (34, ''24''), (35, ''23'')]"

definition LOOPBACKS :: "(int \<times> int) list" where
  "LOOPBACKS = [(7, 16), (34, 35)]"

section \<open>Names\<close>

definition plane_of :: "int \<Rightarrow> string option" where
  "plane_of port = map_option (\<lambda>(_, _, _, plane). plane) (dict_get FACEPLATE port)"

definition faceplate_label :: "int \<Rightarrow> string option" where
  "faceplate_label port = map_option fst (dict_get FACEPLATE port)"

definition pan_ifname :: "int \<Rightarrow> string option" where
  "pan_ifname port = map_option (\<lambda>label. if all_digits label then ''ethernet1/'' @ label else label) (faceplate_label port)"

definition port_of_pan_ifname :: "string \<Rightarrow> int option" where
  "port_of_pan_ifname name = List.find (\<lambda>port. pan_ifname port = Some name) (dict_keys FACEPLATE)"

text \<open>Numbered connectors first, then the named ones.\<close>

definition faceplate_key :: "int \<Rightarrow> nat list" where
  "faceplate_key p = (case faceplate_label p of None \<Rightarrow> []
     | Some label \<Rightarrow> if all_digits label then [0, dec_val label] else 1 # map of_char label)"

definition faceplate_ports :: "string option \<Rightarrow> int list" where
  "faceplate_ports plane = sort_key faceplate_key
     (filter (\<lambda>p. plane = None \<or> plane_of p = plane) (dict_keys FACEPLATE))"

definition diag_name :: "int \<Rightarrow> exn + string option" where
  "diag_name port = (if port = 17 \<or> port = 0 then Inr None else case dict_get PORTS port of
      None \<Rightarrow> Inl (KeyError (dec_int port))
    | Some row \<Rightarrow> Inr (Some ((if starts_with ''XLGE'' (pr_name row) then ''xl'' else if starts_with ''CGE'' (pr_name row) then ''ce''
        else if starts_with ''ILKN'' (pr_name row) then ''il'' else ''xe'') @ dec_int port)))"

definition dense_index :: "int \<Rightarrow> int" where
  "dense_index port = (if port < 17 then port else port - 1)"

definition ports_by_role :: "string \<Rightarrow> (int \<times> port_row) list" where
  "ports_by_role role = filter (\<lambda>(_, row). pr_role row = role) PORTS"

section \<open>Names and ports correspond\<close>

lemma faceplate_names: "list_all (\<lambda>p. port_of_pan_ifname (the (pan_ifname p)) = Some p \<and> pan_ifname p \<noteq> None) (dict_keys FACEPLATE)"
  by code_simp

lemma pan_ifname_port: "pan_ifname p \<noteq> None \<longleftrightarrow> p \<in> set (dict_keys FACEPLATE)"
  using dict_get_None [of FACEPLATE p] by (auto simp: pan_ifname_def faceplate_label_def)

lemma found_named: "port_of_pan_ifname name = Some p \<Longrightarrow> pan_ifname p = Some name"
  by (auto simp: port_of_pan_ifname_def find_Some_iff)

lemma named_found: "pan_ifname p = Some name \<Longrightarrow> port_of_pan_ifname name = Some p"
proof -
  assume n: "pan_ifname p = Some name"
  then have "p \<in> set (dict_keys FACEPLATE)" using pan_ifname_port [of p] by simp
  with faceplate_names n show ?thesis by (fastforce simp: list_all_iff simp del: set_map)
qed

text \<open>
  Interface names and faceplate ports determine each other: a name resolves to exactly the port that
  carries it.  The labels are the code's; the repository's \<open>FACEPLATE-MAP.md\<close> gives the connectors
  9 to 12 the ports 6, 21, 22 and 23.
\<close>

lemma faceplate_round_trip: "(port_of_pan_ifname name = Some p) = (pan_ifname p = Some name)"
  using found_named [of name p] named_found [of p name] by blast

text \<open>The faceplate holds exactly the ports of the vendor's enable list.\<close>

lemma faceplate_complete: "set (dict_keys FACEPLATE) = set VENDOR_FRONT_PANEL \<and> dict_ok FACEPLATE"
  unfolding dict_ok_def by code_simp

text \<open>A dense index counts the ports below, the recycle port left out.\<close>

lemma dense_index_counts:
  "list_all (\<lambda>p. p = 17 \<or> dense_index p = int (length (filter (\<lambda>q. q < p \<and> q \<noteq> 17) (dict_keys PORTS)))) (dict_keys PORTS)"
  by code_simp

end
