(* ===== verification/ConfigRender.thy ===== *)
theory ConfigRender
  imports BcmPorts Digest
begin

text \<open>
  The renderer of \<open>control/ffn_config_render.py\<close>: committed configuration to the key/value set the
  control and data planes receive.  The running XML is a tree, the results of the SQL queries are
  row lists (\<open>None\<close> where the query raises \<open>sqlite3.Error\<close>), the local base is the list of its
  lines.  Cells are null, integer or text: reals and blobs are not modelled.
\<close>

section \<open>Inputs\<close>

datatype cell = CNull | CInt int | CText string

definition cell_str :: "cell \<Rightarrow> string" where
  "cell_str c = (case c of CNull \<Rightarrow> ''None'' | CInt i \<Rightarrow> dec_int i | CText s \<Rightarrow> s)"

definition cell_truthy :: "cell \<Rightarrow> bool" where
  "cell_truthy c = (case c of CNull \<Rightarrow> False | CInt i \<Rightarrow> i \<noteq> 0 | CText s \<Rightarrow> s \<noteq> [])"

definition cell_repr :: "cell \<Rightarrow> string" where
  "cell_repr c = (case c of CText s \<Rightarrow> repr s | _ \<Rightarrow> cell_str c)"

definition no_attribute :: "string \<Rightarrow> string \<Rightarrow> exn" where
  "no_attribute type_name attribute = OtherError (''AttributeError('' @
     repr ([CHR 0x27] @ type_name @ [CHR 0x27] @ '' object has no attribute '' @ [CHR 0x27] @ attribute @ [CHR 0x27]) @ '')'')"

text \<open>\<open>(c or d).strip()\<close>, for a text \<open>d\<close>: a non-zero integer has no \<open>strip\<close>.\<close>

definition strip_or :: "cell \<Rightarrow> string \<Rightarrow> exn + string" where
  "strip_or c d = (case c of
      CText s \<Rightarrow> Inr (strip (if s = [] then d else s))
    | CNull \<Rightarrow> Inr (strip d)
    | CInt i \<Rightarrow> if i = 0 then Inr (strip d)
        else Inl (no_attribute ''int'' ''strip''))"

datatype xml = Elem (xml_tag: string) (xml_attrs: "(string \<times> string) list") (xml_text: "string option") (xml_children: "xml list")

text \<open>\<open>findall\<close> of a path of child steps, the proper descendants in document order, \<open>find\<close> and \<open>findtext\<close>.\<close>

fun xml_path :: "string list \<Rightarrow> xml \<Rightarrow> xml list" where
  "xml_path [] e = [e]"
| "xml_path (t # ts) e = concat (map (xml_path ts) (filter (\<lambda>c. xml_tag c = t) (xml_children e)))"

fun xml_descendants :: "xml \<Rightarrow> xml list" where
  "xml_descendants (Elem _ _ _ cs) = concat (map (\<lambda>c. c # xml_descendants c) cs)"

definition xml_below :: "string \<Rightarrow> string list \<Rightarrow> xml \<Rightarrow> xml list" where
  "xml_below t ts e = concat (map (xml_path ts) (filter (\<lambda>c. xml_tag c = t) (xml_descendants e)))"

definition first :: "'a list \<Rightarrow> 'a option" where
  "first xs = (case xs of [] \<Rightarrow> None | x # _ \<Rightarrow> Some x)"

definition find_text :: "string list \<Rightarrow> xml \<Rightarrow> string option" where
  "find_text ts e = map_option (\<lambda>c. case xml_text c of None \<Rightarrow> [] | Some t \<Rightarrow> t) (first (xml_path ts e))"

definition text_or :: "string option \<Rightarrow> string option \<Rightarrow> string option" where
  "text_or a b = (case a of None \<Rightarrow> b | Some s \<Rightarrow> if s = [] then b else a)"

record config_db =
  db_routes :: "(cell \<times> cell \<times> cell \<times> cell \<times> cell \<times> cell) list option"
  db_routers :: "(cell \<times> cell \<times> cell \<times> cell \<times> cell \<times> cell) list option"
  db_policy :: "cell list list option"
  db_dlp :: "(cell \<times> cell \<times> cell \<times> cell \<times> cell \<times> cell \<times> cell) list option"

record sources =
  so_db :: "config_db option"
  so_root :: "xml option"
  so_portmap :: "(string \<times> string) list"
  so_base :: "(string \<times> string) list"
  so_chassis :: bool

section \<open>Emission\<close>

record rendering =
  rn_out :: "(string \<times> string) list"
  rn_problems :: "string list"

definition PORTMAP_PREFIX :: string where
  "PORTMAP_PREFIX = ''dp.portmap.''"

definition MGR_ID :: string where
  "MGR_ID = ''mgr''"

definition SECRET_HINTS :: "string list" where
  "SECRET_HINTS = [''secret'', ''password'', ''passwd'', ''key'', ''token'', ''psk'', ''private'', ''credential'', ''identity'']"

definition secret_key :: "string \<Rightarrow> bool" where
  "secret_key k \<longleftrightarrow> list_ex (\<lambda>h. contains h (lower k)) SECRET_HINTS"

definition one_line :: "string \<Rightarrow> bool" where
  "one_line s \<longleftrightarrow> list_all (\<lambda>c. c \<noteq> CHR 0x0A \<and> c \<noteq> CHR 0x0D) s"

definition render_error :: "string \<Rightarrow> exn" where
  "render_error m = OtherError (''RenderError('' @ repr m @ '')'')"

definition clean_text :: "string \<Rightarrow> exn + string option" where
  "clean_text v = (let s = strip v in
     if s = [] then Inr None
     else if \<not> one_line s then Inl (render_error (''value contains a newline: '' @ repr (take 60 s)))
     else Inr (Some s))"

definition clean_cell :: "cell \<Rightarrow> exn + string option" where
  "clean_cell c = (if c = CNull then Inr None else clean_text (cell_str c))"

definition clean_opt :: "string option \<Rightarrow> exn + string option" where
  "clean_opt v = (case v of None \<Rightarrow> Inr None | Some s \<Rightarrow> clean_text s)"

definition emit :: "string \<Rightarrow> string option \<Rightarrow> (rendering, unit) py" where
  "emit key value = (if secret_key key then ret () else (bnd (lift_res (clean_opt value)) (\<lambda>v.
    (case v of None \<Rightarrow> ret () | Some s \<Rightarrow> upd (\<lambda>r. r\<lparr>rn_out := dict_set key s (rn_out r)\<rparr>)))))"

definition emit_cell :: "string \<Rightarrow> cell \<Rightarrow> (rendering, unit) py" where
  "emit_cell key c = emit key (if c = CNull then None else Some (cell_str c))"

definition problem :: "string \<Rightarrow> (rendering, unit) py" where
  "problem m = upd (\<lambda>r. r\<lparr>rn_problems := rn_problems r @ [m]\<rparr>)"

definition is_v6 :: "string \<Rightarrow> bool" where
  "is_v6 addr \<longleftrightarrow> CHR '':'' \<in> set addr"

definition family :: "string \<Rightarrow> string" where
  "family addr = (if is_v6 addr then ''IPv6'' else ''IPv4'')"

definition alias_entry :: "xml \<Rightarrow> (string \<times> string) list \<Rightarrow> (string \<times> string) list" where
  "alias_entry e m = (case dict_get (xml_attrs e) ''name'' of None \<Rightarrow> m
     | Some panos \<Rightarrow> let linux = strip (case find_text [''linux-name''] e of None \<Rightarrow> [] | Some t \<Rightarrow> t) in
         if panos \<noteq> [] \<and> linux \<noteq> [] then dict_set panos linux m else m)"

definition alias_map :: "xml option \<Rightarrow> (string \<times> string) list" where
  "alias_map tree = (case tree of None \<Rightarrow> [] | Some r \<Rightarrow> fold alias_entry (xml_below ''interface-alias'' [''entry''] r) [])"

definition get_else :: "(string \<times> string) list \<Rightarrow> string \<Rightarrow> string" where
  "get_else m k = (case dict_get m k of None \<Rightarrow> k | Some v \<Rightarrow> v)"

definition running_text :: "xml option \<Rightarrow> string list \<Rightarrow> string option" where
  "running_text tree path = (case tree of None \<Rightarrow> None
     | Some r \<Rightarrow> (case first (xml_path path r) of None \<Rightarrow> None | Some e \<Rightarrow> xml_text e))"

section \<open>Routes\<close>

definition via_clause :: "string \<Rightarrow> string option \<Rightarrow> string \<Rightarrow> string" where
  "via_clause cidr nh dev = (case nh of
      Some hop \<Rightarrow> cidr @ '' via '' @ hop @ '' dev '' @ dev
    | None \<Rightarrow> cidr @ '' dev '' @ dev)"

text \<open>The control plane's copy by name, the dataplane's by port index under the key of its family.\<close>

definition render_copies :: "sources \<Rightarrow> string \<Rightarrow> string option \<Rightarrow> string \<Rightarrow> string \<Rightarrow> cell \<Rightarrow> (rendering, unit) py" where
  "render_copies src cidr nh dev ident tbl = (thn (emit (''cp.route.'' @ MGR_ID @ ident) (Some (via_clause cidr nh dev @
       (if cell_truthy tbl \<and> cell_str tbl \<notin> {[], ''254''} then '' table '' @ cell_str tbl else []))))
    ((case dict_get (so_portmap src) dev of
        None \<Rightarrow> problem (''route '' @ ident @ '': no '' @ PORTMAP_PREFIX @ dev @ '' -- the DP needs a numeric egress and would reject '' @
          [CHR 0x27] @ ''dev '' @ dev @ [CHR 0x27] @ '' as a syntax error, so the DP copy is not published (the CP route still is)'')
      | Some idx \<Rightarrow> emit ((if is_v6 cidr then ''dp.l3.route6.'' else ''dp.l3.route.'') @ MGR_ID @ ident) (Some (via_clause cidr nh idx)))))"

definition render_route :: "sources \<Rightarrow> (string \<times> string) list \<Rightarrow> cell \<times> cell \<times> cell \<times> cell \<times> cell \<times> cell \<Rightarrow> (rendering, unit) py" where
  "render_route src aliases = (\<lambda>(rid, cidr_cell, nh_cell, dev_cell, metric, tbl). (bnd (lift_res (clean_cell cidr_cell)) (\<lambda>cidr_value.
    bnd (lift_res (clean_cell dev_cell)) (\<lambda>dev_value.
    (case (cidr_value, dev_value) of
        (Some cidr, Some panos) \<Rightarrow> (let dev = get_else aliases panos; ident = cell_str rid in
          bnd (lift_res (clean_cell nh_cell)) (\<lambda>nh.
          (case nh of
             Some hop \<Rightarrow> if is_v6 cidr \<noteq> is_v6 hop then problem (''route '' @ ident @ '': destination '' @ cidr @ '' is '' @ family cidr @
                 '' but next hop '' @ hop @ '' is '' @ family hop @ '' -- no plane can install that, so neither copy is published'')
               else render_copies src cidr nh dev ident tbl
           | None \<Rightarrow> render_copies src cidr nh dev ident tbl)))
      | _ \<Rightarrow> ret ())))))"

definition render_routes :: "sources \<Rightarrow> (rendering, unit) py" where
  "render_routes src = (case so_db src of None \<Rightarrow> ret () | Some db \<Rightarrow> (case db_routes db of None \<Rightarrow> ret ()
     | Some rows \<Rightarrow> for_each rows (render_route src (alias_map (so_root src)))))"

section \<open>Interfaces\<close>

definition interface_addresses :: "xml \<Rightarrow> exn + string list" where
  "interface_addresses node = (rbnd (rcollect (case first (xml_path [''layer3''] node) of None \<Rightarrow> [] | Some l3 \<Rightarrow> xml_path [''ip'', ''entry''] l3)
       (\<lambda>e. clean_opt (dict_get (xml_attrs e) ''name''))) (\<lambda>found.
    Inr (List.map_filter id found)))"

definition publish_mac :: "sources \<Rightarrow> string \<Rightarrow> string \<Rightarrow> (rendering, unit) py" where
  "publish_mac src linux mac = (case dict_get (so_portmap src) linux of
      None \<Rightarrow> problem (''iface '' @ linux @ '': no '' @ PORTMAP_PREFIX @ linux @ '', so its MAC is not published to the DP'')
    | Some idx \<Rightarrow> emit (''dp.l3.iface.'' @ idx @ ''.mac'') (Some mac))"

definition render_interface :: "sources \<Rightarrow> string \<Rightarrow> string \<Rightarrow> xml \<Rightarrow> (rendering, unit) py" where
  "render_interface src panos linux node = (bnd (lift_res (interface_addresses node)) (\<lambda>addrs.
    let mtu = text_or (find_text [''layer3'', ''mtu''] node) (find_text [''mtu''] node);
         prof = find_text [''layer3'', ''interface-management-profile''] node;
         comment = find_text [''comment''] node;
         mac = text_or (text_or (text_or (find_text [''layer3'', ''mac''] node) (find_text [''mac''] node))
           (find_text [''layer3'', ''hw-address''] node)) (find_text [''hw-address''] node);
         stem = ''cp.iface.'' @ linux in
    thn (emit (stem @ ''.panos_name'') (Some panos))
    (thn (whn (addrs \<noteq> []) (emit (stem @ ''.addr'') (Some (join '','' addrs))))
    (thn (emit (stem @ ''.mtu'') mtu)
    (thn (emit (stem @ ''.mgmt_profile'') prof)
    (thn (emit (stem @ ''.comment'') comment)
    ((case mac of None \<Rightarrow> ret () | Some m \<Rightarrow> whn (m \<noteq> []) (publish_mac src linux m)))))))))"

definition render_interface_node :: "sources \<Rightarrow> (string \<times> string) list \<Rightarrow> xml \<Rightarrow> (rendering, unit) py" where
  "render_interface_node src aliases node = (case dict_get (xml_attrs node) ''name'' of
      None \<Rightarrow> ret ()
    | Some panos \<Rightarrow> if panos = [] then ret () else (case dict_get aliases panos of
        None \<Rightarrow> ret ()
      | Some linux \<Rightarrow> if linux = [] then ret () else render_interface src panos linux node))"

definition render_interfaces :: "sources \<Rightarrow> (rendering, unit) py" where
  "render_interfaces src = (case so_root src of None \<Rightarrow> ret () | Some tree \<Rightarrow> (let aliases = alias_map (Some tree) in
    thn (emit ''cp.iface.count'' (Some (dec_nat (length aliases))))
    (for_each (xml_below ''network'' [''interface'', ''ethernet'', ''entry''] tree) (render_interface_node src aliases))))"

section \<open>Routers, forwarding and platform\<close>

definition no_execute :: exn where
  "no_execute = no_attribute ''NoneType'' ''execute''"

definition router_down :: "cell \<Rightarrow> bool" where
  "router_down admin_up \<longleftrightarrow> admin_up = CInt 0 \<or> admin_up = CText ''0''"

definition router_active :: "cell \<times> cell \<times> cell \<times> cell \<times> cell \<times> cell \<Rightarrow> bool" where
  "router_active = (\<lambda>(rid, name, table_id, admin_up, router_id, asn).
     (case clean_cell name of Inr (Some _) \<Rightarrow> \<not> router_down admin_up | _ \<Rightarrow> False))"

definition render_router :: "cell \<times> cell \<times> cell \<times> cell \<times> cell \<times> cell \<Rightarrow> (rendering, unit) py" where
  "render_router = (\<lambda>(rid, name_cell, table_id, admin_up, router_id, asn). (bnd (lift_res (clean_cell name_cell)) (\<lambda>name.
    whn (name \<noteq> None \<and> \<not> router_down admin_up) ((let stem = ''cp.vr.'' @ cell_str rid in
       thn (emit (stem @ ''.name'') name)
       (thn (emit_cell (stem @ ''.table'') table_id)
       (thn (emit_cell (stem @ ''.router_id'') router_id)
       (emit_cell (stem @ ''.asn'') asn))))))))"

definition render_routers :: "sources \<Rightarrow> (rendering, unit) py" where
  "render_routers src = (case so_db src of None \<Rightarrow> raise no_execute | Some db \<Rightarrow> (case db_routers db of None \<Rightarrow> ret ()
     | Some rows \<Rightarrow> (thn (for_each rows render_router)
       (let active = length (filter router_active rows) in
       whn (active \<noteq> 0) (emit ''cp.vr.count'' (Some (dec_nat active)))))))"

definition FORWARDING_KEYS :: "string list" where
  "FORWARDING_KEYS = [''cp.forwarding.ipv4'', ''cp.forwarding.ipv6'', ''cp.forwarding.l3mdev'', ''cp.forwarding.rp_filter'']"

definition render_forwarding_key :: "sources \<Rightarrow> string \<Rightarrow> (rendering, unit) py" where
  "render_forwarding_key src k = (if k \<in> set (dict_keys (so_base src)) then ret ()
     else if k = ''cp.forwarding.ipv4'' then (bnd (gets (\<lambda>r. case dict_get (rn_out r) ''cp.vr.count'' of None \<Rightarrow> False | Some v \<Rightarrow> v \<noteq> [])) (\<lambda>routed.
       emit k (Some (if routed then ''1'' else ''0''))))
     else if k = ''cp.forwarding.l3mdev'' then (bnd (gets (\<lambda>r. list_ex (\<lambda>(kk, v). starts_with ''cp.vr.'' kk \<and> ends_with ''.table'' kk \<and> v \<notin> {[], ''254''}) (rn_out r))) (\<lambda>vrf.
       whn vrf (emit k (Some ''1''))))
     else ret ())"

definition render_forwarding :: "sources \<Rightarrow> (rendering, unit) py" where
  "render_forwarding src = for_each FORWARDING_KEYS (render_forwarding_key src)"

definition render_platform :: "sources \<Rightarrow> (rendering, unit) py" where
  "render_platform src = (thn (emit ''cp.hostname'' (running_text (so_root src) [''devices'', ''entry'', ''deviceconfig'', ''system'', ''hostname'']))
    (emit ''all.zerotier.iface_pattern'' (Some ''zt*'')))"

section \<open>Policy summary\<close>

definition rule_bytes :: "cell list \<Rightarrow> bytes" where
  "rule_bytes r = utf8 (join ''|'' (map (\<lambda>c. if c = CNull then [] else cell_str c) r))"

definition zerotier_rule :: "cell list \<Rightarrow> bool" where
  "zerotier_rule r \<longleftrightarrow> list_ex (\<lambda>c. case c of CText s \<Rightarrow> starts_with ''zt'' s | _ \<Rightarrow> False) [r ! 4, r ! 5]"

definition policy_version :: "cell list list \<Rightarrow> string" where
  "policy_version rows = take 16 (to_hex (sha256 (concat (map rule_bytes rows))))"

definition render_policy :: "sources \<Rightarrow> (rendering, unit) py" where
  "render_policy src = (case so_db src of None \<Rightarrow> raise no_execute | Some db \<Rightarrow> (case db_policy db of None \<Rightarrow> ret ()
     | Some rows \<Rightarrow> (let zt = length (filter zerotier_rule rows) in
       thn (emit ''dp.policy.rules'' (Some (dec_nat (length rows))))
       (thn (emit ''dp.policy.version'' (Some (policy_version rows)))
       (thn (whn (zt \<noteq> 0) (emit ''dp.policy.zerotier_rules'' (Some (dec_nat zt))))
       (emit ''dp.default_decision'' (text_or (running_text (so_root src)
           [''devices'', ''entry'', ''deviceconfig'', ''setting'', ''default-decision'']) (Some ''drop''))))))))"

section \<open>Virtual systems\<close>

definition vsys_number :: "string \<Rightarrow> nat option" where
  "vsys_number name = (let l = lower name; ds = drop 4 l in
     if starts_with ''vsys'' l \<and> ds \<noteq> [] \<and> list_all (\<lambda>c. c \<in> set digits) ds then Some (dec_val ds) else None)"

definition vsys_tenant :: "xml \<Rightarrow> (rendering, (nat \<times> string \<times> xml) list) py" where
  "vsys_tenant e = (let name = strip (case dict_get (xml_attrs e) ''name'' of None \<Rightarrow> [] | Some n \<Rightarrow> n) in
     case vsys_number name of
       None \<Rightarrow> (thn (problem (''vsys '' @ repr name @ '': name is not vsys<N>, so it has no stable numeric id; not published''))
         (ret []))
     | Some vid \<Rightarrow>
         if vid < 1 \<or> 32 < vid then (thn (problem (''vsys '' @ repr name @ '': id '' @ dec_nat vid @ '' outside 1..32; not published''))
           (ret []))
         else ret [(vid, name, e)])"

text \<open>Two entries of one number and name make the sort compare elements, which raises.\<close>

definition sort_tenants :: "(nat \<times> string \<times> xml) list \<Rightarrow> exn + (nat \<times> string \<times> xml) list" where
  "sort_tenants ts = (if distinct (map (\<lambda>(v, n, _). (v, n)) ts)
     then Inr (sort_key (\<lambda>(v, n, _). v # map of_char n) ts)
     else Inl (TypeError ''unorderable elements''))"

definition render_member :: "sources \<Rightarrow> (string \<times> string) list \<Rightarrow> nat \<Rightarrow> string \<Rightarrow> xml \<Rightarrow> (rendering, unit) py" where
  "render_member src aliases vid name m = (let pan = strip (case xml_text m of None \<Rightarrow> [] | Some t \<Rightarrow> t) in
     if pan = [] then ret ()
     else if so_chassis src then (case port_of_pan_ifname pan of
         None \<Rightarrow> problem (''vsys '' @ name @ '' imports '' @ pan @
           '', which is not a faceplate port on this chassis -- no tenant boundary can be enforced for it'')
       | Some lport \<Rightarrow> emit (''dp.vsys.fport.'' @ dec_int lport) (Some (dec_nat vid)))
     else (case dict_get (so_portmap src) (get_else aliases pan) of
         None \<Rightarrow> problem (''vsys '' @ name @ '' imports '' @ pan @
           '', which has no dp.portmap entry -- that port will stay in the wildcard vsys, so its tenant boundary is NOT enforced'')
       | Some idx \<Rightarrow> emit (''dp.vsys.port.'' @ idx) (Some (dec_nat vid))))"

definition render_tenant :: "sources \<Rightarrow> (string \<times> string) list \<Rightarrow> nat \<times> string \<times> xml \<Rightarrow> (rendering, unit) py" where
  "render_tenant src aliases = (\<lambda>(vid, name, e). (thn (emit (''dp.vsys.tenant.'' @ dec_nat vid) (Some name))
    (for_each (xml_path [''import'', ''network'', ''interface'', ''member''] e) (render_member src aliases vid name))))"

definition render_vsys :: "sources \<Rightarrow> (rendering, unit) py" where
  "render_vsys src = (case so_root src of None \<Rightarrow> ret () | Some tree \<Rightarrow> (let aliases = alias_map (Some tree) in
    bnd (collect (xml_path [''devices'', ''entry'', ''vsys'', ''entry''] tree) vsys_tenant) (\<lambda>found.
    let tenants = concat found in
    whn (tenants \<noteq> []) ((bnd (lift_res (sort_tenants tenants)) (\<lambda>sorted_tenants.
       thn (for_each sorted_tenants (render_tenant src aliases))
       (emit ''dp.vsys.count'' (Some (dec_nat (length tenants))))))))))"

section \<open>Inspection engines\<close>

definition DLP_TYPES :: "string list" where
  "DLP_TYPES = [''keyword'', ''credit_card'', ''ssn'', ''api_key'']"

definition DLP_ACTIONS :: "string list" where
  "DLP_ACTIONS = [''alert'', ''block'', ''reset'']"

definition DLP_DIRECTIONS :: "string list" where
  "DLP_DIRECTIONS = [''any'', ''egress'', ''ingress'']"

definition DLP_RULE_MAX :: nat where
  "DLP_RULE_MAX = 32"

definition DLP_PAT_MAX :: nat where
  "DLP_PAT_MAX = 63"

text \<open>Why a rule cannot be published, if it cannot.\<close>

definition dlp_fault :: "string \<Rightarrow> string \<Rightarrow> string \<Rightarrow> string \<Rightarrow> string \<Rightarrow> string option" where
  "dlp_fault label ptype action direction pattern =
     (if ptype \<notin> set DLP_TYPES then Some (''dlp '' @ label @ '': pattern_type '' @ repr ptype @
        '' is not enforceable in the dataplane (it matches literally and structurally, never by regex); rule NOT published'')
      else if action \<notin> set DLP_ACTIONS then Some (''dlp '' @ label @ '': action '' @ repr action @ '' is not one of '' @
        join ''/'' DLP_ACTIONS @ ''; rule NOT published'')
      else if direction \<notin> set DLP_DIRECTIONS then Some (''dlp '' @ label @ '': direction '' @ repr direction @ '' is not one of '' @
        join ''/'' DLP_DIRECTIONS @ ''; rule NOT published'')
      else if ptype = ''keyword'' \<and> pattern = [] then Some (''dlp '' @ label @ '': a keyword rule needs a keyword; rule NOT published'')
      else if DLP_PAT_MAX < length pattern then Some (''dlp '' @ label @ '': pattern is '' @ dec_nat (length pattern) @
        '' bytes, the dataplane holds '' @ dec_nat DLP_PAT_MAX @ ''; rule NOT published'')
      else None)"

text \<open>The loop over the rules, with the numbers rendered and direction-scoped so far; a full table breaks it.\<close>

fun render_dlp :: "(cell \<times> cell \<times> cell \<times> cell \<times> cell \<times> cell \<times> cell) list \<Rightarrow> nat \<Rightarrow> nat \<Rightarrow> (rendering, nat \<times> nat) py" where
  "render_dlp [] rendered scoped = ret (rendered, scoped)"
| "render_dlp ((rid, name, ptype_cell, pattern_cell, action_cell, direction_cell, en) # rows) rendered scoped = (let label = (if cell_truthy name then cell_repr name else repr (''rule '' @ cell_str rid)) in
  bnd (lift_res (strip_or ptype_cell [])) (\<lambda>ptype_text.
  bnd (lift_res (strip_or action_cell [])) (\<lambda>action_text.
  bnd (lift_res (strip_or direction_cell ''any'')) (\<lambda>direction_text.
  bnd (lift_res (strip_or pattern_cell [])) (\<lambda>pattern.
  let ptype = lower ptype_text; action = lower action_text; direction = lower direction_text in
  (case dlp_fault label ptype action direction pattern of
        Some m \<Rightarrow> (thn (problem m)
          (render_dlp rows rendered scoped))
      | None \<Rightarrow>
          if DLP_RULE_MAX \<le> rendered then (thn (problem (''dlp: more than '' @ dec_nat DLP_RULE_MAX @ '' enabled rules; '' @ label @ '' and any after it were NOT published''))
            (ret (rendered, scoped)))
          else (thn (emit (''dp.dlp.rule.'' @ MGR_ID @ cell_str rid) (Some (ptype @ '':'' @ action @ '':'' @ direction @ '':'' @ pattern)))
            (render_dlp rows (rendered + 1) (scoped + (if direction \<noteq> ''any'' then 1 else 0))))))))))"

definition dlp_summary :: "nat \<times> nat \<Rightarrow> (rendering, unit) py" where
  "dlp_summary counts = (thn (emit ''dp.engine.dlp.enable'' (Some (if fst counts \<noteq> 0 then ''1'' else ''0'')))
     (thn (emit ''dp.dlp.rules'' (Some (dec_nat (fst counts))))
     (whn (snd counts \<noteq> 0) (problem (''dlp: '' @ dec_nat (snd counts) @
        '' published rule(s) are direction-scoped, but the dataplane cannot yet tell ingress from egress, so they match BOTH directions'')))))"

definition render_engines :: "sources \<Rightarrow> (rendering, unit) py" where
  "render_engines src = (case so_db src of None \<Rightarrow> raise no_execute | Some db \<Rightarrow> (case db_dlp db of None \<Rightarrow> ret ()
     | Some rows \<Rightarrow> (bnd (render_dlp rows 0 0) dlp_summary)))"

section \<open>The local base\<close>

definition local_line :: "string \<Rightarrow> nat \<times> string \<Rightarrow> (string \<times> string) list \<times> string list \<Rightarrow> (string \<times> string) list \<times> string list" where
  "local_line path = (\<lambda>(n, raw) (base, problems). let line = strip raw in
     if line = [] \<or> starts_with ''#'' line then (base, problems)
     else if CHR ''='' \<notin> set line then (base, problems @ [path @ '':'' @ dec_nat n @ '': not key=value: '' @ repr (take 50 line)])
     else let (k, v) = split_first (CHR ''='') line in (dict_set (strip k) (strip v) base, problems))"

text \<open>The lines read before an \<open>OSError\<close>, if one ended the reading, and its text.\<close>

definition load_local :: "string \<Rightarrow> string list \<Rightarrow> string option \<Rightarrow> (string \<times> string) list \<times> string list" where
  "load_local path lines failure =
     (let (base, problems) = fold (local_line path) (zip [1..<length lines + 1] lines) ([], []) in
      (base, problems @ (case failure of None \<Rightarrow> [] | Some e \<Rightarrow> [''local base: '' @ e])))"

definition port_entry :: "string \<times> string \<Rightarrow> (string \<times> string) list \<times> string list \<Rightarrow> (string \<times> string) list \<times> string list" where
  "port_entry = (\<lambda>(k, v) (m, problems).
     if \<not> starts_with PORTMAP_PREFIX k then (m, problems)
     else let name = drop (length PORTMAP_PREFIX) k in
       if all_digits v then (dict_set name v m, problems)
       else (m, problems @ [PORTMAP_PREFIX @ name @ ''='' @ repr v @ '' is not a port index'']))"

section \<open>Rendering\<close>

datatype db_file = DbMissing string | DbError string | DbOpen config_db

datatype xml_file = XmlMissing | XmlError string | XmlRoot xml

record render_inputs =
  ri_db :: db_file
  ri_xml :: xml_file
  ri_path :: string
  ri_lines :: "string list"
  ri_failure :: "string option"
  ri_chassis :: bool

definition RENDERERS :: "(string \<times> (sources \<Rightarrow> (rendering, unit) py)) list" where
  "RENDERERS = [(''platform'', render_platform), (''interfaces'', render_interfaces), (''routes'', render_routes),
     (''routers'', render_routers), (''forwarding'', render_forwarding), (''policy'', render_policy),
     (''vsys'', render_vsys), (''engines'', render_engines)]"

definition exn_repr :: "exn \<Rightarrow> string" where
  "exn_repr e = (case e of
      ValueError m \<Rightarrow> ''ValueError('' @ repr m @ '')''
    | RuntimeError m \<Rightarrow> ''RuntimeError('' @ repr m @ '')''
    | KeyError m \<Rightarrow> ''KeyError('' @ repr m @ '')''
    | TypeError m \<Rightarrow> ''TypeError('' @ repr m @ '')''
    | TimeoutError m \<Rightarrow> ''TimeoutError('' @ repr m @ '')''
    | OSError m \<Rightarrow> ''OSError('' @ repr m @ '')''
    | SubprocessError m \<Rightarrow> ''SubprocessError('' @ repr m @ '')''
    | OtherError m \<Rightarrow> m
    | Interrupt m \<Rightarrow> m)"

text \<open>A failing domain keeps what it has written and is reported; the others are rendered.\<close>

definition run_domain :: "sources \<Rightarrow> string \<times> (sources \<Rightarrow> (rendering, unit) py) \<Rightarrow> (rendering, unit) py" where
  "run_domain src = (\<lambda>(name, f). catch_exn (f src) (\<lambda>e. problem (name @ '': '' @ exn_repr e)))"

definition sources_of :: "render_inputs \<Rightarrow> sources \<times> string list" where
  "sources_of i = (let (base, local_problems) = load_local (ri_path i) (ri_lines i) (ri_failure i);
       (portmap, port_problems) = fold port_entry base ([], []);
       xml_problems = (case ri_xml i of XmlError e \<Rightarrow> [''running xml: '' @ e] | _ \<Rightarrow> []);
       db_problems = (case ri_db i of DbError e \<Rightarrow> [''config db: '' @ e] | DbMissing p \<Rightarrow> [''config db not found: '' @ p] | DbOpen _ \<Rightarrow> []) in
     (\<lparr>so_db = (case ri_db i of DbOpen d \<Rightarrow> Some d | _ \<Rightarrow> None), so_root = (case ri_xml i of XmlRoot r \<Rightarrow> Some r | _ \<Rightarrow> None),
        so_portmap = portmap, so_base = base, so_chassis = ri_chassis i\<rparr>,
      local_problems @ port_problems @ xml_problems @ db_problems))"

definition render_domains :: "render_inputs \<Rightarrow> rendering" where
  "render_domains i = (let (src, problems) = sources_of i in
     snd (for_each RENDERERS (run_domain src) \<lparr>rn_out = [], rn_problems = problems\<rparr>))"

definition dict_update :: "('k \<times> 'v) list \<Rightarrow> ('k \<times> 'v) list \<Rightarrow> ('k \<times> 'v) list" where
  "dict_update d e = fold (\<lambda>(k, v). dict_set k v) e d"

definition render_lines :: "(string \<times> string) list \<Rightarrow> string list" where
  "render_lines merged = map (\<lambda>(k, v). k @ ''='' @ v) (sort_key (\<lambda>(k, _). map of_char k :: nat list) merged)"

definition render :: "render_inputs \<Rightarrow> string list \<times> string list" where
  "render i = (let r = render_domains i in
     (render_lines (dict_update (so_base (fst (sources_of i))) (rn_out r)), rn_problems r))"

section \<open>Publication\<close>

text \<open>
  The published file and the temporary one beside it, each a text with its mode when it exists.  What
  the file system does to them is state; every step may raise instead.  An interrupt out of the
  renaming may find it done or not, as the environment tells.
\<close>

record 'e publication =
  pb_env :: 'e
  pb_file :: "(string \<times> nat) option"
  pb_temp :: "(string \<times> nat) option"

record 'e file_steps =
  fs_open :: "('e, unit) py"
  fs_makedirs :: "('e, unit) py"
  fs_mkstemp :: "('e, unit) py"
  fs_write :: "string \<Rightarrow> ('e, unit) py"
  fs_chmod :: "('e, unit) py"
  fs_replace :: "('e, unit) py"
  fs_replaced :: "'e \<Rightarrow> bool"
  fs_unlink :: "('e, unit) py"

definition file_step :: "('e, unit) py \<Rightarrow> ('e publication, unit) py" where
  "file_step = zoom pb_env (\<lambda>e s. s\<lparr>pb_env := e\<rparr>)"

definition file_body :: "string list \<Rightarrow> string" where
  "file_body lines = join [CHR 0x0A] (''# FFN config -- rendered by ffn_config_render; do not edit'' # lines) @ [CHR 0x0A]"

definition read_current :: "'e file_steps \<Rightarrow> ('e publication, string option) py" where
  "read_current steps = catch_exn (thn (file_step (fs_open steps)) (gets (\<lambda>s. map_option fst (pb_file s))))
     (\<lambda>e. if is_os_error e then ret None else raise e)"

definition make_temp :: "'e file_steps \<Rightarrow> ('e publication, unit) py" where
  "make_temp steps = (thn (file_step (fs_mkstemp steps))
    (upd (\<lambda>s. s\<lparr>pb_temp := Some ([], 384)\<rparr>)))"

definition fill_temp :: "'e file_steps \<Rightarrow> string \<Rightarrow> ('e publication, unit) py" where
  "fill_temp steps body = (thn (file_step (fs_write steps body))
    (upd (\<lambda>s. s\<lparr>pb_temp := map_option (\<lambda>(t, m). (t @ body, m)) (pb_temp s)\<rparr>)))"

definition chmod_temp :: "'e file_steps \<Rightarrow> nat \<Rightarrow> ('e publication, unit) py" where
  "chmod_temp steps m = (thn (file_step (fs_chmod steps))
    (upd (\<lambda>s. s\<lparr>pb_temp := map_option (\<lambda>(t, _). (t, m)) (pb_temp s)\<rparr>)))"

definition renamed :: "('e publication, unit) py" where
  "renamed = upd (\<lambda>s. s\<lparr>pb_file := pb_temp s, pb_temp := None\<rparr>)"

definition replace_file :: "'e file_steps \<Rightarrow> ('e publication, unit) py" where
  "replace_file steps = catch_all (thn (file_step (fs_replace steps)) renamed)
     (\<lambda>e. (bnd (gets (\<lambda>s. \<not> is_exception e \<and> fs_replaced steps (pb_env s))) (\<lambda>moved.
       thn (whn moved renamed)
       (raise e))))"

definition unlink_temp :: "'e file_steps \<Rightarrow> ('e publication, unit) py" where
  "unlink_temp steps = (thn (file_step (fs_unlink steps))
    (upd (\<lambda>s. s\<lparr>pb_temp := None\<rparr>)))"

definition write_if_changed :: "'e file_steps \<Rightarrow> string list \<Rightarrow> ('e publication, bool) py" where
  "write_if_changed steps lines = (let body = file_body lines in
     (bnd (read_current steps) (\<lambda>current.
     if current = Some body then ret False
     else (thn (file_step (fs_makedirs steps))
      (thn (make_temp steps)
      (thn (catch_exn
        (thn (fill_temp steps body)
        (thn (chmod_temp steps 420)
        (replace_file steps)))
        (\<lambda>e. (thn (catch_exn (unlink_temp steps) (\<lambda>u. if is_os_error u then ret () else raise u))
          (raise e))))
      (ret True)))))))"

definition line_scope :: "string \<Rightarrow> string" where
  "line_scope l = takeWhile (\<lambda>c. c \<noteq> CHR ''.'') l"

definition scope_counts :: "string list \<Rightarrow> (string \<times> nat) list" where
  "scope_counts lines = fold (\<lambda>l d. dict_set (line_scope l)
     ((case dict_get d (line_scope l) of None \<Rightarrow> 0 | Some n \<Rightarrow> n) + 1) d) lines []"

record commit_result =
  cr_published :: bool
  cr_keys :: nat
  cr_scopes :: "(string \<times> nat) list"
  cr_problems :: "string list"

definition publish :: "'e file_steps \<Rightarrow> render_inputs \<Rightarrow> ('e publication, commit_result) py" where
  "publish steps i = (let (lines, problems) = render i in
     bnd (write_if_changed steps lines) (\<lambda>changed.
     ret \<lparr>cr_published = changed, cr_keys = length lines, cr_scopes = scope_counts lines, cr_problems = problems\<rparr>))"

section \<open>Every rendered entry is clean\<close>

definition clean_entry :: "string \<times> string \<Rightarrow> bool" where
  "clean_entry = (\<lambda>(k, v). \<not> secret_key k \<and> v \<noteq> [] \<and> one_line v \<and> strip v = v)"

definition clean_out :: "rendering \<Rightarrow> bool" where
  "clean_out r \<longleftrightarrow> dict_ok (rn_out r) \<and> list_all clean_entry (rn_out r)"

lemma clean_text_Some: "clean_text v = Inr (Some s) \<Longrightarrow> s = strip v \<and> s \<noteq> [] \<and> one_line s"
  by (auto simp: clean_text_def Let_def split: if_splits)

lemma clean_opt_Some: "clean_opt v = Inr (Some s) \<Longrightarrow> s \<noteq> [] \<and> one_line s \<and> strip s = s"
  by (auto simp: clean_opt_def split: option.splits dest!: clean_text_Some)

lemma all_dict_set: "list_all P d \<Longrightarrow> P (k, v) \<Longrightarrow> list_all P (dict_set k v d)"
  by (induction d) auto

lemma clean_emit [pres_intros]: "pres clean_out (emit key value)"
proof (rule presI)
  fix r :: rendering
  assume "clean_out r"
  then show "clean_out (snd (emit key value r))"
    by (auto simp: emit_def ret_def bnd_def lift_res_def upd_def clean_out_def clean_entry_def
        split: sum.split option.split intro!: all_dict_set dest!: clean_opt_Some)
qed

lemma clean_problem [pres_intros]: "pres clean_out (problem m)"
  unfolding problem_def by (rule pres_upd) (simp add: clean_out_def)

lemma clean_cell_emit [pres_intros]: "pres clean_out (emit_cell key c)"
  unfolding emit_cell_def by (rule clean_emit)

lemma clean_routes: "pres clean_out (render_routes src)"
  unfolding render_routes_def render_route_def render_copies_def Let_def by (intro pres_intros)

lemma clean_interfaces: "pres clean_out (render_interfaces src)"
  unfolding render_interfaces_def render_interface_node_def render_interface_def publish_mac_def Let_def by (intro pres_intros)

lemma clean_routers: "pres clean_out (render_routers src)"
  unfolding render_routers_def render_router_def Let_def by (intro pres_intros)

lemma clean_forwarding: "pres clean_out (render_forwarding src)"
  unfolding render_forwarding_def render_forwarding_key_def by (intro pres_intros)

lemma clean_platform: "pres clean_out (render_platform src)"
  unfolding render_platform_def by (intro pres_intros)

lemma clean_policy: "pres clean_out (render_policy src)"
  unfolding render_policy_def Let_def by (intro pres_intros)

lemma clean_vsys: "pres clean_out (render_vsys src)"
  unfolding render_vsys_def vsys_tenant_def render_tenant_def render_member_def Let_def by (intro pres_intros)

lemma clean_dlp [pres_intros]: "pres clean_out (render_dlp rows n s)"
proof (induction rows arbitrary: n s)
  case (Cons row rows)
  then show ?case
    by (cases row rule: prod_cases7) (simp only: render_dlp.simps Let_def, intro pres_intros Cons.IH)
qed (simp add: pres_ret)

lemma clean_engines: "pres clean_out (render_engines src)"
  unfolding render_engines_def dlp_summary_def by (intro pres_intros)

lemma clean_domain: "nf \<in> set RENDERERS \<Longrightarrow> pres clean_out (run_domain src nf)"
  unfolding RENDERERS_def run_domain_def
  by (auto intro!: pres_catch_exn clean_problem clean_routes clean_interfaces clean_routers clean_forwarding clean_platform
      clean_policy clean_vsys clean_engines)

lemma clean_domains: "clean_out (render_domains i)"
proof -
  obtain src problems where src: "sources_of i = (src, problems)" by fastforce
  have "clean_out \<lparr>rn_out = [], rn_problems = problems\<rparr>" by (simp add: clean_out_def)
  moreover have "pres clean_out (for_each RENDERERS (run_domain src))"
    by (rule pres_for_each) (rule clean_domain)
  ultimately show ?thesis
    by (simp add: render_domains_def src pres_snd)
qed

lemma update_get: "dict_ok e \<Longrightarrow> dict_get (dict_update d e) k = (case dict_get e k of Some v \<Rightarrow> Some v | None \<Rightarrow> dict_get d k)"
  unfolding dict_update_def
proof (induction e arbitrary: d)
  case (Cons kv e)
  obtain j v where kv: "kv = (j, v)" by fastforce
  have e: "dict_ok e" and j: "dict_get e j = None"
    using Cons.prems by (auto simp: dict_ok_def dict_get_None kv)
  have "dict_get (fold (\<lambda>(k, v). dict_set k v) (kv # e) d) k =
      (case dict_get e k of Some v \<Rightarrow> Some v | None \<Rightarrow> dict_get (dict_set j v d) k)"
    using Cons.IH [OF e, of "dict_set j v d"] by (simp add: kv)
  then show ?case
    using j by (auto simp: kv split: option.splits)
qed simp

lemma update_ok: "dict_ok d \<Longrightarrow> dict_ok (dict_update d e)"
  unfolding dict_update_def by (induction e arbitrary: d) (auto simp: split_beta)

lemma base_ok: "dict_ok (so_base (fst (sources_of i)))"
proof -
  have "dict_ok (fst (fold (local_line path) ls (b, ps)))" if "dict_ok b" for path ls and b :: "(string \<times> string) list" and ps
    using that by (induction ls arbitrary: b ps) (auto simp: local_line_def Let_def split_beta)
  from this [of "[]"] show ?thesis
    by (simp add: sources_of_def load_local_def Let_def split_beta)
qed

lemma sorted_dict:
  assumes "dict_ok d"
  shows "dict_ok (sort_key f d) \<and> dict_get (sort_key f d) k = dict_get d k"
proof -
  have ok: "dict_ok (sort_key f d)"
    using assms by (simp add: dict_ok_def distinct_map)
  have "dict_get (sort_key f d) k = Some v \<longleftrightarrow> dict_get d k = Some v" for v
    using dict_items_get [OF assms] dict_items_get [OF ok] by simp
  with ok show ?thesis by (cases "dict_get d k") (metis not_None_eq)+
qed

text \<open>
  C31.  What is published is the hand-written base with the rendered keys over it, one entry per
  key, in key order: a key the renderer derives has its derived value, every other key of the base
  keeps its own, whatever domains failed.  And no derived entry has a credential-shaped key, an
  empty value, or a line break in its value.  Nothing is said of line breaks in keys: the code checks
  values only, and an interface alias brings one into a key (\<open>alias_forges_key\<close> below).
\<close>

theorem rendered_config_sound:
  "\<exists>entries. fst (render i) = map (\<lambda>(k, v). k @ ''='' @ v) entries \<and> dict_ok entries \<and>
     sorted (map (\<lambda>(k, _). map of_char k :: nat list) entries) \<and>
     (\<forall>k. dict_get entries k = (case dict_get (rn_out (render_domains i)) k of
        Some v \<Rightarrow> Some v | None \<Rightarrow> dict_get (so_base (fst (sources_of i))) k)) \<and>
     list_all (\<lambda>(k, v). \<not> secret_key k \<and> v \<noteq> [] \<and> one_line v) (rn_out (render_domains i))"
proof -
  let ?out = "rn_out (render_domains i)" and ?base = "so_base (fst (sources_of i))"
  let ?entries = "sort_key (\<lambda>(k, _). map of_char k :: nat list) (dict_update ?base ?out)"
  have out: "dict_ok ?out" "list_all clean_entry ?out"
    using clean_domains [of i] by (simp_all add: clean_out_def)
  have "list_all (\<lambda>(k, v). \<not> secret_key k \<and> v \<noteq> [] \<and> one_line v) ?out"
    using out(2) by (auto simp: list_all_iff clean_entry_def)
  moreover have "fst (render i) = map (\<lambda>(k, v). k @ ''='' @ v) ?entries"
    by (simp add: render_def render_lines_def Let_def)
  moreover have "sorted (map (\<lambda>(k, _). map of_char k :: nat list) ?entries)"
    by (rule sorted_sort_key)
  moreover have "dict_ok ?entries \<and> dict_get ?entries k = dict_get (dict_update ?base ?out) k" for k
    by (rule sorted_dict [OF update_ok [OF base_ok]])
  ultimately show ?thesis
    by (intro exI [of _ ?entries] conjI allI) (simp_all add: update_get [OF out(1)])
qed

section \<open>The rules for the dataplane\<close>






















text \<open>The bound counts characters: sixty-three of two bytes each are published, and are 126 bytes.\<close>

lemma dlp_counts_characters:
  "dlp_fault ''r'' ''keyword'' ''alert'' ''any'' (replicate 63 (CHR 0xE9)) = None \<and>
   length (utf8 (replicate 63 (CHR 0xE9))) = 126"
  by code_simp

text \<open>An interface alias is part of a key: a line break in one, which only values are checked for, forges a key.\<close>

definition forged_tree :: xml where
  "forged_tree = Elem ''config'' [] None [
     Elem ''interface-alias'' [] None [Elem ''entry'' [(''name'', ''e1'')] None
       [Elem ''linux-name'' [] (Some (''eth0='' @ [CHR 0x0A] @ ''cp.admin=1'' @ [CHR 0x0A] @ ''x'')) []]],
     Elem ''network'' [] None [Elem ''interface'' [] None [Elem ''ethernet'' [] None [Elem ''entry'' [(''name'', ''e1'')] None []]]]]"

lemma alias_forges_key:
  "dict_get (rn_out (snd (render_interfaces \<lparr>so_db = None, so_root = Some forged_tree, so_portmap = [], so_base = [], so_chassis = False\<rparr>
     \<lparr>rn_out = [], rn_problems = []\<rparr>))) (''cp.iface.eth0='' @ [CHR 0x0A] @ ''cp.admin=1'' @ [CHR 0x0A] @ ''x.panos_name'') = Some ''e1''"
  by code_simp

section \<open>Publishing is atomic and quiet\<close>

text \<open>The text the publication can read, if any.\<close>

definition readable :: "'e file_steps \<Rightarrow> 'e publication \<Rightarrow> string option" where
  "readable steps s = (case fs_open steps (pb_env s) of (Inr _, _) \<Rightarrow> map_option fst (pb_file s) | _ \<Rightarrow> None)"

lemma file_step_wp:
  assumes "\<And>e. Q () (s\<lparr>pb_env := e\<rparr>)" and "\<And>x e. E x (s\<lparr>pb_env := e\<rparr>)"
  shows "wp (file_step m) Q E s"
  using assms by (auto simp: file_step_def wp_def zoom_def split: prod.split sum.split)

lemma read_current_wp:
  "wp (read_current steps) (\<lambda>c t. c = readable steps s \<and> (\<exists>e. t = s\<lparr>pb_env := e\<rparr>)) (\<lambda>_ t. \<exists>e. t = s\<lparr>pb_env := e\<rparr>) s"
  by (auto simp: read_current_def readable_def file_step_def wp_def zoom_def thn_def bnd_def gets_def catch_exn_def ret_def raise_def
      split: prod.split sum.split)

text \<open>What is written is the whole body under its mode, or nothing is.\<close>

lemma replace_wp:
  assumes "\<And>e. Q () (s\<lparr>pb_env := e, pb_file := pb_temp s, pb_temp := None\<rparr>)" and "\<And>x e. E x (s\<lparr>pb_env := e\<rparr>)"
    and "\<And>x e. \<not> is_exception x \<Longrightarrow> E x (s\<lparr>pb_env := e, pb_file := pb_temp s, pb_temp := None\<rparr>)"
  shows "wp (replace_file steps) Q E s"
  unfolding replace_file_def renamed_def by (auto simp: wp_simps assms intro!: file_step_wp)

lemma write_wp:
  "wp (write_if_changed steps lines)
     (\<lambda>changed t. changed = (readable steps s \<noteq> Some (file_body lines)) \<and>
        pb_file t = (if changed then Some (file_body lines, 420) else pb_file s))
     (\<lambda>e t. pb_file t = pb_file s \<or> \<not> is_exception e \<and> pb_file t = Some (file_body lines, 420)) s"
  unfolding write_if_changed_def Let_def
  by (rule wp_bndI [OF read_current_wp])
    (auto simp: wp_simps make_temp_def fill_temp_def chmod_temp_def unlink_temp_def intro!: file_step_wp replace_wp)

text \<open>
  C99.  Publishing is atomic and quiet: a publication that returns has left the file alone when the
  rendering was already in it, and otherwise put the whole rendering there, readable by all, and says
  which; one that raises leaves the file as it was, or, when an interrupt arrives out of the renaming
  itself, the whole rendering: never a part of it.
\<close>

theorem publish_atomic_quiet:
  "case publish steps i s of
     (Inl e, s') \<Rightarrow> pb_file s' = pb_file s \<or> \<not> is_exception e \<and> pb_file s' = Some (file_body (fst (render i)), 420)
   | (Inr result, s') \<Rightarrow> cr_published result = (readable steps s \<noteq> Some (file_body (fst (render i)))) \<and>
       pb_file s' = (if cr_published result then Some (file_body (fst (render i)), 420) else pb_file s) \<and>
       cr_problems result = snd (render i)"
proof -
  obtain lines problems where r: "render i = (lines, problems)" by fastforce
  show ?thesis
    using write_wp [of steps lines s] by (auto simp: publish_def r bnd_def ret_def wp_def split: prod.splits sum.splits)
qed

end
