(* ===== verification/IfRoles.thy ===== *)
theory IfRoles
  imports PyText PyVal
begin

text \<open>
  Which interfaces are control plane and which are data plane, \<open>ffn_ifroles.py\<close>.  What the code
  reads of sysfs and of the operator's file is a record.  The classification recurses over the devices
  a VXLAN interface is stacked on; how many nested classifications the interpreter admits before it
  raises \<open>RecursionError\<close> is a parameter.
\<close>

section \<open>The host\<close>

text \<open>
  The path a device link resolves to, the lines of a \<open>uevent\<close> file, the entries of a device's
  directory (each \<open>None\<close> on an \<open>OSError\<close>), and the operator's file (empty when it cannot be read),
  which holds texts as its documentation shows.
\<close>

record host =
  ho_device :: "string \<Rightarrow> string option"
  ho_uevent :: "string \<Rightarrow> string list option"
  ho_entries :: "string \<Rightarrow> string list option"
  ho_control_pci :: "(string \<times> string list) list"
  ho_data_netdevs :: "string list"

definition CONTROL_PLANE_PCI :: "(string \<times> string list) list" where
  "CONTROL_PLANE_PCI = [
     (''0000:0f:00.0'', [''MGT'', ''management'']),
     (''0000:10:00.0'', [''HA1-A'', ''ha'']),
     (''0000:11:00.0'', [''HA1-B'', ''ha'']),
     (''0000:0b:00.0'', [''AUX-1'', ''aux'']),
     (''0000:0b:00.1'', [''AUX-2'', ''aux'']),
     (''0000:08:00.0'', [''BP-0'', ''internal'']),
     (''0000:08:00.1'', [''BP-1'', ''internal''])]"

definition VIRTUAL_PREFIXES :: "string list" where
  "VIRTUAL_PREFIXES = [''lo'', ''zt'', ''docker'', ''veth'', ''br-'', ''virbr'', ''tun'', ''tap'',
     ''wg'', ''tmfifo_net'', ''rshim'', ''dummy'', ''bond'', ''ovs-'']"

definition base_name :: "string \<Rightarrow> string" where
  "base_name p = rev (takeWhile (\<lambda>c. c \<noteq> CHR ''/'') (rev p))"

definition pci_of :: "host \<Rightarrow> string \<Rightarrow> string option" where
  "pci_of H netdev = (case ho_device H netdev of None \<Rightarrow> None
     | Some p \<Rightarrow> if count_list (base_name p) (CHR '':'') = 2 then Some (base_name p) else None)"

definition devtype :: "host \<Rightarrow> string \<Rightarrow> string option" where
  "devtype H netdev = (case ho_uevent H netdev of None \<Rightarrow> None
     | Some ls \<Rightarrow> (case find (starts_with ''DEVTYPE='') ls of None \<Rightarrow> None
        | Some l \<Rightarrow> let v = snd (split_first (CHR ''='') (strip l)) in if v = [] then None else Some v))"

definition underlay_of :: "host \<Rightarrow> string \<Rightarrow> string option" where
  "underlay_of H netdev = (case ho_entries H netdev of None \<Rightarrow> None
     | Some es \<Rightarrow> map_option (drop (length ''lower_'')) (find (starts_with ''lower_'') es))"

section \<open>Classification\<close>

record role_info =
  ri_role :: string
  ri_label :: string
  ri_class :: string
  ri_control :: bool
  ri_pci :: "string option"
  ri_devtype :: "string option"
  ri_underlay :: "string option"
  ri_violation :: "string option"

definition plain_info :: "string \<Rightarrow> string \<Rightarrow> string \<Rightarrow> bool \<Rightarrow> string option \<Rightarrow> role_info" where
  "plain_info role label klass control pci = \<lparr>ri_role = role, ri_label = label, ri_class = klass, ri_control = control, ri_pci = pci,
     ri_devtype = None, ri_underlay = None, ri_violation = None\<rparr>"

definition control_map :: "host \<Rightarrow> (string \<times> string list) list" where
  "control_map H = fold (\<lambda>(k, v). dict_set k v) (ho_control_pci H) CONTROL_PLANE_PCI"

text \<open>An interface that is neither declared nor a VXLAN.\<close>

definition classify_plain :: "host \<Rightarrow> string \<Rightarrow> exn + role_info" where
  "classify_plain H netdev = (let pci = pci_of H netdev in
     case (case pci of None \<Rightarrow> None | Some p \<Rightarrow> dict_get (control_map H) p) of
       Some entry \<Rightarrow> (case entry of
           [label, klass] \<Rightarrow> Inr (plain_info klass label klass True pci)
         | _ \<Rightarrow> Inl (ValueError ''values to unpack''))
     | None \<Rightarrow>
         if list_ex (\<lambda>p. starts_with p netdev) VIRTUAL_PREFIXES \<or> pci = None
         then Inr (plain_info ''virtual'' netdev ''virtual'' True pci)
         else Inr (plain_info ''unknown'' netdev ''unclassified'' True pci))"

definition vxlan_info :: "host \<Rightarrow> string \<Rightarrow> string option \<Rightarrow> bool \<Rightarrow> role_info" where
  "vxlan_info H netdev below over_control = \<lparr>ri_role = ''vxlan'', ri_label = netdev,
     ri_class = (if over_control then ''unclassified'' else ''dataplane''), ri_control = over_control, ri_pci = pci_of H netdev,
     ri_devtype = devtype H netdev, ri_underlay = below,
     ri_violation = (if over_control then Some ''vxlan-on-control-plane-underlay'' else None)\<rparr>"

definition is_vxlan :: "host \<Rightarrow> string \<Rightarrow> bool" where
  "is_vxlan H netdev \<longleftrightarrow> devtype H netdev = Some ''vxlan''"

text \<open>The device a VXLAN interface is judged by; an empty name counts as none.\<close>

definition judged_by :: "host \<Rightarrow> string \<Rightarrow> string option" where
  "judged_by H netdev = (case underlay_of H netdev of None \<Rightarrow> None | Some u \<Rightarrow> if u = [] then None else Some u)"

definition out_of_stack :: exn where
  "out_of_stack = RuntimeError ''maximum recursion depth exceeded''"

fun classify :: "host \<Rightarrow> nat \<Rightarrow> string \<Rightarrow> exn + role_info" where
  "classify H 0 netdev = Inl out_of_stack"
| "classify H (Suc k) netdev =
     (if netdev \<in> set (ho_data_netdevs H) then Inr (plain_info ''data'' netdev ''dataplane'' False (pci_of H netdev))
      else if is_vxlan H netdev then (case judged_by H netdev of
          None \<Rightarrow> Inr (vxlan_info H netdev (underlay_of H netdev) False)
        | Some u \<Rightarrow> (rbnd (classify H k u) (\<lambda>i.
            Inr (vxlan_info H netdev (underlay_of H netdev) (ri_control i)))))
      else classify_plain H netdev)"

definition is_control_plane :: "host \<Rightarrow> nat \<Rightarrow> string \<Rightarrow> exn + bool" where
  "is_control_plane H k netdev = (rbnd (classify H k netdev) (\<lambda>i.
    Inr (ri_control i)))"

section \<open>Interface lists\<close>

definition opt_value :: "string option \<Rightarrow> pyval" where
  "opt_value v = (case v of None \<Rightarrow> PNone | Some s \<Rightarrow> PStr s)"

definition set_default :: "string \<Rightarrow> pyval \<Rightarrow> (string \<times> pyval) list \<Rightarrow> (string \<times> pyval) list" where
  "set_default k v d = (if dict_get d k = None then dict_set k v d else d)"

definition field :: "(string \<times> pyval) list \<Rightarrow> string \<Rightarrow> pyval" where
  "field d k = (case dict_get d k of None \<Rightarrow> PNone | Some v \<Rightarrow> v)"

text \<open>Interfaces are dictionaries whose \<open>name\<close>, if any, is text.\<close>

definition name_of :: "(string \<times> pyval) list \<Rightarrow> string" where
  "name_of d = (case dict_get d ''name'' of Some (PStr s) \<Rightarrow> s | _ \<Rightarrow> [])"

definition annotate_one :: "host \<Rightarrow> nat \<Rightarrow> (string \<times> pyval) list \<Rightarrow> exn + (string \<times> pyval) list" where
  "annotate_one H k d =
     (if field d ''type'' = PStr ''octeon'' then Inr (set_default ''label'' (field d ''name'') (set_default ''control_plane'' (PBool False) d))
      else (rbnd (classify H k (name_of d)) (\<lambda>info. Inr (dict_set ''pci'' (opt_value (ri_pci info))
        (dict_set ''control_plane'' (PBool (ri_control info)) (dict_set ''role_class'' (PStr (ri_class info))
        (dict_set ''role_label'' (PStr (ri_label info)) d)))))))"

definition annotate :: "host \<Rightarrow> nat \<Rightarrow> (string \<times> pyval) list list \<Rightarrow> exn + (string \<times> pyval) list list" where
  "annotate H k ifaces = rcollect ifaces (annotate_one H k)"

definition split_planes :: "host \<Rightarrow> nat \<Rightarrow> (string \<times> pyval) list list \<Rightarrow>
    exn + (string \<times> pyval) list list \<times> (string \<times> pyval) list list" where
  "split_planes H k ifaces = (rbnd (annotate H k ifaces) (\<lambda>ann.
     Inr (filter (\<lambda>d. \<not> truthy (field d ''control_plane'')) ann, filter (\<lambda>d. truthy (field d ''control_plane'')) ann)))"

definition vxlan_violations :: "host \<Rightarrow> nat \<Rightarrow> string list \<Rightarrow> exn + (string \<times> string option) list" where
  "vxlan_violations H k netdevs = (rbnd (rcollect netdevs (classify H k)) (\<lambda>infos.
     Inr (map (\<lambda>(n, i). (n, ri_underlay i)) (filter (\<lambda>(n, i). ri_violation i = Some ''vxlan-on-control-plane-underlay'') (zip netdevs infos)))))"

section \<open>What sysfs says\<close>

text \<open>
  The first \<open>lower_\<close> link of a device's directory names the device it rests on; a VXLAN device is one
  whose \<open>uevent\<close> file has \<open>DEVTYPE=vxlan\<close> as its first line of that kind, up to white space.
\<close>

definition rests_on :: "host \<Rightarrow> string \<Rightarrow> string \<Rightarrow> bool" where
  "rests_on H netdev u \<longleftrightarrow> (\<exists>before after. ho_entries H netdev = Some (before @ (''lower_'' @ u) # after) \<and> (\<forall>w. ''lower_'' @ w \<notin> set before))"

definition vxlan_device :: "host \<Rightarrow> string \<Rightarrow> bool" where
  "vxlan_device H netdev \<longleftrightarrow> (\<exists>before blanks after. ho_uevent H netdev = Some (before @ (''DEVTYPE=vxlan'' @ blanks) # after) \<and>
     list_all py_space blanks \<and> (\<forall>w. ''DEVTYPE='' @ w \<notin> set before))"

text \<open>An undeclared VXLAN device over a device, and over none.\<close>

definition below :: "host \<Rightarrow> string \<Rightarrow> string \<Rightarrow> bool" where
  "below H netdev u \<longleftrightarrow> netdev \<notin> set (ho_data_netdevs H) \<and> vxlan_device H netdev \<and> rests_on H netdev u \<and> u \<noteq> []"

definition dangling :: "host \<Rightarrow> string \<Rightarrow> bool" where
  "dangling H netdev \<longleftrightarrow> netdev \<notin> set (ho_data_netdevs H) \<and> vxlan_device H netdev \<and> \<not> (\<exists>u. u \<noteq> [] \<and> rests_on H netdev u)"

lemma starts_iff: "starts_with p s \<longleftrightarrow> (\<exists>w. s = p @ w)"
  by (auto simp: starts_with_def) (metis append_take_drop_id)

lemma find_first: "find P xs = Some x \<longleftrightarrow> (\<exists>ys zs. xs = ys @ x # zs \<and> P x \<and> (\<forall>y\<in>set ys. \<not> P y))"
proof (induction xs)
  case (Cons a xs)
  show ?case
  proof (cases "P a")
    case False
    then have "(\<exists>ys zs. a # xs = ys @ x # zs \<and> P x \<and> (\<forall>y\<in>set ys. \<not> P y)) \<longleftrightarrow> (\<exists>ys zs. xs = ys @ x # zs \<and> P x \<and> (\<forall>y\<in>set ys. \<not> P y))"
      by (auto simp: Cons_eq_append_conv) (metis set_ConsD)
    then show ?thesis using False Cons.IH by simp
  qed (auto simp: Cons_eq_append_conv)
qed simp

lemma find_prefixed:
  "find (starts_with p) xs = Some x \<longleftrightarrow> (\<exists>ys w zs. x = p @ w \<and> xs = ys @ (p @ w) # zs \<and> (\<forall>v. p @ v \<notin> set ys))"
  unfolding find_first starts_iff by metis

lemma prefixed_value:
  "map_option (drop (length p)) (find (starts_with p) xs) = Some u \<longleftrightarrow> (\<exists>ys zs. xs = ys @ (p @ u) # zs \<and> (\<forall>v. p @ v \<notin> set ys))"
  by (simp add: find_prefixed) (metis append_eq_conv_conj)

lemma underlay_rests: "underlay_of H netdev = Some u \<longleftrightarrow> rests_on H netdev u"
  by (cases "ho_entries H netdev") (simp_all only: underlay_of_def rests_on_def option.case prefixed_value option.inject option.distinct simp_thms)

lemma strip_devtype: "strip (''DEVTYPE='' @ r) = ''DEVTYPE='' @ rev (dropWhile py_space (rev r))"
proof -
  have "dropWhile py_space (''DEVTYPE='' @ r) = ''DEVTYPE='' @ r" by (simp add: py_space_def)
  moreover have "dropWhile py_space (rev r @ rev ''DEVTYPE='') = dropWhile py_space (rev r) @ rev ''DEVTYPE=''"
    by (cases "\<forall>c\<in>set r. py_space c") (auto simp: dropWhile_append py_space_def)
  ultimately show ?thesis by (simp only: strip_def rev_append rev_rev_ident)
qed

lemma devtype_value: "snd (split_first (CHR ''='') (''DEVTYPE='' @ v)) = v"
  by (simp add: split_first_def)

lemma rstrip_iff:
  assumes "v \<noteq> []" "\<not> P (last v)"
  shows "rev (dropWhile P (rev r)) = v \<longleftrightarrow> (\<exists>blanks. r = v @ blanks \<and> list_all P blanks)"
proof
  assume v: "rev (dropWhile P (rev r)) = v"
  have "rev r = takeWhile P (rev r) @ dropWhile P (rev r)" by simp
  then have "r = v @ rev (takeWhile P (rev r))" using v by (metis rev_append rev_rev_ident)
  moreover have "list_all P (rev (takeWhile P (rev r)))" by (auto simp: list_all_iff dest: set_takeWhileD)
  ultimately show "\<exists>blanks. r = v @ blanks \<and> list_all P blanks" by blast
next
  assume "\<exists>blanks. r = v @ blanks \<and> list_all P blanks"
  then obtain blanks where r: "r = v @ blanks" and b: "list_all P blanks" by blast
  have "dropWhile P (rev blanks @ rev v) = dropWhile P (rev v)" using b by (auto simp: list_all_iff intro: dropWhile_append2)
  also have "\<dots> = rev v" using assms by (intro dropWhile_keep) (simp add: hd_rev)
  finally show "rev (dropWhile P (rev r)) = v" by (simp add: r)
qed

lemma device_line:
  assumes "ho_uevent H netdev = Some ls"
  shows "vxlan_device H netdev \<longleftrightarrow> (\<exists>blanks. find (starts_with ''DEVTYPE='') ls = Some (''DEVTYPE='' @ ''vxlan'' @ blanks) \<and> list_all py_space blanks)"
  unfolding vxlan_device_def find_prefixed assms same_append_eq option.inject by auto

lemma vxlan_iff: "is_vxlan H netdev \<longleftrightarrow> vxlan_device H netdev"
proof (cases "ho_uevent H netdev")
  case None
  then show ?thesis by (simp add: is_vxlan_def devtype_def vxlan_device_def)
next
  case (Some ls)
  show ?thesis
  proof (cases "find (starts_with ''DEVTYPE='') ls")
    case None
    then show ?thesis using Some by (simp add: is_vxlan_def devtype_def device_line)
  next
    case l: (Some l)
    then obtain w where w: "l = ''DEVTYPE='' @ w" unfolding find_prefixed by blast
    define v where "v = rev (dropWhile py_space (rev w))"
    have "devtype H netdev = (if v = [] then None else Some v)"
      unfolding devtype_def Some l option.case w strip_devtype devtype_value Let_def v_def ..
    then have "is_vxlan H netdev \<longleftrightarrow> rev (dropWhile py_space (rev w)) = ''vxlan''"
      unfolding is_vxlan_def v_def [symmetric] by auto
    also have "\<dots> \<longleftrightarrow> (\<exists>blanks. w = ''vxlan'' @ blanks \<and> list_all py_space blanks)" by (rule rstrip_iff) (simp_all add: py_space_def)
    also have "\<dots> \<longleftrightarrow> vxlan_device H netdev" unfolding device_line [OF Some] l w option.inject same_append_eq ..
    finally show ?thesis .
  qed
qed

section \<open>How far a classification recurses\<close>

lemma judged_rests: "judged_by H netdev = Some u \<longleftrightarrow> rests_on H netdev u \<and> u \<noteq> []"
  by (auto simp: judged_by_def underlay_rests [symmetric] split: option.split)

lemma judged_none: "judged_by H netdev = None \<longleftrightarrow> \<not> (\<exists>u. u \<noteq> [] \<and> rests_on H netdev u)"
  using judged_rests [of H netdev] by (cases "judged_by H netdev") auto

lemma plain_answers: "classify_plain H netdev \<noteq> Inl out_of_stack"
  by (auto simp: classify_plain_def out_of_stack_def Let_def split: option.splits list.splits)

lemma plain_control: "classify_plain H netdev = Inr i \<Longrightarrow> ri_control i \<and> ri_violation i = None"
  by (auto simp: classify_plain_def Let_def plain_info_def split: option.splits list.splits if_splits)

lemma below_unique: "below H netdev u \<Longrightarrow> below H netdev w \<Longrightarrow> u = w"
  by (auto simp: below_def judged_rests [symmetric])

text \<open>One classification: over another device, or by itself.\<close>

lemma classify_over: "below H netdev u \<Longrightarrow>
    classify H (Suc k) netdev = rbnd (classify H k u) (\<lambda>i. Inr (vxlan_info H netdev (underlay_of H netdev) (ri_control i)))"
  using judged_rests [of H netdev u] by (auto simp: below_def vxlan_iff)

lemma classify_alone:
  assumes "\<And>u. \<not> below H netdev u"
  shows "classify H (Suc k) netdev \<noteq> Inl out_of_stack"
    and "(\<exists>i. classify H (Suc k) netdev = Inr i \<and> \<not> ri_control i) \<longleftrightarrow> netdev \<in> set (ho_data_netdevs H) \<or> dangling H netdev"
proof -
  show "classify H (Suc k) netdev \<noteq> Inl out_of_stack"
    using assms plain_answers [of H netdev] judged_rests [of H netdev] by (auto simp: below_def vxlan_iff split: option.split)
  show "(\<exists>i. classify H (Suc k) netdev = Inr i \<and> \<not> ri_control i) \<longleftrightarrow> netdev \<in> set (ho_data_netdevs H) \<or> dangling H netdev"
    using assms judged_none [of H netdev]
    by (auto simp: below_def dangling_def vxlan_iff plain_info_def vxlan_info_def dest: plain_control split: option.split)
qed

declare classify.simps [simp del]

lemma chain_first: "(R ^^ Suc k) a b \<longleftrightarrow> (\<exists>x. R a x \<and> (R ^^ k) x b)"
  by (metis relpowp_Suc_I2 relpowp_Suc_D2)

lemma chain_split:
  "(\<exists>m u. m < Suc k \<and> (R ^^ m) a u \<and> P u) \<longleftrightarrow> P a \<or> (\<exists>x. R a x \<and> (\<exists>m u. m < k \<and> (R ^^ m) x u \<and> P u))"
proof
  assume "\<exists>m u. m < Suc k \<and> (R ^^ m) a u \<and> P u"
  then obtain m u where m: "m < Suc k" "(R ^^ m) a u" "P u" by blast
  show "P a \<or> (\<exists>x. R a x \<and> (\<exists>m u. m < k \<and> (R ^^ m) x u \<and> P u))"
  proof (cases m)
    case 0
    then show ?thesis using m by simp
  next
    case (Suc j)
    then have "j < k" using m(1) by simp
    moreover obtain x where "R a x" "(R ^^ j) x u" using m(2) unfolding Suc chain_first by blast
    ultimately show ?thesis using m(3) by blast
  qed
next
  assume "P a \<or> (\<exists>x. R a x \<and> (\<exists>m u. m < k \<and> (R ^^ m) x u \<and> P u))"
  then show "\<exists>m u. m < Suc k \<and> (R ^^ m) a u \<and> P u"
  proof
    assume "P a"
    then show ?thesis by (intro exI [of _ 0] exI [of _ a]) simp
  next
    assume "\<exists>x. R a x \<and> (\<exists>m u. m < k \<and> (R ^^ m) x u \<and> P u)"
    then obtain x m u where "R a x" "m < k" "(R ^^ m) x u" "P u" by blast
    then show ?thesis by (intro exI [of _ "Suc m"] exI [of _ u]) (simp only: Suc_less_eq chain_first, blast)
  qed
qed





section \<open>What counts as data plane\<close>

text \<open>
  C37.  An interface is given to the data plane exactly when the stack of VXLAN devices it stands on
  ends, within the interpreter's budget, in an interface the operator declared, or in a VXLAN device
  that rests on none.  The second case is the code's and not its comment's, which wants a VXLAN on the
  data plane only if its underlay is.  Everything else is control plane or not classified at all.
\<close>

theorem classify_data_plane:
  "(\<exists>i. classify H k netdev = Inr i \<and> \<not> ri_control i) \<longleftrightarrow>
   (\<exists>m u. m < k \<and> (below H ^^ m) netdev u \<and> (u \<in> set (ho_data_netdevs H) \<or> dangling H u))"
proof (induction k arbitrary: netdev)
  case (Suc k)
  let ?stop = "\<lambda>u. u \<in> set (ho_data_netdevs H) \<or> dangling H u"
  note split = chain_split [of k "below H" netdev ?stop]
  show ?case
  proof (cases "\<exists>u. below H netdev u")
    case True
    then obtain u where u: "below H netdev u" by blast
    then have "\<not> ?stop netdev" by (auto simp: below_def dangling_def)
    then have "(\<exists>m u. m < Suc k \<and> (below H ^^ m) netdev u \<and> ?stop u) \<longleftrightarrow> (\<exists>m w. m < k \<and> (below H ^^ m) u w \<and> ?stop w)"
      using split u below_unique by blast
    moreover have "(\<exists>i. classify H (Suc k) netdev = Inr i \<and> \<not> ri_control i) \<longleftrightarrow> (\<exists>i. classify H k u = Inr i \<and> \<not> ri_control i)"
      by (cases "classify H k u") (simp_all add: classify_over [OF u] vxlan_info_def)
    ultimately show ?thesis using Suc.IH [of u] by blast
  next
    case False
    then show ?thesis using split classify_alone(2) [of H netdev k] by blast
  qed
qed (simp add: classify.simps out_of_stack_def)

text \<open>The case the comment leaves out.\<close>

lemma dangling_is_data: "dangling H netdev \<Longrightarrow> \<exists>i. classify H (Suc k) netdev = Inr i \<and> \<not> ri_control i"
proof -
  assume d: "dangling H netdev"
  then have "\<not> below H netdev u" for u by (auto simp: dangling_def below_def)
  from classify_alone(2) [OF this] d show ?thesis by blast
qed

section \<open>The lists of the two planes\<close>

lemma set_default_get: "dict_get (set_default k v d) j = (if j = k \<and> dict_get d k = None then Some v else dict_get d j)"
  by (simp add: set_default_def)

lemma annotated_one:
  assumes "annotate_one H k d = Inr d'" and "\<not> truthy (field d' ''control_plane'')"
  shows "field d' ''type'' = PStr ''octeon'' \<or> (\<exists>i. classify H k (name_of d') = Inr i \<and> \<not> ri_control i)"
  using assms by (auto simp: annotate_one_def field_def name_of_def set_default_get rbnd_Inr_iff split: if_splits)

text \<open>
  Splitting a list of interfaces loses and invents none, and whatever ends on the data-plane side is a
  port of the dataplane's own table or an interface classified as data plane.
\<close>

lemma split_planes_sound:
  assumes "split_planes H k ifaces = Inr (data, control)"
  shows "length data + length control = length ifaces"
    and "list_all (\<lambda>d. field d ''type'' = PStr ''octeon'' \<or> (\<exists>i. classify H k (name_of d) = Inr i \<and> \<not> ri_control i)) data"
proof -
  from assms obtain ann where ann: "list_all2 (\<lambda>d d'. annotate_one H k d = Inr d') ifaces ann"
    and data: "data = filter (\<lambda>d. \<not> truthy (field d ''control_plane'')) ann" and control: "control = filter (\<lambda>d. truthy (field d ''control_plane'')) ann"
    by (auto simp: split_planes_def annotate_def rbnd_Inr_iff rcollect_Inr_iff)
  show "length data + length control = length ifaces"
    using sum_length_filter_compl [of "\<lambda>d. truthy (field d ''control_plane'')" ann] list_all2_lengthD [OF ann] by (simp add: data control)
  show "list_all (\<lambda>d. field d ''type'' = PStr ''octeon'' \<or> (\<exists>i. classify H k (name_of d) = Inr i \<and> \<not> ri_control i)) data"
  proof -
    have "\<exists>d. annotate_one H k d = Inr d'" if "d' \<in> set ann" for d'
      using ann that by (induction rule: list_all2_induct) auto
    then have "field d' ''type'' = PStr ''octeon'' \<or> (\<exists>i. classify H k (name_of d') = Inr i \<and> \<not> ri_control i)" if "d' \<in> set data" for d'
      using that annotated_one [of H k _ d'] unfolding data by auto
    then show ?thesis unfolding list_all_iff by blast
  qed
qed

section \<open>A concrete host\<close>




end
