(* ===== verification/ChassisLed.thy ===== *)
theory ChassisLed
  imports PyVal Octets
begin

unbundle bit_operations_syntax

text \<open>
  The chassis LEDs and the power-supply readings behind the control-plane CPLD,
  \<open>octeon/debian/ffn_chassis_led.py\<close>.  The registers are state; what a write leaves in one is
  decided by the hardware, a parameter.  The lock and the mappings that lead to them are effects,
  which may raise; giving them up again is taken to succeed.
\<close>

section \<open>Registers\<close>

record 'e board =
  bd_env :: 'e
  bd_csr :: "nat \<Rightarrow> 8 word"
  bd_boot :: "64 word"

text \<open>What a write to a register of an old value leaves in it.\<close>

type_synonym latch = "nat \<Rightarrow> 8 word \<Rightarrow> 8 word \<Rightarrow> 8 word"

record 'e board_world =
  bw_latch :: latch
  bw_open :: "('e, unit) py"
  bw_flock :: "('e, unit) py"
  bw_memory :: "('e, unit) py"
  bw_map :: "nat \<Rightarrow> ('e, unit) py"

definition bd_io :: "('e, 'a) py \<Rightarrow> (('e, 'z) board_scheme, 'a) py" where
  "bd_io = zoom bd_env (\<lambda>e s. s\<lparr>bd_env := e\<rparr>)"

definition csr_read :: "nat \<Rightarrow> (('e, 'z) board_scheme, 8 word) py" where
  "csr_read r = gets (\<lambda>s. bd_csr s r)"

definition csr_write :: "latch \<Rightarrow> nat \<Rightarrow> 8 word \<Rightarrow> (('e, 'z) board_scheme, unit) py" where
  "csr_write latch r v = upd (\<lambda>s. s\<lparr>bd_csr := (bd_csr s)(r := latch r (bd_csr s r) v)\<rparr>)"

definition cpld_base :: "64 word \<Rightarrow> nat" where
  "cpld_base w = push_bit 16 (unat (w AND 0xffff))"

definition FIELDS :: "(string \<times> nat \<times> nat) list" where
  "FIELDS = [(''ps1'', 6, 6), (''ps0'', 6, 4), (''fans'', 6, 2), (''temp'', 6, 0), (''status'', 7, 4), (''alarm'', 7, 2), (''ha'', 7, 0)]"

definition COLORS :: "(string \<times> 8 word) list" where
  "COLORS = [(''off'', 0), (''green'', 1), (''yellow'', 2)]"

section \<open>Power supplies\<close>

record power_supply =
  su_name :: string
  su_led :: string
  su_present :: bool
  su_good :: bool
  su_state :: string

text \<open>Presence is active low; any asserted bit of the good mask counts.\<close>

definition decode_supply :: "8 word \<Rightarrow> string \<Rightarrow> string \<Rightarrow> 8 word \<Rightarrow> 8 word \<Rightarrow> power_supply" where
  "decode_supply csr name led absent_mask good_mask = (let present = (csr AND absent_mask = 0);
       good = (present \<and> csr AND good_mask \<noteq> 0) in
     \<lparr>su_name = name, su_led = led, su_present = present, su_good = good,
      su_state = (if \<not> present then ''absent'' else if good then ''good'' else ''fault'')\<rparr>)"

definition decode_power :: "8 word \<Rightarrow> power_supply list" where
  "decode_power csr = [decode_supply csr ''left'' ''ps0'' 2 0x30, decode_supply csr ''right'' ''ps1'' 1 0x0c]"

section \<open>Access\<close>

record chassis =
  ch_csr6 :: "8 word"
  ch_csr7 :: "8 word"
  ch_power :: "8 word"
  ch_supplies :: "power_supply list"
  ch_leds :: "(string \<times> string) list"

definition led_field :: "nat \<Rightarrow> 8 word \<Rightarrow> 8 word" where
  "led_field shift w = drop_bit shift w AND 3"

definition led_set :: "nat \<Rightarrow> 8 word \<Rightarrow> 8 word \<Rightarrow> 8 word" where
  "led_set shift color w = (w AND NOT (push_bit shift 3)) OR push_bit shift color"

definition color_name :: "8 word \<Rightarrow> string" where
  "color_name w = (case find (\<lambda>(_, v). v = w) COLORS of None \<Rightarrow> ''reserved'' | Some (n, _) \<Rightarrow> n)"

definition update_led :: "latch \<Rightarrow> string \<times> string \<Rightarrow> (('e, 'z) board_scheme, unit) py" where
  "update_led latch = (\<lambda>(name, color). (case (dict_get FIELDS name, dict_get COLORS color) of
       (Some (reg, shift), Some c) \<Rightarrow> (bnd (csr_read reg) (\<lambda>old.
         let expected = led_set shift c old in
         thn (csr_write latch reg expected)
         (bnd (csr_read reg) (\<lambda>actual.
         ensure (actual = expected) (RuntimeError ''LED register readback failed'')))))
     | _ \<Rightarrow> raise (KeyError name)))"

text \<open>Both tools take the lock, open the memory and map first the boot-bus configuration, then the CPLD.\<close>

definition open_memory :: "'e board_world \<Rightarrow> (('e, 'z) board_scheme, unit) py" where
  "open_memory W = (thn (bd_io (bw_open W))
    (thn (bd_io (bw_flock W))
    (bd_io (bw_memory W))))"

definition boot_config :: nat where
  "boot_config = 0x1180000000000"

definition check_cpld :: "'e board_world \<Rightarrow> (('e, 'z) board_scheme, unit) py" where
  "check_cpld W = (thn (bd_io (bw_map W boot_config))
    (bnd (gets bd_boot) (\<lambda>boot.
    thn (ensure (cpld_base boot = 0x1b040000) (RuntimeError ''unrecognized CP CPLD mapping''))
    (thn (bd_io (bw_map W (cpld_base boot)))
    (bnd (csr_read 0) (\<lambda>version.
    ensure (version = 0x13) (RuntimeError ''unrecognized CP CPLD version'')))))))"

definition chassis_of :: "('e, 'z) board_scheme \<Rightarrow> chassis" where
  "chassis_of s = \<lparr>ch_csr6 = bd_csr s 6, ch_csr7 = bd_csr s 7, ch_power = bd_csr s 0x0a, ch_supplies = decode_power (bd_csr s 0x0a),
     ch_leds = map (\<lambda>(name, reg, shift). (name, color_name (led_field shift (bd_csr s reg)))) FIELDS\<rparr>"

definition chassis_access :: "'e board_world \<Rightarrow> (string \<times> string) list \<Rightarrow> (('e, 'z) board_scheme, chassis) py" where
  "chassis_access W updates = (thn (ensure (list_all (\<lambda>(name, color). dict_get FIELDS name \<noteq> None \<and> dict_get COLORS color \<noteq> None) updates) (ValueError ''invalid LED or color''))
    (thn (open_memory W)
    (thn (check_cpld W)
    (thn (for_each updates (update_led (bw_latch W)))
    (gets chassis_of)))))"

section \<open>What an update changes\<close>

lemma small_bits:
  "bit (3 :: 8 word) n \<longleftrightarrow> n = 0 \<or> n = 1" "bit (2 :: 8 word) n \<longleftrightarrow> n = 1" "bit (1 :: 8 word) n \<longleftrightarrow> n = 0" "\<not> bit (0 :: 8 word) n"
proof -
  show "bit (3 :: 8 word) n \<longleftrightarrow> n = 0 \<or> n = 1"
    by (cases n; cases "n - 1") (simp_all add: numeral_3_eq_3 bit_Suc bit_0)
  show "bit (2 :: 8 word) n \<longleftrightarrow> n = 1"
    by (cases n; cases "n - 1") (simp_all add: bit_Suc bit_0)
qed (auto simp: bit_1_iff)

lemma low_bits: "bit (3 :: int) n \<longleftrightarrow> n < 2"
  by (cases n; cases "n - 1") (simp_all add: numeral_3_eq_3 bit_Suc bit_0)

lemma field_bits:
  "n < 8 \<Longrightarrow> bit (led_field t w) n \<longleftrightarrow> n < 2 \<and> bit w (t + n)"
  by (auto simp: led_field_def bit_and_iff bit_drop_bit_eq low_bits)

lemma set_bits:
  assumes "n < 8" and "\<And>m. bit c m \<Longrightarrow> m < 2"
  shows "bit (led_set s c w) n \<longleftrightarrow> (if s \<le> n \<and> n < s + 2 then bit c (n - s) else bit w n)"
  using assms(1) by (auto simp: led_set_def bit_or_iff bit_and_iff bit_not_iff_eq bit_push_bit_iff low_bits dest: assms(2))

lemma color_bits: "c \<in> {0, 1, 2 :: 8 word} \<Longrightarrow> bit c m \<Longrightarrow> m < 2"
  by (elim insertE) (simp_all only: small_bits, auto)

lemma field_set:
  assumes "s \<in> {0, 2, 4, 6}" and "t \<in> {0, 2, 4, 6}" and "c \<in> {0, 1, 2 :: 8 word}"
  shows "led_field t (led_set s c w) = (if t = s then c else led_field t w)"
proof (rule bit_eqI)
  fix n
  assume "possible_bit TYPE(8 word) n"
  then have n: "n < 8" by simp
  have "bit (led_set s c w) (t + n) \<longleftrightarrow> (if t = s then bit c n else bit w (t + n))" if "n < 2"
    using assms(1,2) that by (subst set_bits [OF _ color_bits [OF assms(3)]]) auto
  then show "bit (led_field t (led_set s c w)) n = bit (if t = s then c else led_field t w) n"
    using n color_bits [OF assms(3)] by (auto simp: field_bits)
qed

definition led_of :: "('e, 'z) board_scheme \<Rightarrow> string \<Rightarrow> 8 word" where
  "led_of s name = (case dict_get FIELDS name of None \<Rightarrow> 0 | Some (reg, shift) \<Rightarrow> led_field shift (bd_csr s reg))"

lemma fields_ok:
  "dict_get FIELDS name = Some (reg, shift) \<Longrightarrow> reg \<in> {6, 7} \<and> shift \<in> {0, 2, 4, 6}"
  "dict_get FIELDS name = Some (reg, shift) \<Longrightarrow> dict_get FIELDS name' = Some (reg, shift) \<Longrightarrow> name' = name"
  by (auto simp: FIELDS_def split: if_splits)

lemma colors_ok: "dict_get COLORS color = Some c \<Longrightarrow> c \<in> {0, 1, 2}"
  by (auto simp: COLORS_def split: if_splits)

lemma update_led_runs:
  assumes "update_led latch (name, color) s = (Inr u, s')"
  shows "\<exists>reg shift c. dict_get FIELDS name = Some (reg, shift) \<and> dict_get COLORS color = Some c \<and>
    s' = s\<lparr>bd_csr := (bd_csr s)(reg := led_set shift c (bd_csr s reg))\<rparr>"
  using assms by (auto simp: update_led_def csr_read_def csr_write_def Let_def runs split: option.splits)

lemma update_led_of:
  assumes "update_led latch (name, color) s = (Inr u, s')"
  shows "led_of s' name' = (if name' = name then the (dict_get COLORS color) else led_of s name')"
proof -
  from update_led_runs [OF assms] obtain reg shift c where
    f: "dict_get FIELDS name = Some (reg, shift)" and c: "dict_get COLORS color = Some c"
    and s': "s' = s\<lparr>bd_csr := (bd_csr s)(reg := led_set shift c (bd_csr s reg))\<rparr>" by blast
  show ?thesis
  proof (cases "dict_get FIELDS name'")
    case None
    then show ?thesis using f by (auto simp: led_of_def)
  next
    case (Some rs)
    obtain reg' shift' where rs: "rs = (reg', shift')" by fastforce
    note g = Some [unfolded rs]
    have "name' = name" if "reg' = reg" "shift' = shift" using fields_ok(2) [OF f] g that by blast
    moreover have "led_field shift' (led_set shift c (bd_csr s reg)) = (if shift' = shift then c else led_field shift' (bd_csr s reg))"
      using fields_ok(1) [OF f] fields_ok(1) [OF g] colors_ok [OF c] by (intro field_set) auto
    ultimately show ?thesis using f g c by (auto simp: led_of_def s')
  qed
qed

lemma update_leds:
  "for_each updates (update_led latch) s = (Inr u, s') \<Longrightarrow> dict_ok updates \<Longrightarrow>
   bd_boot s' = bd_boot s \<and> (\<forall>reg. reg \<in> {6, 7} \<or> bd_csr s' reg = bd_csr s reg) \<and>
   (\<forall>name. led_of s' name = (case dict_get updates name of None \<Rightarrow> led_of s name | Some color \<Rightarrow> the (dict_get COLORS color)))"
proof (induction updates arbitrary: s)
  case (Cons nc updates)
  obtain name color where nc: "nc = (name, color)" by fastforce
  from Cons.prems obtain s1 where s1: "update_led latch (name, color) s = (Inr (), s1)" "for_each updates (update_led latch) s1 = (Inr u, s')"
    by (auto simp: nc runs)
  have d: "dict_ok updates" "dict_get updates name = None"
    using Cons.prems(2) by (auto simp: dict_ok_def nc dict_get_None)
  from update_led_runs [OF s1(1)] obtain reg shift c where f: "dict_get FIELDS name = Some (reg, shift)"
    and e: "s1 = s\<lparr>bd_csr := (bd_csr s)(reg := led_set shift c (bd_csr s reg))\<rparr>" by blast
  have "bd_boot s1 = bd_boot s \<and> (\<forall>reg. reg \<in> {6, 7} \<or> bd_csr s1 reg = bd_csr s reg)"
    using fields_ok(1) [OF f] by (auto simp: e)
  note keep = this and rest = Cons.IH [OF s1(2) d(1)]
  have "led_of s' n = (case dict_get (nc # updates) n of None \<Rightarrow> led_of s n | Some col \<Rightarrow> the (dict_get COLORS col))" for n
    using rest update_led_of [OF s1(1), of n] d(2) by (cases "n = name") (simp_all add: nc split: option.split)
  moreover have "reg \<in> {6, 7} \<or> bd_csr s' reg = bd_csr s reg" for reg
    using keep rest by metis
  ultimately show ?case using keep rest by simp
qed (simp add: runs)

text \<open>Opening and checking leave the registers alone.\<close>

lemma bd_io_runs: "bd_io m s = (Inr x, s') \<Longrightarrow> \<exists>e. s' = s\<lparr>bd_env := e\<rparr>"
  by (auto simp: bd_io_def zoom_def split: prod.splits)

lemma opened_runs: "open_memory W s = (Inr x, s') \<Longrightarrow> \<exists>e. s' = s\<lparr>bd_env := e\<rparr>"
  by (auto simp: open_memory_def runs dest!: bd_io_runs)

lemma checked_runs: "check_cpld W s = (Inr x, s') \<Longrightarrow> \<exists>e. s' = s\<lparr>bd_env := e\<rparr>"
  by (auto simp: check_cpld_def csr_read_def runs dest!: bd_io_runs)

lemma led_of_env [simp]: "led_of (s\<lparr>bd_env := e\<rparr>) = led_of s"
  by (simp add: led_of_def fun_eq_iff split: option.split)

lemma access_registers:
  assumes "chassis_access W updates s = (Inr r, s')" and "dict_ok updates"
  shows "r = chassis_of s' \<and> bd_boot s' = bd_boot s \<and> (\<forall>reg. reg = 6 \<or> reg = 7 \<or> bd_csr s' reg = bd_csr s reg) \<and>
    (\<forall>name. led_of s' name = (case dict_get updates name of None \<Rightarrow> led_of s name | Some color \<Rightarrow> the (dict_get COLORS color)))"
proof -
  from assms(1) obtain s1 s2 s3 u v w where o: "open_memory W s1 = (Inr u, s2)" "s1 = s" and c: "check_cpld W s2 = (Inr v, s3)"
    and l: "for_each updates (update_led (bw_latch W)) s3 = (Inr w, s')" and r: "r = chassis_of s'"
    unfolding chassis_access_def runs by blast
  from opened_runs [OF o(1)] checked_runs [OF c] o(2) obtain e where s3: "s3 = s\<lparr>bd_env := e\<rparr>" by auto
  from update_leds [OF l assms(2)] show ?thesis unfolding s3 led_of_env by (simp add: r)
qed

text \<open>
  C40.  An update of the chassis LEDs that returns has set each named LED to its color and left
  every other LED field and every other register of the CPLD as it was, whatever the registers make
  of a write; the report it returns shows the registers it ended with.
\<close>

theorem led_update_exact:
  assumes "dict_ok updates" and "chassis_access W updates s = (Inr r, s')"
  shows "r = chassis_of s' \<and> bd_boot s' = bd_boot s \<and> (\<forall>reg. reg = 6 \<or> reg = 7 \<or> bd_csr s' reg = bd_csr s reg) \<and>
    (\<forall>name. led_of s' name = (case dict_get updates name of None \<Rightarrow> led_of s name | Some color \<Rightarrow> the (dict_get COLORS color)))"
  by (rule access_registers [OF assms(2,1)])

definition sample_board :: "unit board" where
  "sample_board = \<lparr>bd_env = (), bd_csr = (\<lambda>r. if r = 0 then 0x13 else 0xff), bd_boot = 0x1b04\<rparr>"

definition sample_bus :: "unit board_world" where
  "sample_bus = \<lparr>bw_latch = (\<lambda>r old v. v), bw_open = ret (), bw_flock = ret (), bw_memory = ret (), bw_map = (\<lambda>_. ret ())\<rparr>"

lemma sample_update: "fst (chassis_access sample_bus [(''ps0'', ''green''), (''alarm'', ''off'')] sample_board) =
    Inr (chassis_of (snd (chassis_access sample_bus [(''ps0'', ''green''), (''alarm'', ''off'')] sample_board)))"
  by code_simp

theorem led_update_exact_witness:
  "led_of (snd (chassis_access sample_bus [(''ps0'', ''green''), (''alarm'', ''off'')] sample_board)) ''ps0'' = 1"
proof -
  have ok: "dict_ok [(''ps0'', ''green''), (''alarm'', ''off'')]" by (simp add: dict_ok_def)
  have "chassis_access sample_bus [(''ps0'', ''green''), (''alarm'', ''off'')] sample_board =
      (Inr (chassis_of (snd (chassis_access sample_bus [(''ps0'', ''green''), (''alarm'', ''off'')] sample_board))),
       snd (chassis_access sample_bus [(''ps0'', ''green''), (''alarm'', ''off'')] sample_board))"
    using sample_update by (metis prod.collapse)
  from led_update_exact [OF ok this] show ?thesis by (simp add: COLORS_def)
qed

end
