(* ===== verification/Thermal.thy ===== *)
theory Thermal
  imports ChassisLed PyText
begin

unbundle bit_operations_syntax

text \<open>
  The fan governor of the control-plane processor, \<open>octeon/debian/ffn_thermal.py\<close>: twelve board
  sensors and the management processor's readings in, one PWM value for eight fans out; with the I2C
  transactions of \<open>octeon/i2c/ffn_i2cread.py\<close>.  The native library, the locks, clocks and reports are
  parameters, any of which may raise; the CPLD registers are state.  A resolved mux channel and a
  transfer the native library has made are recorded in the state.  Floats are rationals.
\<close>

section \<open>Sensors\<close>

record reading =
  re_name :: string
  re_celsius :: rat
  re_start :: rat
  re_maximum :: rat

record fan =
  fa_bank :: int
  fa_index :: nat
  fa_rpm :: int
  fa_pwm :: int

record sample =
  sa_temperatures :: "reading list"
  sa_fans :: "fan list"
  sa_errors :: "string list"
  sa_mp :: "reading list"
  sa_supplies :: "power_supply list"
  sa_power_errors :: "string list"

datatype transfer =
    Resolved nat int
  | Wrote int nat nat int
  | Got int nat nat bytes

record 'e cooling = "'e board" +
  co_trace :: "transfer list"
  co_result :: sample

record 'e cooler =
  cl_board :: "'e board_world"
  cl_bus :: "nat \<Rightarrow> ('e, int) py"
  cl_native :: "('e, unit) py"
  cl_i2c_read :: "int \<Rightarrow> nat \<Rightarrow> nat \<Rightarrow> nat \<Rightarrow> nat \<Rightarrow> ('e, int \<times> (nat \<Rightarrow> 8 word)) py"
  cl_i2c_write :: "int \<Rightarrow> nat \<Rightarrow> nat \<Rightarrow> int \<Rightarrow> ('e, int) py"
  cl_errno :: "('e, int) py"
  cl_strerror :: "int \<Rightarrow> string"
  cl_bus_open :: "('e, unit) py"
  cl_bus_flock :: "('e, unit) py"
  cl_mp :: "('e, pyval) py"
  cl_time :: "('e, rat) py"
  cl_monotonic :: "('e, rat) py"
  cl_publish :: "sample \<Rightarrow> int \<Rightarrow> int \<Rightarrow> ('e, unit) py"
  cl_ready :: "('e, unit) py"
  cl_watchdog :: "('e, unit) py"
  cl_sleep :: "('e, unit) py"

definition SENSORS :: "(string \<times> nat option \<times> nat \<times> rat \<times> rat) list" where
  "SENSORS = [
     (''NB FE100'', None, 0x48, 50, 70),
     (''NB Cavium'', None, 0x49, 65, 85),
     (''NB front'', None, 0x4a, 50, 70),
     (''NB BCM'', None, 0x4b, 50, 70),
     (''CP core'', None, 0x2a, 65, 85),
     (''BCM core'', None, 0x1f, 70, 85),
     (''FE100 core'', None, 0x1e, 50, 70),
     (''CE front'', Some 0, 0x48, 50, 70),
     (''CE DP area'', Some 0, 0x49, 50, 70),
     (''CE rear'', Some 0, 0x4a, 50, 85),
     (''CE DP0/CE40'', Some 0, 0x4b, 50, 75),
     (''DP0 core'', Some 0, 0x1c, 70, 85)]"

definition BANKS :: "(nat \<times> nat) list" where
  "BANKS = [(2, 0x2c), (3, 0x2e)]"

definition MIN_PWM :: int where
  "MIN_PWM = 191"

definition put_result :: "(sample \<Rightarrow> sample) \<Rightarrow> (('e, 'z) cooling_scheme, unit) py" where
  "put_result f = upd (\<lambda>s. s\<lparr>co_result := f (co_result s)\<rparr>)"

definition sample_error :: "string \<Rightarrow> (('e, 'z) cooling_scheme, unit) py" where
  "sample_error m = put_result (\<lambda>r. r\<lparr>sa_errors := sa_errors r @ [m]\<rparr>)"

section \<open>I2C transactions\<close>

definition transferred :: "transfer \<Rightarrow> (('e, 'z) cooling_scheme, unit) py" where
  "transferred t = upd (\<lambda>s. s\<lparr>co_trace := co_trace s @ [t]\<rparr>)"

definition i2c_validate :: "int list \<Rightarrow> exn + unit" where
  "i2c_validate values = rcheck (list_all (\<lambda>v. 0 \<le> v \<and> v \<le> 65535) values) (ValueError ''Invalid I2C control parameter'')"

definition checked :: "'e cooler \<Rightarrow> int \<Rightarrow> (('e, 'z) cooling_scheme, unit) py" where
  "checked C result = whn (result < 0) (bnd (bd_io (cl_errno C)) (\<lambda>e.
    raise (OSError (''[Errno '' @ dec_int e @ ''] '' @ cl_strerror C e))))"

text \<open>The library fills the buffer of \<open>count\<close> bytes it is given.\<close>

definition read_regs :: "'e cooler \<Rightarrow> int \<Rightarrow> nat \<Rightarrow> nat \<Rightarrow> nat \<Rightarrow> nat \<Rightarrow> (('e, 'z) cooling_scheme, bytes) py" where
  "read_regs C b addr offset count offset_bytes = (thn (lift_res (i2c_validate [b, int addr, int offset, int count, int offset_bytes]))
    (thn (ensure (1 \<le> count \<and> count \<le> 4096 \<and> offset_bytes \<in> {0, 1, 2}) (ValueError ''Invalid I2C transaction size''))
    (thn (bd_io (cl_native C))
    (bnd (bd_io (cl_i2c_read C b addr offset offset_bytes count)) (\<lambda>answer.
    thn (checked C (fst answer))
    (let bs = map (snd answer) [0..<count] in
    thn (transferred (Got b addr offset bs))
    (ret bs)))))))"

definition read_bare :: "'e cooler \<Rightarrow> int \<Rightarrow> nat \<Rightarrow> nat \<Rightarrow> (('e, 'z) cooling_scheme, bytes) py" where
  "read_bare C b addr count = read_regs C b addr 0 count 0"

definition write_reg :: "'e cooler \<Rightarrow> int \<Rightarrow> nat \<Rightarrow> nat \<Rightarrow> int \<Rightarrow> (('e, 'z) cooling_scheme, unit) py" where
  "write_reg C b addr offset v = (thn (lift_res (i2c_validate [b, int addr, int offset, v]))
    (thn (bd_io (cl_native C))
    (bnd (bd_io (cl_i2c_write C b addr offset v)) (\<lambda>result.
    thn (checked C result)
    (transferred (Wrote b addr offset v))))))"

definition bus :: "'e cooler \<Rightarrow> nat option \<Rightarrow> (('e, 'z) cooling_scheme, int) py" where
  "bus C channel = (case channel of None \<Rightarrow> ret 0
     | Some n \<Rightarrow> (bnd (bd_io (cl_bus C n)) (\<lambda>b.
         thn (transferred (Resolved n b))
         (ret b))))"

definition rd :: "'e cooler \<Rightarrow> nat option \<Rightarrow> nat \<Rightarrow> nat \<Rightarrow> (('e, 'z) cooling_scheme, nat) py" where
  "rd C channel addr reg = (bnd (bus C channel) (\<lambda>b.
    bnd (read_regs C b addr reg 1 1) (\<lambda>bs.
    ret (unat (hd bs)))))"

definition identify :: "'e cooler \<Rightarrow> nat \<Rightarrow> nat \<Rightarrow> (('e, 'z) cooling_scheme, unit) py" where
  "identify C channel addr = (bnd (rd C (Some channel) addr 0x3d) (\<lambda>a.
    bnd (rd C (Some channel) addr 0x3e) (\<lambda>b.
    bnd (rd C (Some channel) addr 0x3f) (\<lambda>c.
    ensure ((a, b, c) = (0x70, 0x41, 2)) (RuntimeError ''fan controller identity mismatch'')))))"

section \<open>Driving the fans\<close>

definition force_full :: "'e cooler \<Rightarrow> bool \<Rightarrow> (('e, 'z) cooling_scheme, unit) py" where
  "force_full C enabled = (thn (open_memory (cl_board C))
    (thn (check_cpld (cl_board C))
    (bnd (csr_read 0x11) (\<lambda>old.
    let v = (old AND NOT 0x40) OR (if enabled then 0x40 else 0) in
    thn (csr_write (bw_latch (cl_board C)) 0x11 v)
    (bnd (csr_read 0x11) (\<lambda>actual.
    ensure (actual = v) (RuntimeError ''fan override readback failed'')))))))"

definition write_fan :: "'e cooler \<Rightarrow> int \<Rightarrow> nat \<Rightarrow> nat \<Rightarrow> nat \<Rightarrow> (('e, 'z) cooling_scheme, unit) py" where
  "write_fan C v channel addr reg = (bnd (bus C (Some channel)) (\<lambda>b.
    thn (write_reg C b addr reg v)
    (bnd (rd C (Some channel) addr reg) (\<lambda>actual.
    ensure (int actual = v) (RuntimeError ''PWM readback mismatch'')))))"

definition write_bank :: "'e cooler \<Rightarrow> int \<Rightarrow> nat \<times> nat \<Rightarrow> (('e, 'z) cooling_scheme, string list) py" where
  "write_bank C v = (\<lambda>(channel, addr). catch_exn ((thn (identify C channel addr)
    (thn (for_each [0x32..<0x36] (write_fan C v channel addr))
    (ret []))))
     (\<lambda>e. ret [exn_text e]))"

definition write_pwm :: "'e cooler \<Rightarrow> int \<Rightarrow> (('e, 'z) cooling_scheme, unit) py" where
  "write_pwm C v = (thn (ensure (MIN_PWM \<le> v \<and> v \<le> 255) (ValueError ''PWM outside commissioning range''))
    (thn (force_full C (v = 255))
    (bnd (collect BANKS (write_bank C v)) (\<lambda>errors.
    ensure (concat errors = []) (RuntimeError (join ''; '' (concat errors)))))))"

section \<open>Sampling\<close>

text \<open>A number of a JSON document in comparisons; one that is not finite fails every bound.\<close>

definition bounded :: "pyval \<Rightarrow> exn + rat option" where
  "bounded v = (case num_of v of None \<Rightarrow> Inl (TypeError ''unorderable types'') | Some (Finite q) \<Rightarrow> Inr (Some q) | Some _ \<Rightarrow> Inr None)"

definition mp_invalid :: exn where
  "mp_invalid = ValueError ''invalid MP thermal reading''"

definition mp_reading :: "pyval \<Rightarrow> exn + reading" where
  "mp_reading s = (rbnd (py_item s ''name'') (\<lambda>name.
    rthn (rcheck (is_str name) mp_invalid)
    (rbnd (rbnd (py_item s ''celsius'') bounded) (\<lambda>c.
    (case c of None \<Rightarrow> Inl mp_invalid | Some celsius \<Rightarrow> (rthn (rcheck (0 < celsius \<and> celsius < 125) mp_invalid)
       (rbnd (rbnd (py_item s ''ramp_start'') bounded) (\<lambda>r.
       (case r of None \<Rightarrow> Inl mp_invalid | Some start \<Rightarrow> (rthn (rcheck (40 \<le> start) mp_invalid)
         (rbnd (rbnd (py_item s ''maximum'') bounded) (\<lambda>m.
         (case m of None \<Rightarrow> Inl mp_invalid | Some maximum \<Rightarrow> (rthn (rcheck (start < maximum \<and> maximum \<le> 105) mp_invalid)
           (Inr \<lparr>re_name = the_str name, re_celsius = celsius, re_start = start, re_maximum = maximum\<rparr>)))))))))))))))"

definition validate_mp :: "pyval \<Rightarrow> exn + reading list" where
  "validate_mp sensors = (rthn (rcheck (is_list sensors \<and> 1 \<le> length (the_list sensors) \<and> length (the_list sensors) \<le> 256) (ValueError ''invalid MP sensors''))
    (rcollect (the_list sensors) mp_reading))"

definition mp_fresh :: "rat \<Rightarrow> pyval \<Rightarrow> exn + unit" where
  "mp_fresh now mp = (rbnd (rbnd (py_item mp ''received_at'') bounded) (\<lambda>received.
    rcheck (case received of None \<Rightarrow> False | Some r \<Rightarrow> 0 \<le> now - r \<and> now - r \<le> 45) (ValueError ''MP temperatures stale'')))"

definition sample_mp :: "'e cooler \<Rightarrow> (('e, 'z) cooling_scheme, unit) py" where
  "sample_mp C = catch_exn ((bnd (bd_io (cl_mp C)) (\<lambda>mp.
    bnd (bd_io (cl_time C)) (\<lambda>now.
    thn (lift_res (mp_fresh now mp))
    (bnd (lift_res (py_item mp ''sensors'')) (\<lambda>sensors.
    bnd (lift_res (validate_mp sensors)) (\<lambda>readings.
    put_result (\<lambda>r. r\<lparr>sa_mp := readings\<rparr>))))))))
     (\<lambda>e. sample_error (''MP thermal: '' @ exn_text e))"

definition signed_be :: "bytes \<Rightarrow> int" where
  "signed_be bs = (let n = int (from_be bs) in if 2 * n < 2 ^ (8 * length bs) then n else n - 2 ^ (8 * length bs))"

definition sample_sensor :: "'e cooler \<Rightarrow> string \<times> nat option \<times> nat \<times> rat \<times> rat \<Rightarrow> (('e, 'z) cooling_scheme, unit) py" where
  "sample_sensor C = (\<lambda>(name, channel, addr, low, high). catch_exn ((bnd (if 0x48 \<le> addr then (bnd (bus C channel) (\<lambda>b.
         bnd (read_regs C b addr 0 2 1) (\<lambda>bs.
         ret (of_int (signed_be bs) / 256))))
         else (bnd (rd C channel addr 1) (\<lambda>n.
           ret (of_nat n)))) (\<lambda>t.
    thn (ensure (0 < t \<and> t < 125) (ValueError ''invalid temperature''))
    (put_result (\<lambda>r. r\<lparr>sa_temperatures := sa_temperatures r @
         [\<lparr>re_name = name, re_celsius = t, re_start = low, re_maximum = high\<rparr>]\<rparr>)))))
     (\<lambda>e. sample_error (name @ '': '' @ exn_text e)))"

text \<open>\<open>round\<close> of a quotient: halves go to the even neighbour.\<close>

definition py_round :: "rat \<Rightarrow> int" where
  "py_round q = (let f = \<lfloor>q\<rfloor>; d = q - of_int f in if d < 1 / 2 then f else if 1 / 2 < d then f + 1 else if even f then f else f + 1)"

definition fan_rpm :: "nat \<Rightarrow> int" where
  "fan_rpm count = (if count = 0 \<or> count = 65535 then 0 else py_round (5400000 / of_nat count))"

definition sample_fan :: "'e cooler \<Rightarrow> nat \<Rightarrow> nat \<Rightarrow> nat \<Rightarrow> (('e, 'z) cooling_scheme, unit) py" where
  "sample_fan C channel addr i = (bnd (rd C (Some channel) addr (0x2a + 2 * i)) (\<lambda>low.
    bnd (rd C (Some channel) addr (0x2a + 2 * i + 1)) (\<lambda>high.
    let rpm = fan_rpm (low OR push_bit 8 high) in
    bnd (rd C (Some channel) addr (0x32 + i)) (\<lambda>pwm.
    thn (put_result (\<lambda>r. r\<lparr>sa_fans := sa_fans r @ [\<lparr>fa_bank = 4 - int channel, fa_index = i + 1, fa_rpm = rpm, fa_pwm = int pwm\<rparr>]\<rparr>))
    (whn (rpm < 5000 \<or> 20000 < rpm) (sample_error ''fan tachometer outside valid range''))))))"

definition sample_bank :: "'e cooler \<Rightarrow> nat \<times> nat \<Rightarrow> (('e, 'z) cooling_scheme, unit) py" where
  "sample_bank C = (\<lambda>(channel, addr). catch_exn ((thn (identify C channel addr)
    (for_each [0..<4] (sample_fan C channel addr))))
     (\<lambda>e. sample_error (''fan bank '' @ dec_int (4 - int channel) @ '': '' @ exn_text e)))"

definition sample_power :: "'e cooler \<Rightarrow> (('e, 'z) cooling_scheme, unit) py" where
  "sample_power C = catch_exn ((bnd (chassis_access (cl_board C) []) (\<lambda>status.
    put_result (\<lambda>r. r\<lparr>sa_supplies := ch_supplies status, sa_power_errors := []\<rparr>))))
     (\<lambda>e. put_result (\<lambda>r. r\<lparr>sa_supplies := [], sa_power_errors := [exn_text e]\<rparr>))"

definition empty_sample :: sample where
  "empty_sample = \<lparr>sa_temperatures = [], sa_fans = [], sa_errors = [], sa_mp = [], sa_supplies = [], sa_power_errors = []\<rparr>"

definition take_sample :: "'e cooler \<Rightarrow> (('e, 'z) cooling_scheme, sample) py" where
  "take_sample C = (thn (put_result (\<lambda>_. empty_sample))
    (thn (sample_power C)
    (thn (sample_mp C)
    (thn (bd_io (cl_bus_open C))
    (thn (bd_io (cl_bus_flock C))
    (thn (for_each SENSORS (sample_sensor C))
    (thn (for_each BANKS (sample_bank C))
    (gets co_result))))))))"

section \<open>Demand and lights\<close>

definition heat :: "reading \<Rightarrow> rat" where
  "heat t = (re_celsius t - re_start t) / (re_maximum t - re_start t)"

definition blind :: "sample \<Rightarrow> bool" where
  "blind s \<longleftrightarrow> sa_errors s \<noteq> [] \<or> length (sa_temperatures s) \<noteq> 12 \<or> length (sa_fans s) \<noteq> 8 \<or> sa_mp s = []"

definition demand :: "sample \<Rightarrow> int" where
  "demand s = (if blind s then 255
     else min 255 (max MIN_PWM \<lceil>of_int MIN_PWM + of_int (255 - MIN_PWM) * Max (set (map heat (sa_temperatures s @ sa_mp s)))\<rceil>))"

definition supply_of :: "sample \<Rightarrow> string \<Rightarrow> power_supply option" where
  "supply_of s led = find (\<lambda>p. su_led p = led) (rev (sa_supplies s))"

definition healthy :: "sample \<Rightarrow> string \<Rightarrow> bool" where
  "healthy s led = (case supply_of s led of None \<Rightarrow> False | Some p \<Rightarrow> su_present p \<and> su_good p)"

definition hot :: "sample \<Rightarrow> bool" where
  "hot s \<longleftrightarrow> list_ex (\<lambda>t. re_maximum t \<le> re_celsius t) (sa_temperatures s @ sa_mp s)"

definition led_policy :: "sample \<Rightarrow> (string \<times> string) list" where
  "led_policy s = (let bad = (sa_errors s \<noteq> []);
       power_bad = (sa_power_errors s \<noteq> [] \<or> set (map su_led (sa_supplies s)) \<noteq> {''ps0'', ''ps1''} \<or>
         \<not> healthy s ''ps0'' \<or> \<not> healthy s ''ps1'');
       light = (\<lambda>led. (led, if healthy s led \<and> sa_power_errors s = [] then ''green'' else ''yellow'')) in
     [light ''ps0'', light ''ps1'', (''fans'', if bad then ''yellow'' else ''green''),
      (''temp'', if bad \<or> hot s then ''yellow'' else ''green''),
      (''alarm'', if bad \<or> hot s \<or> power_bad then ''yellow'' else ''off'')])"

definition leds :: "'e cooler \<Rightarrow> sample \<Rightarrow> (('e, 'z) cooling_scheme, unit) py" where
  "leds C s = (thn (chassis_access (cl_board C) (led_policy s))
    (ret ()))"

section \<open>The governor\<close>

text \<open>The next command: up at once, down by eight steps at most and only after thirty cool seconds.\<close>

definition next_command :: "int \<Rightarrow> rat \<Rightarrow> int \<Rightarrow> rat \<Rightarrow> int \<times> rat" where
  "next_command current cool_since wanted now = (if current \<le> wanted then (wanted, now)
     else if 30 \<le> now - cool_since then (max wanted (current - 8), cool_since)
     else (current, cool_since))"

definition governor_turn :: "'e cooler \<Rightarrow> int \<times> rat \<Rightarrow> (('e, 'z) cooling_scheme, int \<times> rat) py" where
  "governor_turn C = (\<lambda>(current, cool_since). (bnd (bd_io (cl_monotonic C)) (\<lambda>started.
    bnd (take_sample C) (\<lambda>s.
    bnd (bd_io (cl_monotonic C)) (\<lambda>sampled.
    bnd (bd_io (cl_monotonic C)) (\<lambda>now.
    let following = next_command current cool_since (demand s) now in
    thn (write_pwm C (fst following))
    (thn (bd_io (cl_publish C s (fst following) (demand s)))
    (thn (leds C s)
    (thn (bd_io (cl_watchdog C))
    (thn (bd_io (cl_sleep C))
    (ret following)))))))))))"

fun governor_turns :: "'e cooler \<Rightarrow> nat \<Rightarrow> int \<times> rat \<Rightarrow> (('e, 'z) cooling_scheme, int \<times> rat) py" where
  "governor_turns C 0 command = ret command"
| "governor_turns C (Suc n) command = (bnd (governor_turn C command) (\<lambda>following.
  governor_turns C n following))"

text \<open>The service: whatever ends the loop, here a signal after \<open>n\<close> turns, full speed is commanded last.\<close>

definition stopped :: exn where
  "stopped = Interrupt ''SystemExit''"

definition govern_from :: "'e cooler \<Rightarrow> nat \<Rightarrow> rat \<Rightarrow> (('e, 'z) cooling_scheme, unit) py" where
  "govern_from C n cool_since = catch_all
     ((thn (write_pwm C 255)
       (thn (bd_io (cl_ready C))
       (thn (governor_turns C n (255, cool_since))
       (raise stopped)))))
     (\<lambda>e. (thn (write_pwm C 255)
       (raise e)))"

definition govern :: "'e cooler \<Rightarrow> nat \<Rightarrow> (('e, 'z) cooling_scheme, unit) py" where
  "govern C n = (bnd (bd_io (cl_monotonic C)) (\<lambda>cool_since.
    govern_from C n cool_since))"

text \<open>The one-shot command that stops monitoring.\<close>

definition full_speed :: "'e cooler \<Rightarrow> (('e, 'z) cooling_scheme, unit) py" where
  "full_speed C = (thn (write_pwm C 255)
    (thn (put_result (\<lambda>_. empty_sample\<lparr>sa_errors := [''automatic monitoring stopped'']\<rparr>))
    (thn (sample_power C)
    (bnd (gets co_result) (\<lambda>s.
    leds C s)))))"

section \<open>What a turn commands\<close>

definition readings_ok :: "sample \<Rightarrow> bool" where
  "readings_ok r \<longleftrightarrow> list_all (\<lambda>t. re_start t < re_maximum t) (sa_temperatures r @ sa_mp r)"

fun is_write :: "transfer \<Rightarrow> bool" where
  "is_write (Wrote b addr reg v) = True"
| "is_write t = False"

definition quiet :: "transfer list \<Rightarrow> transfer list \<Rightarrow> bool" where
  "quiet old l \<longleftrightarrow> (\<exists>q. l = old @ q \<and> list_all (\<lambda>t. \<not> is_write t) q)"

lemma quiet_more: "quiet old l \<Longrightarrow> \<not> is_write t \<Longrightarrow> quiet old (l @ [t])"
  unfolding quiet_def by (metis append.assoc list.pred_inject list_all_append)

text \<open>Effects change the environment, transfers the record as well.\<close>

lemma io_pres: "(\<And>s e. I s \<Longrightarrow> I (s\<lparr>bd_env := e\<rparr>)) \<Longrightarrow> pres I (bd_io m)"
  unfolding bd_io_def by (rule pres_zoom) simp

lemma reads_pres:
  fixes I :: "('e, 'z) cooling_scheme \<Rightarrow> bool"
  assumes "\<And>s e. I s \<Longrightarrow> I (s\<lparr>bd_env := e\<rparr>)"
    and "\<And>s t. \<not> is_write t \<Longrightarrow> I s \<Longrightarrow> I (s\<lparr>co_trace := co_trace s @ [t]\<rparr>)"
  shows "pres I (bus C channel)" "pres I (read_regs C b addr reg n k)" "pres I (rd C channel addr reg)" "pres I (identify C c addr)"
proof -
  have t: "pres I (transferred t)" if "\<not> is_write t" for t
    unfolding transferred_def using assms(2) [OF that] by (rule pres_upd)
  have io: "pres I (bd_io m)" for m :: "('e, 'x) py" using assms(1) by (rule io_pres)
  show bus: "pres I (bus C channel)" for channel
    unfolding bus_def by (intro pres_intros io_pres assms(1) t) simp_all
  show regs: "pres I (read_regs C b addr reg n k)" for b addr reg n k
    unfolding read_regs_def checked_def Let_def by (intro pres_intros io_pres assms(1) t) simp_all
  show rd: "pres I (rd C channel addr reg)" for channel addr reg
    unfolding rd_def by (intro pres_intros bus regs)
  show "pres I (identify C c addr)"
    unfolding identify_def by (intro pres_intros rd)
qed

text \<open>Neither touches the registers or the sample.\<close>

abbreviation settled :: "(nat \<Rightarrow> 8 word) \<Rightarrow> 64 word \<Rightarrow> sample \<Rightarrow> ('e, 'z) cooling_scheme \<Rightarrow> bool" where
  "settled c b r s \<equiv> bd_csr s = c \<and> bd_boot s = b \<and> co_result s = r"

lemma settled_io: "pres (settled c b r) (bd_io m)"
  by (rule io_pres) simp

lemma settled_trace: "pres (settled c b r) (transferred t)"
  unfolding transferred_def by (rule pres_upd) simp

lemma settled_bank: "pres (settled c b r) (write_bank C v bank)"
proof -
  have reads: "pres (settled c b r) (bus C channel)" "pres (settled c b r) (rd C channel addr reg)" "pres (settled c b r) (identify C n addr)"
    for channel addr reg n by (rule reads_pres; simp)+
  show ?thesis
    unfolding write_bank_def write_fan_def write_reg_def checked_def
    by (intro pres_intros reads settled_io settled_trace)
qed

text \<open>Sampling writes nothing, and its readings are in order.\<close>

abbreviation sampling :: "transfer list \<Rightarrow> ('e, 'z) cooling_scheme \<Rightarrow> bool" where
  "sampling old s \<equiv> readings_ok (co_result s) \<and> quiet old (co_trace s)"

lemma sampling_put: "(\<And>r. readings_ok r \<Longrightarrow> readings_ok (f r)) \<Longrightarrow> pres (sampling old) (put_result f)"
  unfolding put_result_def by (rule pres_upd) simp

lemma sampling_io: "pres (sampling old) (bd_io m)"
  by (rule io_pres) simp

lemma sampling_reads:
  "pres (sampling old) (bus C channel)" "pres (sampling old) (read_regs C b addr reg n k)" "pres (sampling old) (rd C channel addr reg)"
  "pres (sampling old) (identify C c addr)"
  by (rule reads_pres; simp add: quiet_more)+

lemma sampling_access: "pres (sampling old) (chassis_access W updates)"
  unfolding chassis_access_def open_memory_def check_cpld_def csr_read_def update_led_def csr_write_def Let_def
  by (intro pres_intros pres_upd sampling_io) simp_all

lemma validated_readings: "validate_mp v = Inr rs \<Longrightarrow> list_all (\<lambda>t. re_start t < re_maximum t) rs"
proof -
  have one: "mp_reading s = Inr t \<Longrightarrow> re_start t < re_maximum t" for s t
    by (auto simp: mp_reading_def rbnd_def rthn_def rcheck_def split: sum.splits option.splits if_splits)
  have "rcollect vs mp_reading = Inr rs \<Longrightarrow> list_all (\<lambda>t. re_start t < re_maximum t) rs" for vs
    by (induction vs arbitrary: rs) (auto simp: rbnd_def one split: sum.splits)
  then show "validate_mp v = Inr rs \<Longrightarrow> list_all (\<lambda>t. re_start t < re_maximum t) rs"
    by (auto simp: validate_mp_def rbnd_def rthn_def rcheck_def split: sum.splits if_splits)
qed

lemma readings_lift: "(\<And>x. r = Inr x \<Longrightarrow> pres I (k x)) \<Longrightarrow> pres I (bnd (lift_res r) k)"
  by (cases r) (auto simp: pres_raise)

lemma readings_mp: "pres (sampling old) (sample_mp C)"
  unfolding sample_mp_def sample_error_def
  by (intro pres_intros readings_lift sampling_io sampling_put) (auto simp: readings_ok_def dest!: validated_readings)

lemma sensors_ok: "(name, channel, addr, low, high) \<in> set SENSORS \<Longrightarrow> low < high"
  by (auto simp: SENSORS_def)

lemma readings_sensor:
  assumes "sensor \<in> set SENSORS"
  shows "pres (sampling old) (sample_sensor C sensor)"
proof -
  obtain name channel addr low high where sensor: "sensor = (name, channel, addr, low, high)" by (cases sensor rule: prod_cases5)
  with assms sensors_ok have "low < high" by blast
  then show ?thesis
    unfolding sample_sensor_def sample_error_def sensor prod.case
    by (intro pres_intros sampling_reads sampling_put) (simp_all add: readings_ok_def)
qed

lemma readings_bank: "pres (sampling old) (sample_bank C bank)"
  unfolding sample_bank_def sample_fan_def sample_error_def Let_def
  by (intro pres_intros sampling_reads sampling_put) (simp_all add: readings_ok_def)

lemma readings_power: "pres (sampling old) (sample_power C)"
  unfolding sample_power_def by (intro pres_intros sampling_access sampling_put) (simp_all add: readings_ok_def)

lemma sampled_ok:
  assumes "take_sample C s = (Inr r, s')"
  shows "r = co_result s' \<and> readings_ok r \<and> quiet (co_trace s) (co_trace s')"
proof -
  let ?I = "sampling (co_trace s)"
  have tail: "wp (thn (for_each SENSORS (sample_sensor C)) (thn (for_each BANKS (sample_bank C)) (gets co_result)))
      (\<lambda>r s'. r = co_result s' \<and> ?I s') (\<lambda>_ _. True) t" if "?I t" for t
    by (rule wp_thnI [OF wp_pres [OF pres_for_each [OF readings_sensor]]], assumption, rule that,
        rule wp_thnI [OF wp_pres [OF pres_for_each [OF readings_bank]]]) (simp_all add: wp_gets)
  have "wp (take_sample C) (\<lambda>r s'. r = co_result s' \<and> ?I s') (\<lambda>_ _. True) s"
    unfolding take_sample_def put_result_def wp_thn [of "upd f" for f] wp_upd
    by (rule wp_thnI [OF wp_pres [where I = ?I, OF readings_power]], simp add: empty_sample_def readings_ok_def quiet_def,
        rule wp_thnI [OF wp_pres [OF readings_mp]], assumption,
        rule wp_thnI [OF wp_pres [OF sampling_io]], assumption, rule wp_thnI [OF wp_pres [OF sampling_io]], assumption,
        erule tail) simp_all
  from wp_returns [OF this assms] show ?thesis by simp
qed

lemma demand_range: "MIN_PWM \<le> demand r \<and> demand r \<le> 255"
  by (auto simp: demand_def MIN_PWM_def)

lemma demand_blind: "blind r \<Longrightarrow> demand r = 255"
  by (simp add: demand_def)

lemma demand_hot:
  assumes "readings_ok r" and "hot r"
  shows "demand r = 255"
proof (cases "blind r")
  case False
  let ?ts = "sa_temperatures r @ sa_mp r"
  from assms(2) obtain t where t: "t \<in> set ?ts" "re_maximum t \<le> re_celsius t" by (auto simp: hot_def list_ex_iff)
  then have "1 \<le> heat t" using assms(1) by (auto simp: heat_def readings_ok_def list_all_iff field_simps)
  moreover have "heat t \<le> Max (set (map heat ?ts))" using t(1) by (intro Max_ge) auto
  ultimately have "255 \<le> of_int MIN_PWM + of_int (255 - MIN_PWM) * Max (set (map heat ?ts))" by (simp add: MIN_PWM_def)
  moreover define X where "X = \<lceil>of_int MIN_PWM + of_int (255 - MIN_PWM) * Max (set (map heat ?ts))\<rceil>"
  ultimately have "255 \<le> X" by (metis ceiling_mono ceiling_numeral)
  moreover have "demand r = min 255 (max MIN_PWM X)"
    by (simp only: demand_def False if_False X_def)
  ultimately show ?thesis by simp
qed (rule demand_blind)

text \<open>The override bit follows a command that returns, and is set by any command of full speed.\<close>

lemma override_bit:
  "bit ((w AND NOT 0x40) OR 0x40 :: 8 word) 6" "\<not> bit ((w AND NOT 0x40) OR 0 :: 8 word) 6"
  by (simp_all add: bit_or_iff bit_and_iff bit_not_iff_eq)

text \<open>Why full speed could not be asserted: the last effect raised, or the registers are not the board's.\<close>

definition gave_up :: "('e, 'a) py \<Rightarrow> exn \<Rightarrow> ('e, 'z) cooling_scheme \<Rightarrow> bool" where
  "gave_up m e s \<longleftrightarrow> (\<exists>t. m t = (Inl e, bd_env s))"

definition override_failed :: "'e board_world \<Rightarrow> exn \<Rightarrow> ('e, 'z) cooling_scheme \<Rightarrow> bool" where
  "override_failed W e s \<longleftrightarrow> gave_up (bw_open W) e s \<or> gave_up (bw_flock W) e s \<or> gave_up (bw_memory W) e s \<or>
     gave_up (bw_map W 0x1180000000000) e s \<or> gave_up (bw_map W 0x1b040000) e s \<or>
     cpld_base (bd_boot s) \<noteq> 0x1b040000 \<and> e = RuntimeError ''unrecognized CP CPLD mapping'' \<or>
     bd_csr s 0 \<noteq> 0x13 \<and> e = RuntimeError ''unrecognized CP CPLD version'' \<or>
     (\<exists>old. bd_csr s 0x11 = bw_latch W 0x11 old (old OR 0x40) \<and> bd_csr s 0x11 \<noteq> old OR 0x40) \<and> e = RuntimeError ''fan override readback failed''"

lemma override_value: "(w AND NOT 0x40) OR 0x40 = (w OR 0x40 :: 8 word)"
  by (simp only: bit.disj_conj_distrib2 bit.disj_cancel_left bit.conj_one_right)

lemma io_raises: "bd_io m s = (Inl e, s') \<Longrightarrow> gave_up m e s'"
  by (auto simp: bd_io_def zoom_def gave_up_def split: prod.splits)

lemma io_wp:
  assumes "\<And>x e. Q x (s\<lparr>bd_env := e\<rparr>)" and "\<And>e s'. gave_up m e s' \<Longrightarrow> E e s'"
  shows "wp (bd_io m) Q E s"
  using assms io_raises [of m s] bd_io_runs [of m s] by (fastforce simp: wp_iff)

lemma force_full_wp:
  "wp (force_full C enabled) (\<lambda>_ s'. bit (bd_csr s' 0x11) 6 = enabled \<and> co_result s' = co_result s \<and> co_trace s' = co_trace s)
     (\<lambda>e s'. enabled \<longrightarrow> override_failed (cl_board C) e s') s"
  unfolding force_full_def open_memory_def check_cpld_def csr_read_def csr_write_def Let_def wp_thn wp_bnd wp_gets wp_upd wp_ensure boot_config_def
  using override_bit by (auto intro!: io_wp simp: override_failed_def override_value override_value [simplified])

lemma settled_collect: "pres (settled c b r) (collect BANKS (write_bank C v))"
  by (intro pres_collect settled_bank)

lemma write_pwm_wp:
  "wp (write_pwm C v) (\<lambda>_ s'. MIN_PWM \<le> v \<and> v \<le> 255 \<and> bit (bd_csr s' 0x11) 6 = (v = 255) \<and> co_result s' = co_result s)
     (\<lambda>e s'. v = 255 \<longrightarrow> bit (bd_csr s' 0x11) 6 \<or> override_failed (cl_board C) e s') s"
proof -
  have tail: "wp (bnd (collect BANKS (write_bank C v)) (\<lambda>errors. ensure (concat errors = []) (RuntimeError (join ''; '' (concat errors)))))
      (\<lambda>_ s2. bd_csr s2 = bd_csr s1 \<and> co_result s2 = co_result s1) (\<lambda>_ s2. bd_csr s2 = bd_csr s1 \<and> co_result s2 = co_result s1) s1" for s1
    unfolding wp_bnd
    by (rule wp_mono [OF wp_pres [OF settled_collect [of "bd_csr s1" "bd_boot s1" "co_result s1"]]]) (auto simp: wp_ensure)
  show ?thesis
    unfolding write_pwm_def wp_thn [of "ensure b e" for b e] wp_ensure
    by (auto simp: MIN_PWM_def intro!: wp_thnI [OF force_full_wp] wp_mono [OF tail] simp del: concat_eq_Nil_conv)
qed

lemma result_access: "pres (\<lambda>s. co_result s = r \<and> co_trace s = l) (chassis_access W updates)"
  unfolding chassis_access_def open_memory_def check_cpld_def csr_read_def update_led_def csr_write_def Let_def
  by (intro pres_intros pres_upd io_pres) simp_all

lemma leds_result: "leds C r s = (Inr u, s') \<Longrightarrow> co_result s' = co_result s \<and> co_trace s' = co_trace s"
  unfolding leds_def by (rule presD [OF pres_thn [OF result_access pres_ret]]) simp_all

lemma leds_runs: "leds C r s = (Inr u, s') \<Longrightarrow> bd_csr s' 0x11 = bd_csr s 0x11"
proof -
  assume "leds C r s = (Inr u, s')"
  then obtain c where c: "chassis_access (cl_board C) (led_policy r) s = (Inr c, s')" by (auto simp: leds_def runs)
  moreover have "dict_ok (led_policy r)" by (simp add: led_policy_def dict_ok_def Let_def)
  ultimately have "\<forall>reg. reg = 6 \<or> reg = 7 \<or> bd_csr s' reg = bd_csr s reg"
    using access_registers by blast
  from this [rule_format, of "0x11"] show ?thesis by simp
qed

section \<open>The transfers of a command\<close>

text \<open>A controller has named itself; a fan's register has been written and reads back.\<close>

definition identified :: "nat \<Rightarrow> nat \<Rightarrow> transfer list \<Rightarrow> bool" where
  "identified channel addr l \<longleftrightarrow> (\<exists>a b c. l = [Resolved channel a, Got a addr 0x3d [0x70], Resolved channel b, Got b addr 0x3e [0x41],
     Resolved channel c, Got c addr 0x3f [2]])"

definition driven :: "int \<Rightarrow> nat \<Rightarrow> nat \<Rightarrow> nat \<Rightarrow> transfer list \<Rightarrow> bool" where
  "driven v channel addr reg l \<longleftrightarrow> (\<exists>a b. l = [Resolved channel a, Wrote a addr reg v, Resolved channel b, Got b addr reg [of_int v]])"

definition bank_driven :: "int \<Rightarrow> nat \<times> nat \<Rightarrow> transfer list \<Rightarrow> bool" where
  "bank_driven v = (\<lambda>(channel, addr) l. \<exists>i a b c d. l = i @ a @ b @ c @ d \<and> identified channel addr i \<and>
     driven v channel addr 0x32 a \<and> driven v channel addr 0x33 b \<and> driven v channel addr 0x34 c \<and> driven v channel addr 0x35 d)"

lemma io_trace: "bd_io m s = (Inr x, s') \<Longrightarrow> co_trace s' = co_trace s"
  using bd_io_runs by fastforce

lemma read_regs_trace:
  "read_regs C b addr reg n k s = (Inr bs, s') \<Longrightarrow> co_trace s' = co_trace s @ [Got b addr reg bs] \<and> length bs = n"
  by (auto simp: read_regs_def checked_def transferred_def Let_def runs dest!: io_trace split: if_splits)

lemma write_reg_trace: "write_reg C b addr reg v s = (Inr u, s') \<Longrightarrow> co_trace s' = co_trace s @ [Wrote b addr reg v]"
  by (auto simp: write_reg_def checked_def transferred_def runs dest!: io_trace split: if_splits)

lemma bus_trace: "bus C (Some n) s = (Inr b, s') \<Longrightarrow> co_trace s' = co_trace s @ [Resolved n b]"
  by (auto simp: bus_def transferred_def runs dest!: io_trace)

lemma rd_trace:
  assumes "rd C (Some n) addr reg s = (Inr v, s')"
  shows "\<exists>b. co_trace s' = co_trace s @ [Resolved n b, Got b addr reg [of_nat v]]"
proof -
  from assms obtain b s1 bs where b: "bus C (Some n) s = (Inr b, s1)" and g: "read_regs C b addr reg 1 1 s1 = (Inr bs, s')"
    and v: "v = unat (hd bs)" by (auto simp: rd_def runs)
  from read_regs_trace [OF g] v have "co_trace s' = co_trace s1 @ [Got b addr reg [of_nat v]]" by (cases bs) auto
  then show ?thesis using bus_trace [OF b] by auto
qed

lemma identify_trace:
  assumes "identify C n addr s = (Inr u, s')"
  shows "\<exists>l. co_trace s' = co_trace s @ l \<and> identified n addr l"
  using assms by (fastforce simp: identify_def identified_def runs dest!: rd_trace)

lemma write_fan_trace:
  assumes "write_fan C v n addr reg s = (Inr u, s')"
  shows "\<exists>l. co_trace s' = co_trace s @ l \<and> driven v n addr reg l"
  using assms by (fastforce simp: write_fan_def driven_def runs dest!: bus_trace write_reg_trace rd_trace)

lemma caught_nil: "catch_exn m (\<lambda>e. ret [f e]) s = (Inr [], s') \<Longrightarrow> m s = (Inr [], s')"
  by (auto simp: catch_exn_def ret_def split: prod.splits sum.splits if_splits)

lemma write_bank_trace:
  assumes "write_bank C v (n, addr) s = (Inr [], s')"
  shows "\<exists>l. co_trace s' = co_trace s @ l \<and> bank_driven v (n, addr) l"
proof -
  have "(thn (identify C n addr) (thn (for_each [0x32..<0x36] (write_fan C v n addr)) (ret ([] :: string list)))) s = (Inr [], s')"
    using assms unfolding write_bank_def prod.case by (rule caught_nil)
  moreover have "[0x32..<0x36] = [0x32, 0x33, 0x34, 0x35 :: nat]" by (simp add: upt_rec)
  ultimately obtain s1 s2 s3 s4 where i: "identify C n addr s = (Inr (), s1)" and f: "write_fan C v n addr 0x32 s1 = (Inr (), s2)"
      "write_fan C v n addr 0x33 s2 = (Inr (), s3)" "write_fan C v n addr 0x34 s3 = (Inr (), s4)" "write_fan C v n addr 0x35 s4 = (Inr (), s')"
    by (auto simp: runs)
  from identify_trace [OF i] f [THEN write_fan_trace] show ?thesis
    unfolding bank_driven_def prod.case by (metis append.assoc)
qed

lemma write_pwm_trace:
  assumes "write_pwm C v s = (Inr u, s')"
  shows "\<exists>a b. co_trace s' = co_trace s @ a @ b \<and> bank_driven v (2, 0x2c) a \<and> bank_driven v (3, 0x2e) b"
proof -
  from assms obtain s1 s2 where f: "force_full C (v = 255) s = (Inr (), s1)"
    and a: "write_bank C v (2, 0x2c) s1 = (Inr [], s2)" and b: "write_bank C v (3, 0x2e) s2 = (Inr [], s')"
    by (auto simp: write_pwm_def BANKS_def runs)
  from wp_returns [OF force_full_wp f] write_bank_trace [OF a] write_bank_trace [OF b] show ?thesis
    by (metis append.assoc)
qed

lemma io_settled: "bd_io m s = (Inr x, s') \<Longrightarrow> bd_csr s' = bd_csr s \<and> co_result s' = co_result s \<and> co_trace s' = co_trace s"
  using bd_io_runs by fastforce

text \<open>
  C38.  A turn of the governor that returns has driven all eight fans with one command: after a
  sample that writes nothing, both fan controllers name themselves, and each of their four PWM
  registers is written with the command and reads back, over the mux channel resolved for it; no
  other transfer follows.  The command lies within the fans' range and is at least the demand of the
  turn's sample, is full speed whenever the sample shows an error, a missing sensor or a reading at
  its maximum, and is no more than eight steps below the last; the hardware override is set exactly
  for full speed.
\<close>

theorem governor_turn_safe:
  "case governor_turn C (current, cool_since) s of
     (Inr (following, since), s') \<Rightarrow> MIN_PWM \<le> following \<and> following \<le> 255 \<and> demand (co_result s') \<le> following \<and>
       current - 8 \<le> following \<and> \<not> ((blind (co_result s') \<or> hot (co_result s')) \<and> following \<noteq> 255) \<and>
       bit (bd_csr s' 0x11) 6 = (following = 255) \<and>
       (\<exists>q a b. co_trace s' = co_trace s @ q @ a @ b \<and> list_all (\<lambda>t. \<not> is_write t) q \<and>
          bank_driven following (2, 0x2c) a \<and> bank_driven following (3, 0x2e) b)
   | (Inl e, s') \<Rightarrow> True"
proof -
  have "demand (co_result s') \<le> following \<and> current - 8 \<le> following \<and>
      \<not> ((blind (co_result s') \<or> hot (co_result s')) \<and> following \<noteq> 255) \<and> MIN_PWM \<le> following \<and> following \<le> 255 \<and>
      bit (bd_csr s' 0x11) 6 = (following = 255) \<and>
      (\<exists>q a b. co_trace s' = co_trace s @ q @ a @ b \<and> list_all (\<lambda>t. \<not> is_write t) q \<and>
          bank_driven following (2, 0x2c) a \<and> bank_driven following (3, 0x2e) b)"
    if run: "governor_turn C (current, cool_since) s = (Inr (following, since), s')" for following since s'
  proof -
    let ?next = "\<lambda>r now. next_command current cool_since (demand r) now"
    from run obtain a s1 r s2 b s3 now s4 u s5 v s6 w s7 x s8 y s9 where
      s1: "bd_io (cl_monotonic C) s = (Inr a, s1)" and r: "take_sample C s1 = (Inr r, s2)"
      and "bd_io (cl_monotonic C) s2 = (Inr b, s3)" and "bd_io (cl_monotonic C) s3 = (Inr now, s4)"
      and raw: "write_pwm C (fst (?next r now)) s4 = (Inr u, s5)"
      and "bd_io (cl_publish C r (fst (?next r now)) (demand r)) s5 = (Inr v, s6)" and s7: "leds C r s6 = (Inr w, s7)"
      and "bd_io (cl_watchdog C) s7 = (Inr x, s8)" and "bd_io (cl_sleep C) s8 = (Inr y, s9)"
      and f: "(following, since) = ?next r now" and "s' = s9"
      unfolding governor_turn_def prod.case Let_def runs by (elim exE conjE) (rule that, assumption+)
    then have s4: "co_result s4 = co_result s2 \<and> co_trace s4 = co_trace s2"
      and s6: "bd_csr s6 = bd_csr s5 \<and> co_result s6 = co_result s5 \<and> co_trace s6 = co_trace s5"
      and s': "bd_csr s' = bd_csr s7 \<and> co_result s' = co_result s7 \<and> co_trace s' = co_trace s7"
      by (auto dest!: io_settled)
    from raw f have pwm: "write_pwm C following s4 = (Inr u, s5)" by (metis fst_conv)
    note w = wp_returns [OF write_pwm_wp pwm]
    have res: "co_result s' = r" "readings_ok r" using sampled_ok [OF r] s4 w s6 leds_result [OF s7] s' by auto
    have "demand r \<le> following \<and> current - 8 \<le> following" "demand r = 255 \<longrightarrow> following = 255"
      using f demand_range [of r] w by (auto simp: next_command_def split: if_splits)
    moreover have "quiet (co_trace s) (co_trace s4)" using sampled_ok [OF r] io_settled [OF s1] s4 by simp
    then have "\<exists>q a b. co_trace s' = co_trace s @ q @ a @ b \<and> list_all (\<lambda>t. \<not> is_write t) q \<and>
        bank_driven following (2, 0x2c) a \<and> bank_driven following (3, 0x2e) b"
      using write_pwm_trace [OF pwm] s6 leds_result [OF s7] s' unfolding quiet_def by (metis append.assoc)
    ultimately show ?thesis
      using res w s6 s' leds_runs [OF s7] demand_hot [OF res(2)] demand_blind [of r] by auto
  qed
  then show ?thesis by (auto split: prod.split sum.split)
qed

text \<open>
  C39.  Whatever ends the governor's loop, a failed write, a report that cannot be written, a lock
  that cannot be taken or a signal after any number of turns, the hardware override to full speed is
  asserted when the service is left; or asserting it was the last thing tried and the service ends
  with the reason it could not be: the lock, the memory or a mapping was refused, the boot bus or the
  CPLD is not the board's, or the register did not take the write.
\<close>

theorem governor_fails_full:
  "case govern_from C n cool_since s of (r, s') \<Rightarrow> bit (bd_csr s' 0x11) 6 \<or> (\<exists>e. r = Inl e \<and> override_failed (cl_board C) e s')"
proof -
  have final: "wp (thn (write_pwm C 255) (raise e)) (\<lambda>_ _. False) (\<lambda>e s'. bit (bd_csr s' 0x11) 6 \<or> override_failed (cl_board C) e s') t" for e t
    unfolding wp_thn wp_raise by (rule wp_mono [OF write_pwm_wp]) auto
  have "wp (govern_from C n cool_since) (\<lambda>_ _. False) (\<lambda>e s'. bit (bd_csr s' 0x11) 6 \<or> override_failed (cl_board C) e s') s"
    unfolding govern_from_def
  proof (rule wp_catch_allI [where Q' = "\<lambda>_ _. False" and E' = "\<lambda>_ _. True"])
    show "wp (thn (write_pwm C 255) (thn (bd_io (cl_ready C)) (thn (governor_turns C n (255, cool_since)) (raise stopped))))
        (\<lambda>_ _. False) (\<lambda>_ _. True) s"
      by (intro wp_thnI [OF wp_True]) (simp_all add: wp_raise)
  qed (auto intro: final)
  then show ?thesis by (auto simp: wp_def split: prod.splits sum.splits)
qed

end
