(* ===== verification/Spec2Isabelle.thy ===== *)
theory Spec2Isabelle
  imports Attachments Guard PlaneRestart Observations FlowNamespace FlowTable Accounting Aging SessionLifecycle SessionStream LacpEngine ConfigRender IfRoles Thermal
begin

text \<open>
  The control software of the PA-5200 platform: FE100 session offload, link aggregation,
  configuration rendering, interface roles, plane restarts and the chassis.  The Python sources under
  src/ are translated operation by operation; the properties are stated over the translations.

  The program.  The management processor (MP) holds the committed configuration and the users; the
  control processor (CP) owns the switch and the FE100 flow engine; the data processor (DP) forwards
  packets.  A session is offloaded when the DP's stream of connection events reaches the MP and CP
  (management/session_stream.py), a trusted producer opens a lease for it
  (fe100/ffn_fe100_lifecycle.py), the policy owner allows it (ffn_fe100_policy.py), reserves hardware
  flow identities (ffn_fe100_flow_ids.py), the path owner reserves next-hop and source-MAC slots
  (ffn_fe100_path_owner.py) and the session manager writes the two directional entries through the
  native adapter (ffn_fe100_sessions.py, ffn_fe100_session_adapter.py), each step journalled before the
  hardware is touched.  Counters flow back through ffn_fe100_flowstats.py and ffn_fe100_accounting.py;
  ffn_fe100_aging.py expires idle sessions.  Ingress attachments (ffn_fe100_attachments.py) and the
  supervisor of the owner process (ffn_fe100_guard.py) keep the tables owned and drained.

  Shared theories.  FfnPrelude: exceptions as values, code as a function from a state to a result and
  the state left behind (a raise does not undo earlier writes), the weakest-precondition calculus
  \<open>wp\<close>, invariants \<open>pres\<close>, dictionaries as association lists.  PyVal: dynamic values from JSON and the
  type tests the code makes on them.  Octets: byte strings, big-endian integers, hexadecimal, IPv4 and
  MAC texts.  PyText: string methods.  Digest: the canonical JSON text of a value and its SHA-256.

  Components, the theory first, then the source under src/.
  FlowCodec: the codec half of fe100/ffn_fe100_sessions.py, the pair encoder of ffn_fe100_nat.py and the
  next-hop encoders of ffn_fe100_nexthop.py.
  NativeAdapter: ffn_fe100_session_adapter.py and the readiness checks.
  SessionManager: \<open>SessionManager\<close> and its journal, ffn_fe100_sessions.py and ffn_fe100_journal.py.
  FlowTable: the locales \<open>flow_table\<close> (what the manager assumes of a table) and \<open>native_table\<close> (what the
  adapter assumes of the owner library), with the adapter a flow table (sublocale) and the code's
  adapter over a device as interpretation.
  FlowIds, FlowNamespace, Policy: fe100/ffn_fe100_flow_ids.py, ffn_fe100_flow_namespace.py and
  ffn_fe100_policy.py.
  FlowStats, Accounting, Aging: the same-named fe100/ffn_fe100_flowstats.py, ffn_fe100_accounting.py
  and ffn_fe100_aging.py.
  PathOwner, PathSessions: ffn_fe100_path_owner.py and ffn_fe100_path_sessions.py; PathSessions wires
  the policy owner's path lookup and drain to the path owner.
  SessionLifecycle: fe100/ffn_fe100_lifecycle.py; the locale \<open>lease_contract\<close> says what leases assume of
  the owner, interpreted on the wired owners and on the policy owner alone.
  Attachments, Guard: fe100/ffn_fe100_attachments.py and ffn_fe100_guard.py.
  PlaneRestart: management/plane_lifecycle.py.
  SessionStream: management/session_stream.py.
  Observations: fe100/ffn_fe100_observations.py (the fragments of the relayed stream, the client that cuts
  them), the check of interface intent in management/fe100_attachment_config.py, and the observation
  requests of ffn_fe100_policy_control.py and ffn_fe100_controld.py; losing the stream withdraws the
  admission of the policy owner.
  LacpPackets, LacpEngine: octeon/debian/ffn_lacp_packets.py and ffn_lacp_engine.py.
  BcmPorts: ffn_bcmports.py.  ConfigRender: control/ffn_config_render.py.  IfRoles: ffn_ifroles.py.
  ChassisLed, Thermal: octeon/debian/ffn_chassis_led.py and ffn_thermal.py, the latter with the I2C
  transactions of octeon/i2c/ffn_i2cread.py.

  State and operations.  An object of the code is a record whose fields are its attributes; an
  operation is one definition in the monad of FfnPrelude, named as in the code (a suffix where HOL has
  the name).  What is outside the process (hardware, sockets, systemd, clocks, the kernel, third-party
  libraries) is a record of effects, an argument of the operations, over an environment of any type:
  an effect may return anything, raise anything and change the environment.  Databases are tables of rows
  with a commit that may fail.  Exceptions are values of the classes the code distinguishes; \<open>OSError\<close> and
  \<open>SubprocessError\<close> are classes of their own, so that \<open>except (ValueError, OSError)\<close> catches what it
  catches.  Ghost fields (a trace of hardware effects, a log of launches, drains or resets, sums already
  reported) are written next to the operation they record and never read.  In the supervisor, the
  restart worker and the governor they hold what an effect returned, recorded where it returns: the
  value of the recovery callback, a control group seen, killed or found empty, an observation with the
  resets before it, an I2C transfer with its bytes; a step that skips the effect leaves no record.

  What the lemmas show.  Codec: the checks accept exactly the encodable entries, the two directions
  reverse each other, wire and native forms are mutually inverse.  Manager: at every instant of any
  run, restarts included, an entry in the hardware is covered by the durable journal; an installation
  that returns changed exactly the two keys and one that raises restored them or fenced the owner.
  Identities: never handed out twice, across restarts and failed commits.  Namespace: commissioned only
  after the probe proved it.  Policy: an admission returns only for an explicitly allowed request of
  the current generation.  Paths and attachments: exclusive slots and selectors as an invariant,
  refinement of slot ownership by the wired owners, draining leaves no reference, releasing deletes
  only what the owner wrote.  Leases: admission stays enabled only with a current producer, and fails
  closed.  Supervisor: the trace of every run is accepted by an automaton that launches an owner only
  after a callback that returned True, and lets the next callback follow only once the group was seen
  absent, or killed and found empty, and the child was waited for.  Restarts: no job resets a processor
  twice, and success is reported only for boots observed before and after the reset.  Counters: all or nothing, and the deltas told add up exactly.  Stream:
  the incremental counts equal a recount of the rows.  Relay: an error while a fragment is taken withdraws
  admission, and a message cut into fragments arrives whole on a clock that moves within its limits.  LACP: a member distributes only with enough
  eligible members and current permission, and frames round-trip.  Renderer: the rendered entries are sorted, one
  per key, with clean values of the domains over the base, the inspection rules are bounded in number and
  in characters, and publishing is atomic.  Roles: with enough recursion budget the classification fails
  exactly on a cycle of devices, and the data plane is what the links of sysfs say it is; a VXLAN that
  rests on no device is on it, against the comment of the code.  Thermal: the fans are driven with a
  command within bounds, and the service ends in full speed or with the reason it could not.

  Proof structure.  Each operation has one \<open>wp\<close> lemma (result, state and errors) or a \<open>pres\<close> lemma;
  histories are inductive step relations whose invariants follow by rule induction from them; the
  properties are instances.  Each witness evaluates the operations on a concrete platform.

  Bounds and fuel.  Loops of the code that wait for the world (the supervisor's watch and poll loops,
  the waits for a new boot) take a number of turns, a field of the world; the property holds for every
  number, and running out is the termination signal the code receives at that point, never a result.
  The nested classifications of ffn_ifroles.py take the interpreter's recursion budget, whose end is
  \<open>RecursionError\<close>; a budget above the number of devices is enough for any stack without a cycle.
  All other recursion is structural or has a termination proof.  Widths (16-bit ports, 64-bit counters,
  8-bit registers) are as in the code: a range check, a modulus or a word.

  Limits of the models.  Floating-point times and temperatures are rationals, and no float is digested.
  Texts of exceptions raised by the standard library are fixed texts.  Characters have codes below 256.
  The limit of digits in \<open>int()\<close> is modelled only where the code reaches it.  The session journal is
  always present.  Logging and table creation are not modelled.  The order in which the path owner's
  rows are read after a restart is that of the table.  Interface names, sysfs and I2C answers are
  parameters, as are the JSON parser and printer of the relayed stream; its clock is finite.  The launch
  of a restart worker is one effect.  The probe report of a flow-ID namespace names its owner by a text
  (another JSON value is refused, where sqlite would store some).  Closing files and unmapping memory succeed.  A heartbeat's timeout
  in nanoseconds is the exact floor of a rational, where the code multiplies floats.

  Not modelled.  The C data path and kernel modules (octeon/dpfwd, octeon/native, octeon/kctl), another
  language.  The bring-up of the FE100, the OCTEON complex, PHYs and the switch (ffn_oct.py, fe100 init,
  ddr, clocks, tcam, parser files, octeon/bcmagent): register and console sequences whose correctness
  is what the chip answers, which no source states.  Probes, laboratories, validations and commissioning
  scripts, the reverse-engineering and console tools, and build and installation scripts: operator-run,
  with no state the platform keeps.  The management adapters, agents and relays (management/control.py,
  daemon_backend.py and the like, control/ffn_cfgd.py and ffn_cfgagent.py, octeon/debian agents): calls to
  fixed helpers over ssh, sockets and subprocesses.  Signed plane images: the cryptography is a package.
  The manifest lists each of them with its files.
\<close>

end
